(* ===== verification/Cip_Prelude.thy ===== *)
theory Cip_Prelude
  imports Main "HOL-Library.Word"
begin

unbundle bit_operations_syntax

text \<open>
  What every component of the development shares: the exceptions of the C++ code as values, the
  sequencing of computations that may throw, the little and big endian byte splittings of machine
  words, and the element-wise store into a list of bytes that stands for memory.

  A C++ function that may throw returns \<open>exn + 'a\<close>: \<open>Inl e\<close> is the exception that leaves the
  function, \<open>Inr x\<close> its result. The standard exception classes the code uses are the constructors
  of \<open>exn\<close>; \<open>Undefined\<close> stands for a point where the code leaves the language (a pointer moved
  outside the object it points into), so that such a point is a value a theorem can speak of.
\<close>

type_synonym byte = "8 word"
type_synonym u8 = "8 word"
type_synonym u16 = "16 word"
type_synonym u32 = "32 word"
type_synonym u64 = "64 word"

datatype exn = Range_error | Overflow_error | Runtime_error | Invalid_argument | Undefined

type_synonym 'a res = "exn + 'a"

text \<open>\<open>catch( const std::runtime_error& )\<close> also catches the two classes derived from it.\<close>

fun is_runtime_error :: "exn \<Rightarrow> bool" where
  "is_runtime_error Range_error = True"
| "is_runtime_error Overflow_error = True"
| "is_runtime_error Runtime_error = True"
| "is_runtime_error Invalid_argument = False"
| "is_runtime_error Undefined = False"

text \<open>Lemmas that turn a parser or a serializer into its wire format, and facts about the wire
  formats themselves.\<close>

named_theorems ser_simps \<open>serializers as appended wire formats\<close>
named_theorems des_simps \<open>parsers on wire formats\<close>

section \<open>Sequencing of computations that may throw\<close>

definition bindE :: "'e + 'a \<Rightarrow> ('a \<Rightarrow> 'e + 'b) \<Rightarrow> 'e + 'b" where
  "bindE m f = (case m of Inl e \<Rightarrow> Inl e | Inr x \<Rightarrow> f x)"

lemma bindE_simps [simp]:
  "bindE (Inr x) f = f x"
  "bindE (Inl e) f = Inl e"
  by (simp_all add: bindE_def)

lemma bindE_cong [fundef_cong]:
  assumes "m = m'" and "\<And>x. m' = Inr x \<Longrightarrow> f x = f' x"
  shows "bindE m f = bindE m' f'"
  using assms by (cases m') (simp_all add: bindE_def)

lemma bindE_assoc: "bindE (bindE m f) g = bindE m (\<lambda>x. bindE (f x) g)"
  by (cases m) simp_all

lemma bindE_Inr [simp]: "bindE m Inr = m"
  by (cases m) simp_all

lemma bindE_eq_Inr: "bindE m f = Inr y \<longleftrightarrow> (\<exists>x. m = Inr x \<and> f x = Inr y)"
  by (cases m) simp_all

lemma bindE_eq_Inl: "bindE m f = Inl e \<longleftrightarrow> m = Inl e \<or> (\<exists>x. m = Inr x \<and> f x = Inl e)"
  by (cases m) simp_all

lemma bindE_if: "bindE (if b then m else n) f = (if b then bindE m f else bindE n f)"
  by simp

lemma bindE_InrE:
  assumes "bindE m f = Inr y"
  obtains x where "m = Inr x" and "f x = Inr y"
  using assms by (auto simp: bindE_eq_Inr)

section \<open>Memory as a list of bytes\<close>

text \<open>\<open>poke m p bs\<close> stores the bytes \<open>bs\<close> one after the other from index \<open>p\<close> on, as \<open>memcpy\<close>
  and the putters of \<open>BufWriter\<close> do.\<close>

fun poke :: "'a list \<Rightarrow> nat \<Rightarrow> 'a list \<Rightarrow> 'a list" where
  "poke m p [] = m"
| "poke m p (b # bs) = poke (m[p := b]) (Suc p) bs"

lemma length_poke [simp]: "length (poke m p bs) = length m"
  by (induction m p bs rule: poke.induct) simp_all

lemma poke_append: "poke m p (as @ bs) = poke (poke m p as) (p + length as) bs"
  by (induction m p as rule: poke.induct) simp_all

lemma nth_poke:
  "p + length bs \<le> length m \<Longrightarrow> i < length m \<Longrightarrow>
     poke m p bs ! i = (if p \<le> i \<and> i < p + length bs then bs ! (i - p) else m ! i)"
proof (induction m p bs rule: poke.induct)
  case (1 m p)
  then show ?case by auto
next
  case (2 m p b bs)
  then show ?case
    by (auto simp: nth_list_update nth_Cons')
qed

lemma poke_eq:
  assumes "p + length bs \<le> length m"
  shows "poke m p bs = take p m @ bs @ drop (p + length bs) m"
proof (rule nth_equalityI)
  show "length (poke m p bs) = length (take p m @ bs @ drop (p + length bs) m)"
    using assms by simp
  fix i assume "i < length (poke m p bs)"
  then show "poke m p bs ! i = (take p m @ bs @ drop (p + length bs) m) ! i"
    using assms by (auto simp: nth_poke nth_append)
qed

lemma poke_commute:
  assumes "p + length xs \<le> q" and "q + length ys \<le> length m"
  shows "poke (poke m q ys) p xs = poke (poke m p xs) q ys"
  using assms by (intro nth_equalityI) (auto simp: nth_poke)

lemma take_poke: "q \<le> p \<Longrightarrow> take q (poke m p bs) = take q m"
proof (induction m p bs rule: poke.induct)
  case (2 m p b bs)
  then show ?case by simp
qed simp

section \<open>Words as bytes\<close>

text \<open>The casts \<open>(uint8_t) (aValue >> k)\<close> of the putters.\<close>

definition byte_of :: "nat \<Rightarrow> 'a::len word \<Rightarrow> byte" where
  "byte_of k v = ucast (drop_bit k v)"

definition le16 :: "u16 \<Rightarrow> byte list" where
  "le16 v = [byte_of 0 v, byte_of 8 v]"

definition le32 :: "u32 \<Rightarrow> byte list" where
  "le32 v = [byte_of 0 v, byte_of 8 v, byte_of 16 v, byte_of 24 v]"

definition le64 :: "u64 \<Rightarrow> byte list" where
  "le64 v = [byte_of 0 v, byte_of 8 v, byte_of 16 v, byte_of 24 v,
             byte_of 32 v, byte_of 40 v, byte_of 48 v, byte_of 56 v]"

definition be16 :: "u16 \<Rightarrow> byte list" where
  "be16 v = [byte_of 8 v, byte_of 0 v]"

definition be32 :: "u32 \<Rightarrow> byte list" where
  "be32 v = [byte_of 24 v, byte_of 16 v, byte_of 8 v, byte_of 0 v]"

lemmas wire_defs = le16_def le32_def le64_def be16_def be32_def

lemma length_wire [simp]:
  "length (le16 v) = 2" "length (le32 w) = 4" "length (le64 x) = 8"
  "length (be16 v) = 2" "length (be32 w) = 4"
  by (simp_all add: wire_defs)

text \<open>The shifted bytes or-ed together by the getters.\<close>

definition join16 :: "byte \<Rightarrow> byte \<Rightarrow> u16" where
  "join16 b0 b1 = ucast b0 OR push_bit 8 (ucast b1)"

definition join32 :: "byte \<Rightarrow> byte \<Rightarrow> byte \<Rightarrow> byte \<Rightarrow> u32" where
  "join32 b0 b1 b2 b3 =
     ucast b0 OR push_bit 8 (ucast b1) OR push_bit 16 (ucast b2) OR push_bit 24 (ucast b3)"

definition join64 :: "byte \<Rightarrow> byte \<Rightarrow> byte \<Rightarrow> byte \<Rightarrow> byte \<Rightarrow> byte \<Rightarrow> byte \<Rightarrow> byte \<Rightarrow> u64" where
  "join64 b0 b1 b2 b3 b4 b5 b6 b7 =
     ucast b0 OR push_bit 8 (ucast b1) OR push_bit 16 (ucast b2) OR push_bit 24 (ucast b3) OR
     push_bit 32 (ucast b4) OR push_bit 40 (ucast b5) OR push_bit 48 (ucast b6) OR
     push_bit 56 (ucast b7)"

lemma bit_byte_of: "bit (byte_of k v) n \<longleftrightarrow> n < 8 \<and> bit v (k + n)"
  by (auto simp: byte_of_def bit_simps)

text \<open>The byte at position \<open>k\<close>, cast back and shifted back into place, holds exactly the bits
  \<open>k .. k + 7\<close> of the word.\<close>

lemma bit_shifted_byte:
  fixes v :: "'a::len word"
  shows "bit (push_bit k (ucast (byte_of k v) :: 'a word)) n \<longleftrightarrow> k \<le> n \<and> n < k + 8 \<and> bit v n"
  by (auto simp: bit_push_bit_iff bit_ucast_iff bit_byte_of not_le
      dest: bit_imp_le_length)

lemma bit_low_byte:
  fixes v :: "'a::len word"
  shows "bit (ucast (byte_of 0 v) :: 'a word) n \<longleftrightarrow> n < 8 \<and> bit v n"
  by (auto simp: bit_ucast_iff bit_byte_of dest: bit_imp_le_length)

lemma join16_bytes [simp]: "join16 (byte_of 0 v) (byte_of 8 v) = v"
  by (rule bit_word_eqI) (simp add: join16_def bit_or_iff bit_shifted_byte bit_low_byte; linarith)

lemma join32_bytes [simp]:
  "join32 (byte_of 0 v) (byte_of 8 v) (byte_of 16 v) (byte_of 24 v) = v"
proof (rule bit_word_eqI)
  fix n assume "n < LENGTH(32)"
  then have "n < 32" by simp
  then show "bit (join32 (byte_of 0 v) (byte_of 8 v) (byte_of 16 v) (byte_of 24 v)) n = bit v n"
    unfolding join32_def bit_or_iff bit_shifted_byte bit_low_byte by linarith
qed

lemma join64_bytes [simp]:
  "join64 (byte_of 0 v) (byte_of 8 v) (byte_of 16 v) (byte_of 24 v)
     (byte_of 32 v) (byte_of 40 v) (byte_of 48 v) (byte_of 56 v) = v"
proof (rule bit_word_eqI)
  fix n assume "n < LENGTH(64)"
  then have "n < 64" by simp
  then show "bit (join64 (byte_of 0 v) (byte_of 8 v) (byte_of 16 v) (byte_of 24 v)
     (byte_of 32 v) (byte_of 40 v) (byte_of 48 v) (byte_of 56 v)) n = bit v n"
    unfolding join64_def bit_or_iff bit_shifted_byte bit_low_byte by linarith
qed

lemma unat_of_nat_u8 [simp]: "n < 256 \<Longrightarrow> unat (of_nat n :: u8) = n"
  by (simp add: unat_of_nat)

lemma unat_of_nat_u16 [simp]: "n < 65536 \<Longrightarrow> unat (of_nat n :: u16) = n"
  by (simp add: unat_of_nat)

lemma unat_of_nat_u32: "n < 4294967296 \<Longrightarrow> unat (of_nat n :: u32) = n"
  by (simp add: unat_of_nat)

lemma unat_u8_less [simp]: "unat (x :: u8) < 256"
  using unsigned_less [of x, where 'a = nat] by simp

lemma unat_u16_less [simp]: "unat (x :: u16) < 65536"
  using unsigned_less [of x, where 'a = nat] by simp

lemma unat_u32_less [simp]: "unat (x :: u32) < 4294967296"
  using unsigned_less [of x, where 'a = nat] by simp

lemma ucast_u16_u8 [simp]: "ucast (ucast (b :: u8) :: u16) = b"
  by (rule bit_word_eqI) (auto simp: bit_ucast_iff)

lemma ucast_u32_u8 [simp]: "ucast (ucast (b :: u8) :: u32) = b"
  by (rule bit_word_eqI) (auto simp: bit_ucast_iff)

lemma ucast_u32_u16 [simp]: "ucast (ucast (b :: u16) :: u32) = b"
  by (rule bit_word_eqI) (auto simp: bit_ucast_iff)

lemma ucast_back_u8: "v < 256 \<Longrightarrow> ucast (ucast (v :: u32) :: u8) = v"
  by (simp add: word_unat_eq_iff unsigned_ucast_eq unsigned_take_bit_eq word_less_nat_alt take_bit_nat_eq_self)

lemma ucast_back_u16: "v < 65536 \<Longrightarrow> ucast (ucast (v :: u32) :: u16) = v"
  by (simp add: word_unat_eq_iff unsigned_ucast_eq unsigned_take_bit_eq word_less_nat_alt take_bit_nat_eq_self)

end
