(* ===== verification/Byte_Bufs.thy ===== *)
theory Byte_Bufs
  imports Cip_Prelude
begin

unbundle bit_operations_syntax

text \<open>
  The classes \<open>BufWriter\<close>, \<open>BufReader\<close> and \<open>ByteSerializer\<close> of \<open>byte_bufs.h\<close>, \<open>byte_bufs.impl\<close>
  and \<open>enet_encap/byte_bufs.cc\<close>.

  A \<open>BufWriter\<close> holds two pointers into a memory block: the record \<open>writer\<close> has the block, the
  index \<open>start\<close> and the index \<open>limit\<close>. Two C++ writers over the same block are two records with the
  same \<open>w_mem\<close>; a write through one is seen by the other when \<open>w_mem\<close> is passed on, which the code
  models that patch a length back do explicitly.
  A \<open>BufReader\<close> is the list of the bytes in \<open>[start, limit)\<close>: every operation of the class reads and
  moves inside this range or throws, so nothing else of the block can be observed through it.
  \<open>float\<close> and \<open>double\<close> are their object representations, the only view the code takes of them.
  An exception ends the computation, so the bytes a throwing serializer has stored already are not
  part of its result.

  The locale \<open>wire_codec\<close> at the end is the contract of a serializer and its parser; it is
  interpreted here on the pairs of putter and getter of these classes and, in the later theories,
  on the pairs of \<open>Serialize\<close> and \<open>Deserialize\<close> functions.
\<close>

section \<open>BufWriter\<close>

record writer =
  w_mem :: "byte list"
  w_pos :: nat
  w_lim :: nat

definition wf_writer :: "writer \<Rightarrow> bool" where
  "wf_writer w \<longleftrightarrow> w_pos w \<le> w_lim w \<and> w_lim w \<le> length (w_mem w)"

text \<open>\<open>BufWriter( aStart, aCount )\<close> on a block of its own.\<close>

definition writer_on :: "byte list \<Rightarrow> writer" where
  "writer_on m = \<lparr>w_mem = m, w_pos = 0, w_lim = length m\<rparr>"

definition capacity :: "writer \<Rightarrow> int" where
  "capacity w = int (w_lim w) - int (w_pos w)"

text \<open>\<open>out.data() - aOutput.data()\<close>, the count a serializer returns.\<close>

definition w_count :: "writer \<Rightarrow> writer \<Rightarrow> nat" where
  "w_count w w' = w_pos w' - w_pos w"

text \<open>\<open>operator+=\<close> and \<open>operator+\<close>; \<open>operator++\<close> is the advance by one.\<close>

definition w_advance :: "writer \<Rightarrow> nat \<Rightarrow> writer res" where
  "w_advance w n = (if w_pos w + n > w_lim w then Inl Overflow_error
                    else Inr (w\<lparr>w_pos := w_pos w + n\<rparr>))"

definition append_bytes :: "writer \<Rightarrow> byte list \<Rightarrow> writer res" where
  "append_bytes w bs =
     (if w_pos w + length bs > w_lim w then Inl Overflow_error
      else Inr (w\<lparr>w_mem := poke (w_mem w) (w_pos w) bs, w_pos := w_pos w + length bs\<rparr>))"

definition fill :: "writer \<Rightarrow> nat \<Rightarrow> byte \<Rightarrow> writer res" where
  "fill w n b =
     (if w_pos w + n > w_lim w then Inl Overflow_error
      else Inr (w\<lparr>w_mem := poke (w_mem w) (w_pos w) (replicate n b), w_pos := w_pos w + n\<rparr>))"

definition put8 :: "writer \<Rightarrow> u8 \<Rightarrow> writer res" where
  "put8 w v =
     (if w_pos w + 1 > w_lim w then Inl Overflow_error
      else Inr (w\<lparr>w_mem := (w_mem w)[w_pos w := v], w_pos := w_pos w + 1\<rparr>))"

definition put16 :: "writer \<Rightarrow> u16 \<Rightarrow> writer res" where
  "put16 w v =
     (if w_pos w + 2 > w_lim w then Inl Overflow_error
      else let p = w_pos w in
        Inr (w\<lparr>w_mem := (w_mem w)[p := byte_of 0 v, p + 1 := byte_of 8 v], w_pos := p + 2\<rparr>))"

definition put32 :: "writer \<Rightarrow> u32 \<Rightarrow> writer res" where
  "put32 w v =
     (if w_pos w + 4 > w_lim w then Inl Overflow_error
      else let p = w_pos w in
        Inr (w\<lparr>w_mem := (w_mem w)[p := byte_of 0 v, p + 1 := byte_of 8 v,
                                   p + 2 := byte_of 16 v, p + 3 := byte_of 24 v],
               w_pos := p + 4\<rparr>))"

definition put64 :: "writer \<Rightarrow> u64 \<Rightarrow> writer res" where
  "put64 w v =
     (if w_pos w + 8 > w_lim w then Inl Overflow_error
      else let p = w_pos w in
        Inr (w\<lparr>w_mem := (w_mem w)[p := byte_of 0 v, p + 1 := byte_of 8 v,
                                   p + 2 := byte_of 16 v, p + 3 := byte_of 24 v,
                                   p + 4 := byte_of 32 v, p + 5 := byte_of 40 v,
                                   p + 6 := byte_of 48 v, p + 7 := byte_of 56 v],
               w_pos := p + 8\<rparr>))"

definition put_float :: "writer \<Rightarrow> u32 \<Rightarrow> writer res" where
  "put_float w bits = put32 w bits"

definition put_double :: "writer \<Rightarrow> u64 \<Rightarrow> writer res" where
  "put_double w bits = put64 w bits"

definition put16BE :: "writer \<Rightarrow> u16 \<Rightarrow> writer res" where
  "put16BE w v =
     (if w_pos w + 2 > w_lim w then Inl Overflow_error
      else let p = w_pos w in
        Inr (w\<lparr>w_mem := (w_mem w)[p + 1 := byte_of 0 v, p := byte_of 8 v], w_pos := p + 2\<rparr>))"

definition put32BE :: "writer \<Rightarrow> u32 \<Rightarrow> writer res" where
  "put32BE w v =
     (if w_pos w + 4 > w_lim w then Inl Overflow_error
      else let p = w_pos w in
        Inr (w\<lparr>w_mem := (w_mem w)[p + 3 := byte_of 0 v, p + 2 := byte_of 8 v,
                                   p + 1 := byte_of 16 v, p := byte_of 24 v],
               w_pos := p + 4\<rparr>))"

text \<open>The string putters. The length is cast to the width of its field, as in the code; the
  characters are appended whole. \<open>STRING2\<close> is the branch without \<open>iconv\<close>.\<close>

definition put_SHORT_STRING :: "bool \<Rightarrow> writer \<Rightarrow> byte list \<Rightarrow> writer res" where
  "put_SHORT_STRING pad w s =
     bindE (put8 w (of_nat (length s))) (\<lambda>w.
     bindE (append_bytes w s) (\<lambda>w.
     if pad \<and> even (length s) then put8 w 0 else Inr w))"

definition put_STRING :: "bool \<Rightarrow> writer \<Rightarrow> byte list \<Rightarrow> writer res" where
  "put_STRING pad w s =
     bindE (put16 w (of_nat (length s))) (\<lambda>w.
     bindE (append_bytes w s) (\<lambda>w.
     if pad \<and> odd (length s) then put8 w 0 else Inr w))"

fun put_chars16 :: "writer \<Rightarrow> byte list \<Rightarrow> writer res" where
  "put_chars16 w [] = Inr w"
| "put_chars16 w (c # cs) = bindE (put16 w (ucast c)) (\<lambda>w. put_chars16 w cs)"

definition put_STRING2 :: "writer \<Rightarrow> byte list \<Rightarrow> writer res" where
  "put_STRING2 w s = bindE (put16 w (of_nat (length s))) (\<lambda>w. put_chars16 w s)"

section \<open>BufReader\<close>

definition r_advance :: "byte list \<Rightarrow> nat \<Rightarrow> byte list res" where
  "r_advance r n = (if n > length r then Inl Range_error else Inr (drop n r))"

definition r_peek :: "byte list \<Rightarrow> byte res" where
  "r_peek r = (if r = [] then Inl Range_error else Inr (hd r))"

definition r_at :: "byte list \<Rightarrow> nat \<Rightarrow> byte res" where
  "r_at r i = (if i \<ge> length r then Inl Range_error else Inr (r ! i))"

fun get8 :: "byte list \<Rightarrow> (u8 \<times> byte list) res" where
  "get8 (b0 # r) = Inr (b0, r)"
| "get8 r = Inl Range_error"

fun get16 :: "byte list \<Rightarrow> (u16 \<times> byte list) res" where
  "get16 (b0 # b1 # r) = Inr (join16 b0 b1, r)"
| "get16 r = Inl Range_error"

fun get32 :: "byte list \<Rightarrow> (u32 \<times> byte list) res" where
  "get32 (b0 # b1 # b2 # b3 # r) = Inr (join32 b0 b1 b2 b3, r)"
| "get32 r = Inl Range_error"

fun get64 :: "byte list \<Rightarrow> (u64 \<times> byte list) res" where
  "get64 (b0 # b1 # b2 # b3 # b4 # b5 # b6 # b7 # r) = Inr (join64 b0 b1 b2 b3 b4 b5 b6 b7, r)"
| "get64 r = Inl Range_error"

definition get_float :: "byte list \<Rightarrow> (u32 \<times> byte list) res" where
  "get_float r = get32 r"

definition get_double :: "byte list \<Rightarrow> (u64 \<times> byte list) res" where
  "get_double r = get64 r"

fun get16BE :: "byte list \<Rightarrow> (u16 \<times> byte list) res" where
  "get16BE (b0 # b1 # r) = Inr (join16 b1 b0, r)"
| "get16BE r = Inl Range_error"

fun get32BE :: "byte list \<Rightarrow> (u32 \<times> byte list) res" where
  "get32BE (b0 # b1 # b2 # b3 # r) = Inr (join32 b3 b2 b1 b0, r)"
| "get32BE r = Inl Range_error"

definition get_bytes :: "nat \<Rightarrow> byte list \<Rightarrow> (byte list \<times> byte list) res" where
  "get_bytes n r = (if n > length r then Inl Range_error else Inr (take n r, drop n r))"

definition get_SHORT_STRING :: "bool \<Rightarrow> byte list \<Rightarrow> (byte list \<times> byte list) res" where
  "get_SHORT_STRING pad r =
     bindE (get8 r) (\<lambda>(n, r).
       let len = unat n; eat_pad = (if pad \<and> even len then 1 else 0)
       in if len + eat_pad > length r then Inl Range_error
          else Inr (take len r, drop (len + eat_pad) r))"

definition get_STRING :: "bool \<Rightarrow> byte list \<Rightarrow> (byte list \<times> byte list) res" where
  "get_STRING pad r =
     bindE (get16 r) (\<lambda>(n, r).
       let len = unat n; eat_pad = (if pad \<and> odd len then 1 else 0)
       in if len + eat_pad > length r then Inl Range_error
          else Inr (take len r, drop (len + eat_pad) r))"

fun get_chars16 :: "nat \<Rightarrow> byte list \<Rightarrow> (byte list \<times> byte list) res" where
  "get_chars16 0 r = Inr ([], r)"
| "get_chars16 (Suc n) r =
     bindE (get16 r) (\<lambda>(c, r). bindE (get_chars16 n r) (\<lambda>(cs, r). Inr (ucast c # cs, r)))"

definition get_STRING2 :: "byte list \<Rightarrow> (byte list \<times> byte list) res" where
  "get_STRING2 r = bindE (get16 r) (\<lambda>(n, r). get_chars16 (unat n) r)"

text \<open>\<open>ByteSerializer::Serialize\<close> appends its range; the count is the size of the range.\<close>

definition ByteSerializer_Serialize :: "writer \<Rightarrow> byte list \<Rightarrow> (writer \<times> nat) res" where
  "ByteSerializer_Serialize w bs = bindE (append_bytes w bs) (\<lambda>w'. Inr (w', length bs))"

definition ByteSerializer_SerializedCount :: "byte list \<Rightarrow> nat" where
  "ByteSerializer_SerializedCount bs = length bs"

section \<open>Putters append, getters split\<close>

text \<open>Every putter is \<open>append_bytes\<close> of its wire format, and consecutive appends merge: \<open>simp add:
  ser_simps\<close> turns a serializer into one append.\<close>

lemma put_wire [ser_simps]:
  "put8 w a = append_bytes w [a]"
  "put16 w b = append_bytes w (le16 b)"
  "put32 w c = append_bytes w (le32 c)"
  "put64 w d = append_bytes w (le64 d)"
  "put_float w c = append_bytes w (le32 c)"
  "put_double w d = append_bytes w (le64 d)"
  by (simp_all add: put8_def put16_def put32_def put64_def put_float_def put_double_def
      append_bytes_def wire_defs Let_def eval_nat_numeral)

lemma put_wire_BE [ser_simps]:
  "put16BE w b = append_bytes w (be16 b)"
  "put32BE w c = append_bytes w (be32 c)"
  by (simp_all add: put16BE_def put32BE_def append_bytes_def wire_defs Let_def eval_nat_numeral
      list_update_swap)

lemma fill_wire [ser_simps]: "fill w n b = append_bytes w (replicate n b)"
  by (simp add: fill_def append_bytes_def)

lemma append_append [ser_simps]:
  "bindE (append_bytes w a) (\<lambda>w. append_bytes w b) = append_bytes w (a @ b)"
  by (simp add: append_bytes_def poke_append add.assoc)

lemma append_bind_append [ser_simps]:
  "bindE (append_bytes w a) (\<lambda>w. bindE (append_bytes w b) f) = bindE (append_bytes w (a @ b)) f"
  by (simp add: append_append [symmetric] bindE_assoc)

lemma append_if [ser_simps]:
  "bindE (append_bytes w a) (\<lambda>w. if c then append_bytes w b else Inr w) =
   append_bytes w (a @ (if c then b else []))"
  by (simp add: append_append)

lemma append_bind_if [ser_simps]:
  "bindE (append_bytes w a) (\<lambda>w. bindE (if c then append_bytes w b else Inr w) f) =
   bindE (append_bytes w (a @ (if c then b else []))) f"
  by (simp add: append_if [symmetric] bindE_assoc)

lemma append_nil: "wf_writer w \<Longrightarrow> append_bytes w [] = Inr w"
  by (simp add: append_bytes_def wf_writer_def)

lemma append_wf: "append_bytes w bs = Inr w' \<Longrightarrow> wf_writer w \<Longrightarrow> wf_writer w'"
  by (auto simp: append_bytes_def wf_writer_def split: if_splits)

lemma append_pos: "append_bytes w bs = Inr w' \<Longrightarrow> w_pos w' = w_pos w + length bs"
  by (auto simp: append_bytes_def split: if_splits)

lemma append_count: "append_bytes w bs = Inr w' \<Longrightarrow> w_count w w' = length bs"
  by (auto simp: w_count_def dest: append_pos)

lemma append_lim: "append_bytes w bs = Inr w' \<Longrightarrow> w_lim w' = w_lim w"
  by (auto simp: append_bytes_def split: if_splits)

lemma append_length: "append_bytes w bs = Inr w' \<Longrightarrow> length (w_mem w') = length (w_mem w)"
  by (auto simp: append_bytes_def split: if_splits)

lemma append_fits:
  "w_pos w + length bs \<le> w_lim w \<Longrightarrow>
   append_bytes w bs =
     Inr (w\<lparr>w_mem := poke (w_mem w) (w_pos w) bs, w_pos := w_pos w + length bs\<rparr>)"
  by (simp add: append_bytes_def)

lemma append_overflow: "w_pos w + length bs > w_lim w \<Longrightarrow> append_bytes w bs = Inl Overflow_error"
  by (simp add: append_bytes_def)

lemma append_on: "append_bytes (writer_on m) bs = Inr w' \<Longrightarrow>
    w' = \<lparr>w_mem = bs @ drop (length bs) m, w_pos = length bs, w_lim = length m\<rparr>"
  by (auto simp: append_bytes_def writer_on_def poke_eq split: if_splits)

lemma append_then:
  assumes "wf_writer w"
    and "\<And>w'. append_bytes w a = Inr w' \<Longrightarrow> wf_writer w' \<Longrightarrow> w_count w w' = length a \<Longrightarrow>
      f w' = append_bytes w' b"
  shows "bindE (append_bytes w a) f = append_bytes w (a @ b)"
proof (cases "append_bytes w a")
  case (Inl e)
  then show ?thesis by (simp add: append_append [symmetric])
next
  case (Inr w')
  then have "f w' = append_bytes w' b" using assms append_wf append_count by blast
  then show ?thesis using Inr by (simp add: append_append [symmetric])
qed

text \<open>The bytes a serializer has put between two positions of its writer.\<close>

definition written :: "writer \<Rightarrow> writer \<Rightarrow> byte list" where
  "written w w' = take (w_pos w' - w_pos w) (drop (w_pos w) (w_mem w'))"

lemma append_written:
  "append_bytes w bs = Inr w' \<Longrightarrow> wf_writer w \<Longrightarrow> written w w' = bs"
  by (auto simp: append_bytes_def wf_writer_def written_def poke_eq split: if_splits)

lemma append_frame:
  assumes "append_bytes w bs = Inr w'" and "wf_writer w"
    and "i < w_pos w \<or> w_pos w' \<le> i" and "i < length (w_mem w)"
  shows "w_mem w' ! i = w_mem w ! i"
  using assms by (auto simp: append_bytes_def wf_writer_def nth_poke split: if_splits)

lemma get_wire [des_simps]:
  "get8 (a # r) = Inr (a, r)"
  "get16 (le16 b @ r) = Inr (b, r)"
  "get32 (le32 c @ r) = Inr (c, r)"
  "get64 (le64 d @ r) = Inr (d, r)"
  "get_float (le32 c @ r) = Inr (c, r)"
  "get_double (le64 d @ r) = Inr (d, r)"
  "get16BE (be16 b @ r) = Inr (b, r)"
  "get32BE (be32 c @ r) = Inr (c, r)"
  by (simp_all add: wire_defs get_float_def get_double_def)

lemma r_advance_append [des_simps]: "r_advance (a @ r) (length a) = Inr r"
  by (simp add: r_advance_def)

lemma get_bytes_append [des_simps]: "get_bytes (length a) (a @ r) = Inr (a, r)"
  by (simp add: get_bytes_def)

lemma r_peek_Cons [des_simps]: "r_peek (b # r) = Inr b"
  by (simp add: r_peek_def)

lemma r_advance_le: "r_advance r n = Inr r' \<Longrightarrow> length r' \<le> length r"
  by (auto simp: r_advance_def split: if_splits)

text \<open>What a getter has accepted is the wire format of what it returns.\<close>

lemma byte_of_join16 [simp]:
  "byte_of 0 (join16 b0 b1) = b0" "byte_of 8 (join16 b0 b1) = b1"
  by (rule bit_word_eqI; auto simp: join16_def bit_byte_of bit_or_iff bit_push_bit_iff bit_ucast_iff
      dest: bit_imp_le_length)+

lemma byte_of_join32 [simp]:
  "byte_of 0 (join32 b0 b1 b2 b3) = b0" "byte_of 8 (join32 b0 b1 b2 b3) = b1"
  "byte_of 16 (join32 b0 b1 b2 b3) = b2" "byte_of 24 (join32 b0 b1 b2 b3) = b3"
  by (rule bit_word_eqI; auto simp: join32_def bit_byte_of bit_or_iff bit_push_bit_iff bit_ucast_iff
      dest: bit_imp_le_length)+

lemma byte_of_or: "byte_of k (x OR y) = byte_of k x OR byte_of k y"
  by (simp add: byte_of_def drop_bit_or unsigned_or_eq)

lemma byte_of_shifted:
  fixes b :: byte
  shows "k \<le> 56 \<Longrightarrow> byte_of k (push_bit k (ucast b :: u64)) = b"
    and "j \<le> 56 \<Longrightarrow> k + 8 \<le> j \<Longrightarrow> byte_of k (push_bit j (ucast b :: u64)) = 0"
    and "j + 8 \<le> k \<Longrightarrow> byte_of k (push_bit j (ucast b :: u64)) = 0"
  by (rule bit_word_eqI; auto simp: bit_byte_of bit_push_bit_iff bit_ucast_iff
      dest: bit_imp_le_length)+

lemma byte_of_join64 [simp]:
  "byte_of 0 (join64 b0 b1 b2 b3 b4 b5 b6 b7) = b0"
  "byte_of 8 (join64 b0 b1 b2 b3 b4 b5 b6 b7) = b1"
  "byte_of 16 (join64 b0 b1 b2 b3 b4 b5 b6 b7) = b2"
  "byte_of 24 (join64 b0 b1 b2 b3 b4 b5 b6 b7) = b3"
  "byte_of 32 (join64 b0 b1 b2 b3 b4 b5 b6 b7) = b4"
  "byte_of 40 (join64 b0 b1 b2 b3 b4 b5 b6 b7) = b5"
  "byte_of 48 (join64 b0 b1 b2 b3 b4 b5 b6 b7) = b6"
  "byte_of 56 (join64 b0 b1 b2 b3 b4 b5 b6 b7) = b7"
  by (simp_all add: join64_def byte_of_or byte_of_shifted byte_of_shifted(1) [where k = 0, simplified]
      byte_of_shifted(3) [where j = 0, simplified])

lemma get8_exact: "get8 r = Inr (v, r') \<Longrightarrow> r = v # r'"
  by (cases r) auto

lemma get16_exact: "get16 r = Inr (v, r') \<Longrightarrow> r = le16 v @ r'"
  by (cases r rule: get16.cases) (auto simp: le16_def)

lemma get32_exact: "get32 r = Inr (v, r') \<Longrightarrow> r = le32 v @ r'"
  by (cases r rule: get32.cases) (auto simp: le32_def)

lemma get64_exact: "get64 r = Inr (v, r') \<Longrightarrow> r = le64 v @ r'"
  by (cases r rule: get64.cases) (auto simp: le64_def)

lemma get16BE_exact: "get16BE r = Inr (v, r') \<Longrightarrow> r = be16 v @ r'"
  by (cases r rule: get16BE.cases) (auto simp: be16_def)

lemma get32BE_exact: "get32BE r = Inr (v, r') \<Longrightarrow> r = be32 v @ r'"
  by (cases r rule: get32BE.cases) (auto simp: be32_def)

lemmas get_exact = get8_exact get16_exact get32_exact get64_exact get16BE_exact get32BE_exact

section \<open>The contract of a serializer and its parser\<close>

text \<open>
  \<open>ser\<close> writes \<open>wire x\<close> and nothing else, \<open>des\<close> reads it back and leaves what follows it. \<open>ok\<close> holds
  of the values for which the code promises this (a string whose length fits its length field, a
  path without a 32 bit logical segment, ...).
\<close>

locale wire_codec =
  fixes ser :: "writer \<Rightarrow> 'a \<Rightarrow> writer res"
    and des :: "byte list \<Rightarrow> ('a \<times> byte list) res"
    and wire :: "'a \<Rightarrow> byte list"
    and ok :: "'a \<Rightarrow> bool"
  assumes ser_wire: "wf_writer w \<Longrightarrow> ok x \<Longrightarrow> ser w x = append_bytes w (wire x)"
    and des_wire: "ok x \<Longrightarrow> des (wire x @ rest) = Inr (x, rest)"
begin

lemma ser_result:
  assumes "wf_writer w" and "ok x" and "ser w x = Inr w'"
  shows "wf_writer w'" and "w_pos w' = w_pos w + length (wire x)" and "written w w' = wire x"
  using assms by (auto simp: ser_wire dest: append_wf append_pos append_written)

lemma ser_total:
  assumes "wf_writer w" and "ok x"
  shows "(\<exists>w'. ser w x = Inr w') \<longleftrightarrow> int (length (wire x)) \<le> capacity w"
  using assms by (auto simp: ser_wire append_bytes_def capacity_def)

lemma ser_error:
  assumes "wf_writer w" and "ok x" and "int (length (wire x)) > capacity w"
  shows "ser w x = Inl Overflow_error"
  using assms by (auto simp: ser_wire append_bytes_def capacity_def)

lemma round_trip:
  assumes "wf_writer w" and "ok x" and "ser w x = Inr w'"
  shows "des (written w w' @ rest) = Inr (x, rest)"
  using assms ser_result(3) [OF assms] by (simp add: des_wire)

lemma frame:
  assumes "wf_writer w" and "ok x" and "ser w x = Inr w'"
    and "i < w_pos w \<or> w_pos w' \<le> i" and "i < length (w_mem w)"
  shows "w_mem w' ! i = w_mem w ! i"
  using assms by (auto simp: ser_wire intro: append_frame)

lemma wire_inj:
  assumes "ok x" and "ok y" and "wire x @ r = wire y @ s"
  shows "x = y" and "r = s"
proof -
  have "Inr (x, r) = des (wire x @ r)" using assms(1) by (simp only: des_wire)
  also have "\<dots> = des (wire y @ s)" by (simp only: assms(3))
  also have "\<dots> = Inr (y, s)" using assms(2) by (simp only: des_wire)
  finally show "x = y" and "r = s" by simp_all
qed

end

text \<open>A parser that accepts nothing but wire formats: then a message cut short is refused, whatever
  the cut.\<close>

locale exact_codec = wire_codec +
  assumes des_exact: "des inp = Inr (x, rest) \<Longrightarrow> ok x \<and> inp = wire x @ rest"
begin

lemma truncated_fails:
  assumes "ok x" and "n < length (wire x)"
  shows "\<exists>e. des (take n (wire x)) = Inl e"
proof (cases "des (take n (wire x))")
  case (Inr p)
  obtain y rest where p: "p = (y, rest)" by (cases p)
  then have ok: "ok y" and y: "take n (wire x) = wire y @ rest"
    using Inr des_exact by auto
  have "wire x @ [] = wire y @ (rest @ drop n (wire x))"
    using y by (metis append.assoc append_Nil2 append_take_drop_id)
  then have "[] = rest @ drop n (wire x)" using wire_inj(2) assms(1) ok by blast
  then show ?thesis using assms(2) by simp
qed auto

lemma des_shrinks: "des inp = Inr (x, rest) \<Longrightarrow> length rest = length inp - length (wire x)"
  by (auto dest: des_exact)

end

interpretation u8_codec: exact_codec put8 get8 "\<lambda>v. [v]" "\<lambda>_. True"
  by unfold_locales (auto simp: ser_simps des_simps dest: get_exact)

interpretation u16_codec: exact_codec put16 get16 le16 "\<lambda>_. True"
  by unfold_locales (auto simp: ser_simps des_simps dest: get_exact)

interpretation u32_codec: exact_codec put32 get32 le32 "\<lambda>_. True"
  by unfold_locales (auto simp: ser_simps des_simps dest: get_exact)

interpretation u64_codec: exact_codec put64 get64 le64 "\<lambda>_. True"
  by unfold_locales (auto simp: ser_simps des_simps dest: get_exact)

interpretation u16BE_codec: exact_codec put16BE get16BE be16 "\<lambda>_. True"
  by unfold_locales (auto simp: ser_simps des_simps dest: get_exact)

interpretation u32BE_codec: exact_codec put32BE get32BE be32 "\<lambda>_. True"
  by unfold_locales (auto simp: ser_simps des_simps dest: get_exact)

section \<open>The string types\<close>

definition short_string_wire :: "bool \<Rightarrow> byte list \<Rightarrow> byte list" where
  "short_string_wire pad s =
     of_nat (length s) # s @ (if pad \<and> even (length s) then [0] else [])"

definition string_wire :: "bool \<Rightarrow> byte list \<Rightarrow> byte list" where
  "string_wire pad s =
     le16 (of_nat (length s)) @ s @ (if pad \<and> odd (length s) then [0] else [])"

definition string2_wire :: "byte list \<Rightarrow> byte list" where
  "string2_wire s = le16 (of_nat (length s)) @ concat (map (\<lambda>c. le16 (ucast c)) s)"

lemma put_SHORT_STRING_wire [ser_simps]:
  "put_SHORT_STRING pad w s = append_bytes w (short_string_wire pad s)"
  by (simp add: put_SHORT_STRING_def short_string_wire_def ser_simps cong: if_cong)

lemma put_STRING_wire [ser_simps]:
  "put_STRING pad w s = append_bytes w (string_wire pad s)"
  by (simp add: put_STRING_def string_wire_def ser_simps cong: if_cong)

lemma put_chars16_wire:
  "wf_writer w \<Longrightarrow> put_chars16 w s = append_bytes w (concat (map (\<lambda>c. le16 (ucast c)) s))"
proof (induction w s rule: put_chars16.induct)
  case (2 w c cs)
  show ?case
  proof (cases "append_bytes w (le16 (ucast c))")
    case (Inl e)
    then show ?thesis by (auto simp: ser_simps append_bytes_def split: if_splits)
  next
    case (Inr w')
    then have "put_chars16 w' cs = append_bytes w' (concat (map (\<lambda>c. le16 (ucast c)) cs))"
      using 2 append_wf by (auto simp: ser_simps)
    then show ?thesis using Inr by (simp add: ser_simps append_append [symmetric])
  qed
qed (simp add: append_nil)

lemma put_STRING2_wire [ser_simps]:
  "wf_writer w \<Longrightarrow> put_STRING2 w s = append_bytes w (string2_wire s)"
  by (cases "append_bytes w (le16 (of_nat (length s)))")
     (auto simp: put_STRING2_def string2_wire_def put_chars16_wire append_append [symmetric]
        put_wire dest: append_wf)

lemma get_SHORT_STRING_wire [des_simps]:
  "length s < 256 \<Longrightarrow> get_SHORT_STRING pad (short_string_wire pad s @ rest) = Inr (s, rest)"
  by (simp add: get_SHORT_STRING_def short_string_wire_def des_simps Let_def)

lemma get_STRING_wire [des_simps]:
  "length s < 65536 \<Longrightarrow> get_STRING pad (string_wire pad s @ rest) = Inr (s, rest)"
  by (simp add: get_STRING_def string_wire_def des_simps Let_def)

lemma get_chars16_wire:
  "get_chars16 (length s) (concat (map (\<lambda>c. le16 (ucast c)) s) @ rest) = Inr (s, rest)"
  by (induction s) (simp_all add: des_simps)

lemma get_STRING2_wire [des_simps]:
  "length s < 65536 \<Longrightarrow> get_STRING2 (string2_wire s @ rest) = Inr (s, rest)"
  by (simp add: get_STRING2_def string2_wire_def des_simps get_chars16_wire)

interpretation short_string_codec: wire_codec "put_SHORT_STRING pad" "get_SHORT_STRING pad"
    "short_string_wire pad" "\<lambda>s. length s < 256" for pad
  by unfold_locales (simp_all add: ser_simps des_simps)

interpretation string_codec: wire_codec "put_STRING pad" "get_STRING pad"
    "string_wire pad" "\<lambda>s. length s < 65536" for pad
  by unfold_locales (simp_all add: ser_simps des_simps)

interpretation string2_codec: wire_codec put_STRING2 get_STRING2 string2_wire
    "\<lambda>s. length s < 65536"
  by unfold_locales (simp_all add: ser_simps des_simps)

text \<open>The string getters only move forward, and never past the end.\<close>

lemma get_SHORT_STRING_le:
  "get_SHORT_STRING pad r = Inr (s, r') \<Longrightarrow> length r' < length r \<and> length s < 256"
  by (cases r) (auto simp: get_SHORT_STRING_def Let_def min_less_iff_disj split: if_splits)

text \<open>A string of 256 characters or more: the length byte wraps, so the reader is handed the first
  \<open>length s mod 256\<close> characters and the rest stays in the message.\<close>

lemma get_SHORT_STRING_long:
  "get_SHORT_STRING False (short_string_wire False s @ rest) =
   Inr (take (length s mod 256) s, drop (length s mod 256) s @ rest)"
  by (simp add: get_SHORT_STRING_def short_string_wire_def des_simps Let_def unat_of_nat
      mod_less_eq_dividend trans_le_add1)

end
