(* ===== verification/Sock_Addr.thy ===== *)
theory Sock_Addr
  imports Byte_Bufs
begin

unbundle bit_operations_syntax

text \<open>
  The class \<open>SockAddr\<close> of \<open>enet_encap/sockaddr.h\<close> and \<open>sockaddr.cc\<close>: a \<open>sockaddr_in\<close> whose port
  and address are stored in network byte order and read and set in host byte order. The host is
  little endian, so \<open>htons\<close>, \<open>htonl\<close> and their inverses swap bytes. Name resolution
  (\<open>gethostbyname\<close>) and the formatting for traces are not modelled.
\<close>

section \<open>Byte order\<close>

definition bswap16 :: "u16 \<Rightarrow> u16" where
  "bswap16 v = join16 (byte_of 8 v) (byte_of 0 v)"

definition bswap32 :: "u32 \<Rightarrow> u32" where
  "bswap32 v = join32 (byte_of 24 v) (byte_of 16 v) (byte_of 8 v) (byte_of 0 v)"

lemma bswap16_bswap16 [simp]: "bswap16 (bswap16 v) = v"
  by (simp add: bswap16_def)

lemma bswap32_bswap32 [simp]: "bswap32 (bswap32 v) = v"
  by (simp add: bswap32_def)

lemma bswap16_eq [simp]: "bswap16 v = bswap16 w \<longleftrightarrow> v = w"
  by (metis bswap16_bswap16)

lemma bswap32_eq [simp]: "bswap32 v = bswap32 w \<longleftrightarrow> v = w"
  by (metis bswap32_bswap32)

section \<open>SockAddr\<close>

record sock_addr =
  sin_family :: u16
  sin_port :: u16
  s_addr :: u32
  sin_zero :: "byte list"

abbreviation AF_INET :: u16 where "AF_INET \<equiv> 2"

definition SockAddr :: "u32 \<Rightarrow> u32 \<Rightarrow> sock_addr" where
  "SockAddr port ip =
     \<lparr>sin_family = AF_INET, sin_port = bswap16 (ucast port), s_addr = bswap32 ip,
      sin_zero = replicate 8 0\<rparr>"

definition sa_eq :: "sock_addr \<Rightarrow> sock_addr \<Rightarrow> bool" where
  "sa_eq a b \<longleftrightarrow> s_addr a = s_addr b \<and> sin_port a = sin_port b"

definition SetFamily :: "u32 \<Rightarrow> sock_addr \<Rightarrow> sock_addr" where
  "SetFamily f a = a\<lparr>sin_family := ucast f\<rparr>"

definition SetPort :: "u32 \<Rightarrow> sock_addr \<Rightarrow> sock_addr" where
  "SetPort p a = a\<lparr>sin_port := bswap16 (ucast p)\<rparr>"

definition SetAddr :: "u32 \<Rightarrow> sock_addr \<Rightarrow> sock_addr" where
  "SetAddr ip a = a\<lparr>s_addr := bswap32 ip\<rparr>"

definition Family :: "sock_addr \<Rightarrow> u32" where
  "Family a = ucast (sin_family a)"

definition Port :: "sock_addr \<Rightarrow> u32" where
  "Port a = ucast (bswap16 (sin_port a))"

definition Addr :: "sock_addr \<Rightarrow> u32" where
  "Addr a = bswap32 (s_addr a)"

text \<open>\<open>memcmp( &sin_zero[0], &sin_zero[1], 7 ) == 0\<close>: neighbours are equal.\<close>

definition IsValid :: "sock_addr \<Rightarrow> bool" where
  "IsValid a \<longleftrightarrow> sin_family a = AF_INET \<and> take 7 (sin_zero a) = take 7 (drop 1 (sin_zero a)) \<and>
     sin_zero a ! 0 = 0"

definition IsMulticast :: "sock_addr \<Rightarrow> bool" where
  "IsMulticast a \<longleftrightarrow> 0xf0000000 AND Addr a = 0xe0000000"

definition wf_sock_addr :: "sock_addr \<Rightarrow> bool" where
  "wf_sock_addr a \<longleftrightarrow> length (sin_zero a) = 8"

lemma sock_addr_accessors [simp]:
  "Port (SetPort p a) = ucast (ucast p :: u16)" "Addr (SetAddr ip a) = ip"
  "Family (SetFamily f a) = ucast (ucast f :: u16)"
  "Addr (SetPort p a) = Addr a" "Port (SetAddr ip a) = Port a"
  "Port (SockAddr p ip) = ucast (ucast p :: u16)" "Addr (SockAddr p ip) = ip"
  "wf_sock_addr (SockAddr p ip)" "IsValid (SockAddr p ip)"
  by (simp_all add: Port_def SetPort_def Addr_def SetAddr_def Family_def SetFamily_def SockAddr_def
      wf_sock_addr_def IsValid_def eval_nat_numeral)

lemma sa_eq_iff: "sa_eq a b \<longleftrightarrow> Addr a = Addr b \<and> Port a = Port b"
proof -
  have "(ucast (bswap16 p) :: u32) = ucast (bswap16 q) \<longleftrightarrow> p = q" for p q :: u16
    by (metis ucast_u32_u16 bswap16_eq)
  then show ?thesis by (simp add: sa_eq_def Addr_def Port_def)
qed

lemma IsValid_iff:
  assumes "wf_sock_addr a"
  shows "IsValid a \<longleftrightarrow> sin_family a = AF_INET \<and> sin_zero a = replicate 8 0"
proof -
  obtain z0 z1 z2 z3 z4 z5 z6 z7 where "sin_zero a = [z0, z1, z2, z3, z4, z5, z6, z7]"
    using assms unfolding wf_sock_addr_def by (auto simp: length_Suc_conv eval_nat_numeral)
  then show ?thesis by (auto simp: IsValid_def eval_nat_numeral)
qed


text \<open>The mask selects exactly the class D range 224.0.0.0 -- 239.255.255.255.\<close>

lemma and_class_mask: "0xf0000000 AND x = push_bit 28 (drop_bit 28 (x :: u32))"
proof -
  have m: "(0xf0000000 :: u32) = push_bit 28 (mask 4)"
    by (simp add: mask_eq_exp_minus_1 push_bit_eq_mult)
  show ?thesis unfolding m by (rule bit_word_eqI) (auto simp: bit_simps)
qed

lemma drop_push_28: "drop_bit 28 (push_bit 28 (drop_bit 28 (x :: u32))) = drop_bit 28 x"
  by (rule bit_word_eqI) (auto simp: bit_simps dest: bit_imp_le_length)

lemma IsMulticast_range: "IsMulticast a \<longleftrightarrow> 0xe0000000 \<le> Addr a \<and> Addr a \<le> 0xefffffff"
proof -
  let ?x = "Addr a"
  have "(0xe0000000 :: u32) = push_bit 28 (drop_bit 28 0xe0000000)" by simp
  then have "IsMulticast a \<longleftrightarrow> drop_bit 28 ?x = drop_bit 28 0xe0000000"
    unfolding IsMulticast_def and_class_mask by (metis drop_push_28)
  also have "\<dots> \<longleftrightarrow> unat ?x div 268435456 = 14"
    by (simp add: word_unat_eq_iff unsigned_drop_bit_eq drop_bit_eq_div unat_div)
  also have "\<dots> \<longleftrightarrow> 14 * 268435456 \<le> unat ?x \<and> unat ?x < 15 * 268435456" by auto
  also have "\<dots> \<longleftrightarrow> 0xe0000000 \<le> ?x \<and> ?x \<le> 0xefffffff"
    by (simp add: word_le_nat_alt) linarith
  finally show ?thesis .
qed

end
