(* ===== verification/Encap_Session.thy ===== *)
theory Encap_Session
  imports Sock_Addr
begin

unbundle bit_operations_syntax

text \<open>
  The table of encapsulation sessions, \<open>SessionMgr\<close> of \<open>enet_encap/encap.h\<close> and
  \<open>enet_encap/encap.cc\<close>. A slot holds an accepted TCP socket; a slot becomes a registered session with
  the RegisterSession command. Handles are slot numbers plus one.

  The state is the table, the \<open>static int index\<close> of \<open>RegisterTcpConnection\<close> and the log of the
  effects on the outside: sockets closed and calls of \<open>CipConnMgrClass::CloseClass3Connections\<close>.
  \<open>getpeername\<close> is an argument: the address of the peer of a socket, or its failure. A returned
  pointer to a session is the index of its slot.
\<close>

datatype EncapError =
    kEncapErrorSuccess | kEncapErrorInvalidOrUnsupportedCommand | kEncapErrorInsufficientMemory
  | kEncapErrorIncorrectData | kEncapErrorInvalidSessionHandle | kEncapErrorInvalidLength
  | kEncapErrorUnsupportedProtocol

primrec encap_error_code :: "EncapError \<Rightarrow> int" where
  "encap_error_code kEncapErrorSuccess = 0"
| "encap_error_code kEncapErrorInvalidOrUnsupportedCommand = 1"
| "encap_error_code kEncapErrorInsufficientMemory = 2"
| "encap_error_code kEncapErrorIncorrectData = 3"
| "encap_error_code kEncapErrorInvalidSessionHandle = 0x64"
| "encap_error_code kEncapErrorInvalidLength = 0x65"
| "encap_error_code kEncapErrorUnsupportedProtocol = 0x69"

abbreviation kSocketInvalid :: int where "kSocketInvalid \<equiv> -1"

text \<open>\<open>CIPSTER_NUMBER_OF_SUPPORTED_SESSIONS\<close>.\<close>

abbreviation SESSIONS :: nat where "SESSIONS \<equiv> 20"

record encap_session =
  m_socket :: int
  m_peeraddr :: sock_addr
  m_last_activity_usecs :: u64
  m_is_registered :: bool

datatype session_event = Socket_closed int | Class3_closed u32

record session_mgr =
  sessions :: "encap_session list"
  rr_index :: nat
  session_log :: "session_event list"

definition Session_Clear :: "encap_session \<Rightarrow> encap_session" where
  "Session_Clear s = \<lparr>m_socket = kSocketInvalid, m_peeraddr = SetFamily 0 (m_peeraddr s),
     m_last_activity_usecs = 0, m_is_registered = False\<rparr>"

definition EncapSession :: encap_session where
  "EncapSession = Session_Clear \<lparr>m_socket = 0, m_peeraddr = SockAddr 0 0,
     m_last_activity_usecs = 0, m_is_registered = False\<rparr>"

definition initial_sessions :: session_mgr where
  "initial_sessions = \<lparr>sessions = replicate SESSIONS EncapSession, rr_index = 0, session_log = []\<rparr>"

text \<open>\<open>sessions[i].Close()\<close>.\<close>

definition close_slot :: "nat \<Rightarrow> session_mgr \<Rightarrow> session_mgr" where
  "close_slot i m =
     m\<lparr>session_log := session_log m @ [Socket_closed (m_socket (sessions m ! i))],
       sessions := (sessions m)[i := Session_Clear (sessions m ! i)]\<rparr>"

definition NoteTcpActivity :: "u64 \<Rightarrow> nat \<Rightarrow> session_mgr \<Rightarrow> session_mgr" where
  "NoteTcpActivity now i m =
     m\<lparr>sessions := (sessions m)[i := (sessions m ! i)\<lparr>m_last_activity_usecs := now\<rparr>]\<rparr>"

definition inc_wrap :: "nat \<Rightarrow> nat" where
  "inc_wrap index = (let r = index + 1 in if r \<ge> SESSIONS then 0 else r)"

text \<open>The search for a free slot, \<open>left\<close> rounds before \<open>i == DIM(sessions)\<close>; the flag tells whether
  the loop was left by \<open>break\<close>.\<close>

fun find_free :: "encap_session list \<Rightarrow> nat \<Rightarrow> nat \<Rightarrow> bool \<times> nat" where
  "find_free ss 0 index = (False, index)"
| "find_free ss (Suc left) index =
     (if m_socket (ss ! index) = kSocketInvalid then (True, index)
      else find_free ss left (inc_wrap index))"

definition RegisterTcpConnection ::
    "(int \<Rightarrow> sock_addr option) \<Rightarrow> u64 \<Rightarrow> int \<Rightarrow> session_mgr \<Rightarrow> (EncapError \<times> u32 option) \<times> session_mgr" where
  "RegisterTcpConnection getpeername now sock m =
    (case find_free (sessions m) SESSIONS (inc_wrap (rr_index m)) of
       (False, index) \<Rightarrow> ((kEncapErrorInsufficientMemory, None), m\<lparr>rr_index := index\<rparr>)
     | (True, index) \<Rightarrow>
         let ses = (sessions m ! index)\<lparr>m_socket := sock\<rparr> in
         case getpeername sock of
           None \<Rightarrow>
             ((kEncapErrorIncorrectData, None),
              m\<lparr>rr_index := index, sessions := (sessions m)[index := ses]\<rparr>)
         | Some peer \<Rightarrow>
             ((kEncapErrorSuccess, Some (of_nat (index + 1))),
              NoteTcpActivity now index
                (m\<lparr>rr_index := index, sessions := (sessions m)[index := ses\<lparr>m_peeraddr := peer\<rparr>]\<rparr>)))"

text \<open>The first slot with this socket.\<close>

fun find_socket :: "encap_session list \<Rightarrow> int \<Rightarrow> nat option" where
  "find_socket [] sock = None"
| "find_socket (s # ss) sock =
     (if m_socket s = sock then Some 0 else map_option Suc (find_socket ss sock))"

definition RegisterSession :: "int \<Rightarrow> session_mgr \<Rightarrow> (EncapError \<times> u32 option) \<times> session_mgr" where
  "RegisterSession sock m =
    (case find_socket (sessions m) sock of
       None \<Rightarrow> ((kEncapErrorInsufficientMemory, None), m)
     | Some index \<Rightarrow>
         let ses = sessions m ! index in
         if m_is_registered ses
         then ((kEncapErrorInvalidOrUnsupportedCommand, Some (of_nat (index + 1))), m)
         else ((kEncapErrorSuccess, Some (of_nat (index + 1))),
               m\<lparr>sessions := (sessions m)[index := ses\<lparr>m_is_registered := True\<rparr>]\<rparr>))"

definition UpdateRegisteredTcpConnection ::
    "u64 \<Rightarrow> int \<Rightarrow> session_mgr \<Rightarrow> nat option \<times> session_mgr" where
  "UpdateRegisteredTcpConnection now sock m =
    (case find_socket (sessions m) sock of
       None \<Rightarrow> (None, m)
     | Some index \<Rightarrow> (Some index, NoteTcpActivity now index m))"

definition slot_of :: "u32 \<Rightarrow> nat" where
  "slot_of handle = unat (handle - 1)"

definition GetSession :: "u32 \<Rightarrow> session_mgr \<Rightarrow> nat option" where
  "GetSession handle m =
    (let ndx = slot_of handle in
     if ndx < SESSIONS \<and> m_socket (sessions m ! ndx) \<noteq> kSocketInvalid then Some ndx else None)"

definition CheckRegisteredSession :: "u32 \<Rightarrow> int \<Rightarrow> session_mgr \<Rightarrow> nat option" where
  "CheckRegisteredSession handle sock m =
    (let index = slot_of handle in
     if index < SESSIONS \<and> m_socket (sessions m ! index) = sock \<and>
        m_is_registered (sessions m ! index)
     then Some index else None)"

definition CloseBySessionHandle :: "u32 \<Rightarrow> session_mgr \<Rightarrow> bool \<times> session_mgr" where
  "CloseBySessionHandle handle m =
    (let index = slot_of handle in
     if index \<ge> SESSIONS then (False, m)
     else if m_socket (sessions m ! index) = kSocketInvalid then (False, m)
     else (True, close_slot index m))"

definition CloseBySocket :: "int \<Rightarrow> session_mgr \<Rightarrow> bool \<times> session_mgr" where
  "CloseBySocket sock m =
    (case find_socket (sessions m) sock of
       None \<Rightarrow> (False, m)
     | Some i \<Rightarrow> (True, close_slot i m))"

definition UnregisterSession :: "u32 \<Rightarrow> int \<Rightarrow> session_mgr \<Rightarrow> EncapError \<times> session_mgr" where
  "UnregisterSession handle sock m =
    (let index = slot_of handle in
     if index < SESSIONS \<and> m_socket (sessions m ! index) = sock
     then (kEncapErrorSuccess, close_slot index m)
     else (kEncapErrorInvalidSessionHandle, m))"

text \<open>\<open>inactivity_timeout_secs * 1000000\<close> is a product of \<open>int\<close>s, converted to 64 bits afterwards:
  two's complement wrap-around at 32 bits, then sign extension.\<close>

definition timeout_usecs :: "u16 \<Rightarrow> u64" where
  "timeout_usecs secs = scast (ucast secs * 1000000 :: u32)"

definition age_slot :: "u64 \<Rightarrow> u16 \<Rightarrow> nat \<Rightarrow> session_mgr \<Rightarrow> session_mgr" where
  "age_slot now secs i m =
    (let s = sessions m ! i in
     if m_socket s \<noteq> kSocketInvalid \<and> now - m_last_activity_usecs s \<ge> timeout_usecs secs then
       close_slot i
         (if m_is_registered s
          then m\<lparr>session_log := session_log m @ [Class3_closed (of_nat (i + 1))]\<rparr> else m)
     else m)"

definition AgeInactivity :: "u64 \<Rightarrow> u16 \<Rightarrow> session_mgr \<Rightarrow> session_mgr" where
  "AgeInactivity now secs m = fold (age_slot now secs) [0..<SESSIONS] m"

definition shutdown_slot :: "nat \<Rightarrow> session_mgr \<Rightarrow> session_mgr" where
  "shutdown_slot i m = (if m_socket (sessions m ! i) \<noteq> kSocketInvalid then close_slot i m else m)"

definition SessionMgr_Shutdown :: "session_mgr \<Rightarrow> session_mgr" where
  "SessionMgr_Shutdown m = fold shutdown_slot [0..<SESSIONS] m"

section \<open>The invariant\<close>

text \<open>A free slot is not registered, and no socket is in two slots.\<close>

definition wf_sessions :: "session_mgr \<Rightarrow> bool" where
  "wf_sessions m \<longleftrightarrow> length (sessions m) = SESSIONS \<and> rr_index m < SESSIONS \<and>
     (\<forall>i < SESSIONS. m_socket (sessions m ! i) = kSocketInvalid \<longrightarrow> \<not> m_is_registered (sessions m ! i)) \<and>
     (\<forall>i < SESSIONS. \<forall>j < SESSIONS. m_socket (sessions m ! i) = m_socket (sessions m ! j) \<longrightarrow>
        m_socket (sessions m ! i) \<noteq> kSocketInvalid \<longrightarrow> i = j)"

lemma wf_sessionsD:
  assumes "wf_sessions m"
  shows "length (sessions m) = SESSIONS" and "rr_index m < SESSIONS"
    and "\<And>i. i < SESSIONS \<Longrightarrow> m_socket (sessions m ! i) = kSocketInvalid \<Longrightarrow> \<not> m_is_registered (sessions m ! i)"
    and "\<And>i j. i < SESSIONS \<Longrightarrow> j < SESSIONS \<Longrightarrow> m_socket (sessions m ! i) = m_socket (sessions m ! j) \<Longrightarrow>
      m_socket (sessions m ! i) \<noteq> kSocketInvalid \<Longrightarrow> i = j"
  using assms unfolding wf_sessions_def by blast+

lemma initial_sessions_wf: "wf_sessions initial_sessions"
  by (simp add: wf_sessions_def initial_sessions_def EncapSession_def Session_Clear_def)

lemma session_clear_simps [simp]:
  "m_socket (Session_Clear s) = kSocketInvalid" "\<not> m_is_registered (Session_Clear s)"
  by (simp_all add: Session_Clear_def)

lemma wf_sessions_update:
  assumes "wf_sessions m" and "i < SESSIONS"
    and "m_socket s = kSocketInvalid \<Longrightarrow> \<not> m_is_registered s"
    and "\<And>j. j < SESSIONS \<Longrightarrow> j \<noteq> i \<Longrightarrow> m_socket s \<noteq> kSocketInvalid \<Longrightarrow>
      m_socket (sessions m ! j) \<noteq> m_socket s"
  shows "wf_sessions (m\<lparr>sessions := (sessions m)[i := s]\<rparr>)"
proof -
  note wf = wf_sessionsD [OF assms(1)]
  have sel: "(sessions m)[i := s] ! j = (if j = i then s else sessions m ! j)" if "j < SESSIONS" for j
    using that wf(1) assms(2) by (simp add: nth_list_update)
  show ?thesis
    unfolding wf_sessions_def
  proof (intro conjI allI impI)
    fix j k assume jk: "j < SESSIONS" "k < SESSIONS"
      "m_socket (sessions (m\<lparr>sessions := (sessions m)[i := s]\<rparr>) ! j) =
       m_socket (sessions (m\<lparr>sessions := (sessions m)[i := s]\<rparr>) ! k)"
      "m_socket (sessions (m\<lparr>sessions := (sessions m)[i := s]\<rparr>) ! j) \<noteq> kSocketInvalid"
    then show "j = k" using wf(4) [of j k] assms(4) [of j] assms(4) [of k]
      by (simp add: sel split: if_splits)
  qed (use wf assms sel in \<open>auto split: if_splits\<close>)
qed

lemma log_wf [simp]: "wf_sessions (m\<lparr>session_log := l\<rparr>) = wf_sessions m"
  by (simp add: wf_sessions_def)

lemma index_wf: "wf_sessions m \<Longrightarrow> i < SESSIONS \<Longrightarrow> wf_sessions (m\<lparr>rr_index := i\<rparr>)"
  by (simp add: wf_sessions_def)

lemma close_slot_wf: "wf_sessions m \<Longrightarrow> i < SESSIONS \<Longrightarrow> wf_sessions (close_slot i m)"
  using wf_sessions_update [of "m\<lparr>session_log := l\<rparr>" i "Session_Clear (sessions m ! i)" for l]
  by (simp add: close_slot_def)

lemma note_activity_wf:
  assumes "wf_sessions m" and "i < SESSIONS"
  shows "wf_sessions (NoteTcpActivity now i m)"
  unfolding NoteTcpActivity_def
proof (rule wf_sessions_update [OF assms])
  fix j assume "j < SESSIONS" "j \<noteq> i"
    "m_socket ((sessions m ! i)\<lparr>m_last_activity_usecs := now\<rparr>) \<noteq> kSocketInvalid"
  then show "m_socket (sessions m ! j) \<noteq> m_socket ((sessions m ! i)\<lparr>m_last_activity_usecs := now\<rparr>)"
    using wf_sessionsD(4) [OF assms(1), of i j] assms(2) by auto
qed (use wf_sessionsD(3) [OF assms] in simp)

lemma find_socket_Some:
  "find_socket ss sock = Some i \<Longrightarrow> i < length ss \<and> m_socket (ss ! i) = sock"
  by (induction ss arbitrary: i) (auto split: if_splits)

lemma find_socket_less: "wf_sessions m \<Longrightarrow> find_socket (sessions m) sock = Some i \<Longrightarrow> i < SESSIONS"
  using find_socket_Some wf_sessionsD(1) by fastforce

lemma find_socket_None: "find_socket ss sock = None \<longleftrightarrow> (\<forall>i < length ss. m_socket (ss ! i) \<noteq> sock)"
  by (induction ss) (auto simp: nth_Cons split: nat.splits)

lemma find_socket_unique:
  assumes "wf_sessions m" and "i < SESSIONS" and "m_socket (sessions m ! i) = sock" and "sock \<noteq> kSocketInvalid"
  shows "find_socket (sessions m) sock = Some i"
proof (cases "find_socket (sessions m) sock")
  case None
  then show ?thesis using assms wf_sessionsD(1) by (auto simp: find_socket_None)
next
  case (Some j)
  then show ?thesis
    using find_socket_Some [OF Some] assms wf_sessionsD(1,4) by (metis (no_types, lifting))
qed

section \<open>The round robin search\<close>

lemma inc_wrap_less: "i < SESSIONS \<Longrightarrow> inc_wrap i < SESSIONS"
  by (simp add: inc_wrap_def Let_def)

lemma find_free_True:
  "find_free ss n i = (True, j) \<Longrightarrow> i < SESSIONS \<Longrightarrow> j < SESSIONS \<and> m_socket (ss ! j) = kSocketInvalid"
  by (induction ss n i rule: find_free.induct) (auto simp: inc_wrap_less split: if_splits)

lemma start_index: "wf_sessions m \<Longrightarrow> inc_wrap (rr_index m) < SESSIONS"
  by (simp add: inc_wrap_less wf_sessionsD(2))

lemma find_free_False_index: "find_free ss n i = (b, j) \<Longrightarrow> i < SESSIONS \<Longrightarrow> j < SESSIONS"
  by (induction ss n i rule: find_free.induct) (auto simp: inc_wrap_less split: if_splits)

text \<open>The rounds visit \<open>i, i + 1, ...\<close> modulo the number of slots.\<close>

lemma inc_wrap_mod: "i < SESSIONS \<Longrightarrow> inc_wrap i = (i + 1) mod SESSIONS"
  by (cases "i = 19") (auto simp: inc_wrap_def Let_def)

lemma find_free_False:
  "find_free ss n i = (False, j) \<Longrightarrow> i < SESSIONS \<Longrightarrow> k < n \<Longrightarrow>
   m_socket (ss ! ((i + k) mod SESSIONS)) \<noteq> kSocketInvalid"
proof (induction ss n i arbitrary: k rule: find_free.induct)
  case (2 ss left index)
  show ?case
  proof (cases k)
    case 0
    then show ?thesis using 2 by (auto split: if_splits)
  next
    case (Suc k')
    have "m_socket (ss ! ((inc_wrap index + k') mod SESSIONS)) \<noteq> kSocketInvalid"
      using 2 Suc by (intro "2.IH") (auto simp: inc_wrap_less split: if_splits)
    moreover have "(inc_wrap index + k') mod SESSIONS = (index + k) mod SESSIONS"
      using Suc 2(3) by (simp add: inc_wrap_mod mod_simps)
    ultimately show ?thesis by simp
  qed
qed simp

lemma find_free_complete:
  assumes "i < SESSIONS" and "j < SESSIONS" and "m_socket (ss ! j) = kSocketInvalid"
  shows "\<exists>k. find_free ss SESSIONS i = (True, k)"
proof (rule ccontr)
  assume "\<not> ?thesis"
  then obtain l where "find_free ss SESSIONS i = (False, l)" by (metis (full_types) surj_pair)
  then have visited: "\<And>k. k < SESSIONS \<Longrightarrow> m_socket (ss ! ((i + k) mod SESSIONS)) \<noteq> kSocketInvalid"
    using assms(1) find_free_False by blast
  define k where "k = (j + SESSIONS - i) mod SESSIONS"
  have "(i + k) mod SESSIONS = j" using assms by (simp add: k_def mod_simps)
  moreover have "k < SESSIONS" by (simp add: k_def)
  ultimately show False using visited assms(3) by metis
qed

section \<open>The operations keep the invariant\<close>

lemma age_slot_wf: "wf_sessions m \<Longrightarrow> i < SESSIONS \<Longrightarrow> wf_sessions (age_slot now secs i m)"
  by (simp add: age_slot_def close_slot_wf Let_def)

lemma fold_slots_wf:
  assumes "\<And>i m. wf_sessions m \<Longrightarrow> i < SESSIONS \<Longrightarrow> wf_sessions (f i m)"
  shows "wf_sessions m \<Longrightarrow> list_all (\<lambda>i. i < SESSIONS) is \<Longrightarrow> wf_sessions (fold f is m)"
  by (induction "is" arbitrary: m) (auto simp: assms)

lemma upto_sessions: "list_all (\<lambda>i. i < SESSIONS) [0..<SESSIONS]"
  by (simp add: list_all_iff)

lemma AgeInactivity_wf: "wf_sessions m \<Longrightarrow> wf_sessions (AgeInactivity now secs m)"
  unfolding AgeInactivity_def using fold_slots_wf age_slot_wf upto_sessions by blast

lemma Shutdown_wf: "wf_sessions m \<Longrightarrow> wf_sessions (SessionMgr_Shutdown m)"
  unfolding SessionMgr_Shutdown_def
  by (rule fold_slots_wf) (auto simp: shutdown_slot_def close_slot_wf list_all_iff)

lemma RegisterSession_wf: "wf_sessions m \<Longrightarrow> sock \<noteq> kSocketInvalid \<Longrightarrow> wf_sessions (snd (RegisterSession sock m))"
proof (cases "find_socket (sessions m) sock")
  case (Some i)
  assume wf: "wf_sessions m" and sock: "sock \<noteq> kSocketInvalid"
  have i: "i < SESSIONS" "m_socket (sessions m ! i) = sock"
    using find_socket_Some [OF Some] wf_sessionsD(1) [OF wf] by auto
  have "wf_sessions (m\<lparr>sessions := (sessions m)[i := (sessions m ! i)\<lparr>m_is_registered := True\<rparr>]\<rparr>)"
    using wf i sock by (intro wf_sessions_update) (auto dest: wf_sessionsD(4))
  then show ?thesis using wf Some by (simp add: RegisterSession_def Let_def)
qed (simp add: RegisterSession_def)

lemma Update_wf: "wf_sessions m \<Longrightarrow> wf_sessions (snd (UpdateRegisteredTcpConnection now sock m))"
  by (auto simp: UpdateRegisteredTcpConnection_def intro: note_activity_wf find_socket_less
      split: option.split)

lemma Close_wf:
  "wf_sessions m \<Longrightarrow> wf_sessions (snd (CloseBySessionHandle handle m))"
  "wf_sessions m \<Longrightarrow> wf_sessions (snd (CloseBySocket sock m))"
  "wf_sessions m \<Longrightarrow> wf_sessions (snd (UnregisterSession handle sock m))"
  by (auto simp: CloseBySessionHandle_def CloseBySocket_def UnregisterSession_def Let_def
      intro: close_slot_wf find_socket_less split: option.split)

text \<open>The socket handed in by \<open>accept\<close> is open, so no slot holds it.\<close>

lemma RegisterTcpConnection_wf:
  assumes "wf_sessions m" and "find_socket (sessions m) sock = None"
  shows "wf_sessions (snd (RegisterTcpConnection getpeername now sock m))"
proof (cases "find_free (sessions m) SESSIONS (inc_wrap (rr_index m))")
  case (Pair b index)
  have index: "index < SESSIONS"
    using find_free_False_index [OF Pair start_index [OF assms(1)]] .
  show ?thesis
  proof (cases b)
    case False
    then show ?thesis using Pair index assms(1) by (simp add: RegisterTcpConnection_def index_wf)
  next
    case True
    have free: "m_socket (sessions m ! index) = kSocketInvalid"
      using find_free_True [OF _ start_index [OF assms(1)]] Pair True by simp
    let ?m = "m\<lparr>rr_index := index\<rparr>"
    have wf: "wf_sessions (?m\<lparr>sessions := (sessions ?m)[index := s]\<rparr>)"
      if "m_socket s = sock" "\<not> m_is_registered s" for s
      using assms index that wf_sessionsD(1) [OF assms(1)]
      by (intro wf_sessions_update index_wf) (auto simp: find_socket_None)
    have "\<not> m_is_registered (sessions m ! index)"
      using wf_sessionsD(3) [OF assms(1) index free] .
    then show ?thesis using Pair True wf index
      by (auto simp: RegisterTcpConnection_def Let_def intro!: note_activity_wf split: option.split)
  qed
qed

section \<open>What the operations do\<close>

lemma register_tcp_full:
  assumes "wf_sessions m"
  shows "fst (fst (RegisterTcpConnection getpeername now sock m)) = kEncapErrorInsufficientMemory \<longleftrightarrow>
         (\<forall>i < SESSIONS. m_socket (sessions m ! i) \<noteq> kSocketInvalid)"
proof
  assume *: "fst (fst (RegisterTcpConnection getpeername now sock m)) = kEncapErrorInsufficientMemory"
  show "\<forall>i < SESSIONS. m_socket (sessions m ! i) \<noteq> kSocketInvalid"
  proof (intro allI impI notI)
    fix j assume "j < SESSIONS" "m_socket (sessions m ! j) = kSocketInvalid"
    then obtain k where "find_free (sessions m) SESSIONS (inc_wrap (rr_index m)) = (True, k)"
      using find_free_complete [OF start_index [OF assms]] by metis
    then show False using * by (simp add: RegisterTcpConnection_def Let_def split: option.splits)
  qed
next
  assume full: "\<forall>i < SESSIONS. m_socket (sessions m ! i) \<noteq> kSocketInvalid"
  obtain b k where bk: "find_free (sessions m) SESSIONS (inc_wrap (rr_index m)) = (b, k)"
    by fastforce
  then have "\<not> b" using full find_free_True [OF _ start_index [OF assms]] by (cases b) auto
  then show "fst (fst (RegisterTcpConnection getpeername now sock m)) = kEncapErrorInsufficientMemory"
    using bk by (simp add: RegisterTcpConnection_def)
qed

lemma slot_of_handle: "i < SESSIONS \<Longrightarrow> slot_of (of_nat (i + 1)) = i"
  by (simp add: slot_of_def unat_of_nat)

text \<open>A handle and a socket are accepted together exactly for the slot the socket has registered.\<close>

lemma check_after_register:
  assumes "wf_sessions m" and "sock \<noteq> kSocketInvalid" and "RegisterSession sock m = ((e, Some h), m')"
  shows "\<exists>i. CheckRegisteredSession h sock m' = Some i \<and> m_socket (sessions m' ! i) = sock"
proof -
  obtain i where f: "find_socket (sessions m) sock = Some i"
    using assms(3) by (cases "find_socket (sessions m) sock") (auto simp: RegisterSession_def)
  have i: "i < SESSIONS" "i < length (sessions m)" "m_socket (sessions m ! i) = sock"
    using find_socket_Some [OF f] wf_sessionsD(1) [OF assms(1)] by auto
  show ?thesis using assms(3) f i slot_of_handle [OF i(1)]
    by (auto simp: RegisterSession_def CheckRegisteredSession_def Let_def split: if_splits)
qed

lemma check_registered_owner:
  assumes "CheckRegisteredSession h sock m = Some i"
  shows "i < SESSIONS" and "m_socket (sessions m ! i) = sock" and "m_is_registered (sessions m ! i)"
    and "h = of_nat (i + 1)"
proof -
  show i: "i < SESSIONS" and "m_socket (sessions m ! i) = sock" and "m_is_registered (sessions m ! i)"
    using assms by (auto simp: CheckRegisteredSession_def Let_def split: if_splits)
  have "unat (h - 1) = i" using assms by (auto simp: CheckRegisteredSession_def slot_of_def Let_def split: if_splits)
  moreover have "h - 1 = of_nat (unat (h - 1))" by simp
  ultimately have "h - 1 = of_nat i" by simp
  then show "h = of_nat (i + 1)" by (simp add: diff_eq_eq)
qed

text \<open>After a close the handle opens nothing.\<close>

lemma check_after_close:
  assumes "wf_sessions m" and "sock \<noteq> kSocketInvalid" and "slot_of h < SESSIONS"
    and "m_socket (sessions m ! slot_of h) = sock"
  shows "CheckRegisteredSession h' sock (snd (UnregisterSession h sock m)) = None"
proof -
  have "m_socket (sessions (close_slot (slot_of h) m) ! i) \<noteq> sock" if "i < SESSIONS" for i
    using assms that wf_sessionsD(1,4) [OF assms(1)]
    by (auto simp: close_slot_def nth_list_update)
  then show ?thesis using assms by (auto simp: UnregisterSession_def CheckRegisteredSession_def Let_def)
qed

section \<open>Aging\<close>

definition too_old :: "u64 \<Rightarrow> u16 \<Rightarrow> encap_session \<Rightarrow> bool" where
  "too_old now secs s \<longleftrightarrow> m_socket s \<noteq> kSocketInvalid \<and> now - m_last_activity_usecs s \<ge> timeout_usecs secs"

lemma age_slot_sessions:
  "sessions (age_slot now secs i m) =
     (if too_old now secs (sessions m ! i) then (sessions m)[i := Session_Clear (sessions m ! i)]
      else sessions m)"
  by (auto simp: age_slot_def too_old_def close_slot_def Let_def)

lemma fold_age_sessions:
  assumes "distinct is" and "list_all (\<lambda>i. i < length (sessions m)) is" and "j < length (sessions m)"
  shows "sessions (fold (age_slot now secs) is m) ! j =
    (if j \<in> set is \<and> too_old now secs (sessions m ! j) then Session_Clear (sessions m ! j)
     else sessions m ! j)"
  using assms
proof (induction "is" arbitrary: m)
  case (Cons i "is")
  have "length (sessions (age_slot now secs i m)) = length (sessions m)"
    by (simp add: age_slot_sessions)
  then show ?case using Cons by (auto simp: age_slot_sessions nth_list_update)
qed simp

lemma AgeInactivity_sessions:
  assumes "wf_sessions m" and "i < SESSIONS"
  shows "sessions (AgeInactivity now secs m) ! i =
    (if too_old now secs (sessions m ! i) then Session_Clear (sessions m ! i) else sessions m ! i)"
  unfolding AgeInactivity_def using assms wf_sessionsD(1) [OF assms(1)]
  by (subst fold_age_sessions) (auto simp: list_all_iff)

text \<open>Within the first 2147 seconds the timeout is what the attribute says; past it the product
  overflows.\<close>

lemma timeout_usecs_small:
  assumes "secs \<le> 2147"
  shows "unat (timeout_usecs secs) = unat secs * 1000000"
proof -
  define n where "n = unat secs * 1000000"
  have "unat secs \<le> 2147" using assms by (simp add: word_le_nat_alt)
  then have n: "n < 2147483648" by (simp add: n_def)
  have p: "(ucast secs * 1000000 :: u32) = of_nat n"
    by (simp add: n_def word_unat_eq_iff unsigned_ucast_eq unat_word_ariths take_bit_nat_eq_self)
  have "sint (of_nat n :: u32) = int n"
    using n by (simp add: signed_of_nat signed_take_bit_int_eq_self)
  then have "timeout_usecs secs = of_nat n"
    unfolding timeout_usecs_def p by (simp add: scast_eq)
  then have "unat (timeout_usecs secs) = n" using n by (simp only: unat_of_nat) simp
  then show ?thesis by (simp only: n_def)
qed

lemma timeout_usecs_4295: "timeout_usecs 4295 = 32704"
  by (simp add: timeout_usecs_def)

section \<open>Histories of the table\<close>

text \<open>The calls the stack makes on the table, one after the other, with the clock and the answer of
  \<open>getpeername\<close> they see.\<close>

datatype session_op =
    Accept "sock_addr option" u64 int
  | Register int
  | Activity u64 int
  | Unregister u32 int
  | Close_socket int
  | Close_handle u32
  | Age u64 u16

primrec session_exec :: "session_op \<Rightarrow> session_mgr \<Rightarrow> session_mgr" where
  "session_exec (Accept peer now sock) m = snd (RegisterTcpConnection (\<lambda>_. peer) now sock m)"
| "session_exec (Register sock) m = snd (RegisterSession sock m)"
| "session_exec (Activity now sock) m = snd (UpdateRegisteredTcpConnection now sock m)"
| "session_exec (Unregister h sock) m = snd (UnregisterSession h sock m)"
| "session_exec (Close_socket sock) m = snd (CloseBySocket sock m)"
| "session_exec (Close_handle h) m = snd (CloseBySessionHandle h m)"
| "session_exec (Age now secs) m = AgeInactivity now secs m"

text \<open>The sockets come from the operating system: the one of a call is open, and one that \<open>accept\<close>
  returns is in no slot.\<close>

fun op_allowed :: "session_op \<Rightarrow> session_mgr \<Rightarrow> bool" where
  "op_allowed (Accept peer now sock) m \<longleftrightarrow> sock \<noteq> kSocketInvalid \<and> find_socket (sessions m) sock = None"
| "op_allowed (Register sock) m \<longleftrightarrow> sock \<noteq> kSocketInvalid"
| "op_allowed _ m \<longleftrightarrow> True"

inductive session_reachable :: "session_mgr \<Rightarrow> bool" where
  start: "session_reachable initial_sessions"
| step: "session_reachable m \<Longrightarrow> op_allowed op m \<Longrightarrow> session_reachable (session_exec op m)"

lemma session_exec_wf: "wf_sessions m \<Longrightarrow> op_allowed op m \<Longrightarrow> wf_sessions (session_exec op m)"
  by (cases op) (simp_all add: RegisterTcpConnection_wf RegisterSession_wf Update_wf Close_wf AgeInactivity_wf)

lemma session_reachable_wf: "session_reachable m \<Longrightarrow> wf_sessions m"
  by (induction rule: session_reachable.induct) (simp_all add: initial_sessions_wf session_exec_wf)

text \<open>The calls that leave the session of a socket and a handle alone: those about other sockets
  and handles, and the traffic on the socket itself.\<close>

fun leaves_alone :: "u32 \<Rightarrow> int \<Rightarrow> session_op \<Rightarrow> bool" where
  "leaves_alone h sock (Accept peer now s) \<longleftrightarrow> s \<noteq> sock"
| "leaves_alone h sock (Register s) \<longleftrightarrow> True"
| "leaves_alone h sock (Activity now s) \<longleftrightarrow> True"
| "leaves_alone h sock (Unregister h' s) \<longleftrightarrow> s \<noteq> sock \<or> h' \<noteq> h"
| "leaves_alone h sock (Close_socket s) \<longleftrightarrow> s \<noteq> sock"
| "leaves_alone h sock (Close_handle h') \<longleftrightarrow> h' \<noteq> h"
| "leaves_alone h sock (Age now secs) \<longleftrightarrow> False"

fun session_run :: "session_op list \<Rightarrow> session_mgr \<Rightarrow> session_mgr option" where
  "session_run [] m = Some m"
| "session_run (op # ops) m = (if op_allowed op m then session_run ops (session_exec op m) else None)"

lemma slot_of_inj: "slot_of h = slot_of h' \<Longrightarrow> h = h'"
  unfolding slot_of_def by (metis diff_add_cancel word_unat_eq_iff)

text \<open>A slot that keeps its socket and stays registered keeps its handle good.\<close>

lemma check_stays:
  assumes "CheckRegisteredSession h sock m = Some i"
    and "m_socket (sessions m' ! i) = sock" and "m_is_registered (sessions m' ! i)"
  shows "CheckRegisteredSession h sock m' = Some i"
  using assms by (auto simp: CheckRegisteredSession_def Let_def split: if_splits)

lemma close_other: "j \<noteq> i \<Longrightarrow> sessions (close_slot j m) ! i = sessions m ! i"
  by (simp add: close_slot_def)

lemma note_keeps:
  "m_socket (sessions (NoteTcpActivity now j m) ! i) = m_socket (sessions m ! i)"
  "m_is_registered (sessions (NoteTcpActivity now j m) ! i) = m_is_registered (sessions m ! i)"
  by (cases "j < length (sessions m)"; simp add: NoteTcpActivity_def nth_list_update list_update_beyond)+

lemma accept_keeps:
  assumes "wf_sessions m" and "i < SESSIONS" and "m_socket (sessions m ! i) \<noteq> kSocketInvalid"
  shows "let m' = snd (RegisterTcpConnection gpn now s m) in
     m_socket (sessions m' ! i) = m_socket (sessions m ! i) \<and>
     m_is_registered (sessions m' ! i) = m_is_registered (sessions m ! i)"
proof -
  obtain b j where f: "find_free (sessions m) SESSIONS (inc_wrap (rr_index m)) = (b, j)" by fastforce
  have "i \<noteq> j" if b using find_free_True [OF _ start_index [OF assms(1)]] f that assms(3) by auto
  then show ?thesis using f
    by (cases b) (auto simp: RegisterTcpConnection_def Let_def note_keeps split: option.split)
qed

lemma leaves_alone_step:
  assumes "wf_sessions m" and "sock \<noteq> kSocketInvalid" and "leaves_alone h sock op"
    and "CheckRegisteredSession h sock m = Some i"
  shows "CheckRegisteredSession h sock (session_exec op m) = Some i"
proof (rule check_stays [OF assms(4)])
  note own = check_registered_owner [OF assms(4)]
  have slot: "slot_of h = i" using own(1,4) slot_of_handle by simp
  have only: "find_socket (sessions m) s = Some j \<Longrightarrow> s \<noteq> sock \<Longrightarrow> j \<noteq> i" for s j
    using find_socket_Some own(2) by blast
  have other: "h' \<noteq> h \<Longrightarrow> slot_of h' \<noteq> i" for h' using slot slot_of_inj by metis
  let ?m = "session_exec op m"
  have "m_socket (sessions ?m ! i) = sock \<and> m_is_registered (sessions ?m ! i)"
  proof (cases op)
    case (Accept peer now s)
    then show ?thesis using accept_keeps [OF assms(1) own(1), of "\<lambda>_. peer" now s] own assms(2)
      by (simp add: Let_def)
  next
    case (Register s)
    have "j < length (sessions m) \<Longrightarrow>
        m_socket ((sessions m)[j := (sessions m ! j)\<lparr>m_is_registered := True\<rparr>] ! i) = sock \<and>
        m_is_registered ((sessions m)[j := (sessions m ! j)\<lparr>m_is_registered := True\<rparr>] ! i)" for j
      using own by (cases "i = j") auto
    then show ?thesis using own Register
      by (auto simp: RegisterSession_def Let_def dest: find_socket_Some split: option.split)
  next
    case (Activity now s)
    then show ?thesis using own
      by (simp add: UpdateRegisteredTcpConnection_def note_keeps split: option.split)
  next
    case (Unregister h' s)
    then have "s \<noteq> sock \<or> slot_of h' \<noteq> i" using assms(3) other by auto
    then have "m_socket (sessions m ! slot_of h') = s \<Longrightarrow> slot_of h' \<noteq> i" using own(2) by blast
    then show ?thesis using Unregister own(2,3)
      by (simp add: UnregisterSession_def Let_def close_other)
  next
    case (Close_socket s)
    then have "s \<noteq> sock" using assms(3) by simp
    then have "find_socket (sessions m) s = Some j \<Longrightarrow> sessions (close_slot j m) ! i = sessions m ! i" for j
      using only close_other by blast
    then show ?thesis using Close_socket own
      by (auto simp: CloseBySocket_def split: option.split)
  next
    case (Close_handle h')
    then have "slot_of h' \<noteq> i" using assms(3) other by simp
    then show ?thesis using Close_handle own
      by (simp add: CloseBySessionHandle_def Let_def close_other)
  next
    case (Age now secs)
    then show ?thesis using assms(3) by simp
  qed
  then show "m_socket (sessions ?m ! i) = sock" and "m_is_registered (sessions ?m ! i)" by blast+
qed

lemma session_survives:
  assumes "wf_sessions m" and "sock \<noteq> kSocketInvalid" and "list_all (leaves_alone h sock) ops"
    and "CheckRegisteredSession h sock m = Some i" and "session_run ops m = Some m'"
  shows "CheckRegisteredSession h sock m' = Some i"
  using assms
proof (induction ops arbitrary: m)
  case (Cons op ops)
  then show ?case using session_exec_wf [of m op] leaves_alone_step [of m sock h op i]
    by (simp split: if_splits)
qed simp

end
