(* ===== verification/Cpf.thy ===== *)
theory Cpf
  imports Sock_Addr
begin

text \<open>
  The common packet format of \<open>enet_encap/cpf.h\<close> and \<open>enet_encap/cpf.cc\<close>: an address item, a data
  item and socket address items, behind a count of items.

  An item type is an \<open>int\<close> as in \<open>enum CpfId\<close>, with \<open>-1\<close> for an empty item. A data item holds the
  bytes of its range. A payload, an object with a \<open>Serialize\<close> and a \<open>SerializedCount\<close>, is the list of
  the bytes it serializes to. The pairs of a flag and a socket address of \<open>SaiiPair\<close> are options: the
  accessors of \<open>Cpf\<close> give the address only when the flag is set.
\<close>

section \<open>The packet\<close>

abbreviation kCpfIdEmpty :: int where "kCpfIdEmpty \<equiv> -1"
abbreviation kCpfIdNullAddress :: int where "kCpfIdNullAddress \<equiv> 0"
abbreviation kCpfIdConnectedAddress :: int where "kCpfIdConnectedAddress \<equiv> 0xA1"
abbreviation kCpfIdConnectedDataItem :: int where "kCpfIdConnectedDataItem \<equiv> 0xB1"
abbreviation kCpfIdUnconnectedDataItem :: int where "kCpfIdUnconnectedDataItem \<equiv> 0xB2"
abbreviation kCpfIdSockAddrInfo_O_T :: int where "kCpfIdSockAddrInfo_O_T \<equiv> 0x8000"
abbreviation kCpfIdSockAddrInfo_T_O :: int where "kCpfIdSockAddrInfo_T_O \<equiv> 0x8001"
abbreviation kCpfIdSequencedAddress :: int where "kCpfIdSequencedAddress \<equiv> 0x8002"

record address_item =
  ai_type_id :: int
  ai_length :: u16
  connection_identifier :: u32
  encap_sequence_number :: u32

record data_item =
  di_type_id :: int
  di_data :: "byte list"

record cpf =
  address_item :: address_item
  data_item :: data_item
  rx_O_T :: "sock_addr option"
  rx_T_O :: "sock_addr option"
  tx_O_T :: "sock_addr option"
  tx_T_O :: "sock_addr option"
  payload :: "byte list option"
  session_handle :: u32
  tcp_peer :: sock_addr

definition AddressItem :: "int \<Rightarrow> u32 \<Rightarrow> u32 \<Rightarrow> address_item" where
  "AddressItem t conn_id seq =
     \<lparr>ai_type_id = t,
      ai_length = (if t = kCpfIdNullAddress then 4 else if t = kCpfIdConnectedAddress then 8
                   else if t = kCpfIdSequencedAddress then 12 else 0),
      connection_identifier = conn_id, encap_sequence_number = seq\<rparr>"

definition DataItem :: "int \<Rightarrow> data_item" where
  "DataItem t = \<lparr>di_type_id = t, di_data = []\<rparr>"

text \<open>The three constructors. \<open>Cpf_types\<close> passes the data type on as the second argument of
  \<open>AddressItem\<close>, its connection id.\<close>

definition Cpf_for_peer :: "sock_addr \<Rightarrow> u32 \<Rightarrow> cpf" where
  "Cpf_for_peer peer handle =
     \<lparr>address_item = (AddressItem kCpfIdNullAddress 0 0)\<lparr>ai_type_id := kCpfIdEmpty\<rparr>,
      data_item = DataItem kCpfIdEmpty,
      rx_O_T = None, rx_T_O = None, tx_O_T = None, tx_T_O = None, payload = None,
      session_handle = handle, tcp_peer = peer\<rparr>"

definition Cpf_types :: "int \<Rightarrow> int \<Rightarrow> byte list option \<Rightarrow> cpf" where
  "Cpf_types addr_type data_type pl =
     \<lparr>address_item = AddressItem addr_type (word_of_int data_type) 0, data_item = DataItem data_type,
      rx_O_T = None, rx_T_O = None, tx_O_T = None, tx_T_O = None, payload = pl,
      session_handle = 0, tcp_peer = SockAddr 0 0\<rparr>"

definition Cpf_address :: "address_item \<Rightarrow> int \<Rightarrow> cpf" where
  "Cpf_address addr data_type =
     \<lparr>address_item = addr, data_item = DataItem data_type,
      rx_O_T = None, rx_T_O = None, tx_O_T = None, tx_T_O = None, payload = None,
      session_handle = 0, tcp_peer = SockAddr 0 0\<rparr>"

definition Cpf_Clear :: "cpf \<Rightarrow> cpf" where
  "Cpf_Clear c = c\<lparr>address_item := (address_item c)\<lparr>ai_type_id := kCpfIdEmpty\<rparr>,
     data_item := (data_item c)\<lparr>di_type_id := kCpfIdEmpty\<rparr>,
     rx_O_T := None, rx_T_O := None, tx_O_T := None, tx_T_O := None\<rparr>"

definition AddNullAddressItem :: "cpf \<Rightarrow> cpf" where
  "AddNullAddressItem c = c\<lparr>address_item :=
     (address_item c)\<lparr>ai_type_id := kCpfIdNullAddress, ai_length := 0\<rparr>\<rparr>"

definition HasAddr :: "cpf \<Rightarrow> bool" where
  "HasAddr c \<longleftrightarrow> ai_type_id (address_item c) \<noteq> kCpfIdEmpty"

definition HasData :: "cpf \<Rightarrow> bool" where
  "HasData c \<longleftrightarrow> di_type_id (data_item c) \<noteq> kCpfIdEmpty"

definition AddTx :: "int \<Rightarrow> sock_addr \<Rightarrow> cpf \<Rightarrow> cpf" where
  "AddTx t a c = (if t = kCpfIdSockAddrInfo_T_O then c\<lparr>tx_T_O := Some a\<rparr>
                  else if t = kCpfIdSockAddrInfo_O_T then c\<lparr>tx_O_T := Some a\<rparr> else c)"

definition AddRx :: "int \<Rightarrow> sock_addr \<Rightarrow> cpf \<Rightarrow> cpf" where
  "AddRx t a c = (if t = kCpfIdSockAddrInfo_T_O then c\<lparr>rx_T_O := Some a\<rparr>
                  else if t = kCpfIdSockAddrInfo_O_T then c\<lparr>rx_O_T := Some a\<rparr> else c)"

definition SaiiRx :: "int \<Rightarrow> cpf \<Rightarrow> sock_addr option" where
  "SaiiRx t c = (if t = kCpfIdSockAddrInfo_O_T then rx_O_T c
                 else if t = kCpfIdSockAddrInfo_T_O then rx_T_O c else None)"

definition SaiiTx :: "int \<Rightarrow> cpf \<Rightarrow> sock_addr option" where
  "SaiiTx t c = (if t = kCpfIdSockAddrInfo_O_T then tx_O_T c
                 else if t = kCpfIdSockAddrInfo_T_O then tx_T_O c else None)"

section \<open>Socket address items\<close>

definition serialize_sockaddr :: "writer \<Rightarrow> sock_addr \<Rightarrow> writer res" where
  "serialize_sockaddr w a =
     bindE (put16BE w (ucast (Family a))) (\<lambda>w.
     bindE (put16BE w (ucast (Port a))) (\<lambda>w.
     bindE (put32BE w (Addr a)) (\<lambda>w. fill w 8 0)))"

text \<open>The address parsed into is a fresh \<open>SockAddr\<close>.\<close>

definition deserialize_sockaddr :: "byte list \<Rightarrow> (sock_addr \<times> byte list) res" where
  "deserialize_sockaddr r =
     bindE (get16BE r) (\<lambda>(family, r).
     bindE (get16BE r) (\<lambda>(port, r).
     bindE (get32BE r) (\<lambda>(ip, r).
     bindE (r_advance r 8) (\<lambda>r.
     Inr (SetAddr ip (SetPort (ucast port) (SetFamily (ucast family) (SockAddr 0 0))), r)))))"

definition sockaddr_wire :: "sock_addr \<Rightarrow> byte list" where
  "sockaddr_wire a = be16 (ucast (Family a)) @ be16 (ucast (Port a)) @ be32 (Addr a) @ replicate 8 0"

definition ok_sockaddr :: "sock_addr \<Rightarrow> bool" where
  "ok_sockaddr a \<longleftrightarrow> sin_zero a = replicate 8 0"

lemma length_sockaddr_wire [simp]: "length (sockaddr_wire a) = 16"
  by (simp add: sockaddr_wire_def)

lemma serialize_sockaddr_wire [ser_simps]: "serialize_sockaddr w a = append_bytes w (sockaddr_wire a)"
  by (simp add: serialize_sockaddr_def sockaddr_wire_def ser_simps)

lemma deserialize_sockaddr_wire [des_simps]:
  assumes "ok_sockaddr a"
  shows "deserialize_sockaddr (sockaddr_wire a @ rest) = Inr (a, rest)"
proof -
  have "SetAddr (Addr a) (SetPort (ucast (ucast (Port a) :: u16))
      (SetFamily (ucast (ucast (Family a) :: u16)) (SockAddr 0 0))) = a"
    using assms by (cases a) (simp add: SetAddr_def SetPort_def SetFamily_def SockAddr_def Addr_def
        Port_def Family_def ok_sockaddr_def)
  then show ?thesis
    by (simp add: deserialize_sockaddr_def sockaddr_wire_def des_simps r_advance_def)
qed

interpretation sockaddr_codec: wire_codec serialize_sockaddr deserialize_sockaddr sockaddr_wire
    ok_sockaddr
  by unfold_locales (simp_all add: ser_simps des_simps)

section \<open>Parsing\<close>

text \<open>One item. The flag tells whether the loop goes on: it is false when the code jumps to \<open>error\<close> or
  catches a \<open>range_error\<close>; the reader is then the one the reported offset is computed from.\<close>

definition cpf_address :: "int \<Rightarrow> u16 \<Rightarrow> cpf \<Rightarrow> byte list \<Rightarrow> bool \<times> cpf \<times> byte list" where
  "cpf_address t len c r =
    (let c = c\<lparr>address_item := (address_item c)\<lparr>ai_type_id := t, ai_length := len\<rparr>\<rparr> in
     case (if len \<ge> 4
           then bindE (get32 r) (\<lambda>(v, r).
                  Inr (c\<lparr>address_item := (address_item c)\<lparr>connection_identifier := v\<rparr>\<rparr>, r))
           else Inr (c, r)) of
       Inl e \<Rightarrow> (False, c, r)
     | Inr (c, r) \<Rightarrow>
         if len = 8 then
           case get32 r of
             Inl e \<Rightarrow> (False, c, r)
           | Inr (v, r) \<Rightarrow> (True, c\<lparr>address_item := (address_item c)\<lparr>encap_sequence_number := v\<rparr>\<rparr>, r)
         else (True, c, r))"

definition cpf_item :: "cpf \<Rightarrow> byte list \<Rightarrow> bool \<times> cpf \<times> byte list" where
  "cpf_item c r =
    (case get16 r of Inl e \<Rightarrow> (False, c, r) | Inr (type_id, r) \<Rightarrow>
     case get16 r of Inl e \<Rightarrow> (False, c, r) | Inr (len, r) \<Rightarrow>
     let t = uint type_id in
     if t \<in> {kCpfIdNullAddress, kCpfIdConnectedAddress, kCpfIdSequencedAddress}
     then cpf_address t len c r
     else if t \<in> {kCpfIdConnectedDataItem, kCpfIdUnconnectedDataItem} then
       let c = c\<lparr>data_item := \<lparr>di_type_id = t, di_data = take (unat len) r\<rparr>\<rparr> in
       case r_advance r (unat len) of
         Inl e \<Rightarrow> (False, c, r)
       | Inr r \<Rightarrow> (True, c, r)
     else if t \<in> {kCpfIdSockAddrInfo_O_T, kCpfIdSockAddrInfo_T_O} then
       if len = 16 then
         case deserialize_sockaddr r of
           Inl e \<Rightarrow> (False, c, r)
         | Inr (a, r) \<Rightarrow> (True, AddRx t a c, r)
       else (False, c, r)
     else (False, c, r))"

fun cpf_items :: "nat \<Rightarrow> cpf \<Rightarrow> byte list \<Rightarrow> bool \<times> cpf \<times> byte list" where
  "cpf_items 0 c r = (True, c, r)"
| "cpf_items (Suc n) c r =
     (case cpf_item c r of
        (True, c, r) \<Rightarrow> cpf_items n c r
      | (False, c, r) \<Rightarrow> (False, c, r))"

text \<open>The return value and the packet: the count of bytes consumed, or its negative.\<close>

definition DeserializeCpf :: "cpf \<Rightarrow> byte list \<Rightarrow> int \<times> cpf" where
  "DeserializeCpf c0 src =
    (let c = Cpf_Clear c0 in
     case get16 src of
       Inl e \<Rightarrow> (0, c)
     | Inr (received_item_count, r) \<Rightarrow>
         (case cpf_items (unat received_item_count) c r of
            (True, c, r) \<Rightarrow> (int (length src) - int (length r), c)
          | (False, c, r) \<Rightarrow> (int (length r) - int (length src), c)))"

section \<open>Serialization\<close>

definition cpf_item_count :: "cpf \<Rightarrow> nat" where
  "cpf_item_count c = of_bool (HasAddr c) + of_bool (HasData c) + of_bool (tx_O_T c \<noteq> None) +
     of_bool (tx_T_O c \<noteq> None)"

definition put_saii :: "int \<Rightarrow> sock_addr option \<Rightarrow> writer \<Rightarrow> writer res" where
  "put_saii t a w =
     (case a of
        None \<Rightarrow> Inr w
      | Some saii \<Rightarrow>
          bindE (put16 w (word_of_int t)) (\<lambda>w.
          bindE (put16 w 16) (\<lambda>w. serialize_sockaddr w saii)))"

definition put_address_item :: "address_item \<Rightarrow> writer \<Rightarrow> writer res" where
  "put_address_item a w =
    (let t = ai_type_id a in
     if t = kCpfIdNullAddress then bindE (put16 w (word_of_int t)) (\<lambda>w. put16 w 0)
     else if t = kCpfIdConnectedAddress then
       bindE (put16 w (word_of_int t)) (\<lambda>w. bindE (put16 w 4) (\<lambda>w.
       put32 w (connection_identifier a)))
     else if t = kCpfIdSequencedAddress then
       bindE (put16 w (word_of_int t)) (\<lambda>w. bindE (put16 w 8) (\<lambda>w.
       bindE (put32 w (connection_identifier a)) (\<lambda>w. put32 w (encap_sequence_number a))))
     else Inr w)"

definition put_data_item :: "cpf \<Rightarrow> writer \<Rightarrow> writer res" where
  "put_data_item c w =
    (let t = di_type_id (data_item c) in
     if t = kCpfIdUnconnectedDataItem \<or> t = kCpfIdConnectedDataItem then
       case payload c of
         Some pl \<Rightarrow>
           bindE (put16 w (word_of_int t)) (\<lambda>w.
           bindE (if t = kCpfIdConnectedDataItem then
                    bindE (put16 w (of_nat (length pl + 2))) (\<lambda>w.
                    put16 w (ucast (encap_sequence_number (address_item c))))
                  else put16 w (of_nat (length pl))) (\<lambda>w.
           append_bytes w pl))
       | None \<Rightarrow>
           let d = di_data (data_item c) in
           bindE (put16 w (word_of_int t)) (\<lambda>w.
           bindE (put16 w (of_nat (length d))) (\<lambda>w. append_bytes w d))
     else Inr w)"

definition Cpf_Serialize :: "writer \<Rightarrow> cpf \<Rightarrow> writer res" where
  "Cpf_Serialize out c =
     bindE (put16 out (of_nat (cpf_item_count c))) (\<lambda>w.
     bindE (put_address_item (address_item c) w) (\<lambda>w.
     bindE (put_data_item c w) (\<lambda>w.
     bindE (put_saii kCpfIdSockAddrInfo_O_T (tx_O_T c) w) (\<lambda>w.
     put_saii kCpfIdSockAddrInfo_T_O (tx_T_O c) w))))"

definition Cpf_SerializedCount :: "cpf \<Rightarrow> nat" where
  "Cpf_SerializedCount c =
    (let t = ai_type_id (address_item c); d = di_type_id (data_item c);
         addr = (if t = kCpfIdNullAddress then 4 else if t = kCpfIdConnectedAddress then 8
                 else if t = kCpfIdSequencedAddress then 12 else 0);
         data = (if d = kCpfIdUnconnectedDataItem \<or> d = kCpfIdConnectedDataItem then
                   4 + (case payload c of
                          Some pl \<Rightarrow> if d = kCpfIdConnectedDataItem then length pl + 2 else length pl
                        | None \<Rightarrow> 4 + length (di_data (data_item c)))
                 else 0)
     in 2 + addr + data + (if tx_O_T c \<noteq> None then 20 else 0) + (if tx_T_O c \<noteq> None then 20 else 0))"

section \<open>The wire format of a packet\<close>

definition address_wire :: "address_item \<Rightarrow> byte list" where
  "address_wire a =
    (let t = ai_type_id a; head = le16 (word_of_int t) in
     if t = kCpfIdNullAddress then head @ le16 0
     else if t = kCpfIdConnectedAddress then head @ le16 4 @ le32 (connection_identifier a)
     else if t = kCpfIdSequencedAddress then
       head @ le16 8 @ le32 (connection_identifier a) @ le32 (encap_sequence_number a)
     else [])"

text \<open>The data of the data item as sent: with a payload of a connected message, the sequence count
  comes first.\<close>

definition data_sent :: "cpf \<Rightarrow> byte list" where
  "data_sent c =
     (case payload c of
        Some pl \<Rightarrow>
          (if di_type_id (data_item c) = kCpfIdConnectedDataItem
           then le16 (ucast (encap_sequence_number (address_item c))) else []) @ pl
      | None \<Rightarrow> di_data (data_item c))"

definition data_item_wire :: "cpf \<Rightarrow> byte list" where
  "data_item_wire c =
    (let t = di_type_id (data_item c) in
     if t = kCpfIdUnconnectedDataItem \<or> t = kCpfIdConnectedDataItem
     then le16 (word_of_int t) @ le16 (of_nat (length (data_sent c))) @ data_sent c
     else [])"

definition saii_wire :: "int \<Rightarrow> sock_addr option \<Rightarrow> byte list" where
  "saii_wire t a = (case a of None \<Rightarrow> [] | Some saii \<Rightarrow> le16 (word_of_int t) @ le16 16 @ sockaddr_wire saii)"

definition cpf_wire :: "cpf \<Rightarrow> byte list" where
  "cpf_wire c = le16 (of_nat (cpf_item_count c)) @ address_wire (address_item c) @
     data_item_wire c @ saii_wire kCpfIdSockAddrInfo_O_T (tx_O_T c) @
     saii_wire kCpfIdSockAddrInfo_T_O (tx_T_O c)"

lemma put_address_item_wire:
  "wf_writer w \<Longrightarrow> put_address_item a w = append_bytes w (address_wire a)"
  by (simp add: put_address_item_def address_wire_def ser_simps Let_def append_nil)

lemma put_saii_wire: "wf_writer w \<Longrightarrow> put_saii t a w = append_bytes w (saii_wire t a)"
  by (simp add: put_saii_def saii_wire_def ser_simps append_nil split: option.split)

lemma put_data_item_wire: "wf_writer w \<Longrightarrow> put_data_item c w = append_bytes w (data_item_wire c)"
  by (simp add: put_data_item_def data_item_wire_def data_sent_def ser_simps Let_def append_nil
      split: option.split)

lemma Cpf_Serialize_wire [ser_simps]:
  assumes "wf_writer w"
  shows "Cpf_Serialize w c = append_bytes w (cpf_wire c)"
  unfolding Cpf_Serialize_def cpf_wire_def put_wire using assms
  by (intro append_then) (auto simp: put_address_item_wire put_data_item_wire put_saii_wire
      intro!: append_then)

lemma length_cpf_wire_payload:
  "payload c \<noteq> None \<Longrightarrow> Cpf_SerializedCount c = length (cpf_wire c)"
  by (auto simp: cpf_wire_def address_wire_def data_item_wire_def data_sent_def saii_wire_def
      Cpf_SerializedCount_def Let_def split: option.split)

text \<open>Without a payload \<open>SerializedCount\<close> claims four bytes more than \<open>Serialize\<close> writes.\<close>

lemma length_cpf_wire_no_payload:
  "payload c = None \<Longrightarrow>
   di_type_id (data_item c) \<in> {kCpfIdUnconnectedDataItem, kCpfIdConnectedDataItem} \<Longrightarrow>
   Cpf_SerializedCount c = length (cpf_wire c) + 4"
  by (auto simp: cpf_wire_def address_wire_def data_item_wire_def data_sent_def saii_wire_def
      Cpf_SerializedCount_def Let_def split: option.split)

section \<open>Round trip\<close>

definition addr_types :: "int set" where
  "addr_types = {kCpfIdNullAddress, kCpfIdConnectedAddress, kCpfIdSequencedAddress}"

definition data_types :: "int set" where
  "data_types = {kCpfIdConnectedDataItem, kCpfIdUnconnectedDataItem}"

definition ok_cpf :: "cpf \<Rightarrow> bool" where
  "ok_cpf c \<longleftrightarrow> ai_type_id (address_item c) \<in> insert kCpfIdEmpty addr_types \<and>
     di_type_id (data_item c) \<in> insert kCpfIdEmpty data_types \<and>
     length (data_sent c) < 65536 \<and>
     (case tx_O_T c of None \<Rightarrow> True | Some a \<Rightarrow> ok_sockaddr a) \<and>
     (case tx_T_O c of None \<Rightarrow> True | Some a \<Rightarrow> ok_sockaddr a)"

text \<open>Each optional item is taken by one round of the loop.\<close>

lemma uint_numeral_u16:
  "uint (word_of_int 0xA1 :: u16) = 0xA1" "uint (word_of_int 0xB1 :: u16) = 0xB1"
  "uint (word_of_int 0xB2 :: u16) = 0xB2" "uint (word_of_int 0x8000 :: u16) = 0x8000"
  "uint (word_of_int 0x8001 :: u16) = 0x8001" "uint (word_of_int 0x8002 :: u16) = 0x8002"
  by simp_all

definition parsed_address :: "address_item \<Rightarrow> cpf \<Rightarrow> cpf" where
  "parsed_address a c =
    (let t = ai_type_id a; old = address_item c in
     if t = kCpfIdNullAddress then c\<lparr>address_item := old\<lparr>ai_type_id := t, ai_length := 0\<rparr>\<rparr>
     else if t = kCpfIdConnectedAddress then
       c\<lparr>address_item := old\<lparr>ai_type_id := t, ai_length := 4,
           connection_identifier := connection_identifier a\<rparr>\<rparr>
     else if t = kCpfIdSequencedAddress then
       c\<lparr>address_item := old\<lparr>ai_type_id := t, ai_length := 8,
           connection_identifier := connection_identifier a,
           encap_sequence_number := encap_sequence_number a\<rparr>\<rparr>
     else c)"

lemma cpf_item_address:
  "ai_type_id a \<in> addr_types \<Longrightarrow> cpf_item c (address_wire a @ r) = (True, parsed_address a c, r)"
  by (auto simp: addr_types_def cpf_item_def address_wire_def parsed_address_def cpf_address_def
      des_simps Let_def)

lemma cpf_item_data:
  assumes "di_type_id (data_item d) \<in> data_types" and "length (data_sent d) < 65536"
  shows "cpf_item c (data_item_wire d @ r) =
    (True, c\<lparr>data_item := \<lparr>di_type_id = di_type_id (data_item d), di_data = data_sent d\<rparr>\<rparr>, r)"
  using assms by (auto simp: data_types_def cpf_item_def data_item_wire_def des_simps Let_def
      r_advance_def)

lemma cpf_item_saii:
  assumes "t \<in> {kCpfIdSockAddrInfo_O_T, kCpfIdSockAddrInfo_T_O}" and "ok_sockaddr a"
  shows "cpf_item c (saii_wire t (Some a) @ r) = (True, AddRx t a c, r)"
  using assms by (auto simp: cpf_item_def saii_wire_def des_simps Let_def)

lemma cpf_items_add:
  "cpf_items m c r = (True, c', r') \<Longrightarrow> cpf_items (m + n) c r = cpf_items n c' r'"
  by (induction m c r rule: cpf_items.induct) (auto split: prod.splits bool.splits)

text \<open>The packet a peer makes of what this side sends: what is transmitted here is received there.\<close>

definition received :: "cpf \<Rightarrow> cpf \<Rightarrow> cpf" where
  "received c0 c =
    (let h = Cpf_Clear c0;
         h = (if HasAddr c then parsed_address (address_item c) h else h);
         h = (if HasData c then h\<lparr>data_item := \<lparr>di_type_id = di_type_id (data_item c),
                                              di_data = data_sent c\<rparr>\<rparr> else h)
     in h\<lparr>rx_O_T := tx_O_T c, rx_T_O := tx_T_O c\<rparr>)"

lemma absent_wire:
  "ai_type_id a = kCpfIdEmpty \<Longrightarrow> address_wire a = []"
  "di_type_id (data_item c) = kCpfIdEmpty \<Longrightarrow> data_item_wire c = []"
  "saii_wire t None = []"
  by (simp_all add: address_wire_def data_item_wire_def saii_wire_def Let_def)

lemma cpf_items_optional:
  assumes "b \<Longrightarrow> cpf_item c (wire @ r) = (True, c', r)" and "\<not> b \<Longrightarrow> wire = [] \<and> c' = c"
  shows "cpf_items (of_bool b) c (wire @ r) = (True, c', r)"
  using assms by (cases b) simp_all

lemma cpf_items_wire:
  assumes "ok_cpf c"
  shows "cpf_items (cpf_item_count c) (Cpf_Clear c0)
     (address_wire (address_item c) @ data_item_wire c @
      saii_wire kCpfIdSockAddrInfo_O_T (tx_O_T c) @ saii_wire kCpfIdSockAddrInfo_T_O (tx_T_O c) @ rest) =
   (True, received c0 c, rest)"
proof -
  define h1 where "h1 = (if HasAddr c then parsed_address (address_item c) (Cpf_Clear c0) else Cpf_Clear c0)"
  define h2 where "h2 = (if HasData c then h1\<lparr>data_item := \<lparr>di_type_id = di_type_id (data_item c),
       di_data = data_sent c\<rparr>\<rparr> else h1)"
  define h3 where "h3 = (case tx_O_T c of None \<Rightarrow> h2 | Some a \<Rightarrow> AddRx kCpfIdSockAddrInfo_O_T a h2)"
  define h4 where "h4 = (case tx_T_O c of None \<Rightarrow> h3 | Some a \<Rightarrow> AddRx kCpfIdSockAddrInfo_T_O a h3)"
  have i1: "cpf_items (of_bool (HasAddr c)) (Cpf_Clear c0) (address_wire (address_item c) @ r) =
      (True, h1, r)" for r
    using assms by (intro cpf_items_optional)
      (auto simp: HasAddr_def h1_def ok_cpf_def absent_wire intro: cpf_item_address)
  have i2: "cpf_items (of_bool (HasData c)) h1 (data_item_wire c @ r) = (True, h2, r)" for r
    using assms by (intro cpf_items_optional)
      (auto simp: HasData_def h2_def ok_cpf_def absent_wire intro: cpf_item_data)
  have i3: "cpf_items (of_bool (tx_O_T c \<noteq> None)) h2
      (saii_wire kCpfIdSockAddrInfo_O_T (tx_O_T c) @ r) = (True, h3, r)" for r
    using assms by (intro cpf_items_optional)
      (auto simp: h3_def ok_cpf_def absent_wire intro: cpf_item_saii)
  have i4: "cpf_items (of_bool (tx_T_O c \<noteq> None)) h3
      (saii_wire kCpfIdSockAddrInfo_T_O (tx_T_O c) @ r) = (True, h4, r)" for r
    using assms by (intro cpf_items_optional)
      (auto simp: h4_def ok_cpf_def absent_wire intro: cpf_item_saii)
  have "h4 = received c0 c"
    by (auto simp: h4_def h3_def h2_def h1_def received_def AddRx_def Let_def Cpf_Clear_def
        parsed_address_def split: option.split)
  then show ?thesis
    unfolding cpf_item_count_def add.assoc
    by (simp only: cpf_items_add [OF i1] cpf_items_add [OF i2] cpf_items_add [OF i3] i4)
qed

lemma DeserializeCpf_wire:
  assumes "ok_cpf c"
  shows "DeserializeCpf c0 (cpf_wire c @ rest) = (int (length (cpf_wire c)), received c0 c)"
proof -
  have "unat (of_nat (cpf_item_count c) :: u16) = cpf_item_count c"
    by (simp add: cpf_item_count_def)
  then show ?thesis using cpf_items_wire [OF assms, of c0 rest]
    by (simp add: DeserializeCpf_def cpf_wire_def des_simps Let_def)
qed

end
