(* ===== verification/Cip_Common.thy ===== *)
theory Cip_Common
  imports Byte_Bufs
begin

text \<open>
  \<open>cip/cipcommon.h\<close>, \<open>cip/cipcommon.cc\<close> and \<open>cip/ciptypes.h\<close>: the binary searches over the sorted
  vectors of classes, instances, attributes and services, the byte array that backs settable
  attributes, and \<open>EncodeData\<close> / \<open>DecodeData\<close>, which translate between attribute storage and the
  wire by CIP data type.

  The iterators of a search are indices into the list of the \<open>Id()\<close>s. The difference of target and
  id is taken in the integers: ids and targets are at most 32 bits wide and, as the ids are not
  negative, their C++ difference is exact for every target that is not negative either.
\<close>

section \<open>Binary search\<close>

function vec_search_from :: "int list \<Rightarrow> int \<Rightarrow> nat \<Rightarrow> nat \<Rightarrow> nat \<Rightarrow> nat" where
  "vec_search_from ids target initial_end b e =
     (if b < e then
        let middle = b + (e - b - 1) div 2; r = target - ids ! middle in
        if r < 0 then vec_search_from ids target initial_end b middle
        else if r > 0 then vec_search_from ids target initial_end (middle + 1) e
        else middle
      else initial_end)"
  by pat_completeness auto

termination
  by (relation "measure (\<lambda>(ids, target, initial_end, b, e). e - b)") (auto simp: Let_def)

declare vec_search_from.simps [simp del]

definition vec_search :: "int list \<Rightarrow> int \<Rightarrow> nat" where
  "vec_search ids target = vec_search_from ids target (length ids) 0 (length ids)"

function vec_search_gte_from :: "int list \<Rightarrow> int \<Rightarrow> nat \<Rightarrow> nat \<Rightarrow> nat" where
  "vec_search_gte_from ids target b e =
     (if b < e then
        let middle = b + (e - b - 1) div 2; r = target - ids ! middle in
        if r < 0 then vec_search_gte_from ids target b middle
        else if r > 0 then vec_search_gte_from ids target (middle + 1) e
        else middle
      else e)"
  by pat_completeness auto

termination
  by (relation "measure (\<lambda>(ids, target, b, e). e - b)") (auto simp: Let_def)

declare vec_search_gte_from.simps [simp del]

definition vec_search_gte :: "int list \<Rightarrow> int \<Rightarrow> nat" where
  "vec_search_gte ids target = vec_search_gte_from ids target 0 (length ids)"

definition sorted_ids :: "int list \<Rightarrow> bool" where
  "sorted_ids ids \<longleftrightarrow> sorted_wrt (<) ids"

lemma sorted_ids_nth: "sorted_ids ids \<Longrightarrow> i < j \<Longrightarrow> j < length ids \<Longrightarrow> ids ! i < ids ! j"
  by (auto simp: sorted_ids_def sorted_wrt_iff_nth_less)

lemma sorted_ids_nth_eq:
  "sorted_ids ids \<Longrightarrow> i < length ids \<Longrightarrow> j < length ids \<Longrightarrow> ids ! i = ids ! j \<Longrightarrow> i = j"
  by (metis linorder_neqE_nat order_less_irrefl sorted_ids_nth)

text \<open>The interval \<open>[b, e)\<close> of a search always encloses the target: everything to its left is
  smaller, everything from \<open>e\<close> on is greater.\<close>

definition encloses :: "int list \<Rightarrow> int \<Rightarrow> nat \<Rightarrow> nat \<Rightarrow> bool" where
  "encloses ids t b e \<longleftrightarrow> b \<le> e \<and> e \<le> length ids \<and>
     (\<forall>i < b. ids ! i < t) \<and> (\<forall>i. e \<le> i \<and> i < length ids \<longrightarrow> t < ids ! i)"

lemma encloses_left:
  assumes "sorted_ids ids" "encloses ids t b e" "b \<le> m" "m < e" "t < ids ! m"
  shows "encloses ids t b m"
  using assms unfolding encloses_def by (metis le_eq_less_or_eq less_trans order_less_le_trans
      sorted_ids_nth)

lemma encloses_right:
  assumes "sorted_ids ids" "encloses ids t b e" "b \<le> m" "m < e" "ids ! m < t"
  shows "encloses ids t (m + 1) e"
  using assms unfolding encloses_def
  by (metis Suc_eq_plus1 Suc_leI less_Suc_eq less_trans order_less_le_trans sorted_ids_nth)

lemma middle_bounds: "b < e \<Longrightarrow> b \<le> b + (e - b - 1) div 2 \<and> b + (e - b - 1) div 2 < (e :: nat)"
  by auto

lemma vec_search_from_step:
  assumes "b < e" and "m = b + (e - b - 1) div 2"
  shows "t < ids ! m \<Longrightarrow> vec_search_from ids t n b e = vec_search_from ids t n b m"
    and "ids ! m < t \<Longrightarrow> vec_search_from ids t n b e = vec_search_from ids t n (m + 1) e"
    and "t = ids ! m \<Longrightarrow> vec_search_from ids t n b e = m"
  using assms by (subst vec_search_from.simps; simp add: Let_def)+

lemma vec_search_from_correct:
  assumes "sorted_ids ids" "encloses ids t b e"
  shows "(\<exists>i < length ids. ids ! i = t \<and> vec_search_from ids t n b e = i) \<or>
         (t \<notin> set ids \<and> vec_search_from ids t n b e = n)"
  using assms
proof (induction "e - b" arbitrary: b e rule: less_induct)
  case less
  define m where "m = b + (e - b - 1) div 2"
  show ?case
  proof (cases "b < e")
    case True
    then have m: "b \<le> m" "m < e" using middle_bounds m_def by auto
    note step = vec_search_from_step [OF True m_def]
    have "e \<le> length ids" using less by (simp add: encloses_def)
    consider "t < ids ! m" | "ids ! m < t" | "t = ids ! m" by linarith
    then show ?thesis
    proof cases
      case 1
      show ?thesis unfolding step(1) [OF 1]
        using less(1) [of m b] m True encloses_left [OF less(2,3) m 1] less(2) by auto
    next
      case 2
      show ?thesis unfolding step(2) [OF 2]
        using less(1) [of e "m + 1"] m encloses_right [OF less(2,3) m 2] less(2) by auto
    next
      case 3
      then show ?thesis using step(3) [OF 3] m \<open>e \<le> length ids\<close> by auto
    qed
  next
    case False
    have "ids ! i < t \<or> t < ids ! i" if "i < length ids" for i
      using less(3) False that by (cases "i < b") (simp_all add: encloses_def)
    then have "ids ! i \<noteq> t" if "i < length ids" for i
      using that by fastforce
    then have "t \<notin> set ids" by (auto simp: in_set_conv_nth)
    then show ?thesis using False by (simp add: vec_search_from.simps)
  qed
qed

lemma encloses_all: "encloses ids t 0 (length ids)"
  by (simp add: encloses_def)

lemma vec_search_found:
  assumes "sorted_ids ids" "i < length ids"
  shows "vec_search ids (ids ! i) = i"
  using vec_search_from_correct [OF assms(1) encloses_all, of "ids ! i" "length ids"] assms
  by (auto simp: vec_search_def dest: sorted_ids_nth_eq)

lemma vec_search_absent:
  assumes "sorted_ids ids" "t \<notin> set ids"
  shows "vec_search ids t = length ids"
  using vec_search_from_correct [OF assms(1) encloses_all, of t "length ids"] assms(2)
  unfolding vec_search_def by (metis nth_mem)

lemma vec_search_gte_from_step:
  assumes "b < e" and "m = b + (e - b - 1) div 2"
  shows "t < ids ! m \<Longrightarrow> vec_search_gte_from ids t b e = vec_search_gte_from ids t b m"
    and "ids ! m < t \<Longrightarrow> vec_search_gte_from ids t b e = vec_search_gte_from ids t (m + 1) e"
    and "t = ids ! m \<Longrightarrow> vec_search_gte_from ids t b e = m"
  using assms by (subst vec_search_gte_from.simps; simp add: Let_def)+

lemma length_takeWhile_less:
  fixes ids :: "int list"
  assumes "k \<le> length ids" "\<forall>i < k. ids ! i < t" "k < length ids \<Longrightarrow> t \<le> ids ! k"
  shows "length (takeWhile (\<lambda>x. x < t) ids) = k"
proof -
  have "takeWhile (\<lambda>x. x < t) ids = take k ids"
    using assms by (intro takeWhile_eq_take_P_nth) auto
  then show ?thesis using assms(1) by simp
qed

lemma vec_search_gte_from_correct:
  assumes "sorted_ids ids" "encloses ids t b e"
  shows "vec_search_gte_from ids t b e = length (takeWhile (\<lambda>x. x < t) ids)"
  using assms
proof (induction "e - b" arbitrary: b e rule: less_induct)
  case less
  define m where "m = b + (e - b - 1) div 2"
  show ?case
  proof (cases "b < e")
    case True
    then have m: "b \<le> m" "m < e" using middle_bounds m_def by auto
    note step = vec_search_gte_from_step [OF True m_def]
    have el: "e \<le> length ids" using less by (simp add: encloses_def)
    consider "t < ids ! m" | "ids ! m < t" | "t = ids ! m" by linarith
    then show ?thesis
    proof cases
      case 1
      show ?thesis unfolding step(1) [OF 1]
        using less(1) [of m b] m True encloses_left [OF less(2,3) m 1] less(2) by auto
    next
      case 2
      show ?thesis unfolding step(2) [OF 2]
        using less(1) [of e "m + 1"] m encloses_right [OF less(2,3) m 2] less(2) by auto
    next
      case 3
      have "length (takeWhile (\<lambda>x. x < t) ids) = m"
        using 3 m el sorted_ids_nth [OF less(2)] by (intro length_takeWhile_less) auto
      then show ?thesis using step(3) [OF 3] by simp
    qed
  next
    case False
    then have "b = e" using less by (simp add: encloses_def)
    moreover have "length (takeWhile (\<lambda>x. x < t) ids) = e"
      using less(3) \<open>b = e\<close> by (intro length_takeWhile_less) (auto simp: encloses_def less_imp_le)
    ultimately show ?thesis by (simp add: vec_search_gte_from.simps)
  qed
qed

lemma vec_search_gte_correct:
  "sorted_ids ids \<Longrightarrow> vec_search_gte ids t = length (takeWhile (\<lambda>x. x < t) ids)"
  by (simp add: vec_search_gte_def vec_search_gte_from_correct encloses_all)

section \<open>CipByteArray\<close>

text \<open>\<open>ba_mem\<close> is the memory of the application that \<open>start\<close> points to.\<close>

record byte_array =
  ba_mem :: "byte list"
  ba_cap :: u16
  ba_len :: u16

definition wf_byte_array :: "byte_array \<Rightarrow> bool" where
  "wf_byte_array a \<longleftrightarrow> unat (ba_cap a) \<le> length (ba_mem a) \<and> ba_len a \<le> ba_cap a"

definition CipByteArray :: "byte list \<Rightarrow> u16 \<Rightarrow> u16 \<Rightarrow> byte_array" where
  "CipByteArray mem c len = \<lparr>ba_mem = mem, ba_cap = c, ba_len = (if len \<le> c then len else c)\<rparr>"

definition SetLength :: "byte_array \<Rightarrow> u16 \<Rightarrow> bool \<times> byte_array" where
  "SetLength a n = (if n > ba_cap a then (False, a) else (True, a\<lparr>ba_len := n\<rparr>))"

definition ba_Reader :: "byte_array \<Rightarrow> byte list" where
  "ba_Reader a = take (unat (ba_len a)) (ba_mem a)"

definition ba_Writer :: "byte_array \<Rightarrow> writer" where
  "ba_Writer a = \<lparr>w_mem = ba_mem a, w_pos = 0, w_lim = unat (ba_cap a)\<rparr>"

section \<open>EncodeData and DecodeData\<close>

datatype CipDataType =
    kCipAny | kCipBool | kCipSint | kCipInt | kCipDint | kCipLint | kCipUsint | kCipUint
  | kCipUdint | kCipUlint | kCipReal | kCipLreal | kCipStime | kCipDate | kCipTimeOfDay
  | kCipDateAndTime | kCipString | kCipByte | kCipWord | kCipDword | kCipLword | kCipString2
  | kCipFtime | kCipLtime | kCipItime | kCipStringN | kCipShortString | kCipTime | kCipEngUnit
  | kCipStringI | kCipUsintUsint | kCip6Usint | kCipMemberList | kCipByteArray
  | kCipByteArrayLength

text \<open>The object a \<open>void*\<close> attribute pointer points to. Reading an object through a pointer to
  another type is undefined.\<close>

datatype cip_value =
    V8 u8 | V16 u16 | V32 u32 | V64 u64 | VString "byte list" | VRevision u8 u8
  | VBytes "byte list" | VArray byte_array

fun put_v8 :: "cip_value \<Rightarrow> writer \<Rightarrow> writer res" where
  "put_v8 (V8 b) w = put8 w b"
| "put_v8 _ w = Inl Undefined"

fun put_v16 :: "cip_value \<Rightarrow> writer \<Rightarrow> writer res" where
  "put_v16 (V16 x) w = put16 w x"
| "put_v16 _ w = Inl Undefined"

fun put_v32 :: "cip_value \<Rightarrow> writer \<Rightarrow> writer res" where
  "put_v32 (V32 x) w = put32 w x"
| "put_v32 _ w = Inl Undefined"

fun put_v64 :: "cip_value \<Rightarrow> writer \<Rightarrow> writer res" where
  "put_v64 (V64 x) w = put64 w x"
| "put_v64 _ w = Inl Undefined"

fun v_string :: "cip_value \<Rightarrow> byte list res" where
  "v_string (VString s) = Inr s"
| "v_string _ = Inl Undefined"

fun v_array :: "cip_value \<Rightarrow> byte_array res" where
  "v_array (VArray a) = Inr a"
| "v_array _ = Inl Undefined"

fun put_revision :: "cip_value \<Rightarrow> writer \<Rightarrow> writer res" where
  "put_revision (VRevision major minor) w = bindE (put8 w major) (\<lambda>w. put8 w minor)"
| "put_revision _ w = Inl Undefined"

fun put_6usint :: "cip_value \<Rightarrow> writer \<Rightarrow> writer res" where
  "put_6usint (VBytes bs) w = (if length bs < 6 then Inl Undefined else append_bytes w (take 6 bs))"
| "put_6usint _ w = Inl Undefined"

definition EncodeData :: "CipDataType \<Rightarrow> cip_value \<Rightarrow> writer \<Rightarrow> writer res" where
  "EncodeData ty v w =
    (case ty of
       kCipBool \<Rightarrow> put_v8 v w | kCipSint \<Rightarrow> put_v8 v w
     | kCipUsint \<Rightarrow> put_v8 v w | kCipByte \<Rightarrow> put_v8 v w
     | kCipInt \<Rightarrow> put_v16 v w | kCipUint \<Rightarrow> put_v16 v w | kCipWord \<Rightarrow> put_v16 v w
     | kCipDint \<Rightarrow> put_v32 v w | kCipUdint \<Rightarrow> put_v32 v w
     | kCipDword \<Rightarrow> put_v32 v w | kCipReal \<Rightarrow> put_v32 v w
     | kCipLint \<Rightarrow> put_v64 v w | kCipUlint \<Rightarrow> put_v64 v w
     | kCipLword \<Rightarrow> put_v64 v w | kCipLreal \<Rightarrow> put_v64 v w
     | kCipString \<Rightarrow> bindE (v_string v) (\<lambda>s. put_STRING False w s)
     | kCipShortString \<Rightarrow> bindE (v_string v) (\<lambda>s. put_SHORT_STRING False w s)
     | kCipString2 \<Rightarrow> bindE (v_string v) (\<lambda>s. put_STRING2 w s)
     | kCipUsintUsint \<Rightarrow> put_revision v w
     | kCip6Usint \<Rightarrow> put_6usint v w
     | kCipByteArray \<Rightarrow> bindE (v_array v) (\<lambda>a. append_bytes w (ba_Reader a))
     | kCipByteArrayLength \<Rightarrow> bindE (v_array v) (\<lambda>a. put16 w (ba_len a))
     | _ \<Rightarrow> Inr w)"

text \<open>The result is the value returned by the C++ function (the bytes consumed, or \<open>-1\<close>), the object
  afterwards, and the reader afterwards.\<close>

definition decoded :: "byte list \<Rightarrow> cip_value \<times> byte list \<Rightarrow> int \<times> cip_value \<times> byte list" where
  "decoded r = (\<lambda>(v, r'). (int (length r) - int (length r'), v, r'))"

definition get_v8 :: "byte list \<Rightarrow> (int \<times> cip_value \<times> byte list) res" where
  "get_v8 r = bindE (get8 r) (\<lambda>(b, r'). Inr (decoded r (V8 b, r')))"

definition get_v16 :: "byte list \<Rightarrow> (int \<times> cip_value \<times> byte list) res" where
  "get_v16 r = bindE (get16 r) (\<lambda>(x, r'). Inr (decoded r (V16 x, r')))"

definition get_v32 :: "byte list \<Rightarrow> (int \<times> cip_value \<times> byte list) res" where
  "get_v32 r = bindE (get32 r) (\<lambda>(x, r'). Inr (decoded r (V32 x, r')))"

definition get_v64 :: "byte list \<Rightarrow> (int \<times> cip_value \<times> byte list) res" where
  "get_v64 r = bindE (get64 r) (\<lambda>(x, r'). Inr (decoded r (V64 x, r')))"

definition decode_array :: "byte_array \<Rightarrow> byte list \<Rightarrow> (int \<times> cip_value \<times> byte list) res" where
  "decode_array a r =
     (if length r > unat (ba_cap a) then Inr (-1, VArray a, r)
      else bindE (append_bytes (ba_Writer a) r) (\<lambda>w.
        let a' = snd (SetLength (a\<lparr>ba_mem := w_mem w\<rparr>) (of_nat (length r)))
        in Inr (decoded r (VArray a', []))))"

definition decode_array_length :: "byte_array \<Rightarrow> byte list \<Rightarrow> (int \<times> cip_value \<times> byte list) res" where
  "decode_array_length a r =
     bindE (get16 r) (\<lambda>(n, r'). case SetLength a n of
         (True, a') \<Rightarrow> Inr (decoded r (VArray a', r'))
       | (False, a') \<Rightarrow> Inr (-1, VArray a', r'))"

definition DecodeData :: "CipDataType \<Rightarrow> cip_value \<Rightarrow> byte list \<Rightarrow> (int \<times> cip_value \<times> byte list) res"
  where
  "DecodeData ty v r =
    (case ty of
       kCipBool \<Rightarrow> get_v8 r | kCipSint \<Rightarrow> get_v8 r | kCipUsint \<Rightarrow> get_v8 r | kCipByte \<Rightarrow> get_v8 r
     | kCipInt \<Rightarrow> get_v16 r | kCipUint \<Rightarrow> get_v16 r | kCipWord \<Rightarrow> get_v16 r
     | kCipDint \<Rightarrow> get_v32 r | kCipUdint \<Rightarrow> get_v32 r | kCipDword \<Rightarrow> get_v32 r
     | kCipLint \<Rightarrow> get_v64 r | kCipUlint \<Rightarrow> get_v64 r | kCipLword \<Rightarrow> get_v64 r
     | kCipByteArray \<Rightarrow> bindE (v_array v) (\<lambda>a. decode_array a r)
     | kCipByteArrayLength \<Rightarrow> bindE (v_array v) (\<lambda>a. decode_array_length a r)
     | kCipString \<Rightarrow> bindE (get_STRING True r) (\<lambda>(s, r'). Inr (decoded r (VString s, r')))
     | kCipShortString \<Rightarrow>
         bindE (get_SHORT_STRING True r) (\<lambda>(s, r'). Inr (decoded r (VString s, r')))
     | kCipString2 \<Rightarrow> bindE (get_STRING2 r) (\<lambda>(s, r'). Inr (decoded r (VString s, r')))
     | _ \<Rightarrow> Inr (-1, v, r))"

section \<open>What a set does to a byte array\<close>

lemma decode_array_fits:
  assumes "wf_byte_array a" and "length r \<le> unat (ba_cap a)"
  shows "decode_array a r =
    Inr (int (length r),
         VArray (a\<lparr>ba_mem := r @ drop (length r) (ba_mem a), ba_len := of_nat (length r)\<rparr>), [])"
proof -
  have "length r < 65536" using assms(2) unat_u16_less [of "ba_cap a"] by linarith
  moreover have "\<not> (of_nat (length r) :: u16) > ba_cap a"
    using assms(2) calculation by (simp add: word_less_nat_alt)
  ultimately show ?thesis
    using assms by (simp add: decode_array_def append_bytes_def ba_Writer_def SetLength_def
        decoded_def Let_def poke_eq wf_byte_array_def)
qed

lemma decode_array_too_long:
  "length r > unat (ba_cap a) \<Longrightarrow> decode_array a r = Inr (-1, VArray a, r)"
  by (simp add: decode_array_def)

lemma decode_array_wf:
  assumes "wf_byte_array a" and "decode_array a r = Inr (n, VArray a', r')"
  shows "wf_byte_array a' \<and> length (ba_mem a') = length (ba_mem a) \<and> ba_cap a' = ba_cap a \<and>
    drop (unat (ba_cap a)) (ba_mem a') = drop (unat (ba_cap a)) (ba_mem a)"
proof (cases "length r \<le> unat (ba_cap a)")
  case True
  have "length r < 65536" using True unat_u16_less [of "ba_cap a"] by linarith
  then have "(of_nat (length r) :: u16) \<le> ba_cap a"
    using True by (simp add: word_le_nat_alt)
  then show ?thesis
    using assms True by (auto simp: decode_array_fits wf_byte_array_def drop_append)
next
  case False
  then show ?thesis using assms by (simp add: decode_array_too_long)
qed

lemma decode_array_length_wf:
  assumes "wf_byte_array a" and "decode_array_length a r = Inr (n, VArray a', r')"
  shows "wf_byte_array a' \<and> ba_mem a' = ba_mem a \<and> ba_cap a' = ba_cap a"
  using assms by (auto simp: decode_array_length_def SetLength_def wf_byte_array_def decoded_def
      bindE_eq_Inr split: if_splits)

text \<open>The types a set and a get agree on: what \<open>EncodeData\<close> writes, \<open>DecodeData\<close> reads.\<close>

fun decodable :: "CipDataType \<Rightarrow> cip_value \<Rightarrow> bool" where
  "decodable ty (V8 b) \<longleftrightarrow> ty \<in> {kCipBool, kCipSint, kCipUsint, kCipByte}"
| "decodable ty (V16 x) \<longleftrightarrow> ty \<in> {kCipInt, kCipUint, kCipWord}"
| "decodable ty (V32 x) \<longleftrightarrow> ty \<in> {kCipDint, kCipUdint, kCipDword}"
| "decodable ty (V64 x) \<longleftrightarrow> ty \<in> {kCipLint, kCipUlint, kCipLword}"
| "decodable ty (VString s) \<longleftrightarrow>
     (ty = kCipString \<and> even (length s) \<and> length s < 65536) \<or>
     (ty = kCipShortString \<and> odd (length s) \<and> length s < 256) \<or>
     (ty = kCipString2 \<and> length s < 65536)"
| "decodable ty _ \<longleftrightarrow> False"

fun value_wire :: "CipDataType \<Rightarrow> cip_value \<Rightarrow> byte list" where
  "value_wire ty (V8 b) = [b]"
| "value_wire ty (V16 x) = le16 x"
| "value_wire ty (V32 x) = le32 x"
| "value_wire ty (V64 x) = le64 x"
| "value_wire ty (VString s) =
     (case ty of kCipString \<Rightarrow> string_wire False s
      | kCipShortString \<Rightarrow> short_string_wire False s
      | _ \<Rightarrow> string2_wire s)"
| "value_wire ty (VRevision major minor) = [major, minor]"
| "value_wire ty (VBytes bs) = take 6 bs"
| "value_wire ty (VArray a) =
     (case ty of kCipByteArrayLength \<Rightarrow> le16 (ba_len a) | _ \<Rightarrow> ba_Reader a)"

lemma EncodeData_wire:
  "decodable ty v \<Longrightarrow> wf_writer w \<Longrightarrow> EncodeData ty v w = append_bytes w (value_wire ty v)"
  by (cases v) (auto simp: EncodeData_def ser_simps)

lemma string_wire_unpadded:
  "even (length s) \<Longrightarrow> string_wire False s = string_wire True s"
  "odd (length s) \<Longrightarrow> short_string_wire False s = short_string_wire True s"
  by (simp_all add: string_wire_def short_string_wire_def)

lemma DecodeData_wire:
  "decodable ty v \<Longrightarrow>
   DecodeData ty old (value_wire ty v @ rest) = Inr (int (length (value_wire ty v)), v, rest)"
  by (cases v) (auto simp: DecodeData_def des_simps get_v8_def get_v16_def get_v32_def get_v64_def
      decoded_def string_wire_unpadded)

end
