(* ===== verification/Cip_EPath.thy ===== *)
theory Cip_EPath
  imports Cip_Common
begin

unbundle bit_operations_syntax

text \<open>
  \<open>CipAppPath\<close> of \<open>cip/cipepath.h\<close> and \<open>cip/cipepath.cc\<close>: the application path of a request, in its
  symbolic form (a tag with up to three indices) and its logical form (class, instance, connection
  point, attribute), with serialization, parsing and the inheritance of the more significant fields
  from a preceding path.

  \<open>stuff[]\<close> is a list indexed by the enumerators of \<open>Stuff\<close>, \<open>pbits\<close> the word that tells which of its
  cells, and whether \<open>tag\<close>, are in use. The array \<open>tag\<close> is seen through \<open>strlen\<close>, \<open>strcmp\<close> and
  \<open>strcpy\<close> only, so it is the list of the characters before its first zero. A parser that returns a
  byte count is a function that returns the rest of the input; the count is the difference of the
  two lengths.
\<close>

section \<open>Control flags\<close>

text \<open>\<open>enum CTL_FLAGS\<close>; a flag is tested with the bit it stands for.\<close>

definition CTL_OMIT_CLASS :: "u32 \<Rightarrow> bool" where "CTL_OMIT_CLASS ctl \<longleftrightarrow> bit ctl 0"
definition CTL_OMIT_INSTANCE :: "u32 \<Rightarrow> bool" where "CTL_OMIT_INSTANCE ctl \<longleftrightarrow> bit ctl 1"
definition CTL_OMIT_CONN_PT :: "u32 \<Rightarrow> bool" where "CTL_OMIT_CONN_PT ctl \<longleftrightarrow> bit ctl 2"
definition CTL_PACKED_EPATH :: "u32 \<Rightarrow> bool" where "CTL_PACKED_EPATH ctl \<longleftrightarrow> bit ctl 5"
definition CTL_OMIT_CONN_PATH :: "u32 \<Rightarrow> bool" where "CTL_OMIT_CONN_PATH ctl \<longleftrightarrow> bit ctl 6"
definition CTL_FORWARD_OPEN :: "u32 \<Rightarrow> bool" where "CTL_FORWARD_OPEN ctl \<longleftrightarrow> bit ctl 7"
definition CTL_FORWARD_CLOSE :: "u32 \<Rightarrow> bool" where "CTL_FORWARD_CLOSE ctl \<longleftrightarrow> bit ctl 8"

lemmas ctl_defs = CTL_OMIT_CLASS_def CTL_OMIT_INSTANCE_def CTL_OMIT_CONN_PT_def
  CTL_PACKED_EPATH_def CTL_OMIT_CONN_PATH_def CTL_FORWARD_OPEN_def CTL_FORWARD_CLOSE_def

section \<open>CipAppPath\<close>

text \<open>\<open>enum CipAppPath::Stuff\<close>.\<close>

abbreviation ATTRIBUTE :: nat where "ATTRIBUTE \<equiv> 0"
abbreviation CONN_PT :: nat where "CONN_PT \<equiv> 1"
abbreviation INSTANCE :: nat where "INSTANCE \<equiv> 2"
abbreviation CLASS :: nat where "CLASS \<equiv> 3"
abbreviation LOGICAL_END :: nat where "LOGICAL_END \<equiv> 4"
abbreviation MEMBER1 :: nat where "MEMBER1 \<equiv> 4"
abbreviation MEMBER2 :: nat where "MEMBER2 \<equiv> 5"
abbreviation MEMBER3 :: nat where "MEMBER3 \<equiv> 6"
abbreviation TAG :: nat where "TAG \<equiv> 7"

text \<open>Segment type bytes, and the class id of the assembly class.\<close>

abbreviation kLogicalSegmentClassId :: u8 where "kLogicalSegmentClassId \<equiv> 0x20"
abbreviation kLogicalSegmentInstanceId :: u8 where "kLogicalSegmentInstanceId \<equiv> 0x24"
abbreviation kLogicalSegmentMemberId :: u8 where "kLogicalSegmentMemberId \<equiv> 0x28"
abbreviation kLogicalSegmentConnectionPoint :: u8 where "kLogicalSegmentConnectionPoint \<equiv> 0x2C"
abbreviation kLogicalSegmentAttributeId :: u8 where "kLogicalSegmentAttributeId \<equiv> 0x30"
abbreviation kDataSegmentANSIExtendedSymbol :: u8 where "kDataSegmentANSIExtendedSymbol \<equiv> 0x91"
abbreviation kSegmentSymbolic :: u8 where "kSegmentSymbolic \<equiv> 0x60"
abbreviation kCipAssemblyClass :: u32 where "kCipAssemblyClass \<equiv> 4"

record app_path =
  ap_pbits :: u32
  ap_stuff :: "u32 list"
  ap_tag :: "byte list"

definition new_app_path :: "u32 list \<Rightarrow> app_path" where
  "new_app_path garbage = \<lparr>ap_pbits = 0, ap_stuff = garbage, ap_tag = []\<rparr>"

definition wf_app_path :: "app_path \<Rightarrow> bool" where
  "wf_app_path p \<longleftrightarrow> length (ap_stuff p) = 7 \<and> length (ap_tag p) \<le> 41 \<and> 0 \<notin> set (ap_tag p)"

definition ap_has :: "nat \<Rightarrow> app_path \<Rightarrow> bool" where
  "ap_has k p = bit (ap_pbits p) k"

text \<open>\<open>SetClass\<close>, \<open>SetInstance\<close>, \<open>SetAttribute\<close>, \<open>SetConnPt\<close>, \<open>SetMember1\<close>, ...\<close>

definition ap_set :: "nat \<Rightarrow> u32 \<Rightarrow> app_path \<Rightarrow> app_path" where
  "ap_set k v p = p\<lparr>ap_stuff := (ap_stuff p)[k := v], ap_pbits := set_bit k (ap_pbits p)\<rparr>"

text \<open>\<open>GetClass\<close>, \<open>GetInstance\<close>, ...: zero when the field is absent.\<close>

definition ap_get :: "nat \<Rightarrow> app_path \<Rightarrow> u32" where
  "ap_get k p = (if ap_has k p then ap_stuff p ! k else 0)"

definition ap_Clear :: "app_path \<Rightarrow> app_path" where
  "ap_Clear p = p\<lparr>ap_pbits := 0\<rparr>"

text \<open>The constructor \<open>CipAppPath( aClassId, aInstanceId, aAttributeId )\<close>.\<close>

definition CipAppPath :: "u32 list \<Rightarrow> u32 \<Rightarrow> u32 \<Rightarrow> u32 \<Rightarrow> app_path" where
  "CipAppPath garbage c i a =
     (let p = ap_set INSTANCE i (ap_set CLASS c (new_app_path garbage))
      in if a \<noteq> 0 then ap_set ATTRIBUTE a p else p)"

text \<open>\<open>s\<close> is a C string: its characters before the terminating zero.\<close>

definition SetSymbol :: "byte list \<Rightarrow> app_path \<Rightarrow> bool \<times> app_path" where
  "SetSymbol s p =
     (if length s > 41 then (False, p)
      else (True, p\<lparr>ap_tag := s, ap_pbits := set_bit TAG (ap_pbits p)\<rparr>))"

definition GetSymbol :: "app_path \<Rightarrow> byte list" where
  "GetSymbol p = (if ap_has TAG p then ap_tag p else [])"

definition HasLogical :: "app_path \<Rightarrow> bool" where
  "HasLogical p = ap_has CLASS p"

definition IsSufficient :: "app_path \<Rightarrow> bool" where
  "IsSufficient p =
     (if ap_get CLASS p = kCipAssemblyClass
      then ap_has CLASS p \<and> (ap_has INSTANCE p \<or> ap_has CONN_PT p)
      else ap_has CLASS p \<and> ap_has INSTANCE p)"

definition GetInstanceOrConnPt :: "app_path \<Rightarrow> u32" where
  "GetInstanceOrConnPt p =
     (if ap_get CLASS p = kCipAssemblyClass
      then if ap_has INSTANCE p then ap_get INSTANCE p else ap_get CONN_PT p
      else ap_get INSTANCE p)"

text \<open>\<open>operator=\<close>: \<open>this\<close> is \<open>p\<close>, \<open>other\<close> is \<open>q\<close>.\<close>

definition ap_assign :: "app_path \<Rightarrow> app_path \<Rightarrow> app_path" where
  "ap_assign p q =
     (let p = p\<lparr>ap_pbits := ap_pbits q\<rparr>;
          p = (if HasLogical p then p\<lparr>ap_stuff := ap_stuff q\<rparr> else p)
      in if ap_has TAG p then p\<lparr>ap_tag := ap_tag q\<rparr> else p)"

definition ap_eq :: "app_path \<Rightarrow> app_path \<Rightarrow> bool" where
  "ap_eq p q \<longleftrightarrow>
     ap_pbits p = ap_pbits q \<and>
     (ap_has CLASS p \<longrightarrow> ap_stuff p ! CLASS = ap_stuff q ! CLASS) \<and>
     (ap_has INSTANCE p \<longrightarrow> ap_stuff p ! INSTANCE = ap_stuff q ! INSTANCE) \<and>
     (ap_has ATTRIBUTE p \<longrightarrow> ap_stuff p ! ATTRIBUTE = ap_stuff q ! ATTRIBUTE) \<and>
     (ap_has CONN_PT p \<longrightarrow> ap_stuff p ! CONN_PT = ap_stuff q ! CONN_PT) \<and>
     (ap_has TAG p \<longrightarrow> ap_tag p = ap_tag q)"

subsection \<open>Serialization\<close>

definition serialize_logical :: "u32 \<Rightarrow> u8 \<Rightarrow> u32 \<Rightarrow> writer \<Rightarrow> writer res" where
  "serialize_logical ctl seg v w =
     (if v < 256 then bindE (put8 w seg) (\<lambda>w. put8 w (ucast v))
      else if v < 65536 then
        bindE (put8 w (seg OR 1)) (\<lambda>w.
        bindE (if \<not> CTL_PACKED_EPATH ctl then put8 w 0 else Inr w) (\<lambda>w. put16 w (ucast v)))
      else
        bindE (put8 w (seg OR 2)) (\<lambda>w.
        bindE (if \<not> CTL_PACKED_EPATH ctl then put8 w 0 else Inr w) (\<lambda>w. put32 w v)))"

text \<open>\<open>out += serialize_logical( out, ... )\<close> under a condition.\<close>

definition ser_if :: "bool \<Rightarrow> (writer \<Rightarrow> writer res) \<Rightarrow> writer \<Rightarrow> writer res" where
  "ser_if c f w = (if c then f w else Inr w)"

definition AppPath_Serialize :: "u32 \<Rightarrow> writer \<Rightarrow> app_path \<Rightarrow> writer res" where
  "AppPath_Serialize ctl out p =
    (if ap_has TAG p then
       bindE (put8 out kDataSegmentANSIExtendedSymbol) (\<lambda>w.
       bindE (put8 w (of_nat (length (ap_tag p)))) (\<lambda>w.
       bindE (append_bytes w (ap_tag p)) (\<lambda>w.
       bindE (ser_if (odd (w_count out w)) (\<lambda>w. put8 w 0) w) (\<lambda>w.
       bindE (ser_if (ap_has CONN_PT p)
                (serialize_logical ctl kLogicalSegmentConnectionPoint (ap_get CONN_PT p)) w) (\<lambda>w.
       if ap_has MEMBER1 p then
         bindE (serialize_logical ctl kLogicalSegmentMemberId (ap_get MEMBER1 p) w) (\<lambda>w.
         if ap_has MEMBER2 p then
           bindE (serialize_logical ctl kLogicalSegmentMemberId (ap_get MEMBER2 p) w) (\<lambda>w.
           ser_if (ap_has MEMBER3 p)
             (serialize_logical ctl kLogicalSegmentMemberId (ap_get MEMBER3 p)) w)
         else Inr w)
       else Inr w)))))
     else if ap_get CLASS p = kCipAssemblyClass then
       bindE (ser_if (ap_has CLASS p \<and> \<not> CTL_OMIT_CLASS ctl)
                (serialize_logical ctl kLogicalSegmentClassId (ap_get CLASS p)) out) (\<lambda>w.
       bindE (if ap_has INSTANCE p \<and> \<not> CTL_OMIT_INSTANCE ctl
              then serialize_logical ctl kLogicalSegmentInstanceId (ap_get INSTANCE p) w
              else if ap_has CONN_PT p \<and> \<not> CTL_OMIT_CONN_PT ctl
              then serialize_logical ctl kLogicalSegmentConnectionPoint (ap_get CONN_PT p) w
              else Inr w) (\<lambda>w.
       ser_if (ap_has ATTRIBUTE p)
         (serialize_logical ctl kLogicalSegmentAttributeId (ap_get ATTRIBUTE p)) w))
     else
       bindE (ser_if (ap_has CLASS p \<and> \<not> CTL_OMIT_CLASS ctl)
                (serialize_logical ctl kLogicalSegmentClassId (ap_get CLASS p)) out) (\<lambda>w.
       if \<not> ap_has CONN_PT p then
         bindE (ser_if (ap_has INSTANCE p \<and> \<not> CTL_OMIT_INSTANCE ctl)
                  (serialize_logical ctl kLogicalSegmentInstanceId (ap_get INSTANCE p)) w) (\<lambda>w.
         ser_if (ap_has ATTRIBUTE p)
           (serialize_logical ctl kLogicalSegmentAttributeId (ap_get ATTRIBUTE p)) w)
       else
         bindE (ser_if (ap_has INSTANCE p \<and> \<not> CTL_OMIT_INSTANCE ctl)
                  (serialize_logical ctl kLogicalSegmentInstanceId (ap_get INSTANCE p)) w) (\<lambda>w.
         ser_if (ap_has CONN_PT p)
           (serialize_logical ctl kLogicalSegmentConnectionPoint (ap_get CONN_PT p)) w)))"

text \<open>\<open>SerializedCount\<close> serializes into 200 bytes of stack.\<close>

definition AppPath_SerializedCount :: "u32 \<Rightarrow> app_path \<Rightarrow> nat res" where
  "AppPath_SerializedCount ctl p =
     bindE (AppPath_Serialize ctl (writer_on (replicate 200 0)) p) (\<lambda>w. Inr (w_pos w))"

subsection \<open>Parsing\<close>

definition deserialize_logical ::
    "u32 \<Rightarrow> nat \<Rightarrow> u8 \<Rightarrow> app_path \<Rightarrow> byte list \<Rightarrow> (app_path \<times> byte list) res" where
  "deserialize_logical ctl field format p r =
     bindE
       (if format = 0 then bindE (get8 r) (\<lambda>(v, r). Inr (ucast v, r))
        else if format = 1 then
          bindE (if \<not> CTL_PACKED_EPATH ctl then r_advance r 1 else Inr r) (\<lambda>r.
          bindE (get16 r) (\<lambda>(v, r). Inr (ucast v, r)))
        else if format = 2 then
          bindE (if \<not> CTL_PACKED_EPATH ctl then r_advance r 1 else Inr r) (\<lambda>r.
          bindE (r_advance r 1) (\<lambda>r. get32 r))
        else Inl Runtime_error)
     (\<lambda>(v, r). Inr (ap_set field v p, r))"

text \<open>A C string: the characters of an array before its first zero.\<close>

definition c_string :: "byte list \<Rightarrow> byte list" where
  "c_string bs = takeWhile (\<lambda>b. b \<noteq> 0) bs"

definition deserialize_symbolic :: "app_path \<Rightarrow> byte list \<Rightarrow> (app_path \<times> byte list) res" where
  "deserialize_symbolic p inp =
     bindE (r_peek inp) (\<lambda>first.
     if first = kDataSegmentANSIExtendedSymbol then
       bindE (r_advance inp 1) (\<lambda>r.
       bindE (get8 r) (\<lambda>(byte_count, r).
       if unat byte_count > 41 then Inl Runtime_error
       else
         bindE (get_bytes (unat byte_count) r) (\<lambda>(bs, r).
         bindE (if odd (length inp - length r) then r_advance r 1 else Inr r) (\<lambda>r.
         Inr (p\<lparr>ap_tag := c_string bs, ap_pbits := set_bit TAG (ap_pbits p)\<rparr>, r)))))
     else if first AND 0xe0 = kSegmentSymbolic then
       let symbol_size = unat (first AND 0x1f) in
       bindE (r_advance inp 1) (\<lambda>r.
       bindE (get_bytes symbol_size r) (\<lambda>(bs, r).
       bindE (if odd (length inp - length r) then r_advance r 1 else Inr r) (\<lambda>r.
       Inr (p\<lparr>ap_tag := c_string bs, ap_pbits := set_bit TAG (ap_pbits p)\<rparr>, r))))
     else Inr (p, inp))"

text \<open>The loop over \<open>[member1 [member2 [member3]]]\<close>: one field after the other, until the input
  ends or something else than a member segment comes.\<close>

fun deserialize_members ::
    "u32 \<Rightarrow> nat list \<Rightarrow> app_path \<Rightarrow> byte list \<Rightarrow> (app_path \<times> byte list) res" where
  "deserialize_members ctl [] p r = Inr (p, r)"
| "deserialize_members ctl (field # later) p r =
     (if r = [] then Inr (p, r)
      else bindE (r_peek r) (\<lambda>first.
        if first AND 0xfc = kLogicalSegmentMemberId then
          bindE (r_advance r 1) (\<lambda>r.
          bindE (deserialize_logical ctl field (first AND 3) p r) (\<lambda>(p, r).
          deserialize_members ctl later p r))
        else Inr (p, r)))"

definition logical_field :: "u8 \<Rightarrow> nat option" where
  "logical_field seg_type =
     (if seg_type = kLogicalSegmentClassId then Some CLASS
      else if seg_type = kLogicalSegmentInstanceId then Some INSTANCE
      else if seg_type = kLogicalSegmentAttributeId then Some ATTRIBUTE
      else if seg_type = kLogicalSegmentConnectionPoint then Some CONN_PT
      else None)"

text \<open>The loop over logical segments, from the most significant field down. It ends at a segment of
  another kind, at one that is not less significant than the last one (the start of the next path),
  and between the instance and the connection point of an assembly path.\<close>

function deserialize_logicals ::
    "u32 \<Rightarrow> nat \<Rightarrow> app_path \<Rightarrow> byte list \<Rightarrow> (nat \<times> app_path \<times> byte list) res" where
  "deserialize_logicals ctl last_member p r =
     (if r = [] then Inr (last_member, p, r)
      else bindE (r_peek r) (\<lambda>first.
        case logical_field (first AND 0xfc) of
          None \<Rightarrow> Inr (last_member, p, r)
        | Some next \<Rightarrow>
            if ap_get CLASS p = kCipAssemblyClass \<and> last_member = INSTANCE \<and> next = CONN_PT
            then Inr (last_member, p, r)
            else if next \<ge> last_member then Inr (last_member, p, r)
            else
              bindE (r_advance r 1) (\<lambda>r.
              bindE (deserialize_logical ctl next (first AND 3) p r) (\<lambda>(p, r).
              deserialize_logicals ctl next p r))))"
  by pat_completeness auto

termination
  by (relation "measure (\<lambda>(ctl, last_member, p, r). last_member)") auto

declare deserialize_logicals.simps [simp del]

definition inherit_field :: "app_path \<Rightarrow> nat \<Rightarrow> app_path \<Rightarrow> app_path" where
  "inherit_field prev i p =
     (if \<not> ap_has i p \<and> ap_has i prev
      then p\<lparr>ap_stuff := (ap_stuff p)[i := ap_stuff prev ! i], ap_pbits := set_bit i (ap_pbits p)\<rparr>
      else p)"

definition inherit :: "nat \<Rightarrow> app_path \<Rightarrow> app_path \<Rightarrow> app_path" where
  "inherit start prev p = fold (inherit_field prev) [start..<LOGICAL_END] p"

definition inherit_assembly :: "nat \<Rightarrow> app_path \<Rightarrow> app_path \<Rightarrow> app_path" where
  "inherit_assembly start prev p =
     fold (\<lambda>i p. if start = INSTANCE \<and> i = INSTANCE then p else inherit_field prev i p)
       [start..<LOGICAL_END] p"

definition DeserializeAppPath ::
    "u32 \<Rightarrow> app_path option \<Rightarrow> app_path \<Rightarrow> byte list \<Rightarrow> (app_path \<times> byte list) res" where
  "DeserializeAppPath ctl previous p0 inp =
     bindE (deserialize_symbolic (ap_Clear p0) inp) (\<lambda>(p, r).
     if length inp - length r > 0 then
       if r = [] then Inr (p, r)
       else
         bindE (r_peek r) (\<lambda>first.
         bindE (if first AND 0xfc = kLogicalSegmentConnectionPoint
                then bindE (r_advance r 1) (\<lambda>r.
                     deserialize_logical ctl CONN_PT (first AND 3) p r)
                else Inr (p, r)) (\<lambda>(p, r).
         deserialize_members ctl [MEMBER1, MEMBER2, MEMBER3] p r))
     else
       bindE (deserialize_logicals ctl LOGICAL_END p r) (\<lambda>(last_member, p, r).
       case previous of
         None \<Rightarrow> Inr (p, r)
       | Some prev \<Rightarrow>
           if length r < length inp then
             if ap_get CLASS prev = kCipAssemblyClass
             then Inr (inherit_assembly (last_member + 1) prev p, r)
             else Inr (inherit (last_member + 1) prev p, r)
           else Inr (p, r)))"

section \<open>The wire format of an application path\<close>

definition logical_wire :: "u32 \<Rightarrow> u8 \<Rightarrow> u32 \<Rightarrow> byte list" where
  "logical_wire ctl seg v =
     (if v < 256 then [seg, ucast v]
      else if v < 65536 then
        (seg OR 1) # (if CTL_PACKED_EPATH ctl then [] else [0]) @ le16 (ucast v)
      else (seg OR 2) # (if CTL_PACKED_EPATH ctl then [] else [0]) @ le32 v)"

lemma serialize_logical_wire [ser_simps]:
  "serialize_logical ctl seg v = (\<lambda>w. append_bytes w (logical_wire ctl seg v))"
  by (rule ext) (simp add: serialize_logical_def logical_wire_def ser_simps)

lemma ser_if_wire: "wf_writer w \<Longrightarrow>
   ser_if c (\<lambda>w. append_bytes w b) w = append_bytes w (if c then b else [])"
  by (simp add: ser_if_def append_nil)

lemma bind_ser_if [ser_simps]:
  "bindE (append_bytes w a) (\<lambda>w. ser_if c (\<lambda>w. append_bytes w b) w) =
   append_bytes w (a @ (if c then b else []))"
  "bindE (append_bytes w a) (\<lambda>w. bindE (ser_if c (\<lambda>w. append_bytes w b) w) f) =
   bindE (append_bytes w (a @ (if c then b else []))) f"
  by (cases c; simp add: ser_if_def ser_simps)+

text \<open>The pad byte after a tag depends on how far the writer has come.\<close>

lemma bind_ser_if_pos [ser_simps]:
  "bindE (append_bytes w a) (\<lambda>w'. bindE (ser_if (odd (w_count w w')) (g w') w') (f w')) =
   bindE (append_bytes w a) (\<lambda>w'. bindE (ser_if (odd (length a)) (g w') w') (f w'))"
  by (cases "append_bytes w a") (auto dest: append_count)

definition seg_of :: "nat \<Rightarrow> u8" where
  "seg_of k = (if k = CLASS then kLogicalSegmentClassId
               else if k = INSTANCE then kLogicalSegmentInstanceId
               else if k = CONN_PT then kLogicalSegmentConnectionPoint
               else if k = ATTRIBUTE then kLogicalSegmentAttributeId
               else kLogicalSegmentMemberId)"

text \<open>The fields a path puts on the wire, with their values, in wire order.\<close>

definition field_if :: "bool \<Rightarrow> nat \<Rightarrow> app_path \<Rightarrow> (nat \<times> u32) list" where
  "field_if c k p = (if c then [(k, ap_get k p)] else [])"

definition emitted :: "u32 \<Rightarrow> app_path \<Rightarrow> (nat \<times> u32) list" where
  "emitted ctl p =
    (if ap_has TAG p then
       field_if (ap_has CONN_PT p) CONN_PT p @
       field_if (ap_has MEMBER1 p) MEMBER1 p @
       field_if (ap_has MEMBER1 p \<and> ap_has MEMBER2 p) MEMBER2 p @
       field_if (ap_has MEMBER1 p \<and> ap_has MEMBER2 p \<and> ap_has MEMBER3 p) MEMBER3 p
     else
       field_if (ap_has CLASS p \<and> \<not> CTL_OMIT_CLASS ctl) CLASS p @
       (let inst = ap_has INSTANCE p \<and> \<not> CTL_OMIT_INSTANCE ctl in
        if ap_get CLASS p = kCipAssemblyClass then
          field_if inst INSTANCE p @
          field_if (\<not> inst \<and> ap_has CONN_PT p \<and> \<not> CTL_OMIT_CONN_PT ctl) CONN_PT p @
          field_if (ap_has ATTRIBUTE p) ATTRIBUTE p
        else
          field_if inst INSTANCE p @
          field_if (ap_has CONN_PT p) CONN_PT p @
          field_if (\<not> ap_has CONN_PT p \<and> ap_has ATTRIBUTE p) ATTRIBUTE p))"

definition fields_wire :: "u32 \<Rightarrow> (nat \<times> u32) list \<Rightarrow> byte list" where
  "fields_wire ctl kvs = concat (map (\<lambda>(k, v). logical_wire ctl (seg_of k) v) kvs)"

definition tag_wire :: "byte list \<Rightarrow> byte list" where
  "tag_wire t = kDataSegmentANSIExtendedSymbol # of_nat (length t) # t @
                (if odd (length t) then [0] else [])"

definition app_path_wire :: "u32 \<Rightarrow> app_path \<Rightarrow> byte list" where
  "app_path_wire ctl p =
     (if ap_has TAG p then tag_wire (ap_tag p) else []) @ fields_wire ctl (emitted ctl p)"

lemma fields_wire_simps [simp]:
  "fields_wire ctl [] = []"
  "fields_wire ctl (kv # kvs) = logical_wire ctl (seg_of (fst kv)) (snd kv) @ fields_wire ctl kvs"
  "fields_wire ctl (xs @ ys) = fields_wire ctl xs @ fields_wire ctl ys"
  by (auto simp: fields_wire_def split_beta)

lemma fields_wire_if:
  "fields_wire ctl (field_if c k p) = (if c then logical_wire ctl (seg_of k) (ap_get k p) else [])"
  by (simp add: field_if_def)

lemma seg_of_simps [simp]:
  "seg_of CLASS = kLogicalSegmentClassId" "seg_of INSTANCE = kLogicalSegmentInstanceId"
  "seg_of CONN_PT = kLogicalSegmentConnectionPoint" "seg_of ATTRIBUTE = kLogicalSegmentAttributeId"
  "seg_of (Suc 0) = kLogicalSegmentConnectionPoint"
  "seg_of MEMBER1 = kLogicalSegmentMemberId" "seg_of MEMBER2 = kLogicalSegmentMemberId"
  "seg_of MEMBER3 = kLogicalSegmentMemberId"
  by (simp_all add: seg_of_def)

lemma AppPath_Serialize_wire [ser_simps]:
  assumes "wf_writer w"
  shows "AppPath_Serialize ctl w p = append_bytes w (app_path_wire ctl p)"
proof -
  consider "ap_has TAG p" | "\<not> ap_has TAG p" "ap_get CLASS p = kCipAssemblyClass"
    | "\<not> ap_has TAG p" "ap_get CLASS p \<noteq> kCipAssemblyClass" by blast
  then show ?thesis
  proof cases
    case 1
    then show ?thesis
      by (cases "ap_has MEMBER1 p"; cases "ap_has MEMBER2 p")
         (simp_all add: AppPath_Serialize_def app_path_wire_def emitted_def tag_wire_def
            fields_wire_if ser_simps)
  next
    case 2
    then show ?thesis using assms
      by (cases "ap_has INSTANCE p \<and> \<not> CTL_OMIT_INSTANCE ctl"; cases "ap_has CONN_PT p \<and> \<not> CTL_OMIT_CONN_PT ctl")
         (simp_all add: AppPath_Serialize_def app_path_wire_def emitted_def fields_wire_if
            ser_simps ser_if_wire Let_def cong: conj_cong)
  next
    case 3
    then show ?thesis using assms
      by (cases "ap_has CONN_PT p")
         (simp_all add: AppPath_Serialize_def app_path_wire_def emitted_def fields_wire_if
            ser_simps ser_if_wire Let_def)
  qed
qed

section \<open>What the parser makes of the wire format\<close>

text \<open>A field of a path as a partial function: what can be observed of \<open>pbits\<close> and \<open>stuff\<close>.\<close>

definition ap_view :: "app_path \<Rightarrow> nat \<Rightarrow> u32 option" where
  "ap_view p k = (if k < TAG \<and> ap_has k p then Some (ap_stuff p ! k) else None)"

lemma ap_has_set [simp]: "k < 32 \<Longrightarrow> ap_has j (ap_set k v p) \<longleftrightarrow> j = k \<or> ap_has j p"
  by (auto simp: ap_has_def ap_set_def bit_set_bit_iff)

lemma length_stuff_set [simp]: "length (ap_stuff (ap_set k v p)) = length (ap_stuff p)"
  by (simp add: ap_set_def)

lemma ap_tag_set [simp]: "ap_tag (ap_set k v p) = ap_tag p"
  by (simp add: ap_set_def)

lemma ap_stuff_set: "ap_stuff (ap_set k v p) = (ap_stuff p)[k := v]"
  by (simp add: ap_set_def)

lemma ap_view_set: "length (ap_stuff p) = 7 \<Longrightarrow> k < 7 \<Longrightarrow> ap_view (ap_set k v p) = (ap_view p)(k \<mapsto> v)"
  by (rule ext) (auto simp: ap_view_def ap_stuff_set nth_list_update)

lemma ap_get_set: "length (ap_stuff p) = 7 \<Longrightarrow> k < 7 \<Longrightarrow>
    ap_get j (ap_set k v p) = (if j = k then v else ap_get j p)"
  by (auto simp: ap_get_def ap_stuff_set)

lemma ap_clear_simps [simp]:
  "\<not> ap_has k (ap_Clear p)" "ap_stuff (ap_Clear p) = ap_stuff p" "ap_tag (ap_Clear p) = ap_tag p"
  "ap_get k (ap_Clear p) = 0"
  by (simp_all add: ap_has_def ap_Clear_def ap_get_def)

lemma ap_view_clear [simp]: "ap_view (ap_Clear p) = (\<lambda>_. None)"
  by (rule ext) (simp add: ap_view_def)

text \<open>One logical segment: head byte, then the value.\<close>

lemma deserialize_logical_wire:
  assumes "v < 65536" and "k < 7"
  obtains h body where "logical_wire ctl (seg_of k) v = h # body" and "h AND 0xfc = seg_of k"
    and "\<And>f p rest. deserialize_logical ctl f (h AND 3) p (body @ rest) = Inr (ap_set f v p, rest)"
proof -
  have k: "k = 0 \<or> k = 1 \<or> k = 2 \<or> k = 3 \<or> k = 4 \<or> k = 5 \<or> k = 6" using assms(2) by linarith
  show ?thesis
  proof (cases "v < 256")
    case True
    show ?thesis
    proof (rule that [of "seg_of k" "[ucast v]"])
      show "logical_wire ctl (seg_of k) v = [seg_of k, ucast v]"
        using True by (simp add: logical_wire_def)
      show "seg_of k AND 0xfc = seg_of k" using k by auto
      show "deserialize_logical ctl f (seg_of k AND 3) p ([ucast v] @ rest) = Inr (ap_set f v p, rest)"
        for f p rest using k True
        by (auto simp: deserialize_logical_def ucast_back_u8 des_simps)
    qed
  next
    case False
    show ?thesis
    proof (rule that [of "seg_of k OR 1" "(if CTL_PACKED_EPATH ctl then [] else [0]) @ le16 (ucast v)"])
      show "logical_wire ctl (seg_of k) v =
            (seg_of k OR 1) # (if CTL_PACKED_EPATH ctl then [] else [0]) @ le16 (ucast v)"
        using False assms(1) by (simp add: logical_wire_def)
      show "(seg_of k OR 1) AND 0xfc = seg_of k" using k by auto
      have "(seg_of k OR 1) AND 3 = 1" using k by auto
      then show "deserialize_logical ctl f ((seg_of k OR 1) AND 3) p
          (((if CTL_PACKED_EPATH ctl then [] else [0]) @ le16 (ucast v)) @ rest) =
          Inr (ap_set f v p, rest)" for f p rest using assms(1)
        by (simp add: deserialize_logical_def ucast_back_u16 des_simps r_advance_def)
    qed
  qed
qed

lemma logical_field_seg_of: "k < 4 \<Longrightarrow> logical_field (seg_of k) = Some k"
proof -
  assume "k < 4"
  then have "k = 0 \<or> k = 1 \<or> k = 2 \<or> k = 3" by linarith
  then show ?thesis by (auto simp: logical_field_def)
qed

text \<open>The loop takes a field that is less significant than the last one.\<close>

lemma deserialize_logicals_step:
  assumes "k < 4" and "k < l" and "v < 65536"
    and "\<not> (ap_get CLASS p = kCipAssemblyClass \<and> l = INSTANCE \<and> k = CONN_PT)"
  shows "deserialize_logicals ctl l p (logical_wire ctl (seg_of k) v @ rest) =
         deserialize_logicals ctl k (ap_set k v p) rest"
proof -
  obtain h body where hb: "logical_wire ctl (seg_of k) v = h # body" "h AND 0xfc = seg_of k"
    "\<And>f p rest. deserialize_logical ctl f (h AND 3) p (body @ rest) = Inr (ap_set f v p, rest)"
    using deserialize_logical_wire [OF assms(3), of k ctl] assms(1) by auto
  then show ?thesis
    using assms by (subst deserialize_logicals.simps)
      (auto simp: des_simps logical_field_seg_of r_advance_def)
qed

text \<open>What may follow a path so that the path ends there.\<close>

definition ends_path :: "byte list \<Rightarrow> bool" where
  "ends_path r \<longleftrightarrow> r = [] \<or>
     (logical_field (hd r AND 0xfc) = None \<and> hd r AND 0xfc \<noteq> kLogicalSegmentMemberId)"

text \<open>What may follow the logical segments of a path whose last one was the field \<open>l\<close>: the start of the
  next path, too.\<close>

definition ends_logical :: "nat \<Rightarrow> bool \<Rightarrow> byte list \<Rightarrow> bool" where
  "ends_logical l assembly r \<longleftrightarrow> r = [] \<or>
     (case logical_field (hd r AND 0xfc) of
        None \<Rightarrow> True
      | Some next \<Rightarrow> l \<le> next \<or> (assembly \<and> l = INSTANCE \<and> next = CONN_PT))"

lemma ends_path_logical: "ends_path r \<Longrightarrow> ends_logical l a r"
  by (auto simp: ends_path_def ends_logical_def)

lemma deserialize_logicals_end:
  "ends_logical l (ap_get CLASS p = kCipAssemblyClass) r \<Longrightarrow> deserialize_logicals ctl l p r = Inr (l, p, r)"
  by (subst deserialize_logicals.simps) (auto simp: ends_logical_def r_peek_def split: option.split)

fun set_fields :: "(nat \<times> u32) list \<Rightarrow> app_path \<Rightarrow> app_path" where
  "set_fields [] p = p"
| "set_fields ((k, v) # kvs) p = set_fields kvs (ap_set k v p)"

text \<open>Lists of fields a logical path may consist of: descending, each value within 16 bits, and no
  connection point right after the instance of an assembly.\<close>

fun good_fields :: "nat \<Rightarrow> bool \<Rightarrow> (nat \<times> u32) list \<Rightarrow> bool" where
  "good_fields l asm [] \<longleftrightarrow> True"
| "good_fields l asm ((k, v) # kvs) \<longleftrightarrow>
     k < 4 \<and> k < l \<and> v < 65536 \<and> \<not> (asm \<and> l = INSTANCE \<and> k = CONN_PT) \<and>
     good_fields k (if k = CLASS then v = kCipAssemblyClass else asm) kvs"

definition last_field :: "nat \<Rightarrow> (nat \<times> u32) list \<Rightarrow> nat" where
  "last_field l kvs = (if kvs = [] then l else fst (List.last kvs))"

lemma deserialize_logicals_fields:
  assumes "good_fields l (ap_get CLASS p = kCipAssemblyClass) kvs"
    and "length (ap_stuff p) = 7"
    and "ends_logical (last_field l kvs) (ap_get CLASS (set_fields kvs p) = kCipAssemblyClass) rest"
  shows "deserialize_logicals ctl l p (fields_wire ctl kvs @ rest) =
         Inr (last_field l kvs, set_fields kvs p, rest)"
  using assms
proof (induction kvs arbitrary: l p)
  case Nil
  then show ?case by (simp add: deserialize_logicals_end last_field_def)
next
  case (Cons kv kvs)
  obtain k v where [simp]: "kv = (k, v)" by (cases kv)
  have "deserialize_logicals ctl l p (logical_wire ctl (seg_of k) v @ fields_wire ctl kvs @ rest) =
        deserialize_logicals ctl k (ap_set k v p) (fields_wire ctl kvs @ rest)"
    using Cons.prems by (intro deserialize_logicals_step) auto
  also have "\<dots> = Inr (last_field k kvs, set_fields kvs (ap_set k v p), rest)"
    using Cons.prems by (intro Cons.IH) (auto simp: ap_get_set last_field_def)
  finally show ?case by (simp add: last_field_def)
qed

subsection \<open>Logical paths\<close>

definition small_fields :: "(nat \<times> u32) list \<Rightarrow> bool" where
  "small_fields kvs \<longleftrightarrow> list_all (\<lambda>(k, v). v < 65536) kvs"

lemma small_fields_simps [simp]:
  "small_fields []" "small_fields ((k, v) # kvs) \<longleftrightarrow> v < 65536 \<and> small_fields kvs"
  "small_fields (xs @ ys) \<longleftrightarrow> small_fields xs \<and> small_fields ys"
  by (simp_all add: small_fields_def)

lemma small_field_if [simp]: "small_fields (field_if c k p) \<longleftrightarrow> (c \<longrightarrow> ap_get k p < 65536)"
  by (simp add: field_if_def)

lemma emitted_good:
  assumes "\<not> ap_has TAG p" and "small_fields (emitted ctl p)"
  shows "good_fields LOGICAL_END False (emitted ctl p)"
proof -
  consider "ap_get CLASS p = kCipAssemblyClass" | "ap_get CLASS p \<noteq> kCipAssemblyClass" by blast
  then show ?thesis
  proof cases
    case 1
    then show ?thesis using assms
      by (cases "ap_has CLASS p \<and> \<not> CTL_OMIT_CLASS ctl";
          cases "ap_has INSTANCE p \<and> \<not> CTL_OMIT_INSTANCE ctl")
         (auto simp: emitted_def field_if_def split: if_splits)
  next
    case 2
    then show ?thesis using assms
      by (cases "ap_has CLASS p \<and> \<not> CTL_OMIT_CLASS ctl";
          cases "ap_has INSTANCE p \<and> \<not> CTL_OMIT_INSTANCE ctl"; cases "ap_has CONN_PT p")
         (auto simp: emitted_def field_if_def split: if_splits)
  qed
qed

lemma set_fields_simps [simp]:
  "length (ap_stuff (set_fields kvs p)) = length (ap_stuff p)"
  "ap_tag (set_fields kvs p) = ap_tag p"
  by (induction kvs p rule: set_fields.induct) simp_all

lemma set_fields_has:
  "list_all (\<lambda>(k, v). k < 32) kvs \<Longrightarrow>
   ap_has j (set_fields kvs p) \<longleftrightarrow> j \<in> fst ` set kvs \<or> ap_has j p"
  by (induction kvs p rule: set_fields.induct) auto

lemma set_fields_view:
  "length (ap_stuff p) = 7 \<Longrightarrow> list_all (\<lambda>(k, v). k < 7) kvs \<Longrightarrow> distinct (map fst kvs) \<Longrightarrow>
   ap_view (set_fields kvs p) = ap_view p ++ map_of kvs"
proof (induction kvs p rule: set_fields.induct)
  case (2 k v kvs p)
  then have "k \<notin> dom (map_of kvs)" by (simp add: dom_map_of_conv_image_fst)
  then show ?case using 2
    by (auto simp: ap_view_set map_add_def fun_eq_iff domIff split: option.split)
qed simp

lemma emitted_keys:
  "list_all (\<lambda>(k, v). k < 7) (emitted ctl p)" "distinct (map fst (emitted ctl p))"
  by (auto simp: emitted_def field_if_def Let_def)

text \<open>A parser that meets the head of a logical segment does not take it for a symbol.\<close>

lemma logical_head:
  assumes "k < 7" and "logical_wire ctl (seg_of k) v = h # body"
  shows "h \<noteq> kDataSegmentANSIExtendedSymbol" and "h AND 0xe0 = 0x20"
proof -
  have "k = 0 \<or> k = 1 \<or> k = 2 \<or> k = 3 \<or> k = 4 \<or> k = 5 \<or> k = 6" using assms(1) by linarith
  then show "h \<noteq> kDataSegmentANSIExtendedSymbol" and "h AND 0xe0 = 0x20"
    using assms(2) by (auto simp: logical_wire_def split: if_splits)
qed

lemma logical_wire_not_nil: "logical_wire ctl seg v \<noteq> []"
  by (simp add: logical_wire_def)

lemma deserialize_symbolic_logical:
  assumes "kvs \<noteq> []" and "list_all (\<lambda>(k, v). k < 7) kvs"
  shows "deserialize_symbolic p (fields_wire ctl kvs @ rest) = Inr (p, fields_wire ctl kvs @ rest)"
proof -
  obtain k v more where kvs: "kvs = (k, v) # more" using assms(1) by (cases kvs) auto
  obtain h body where hb: "logical_wire ctl (seg_of k) v = h # body"
    using logical_wire_not_nil by (meson neq_Nil_conv)
  have "h \<noteq> kDataSegmentANSIExtendedSymbol" "h AND 0xe0 = 0x20"
    using logical_head [OF _ hb] assms(2) kvs by auto
  then show ?thesis by (simp add: deserialize_symbolic_def kvs hb des_simps)
qed

text \<open>The end of a path on the wire.\<close>

definition path_ends :: "u32 \<Rightarrow> app_path \<Rightarrow> byte list \<Rightarrow> bool" where
  "path_ends ctl p rest \<longleftrightarrow>
     (if ap_has TAG p then ends_path rest
      else ends_logical (last_field LOGICAL_END (emitted ctl p))
             (map_of (emitted ctl p) CLASS = Some kCipAssemblyClass) rest)"

lemma ends_path_ends: "ends_path rest \<Longrightarrow> path_ends ctl p rest"
  by (simp add: path_ends_def ends_path_logical)

lemma emitted_loop:
  assumes "length (ap_stuff p0) = 7" and "\<not> ap_has TAG p" and "small_fields (emitted ctl p)"
    and "path_ends ctl p rest"
  shows "deserialize_logicals ctl LOGICAL_END (ap_Clear p0) (fields_wire ctl (emitted ctl p) @ rest) =
      Inr (last_field LOGICAL_END (emitted ctl p), set_fields (emitted ctl p) (ap_Clear p0), rest)"
proof (rule deserialize_logicals_fields)
  have "ap_view (set_fields (emitted ctl p) (ap_Clear p0)) CLASS = map_of (emitted ctl p) CLASS"
    using emitted_keys assms(1) by (simp add: set_fields_view)
  then have "ap_get CLASS (set_fields (emitted ctl p) (ap_Clear p0)) = kCipAssemblyClass \<longleftrightarrow>
      map_of (emitted ctl p) CLASS = Some kCipAssemblyClass"
    by (auto simp: ap_view_def ap_get_def split: if_splits)
  then show "ends_logical (last_field LOGICAL_END (emitted ctl p))
      (ap_get CLASS (set_fields (emitted ctl p) (ap_Clear p0)) = kCipAssemblyClass) rest"
    using assms(2,4) by (simp add: path_ends_def)
qed (use assms emitted_good [OF assms(2,3)] in auto)

lemma parse_logical_path:
  assumes "length (ap_stuff p0) = 7" and "\<not> ap_has TAG p" and "emitted ctl p \<noteq> []"
    and "small_fields (emitted ctl p)" and "path_ends ctl p rest"
  shows "DeserializeAppPath ctl None p0 (app_path_wire ctl p @ rest) =
         Inr (set_fields (emitted ctl p) (ap_Clear p0), rest)"
  using assms emitted_loop [OF assms(1,2,4,5)] deserialize_symbolic_logical [OF assms(3) emitted_keys(1)]
  by (simp add: DeserializeAppPath_def app_path_wire_def)

subsection \<open>Symbolic paths\<close>

lemma c_string_id: "0 \<notin> set t \<Longrightarrow> c_string t = t"
  by (auto simp: c_string_def takeWhile_eq_all_conv)

definition set_tag :: "byte list \<Rightarrow> app_path \<Rightarrow> app_path" where
  "set_tag t p = p\<lparr>ap_tag := t, ap_pbits := set_bit TAG (ap_pbits p)\<rparr>"

lemma set_tag_simps [simp]:
  "ap_has k (set_tag t p) \<longleftrightarrow> k = TAG \<or> ap_has k p" "ap_stuff (set_tag t p) = ap_stuff p"
  "ap_tag (set_tag t p) = t" "ap_view (set_tag t p) = ap_view p"
  by (auto simp: set_tag_def ap_has_def bit_set_bit_iff ap_view_def fun_eq_iff)

lemma deserialize_symbolic_tag:
  assumes "length t \<le> 41" and "0 \<notin> set t"
  shows "deserialize_symbolic p (tag_wire t @ rest) = Inr (set_tag t p, rest)"
  using assms by (simp add: deserialize_symbolic_def tag_wire_def des_simps c_string_id r_advance_def
      set_tag_def)

lemma deserialize_members_end: "ends_path r \<Longrightarrow> deserialize_members ctl ks p r = Inr (p, r)"
  by (cases ks) (auto simp: ends_path_def r_peek_def)

lemma deserialize_members_fields:
  assumes "list_all (\<lambda>k. seg_of k = kLogicalSegmentMemberId \<and> k < 7) ks" and "length vs \<le> length ks"
    and "list_all (\<lambda>v. v < 65536) vs" and "ends_path rest"
  shows "deserialize_members ctl ks p (fields_wire ctl (zip ks vs) @ rest) =
         Inr (set_fields (zip ks vs) p, rest)"
  using assms
proof (induction ks arbitrary: vs p)
  case Nil
  then show ?case by simp
next
  case (Cons k ks)
  show ?case
  proof (cases vs)
    case Nil
    then show ?thesis using deserialize_members_end [OF Cons.prems(4)]
      by (simp del: deserialize_members.simps)
  next
    case (Cons v ws)
    have v: "v < 65536" "k < 7" "seg_of k = kLogicalSegmentMemberId"
      using Cons.prems Cons by auto
    obtain h body where hb: "logical_wire ctl (seg_of k) v = h # body" "h AND 0xfc = seg_of k"
      "\<And>f p rest. deserialize_logical ctl f (h AND 3) p (body @ rest) = Inr (ap_set f v p, rest)"
      using deserialize_logical_wire [OF v(1,2), of ctl] by auto
    have "deserialize_members ctl ks (ap_set k v p) (fields_wire ctl (zip ks ws) @ rest) =
          Inr (set_fields (zip ks ws) (ap_set k v p), rest)"
      using Cons.prems Cons by (intro Cons.IH) auto
    then show ?thesis using hb v Cons by (simp add: des_simps r_advance_def)
  qed
qed

definition member_values :: "app_path \<Rightarrow> u32 list" where
  "member_values p =
     (if \<not> ap_has MEMBER1 p then []
      else if \<not> ap_has MEMBER2 p then [ap_get MEMBER1 p]
      else if \<not> ap_has MEMBER3 p then [ap_get MEMBER1 p, ap_get MEMBER2 p]
      else [ap_get MEMBER1 p, ap_get MEMBER2 p, ap_get MEMBER3 p])"

lemma emitted_symbolic:
  "ap_has TAG p \<Longrightarrow> emitted ctl p =
     field_if (ap_has CONN_PT p) CONN_PT p @ zip [MEMBER1, MEMBER2, MEMBER3] (member_values p)"
  by (auto simp: emitted_def member_values_def field_if_def)

lemma members_parsed:
  assumes "small_fields (zip [MEMBER1, MEMBER2, MEMBER3] (member_values p))" and "ends_path rest"
  shows "deserialize_members ctl [MEMBER1, MEMBER2, MEMBER3] q
           (fields_wire ctl (zip [MEMBER1, MEMBER2, MEMBER3] (member_values p)) @ rest) =
         Inr (set_fields (zip [MEMBER1, MEMBER2, MEMBER3] (member_values p)) q, rest)"
proof (rule deserialize_members_fields)
  show "list_all (\<lambda>v. v < 65536) (member_values p)"
    using assms(1) by (auto simp: member_values_def split: if_splits)
  show "length (member_values p) \<le> length [MEMBER1, MEMBER2, MEMBER3]"
    by (simp add: member_values_def)
qed (use assms in auto)

lemma members_head:
  assumes "ends_path rest" and "r = fields_wire ctl (zip [MEMBER1, MEMBER2, MEMBER3] (member_values p)) @ rest"
    and "r \<noteq> []" and "small_fields (zip [MEMBER1, MEMBER2, MEMBER3] (member_values p))"
  shows "hd r AND 0xfc \<noteq> kLogicalSegmentConnectionPoint"
proof (cases "member_values p")
  case Nil
  then show ?thesis using assms by (auto simp: ends_path_def logical_field_def)
next
  case (Cons v vs)
  have "v < 65536" using assms(4) Cons by simp
  then obtain h body where "logical_wire ctl (seg_of MEMBER1) v = h # body" "h AND 0xfc = seg_of MEMBER1"
    "\<And>f p rest. deserialize_logical ctl f (h AND 3) p (body @ rest) = Inr (ap_set f v p, rest)"
    using deserialize_logical_wire [of v MEMBER1 ctl] by auto
  then show ?thesis using assms Cons by simp
qed

lemma parse_symbolic_path:
  assumes "wf_app_path p" and "ap_has TAG p" and "small_fields (emitted ctl p)" and "ends_path rest"
  shows "DeserializeAppPath ctl prev p0 (app_path_wire ctl p @ rest) =
         Inr (set_fields (emitted ctl p) (set_tag (ap_tag p) (ap_Clear p0)), rest)"
proof -
  let ?q = "set_tag (ap_tag p) (ap_Clear p0)"
  let ?kvs = "zip [MEMBER1, MEMBER2, MEMBER3] (member_values p)"
  let ?r = "fields_wire ctl ?kvs @ rest"
  have tag: "deserialize_symbolic (ap_Clear p0) (tag_wire (ap_tag p) @ r) = Inr (?q, r)" for r
    using assms(1) by (intro deserialize_symbolic_tag) (auto simp: wf_app_path_def)
  have len: "length (tag_wire (ap_tag p)) > 0" by (simp add: tag_wire_def)
  have em: "emitted ctl p = field_if (ap_has CONN_PT p) CONN_PT p @ ?kvs"
    using emitted_symbolic [OF assms(2)] .
  have small: "small_fields ?kvs" using assms(3) em by simp
  show ?thesis
  proof (cases "ap_has CONN_PT p")
    case True
    have "ap_get CONN_PT p < 65536" using assms(3) em True by simp
    then obtain h body where hb: "logical_wire ctl (seg_of CONN_PT) (ap_get CONN_PT p) = h # body"
      "h AND 0xfc = seg_of CONN_PT"
      "\<And>f q rest. deserialize_logical ctl f (h AND 3) q (body @ rest) =
         Inr (ap_set f (ap_get CONN_PT p) q, rest)"
      using deserialize_logical_wire [of "ap_get CONN_PT p" CONN_PT ctl] by auto
    then show ?thesis
      using assms(2) tag len True members_parsed [OF small assms(4)]
      by (simp add: DeserializeAppPath_def app_path_wire_def em field_if_def des_simps r_advance_def
          del: deserialize_members.simps)
  next
    case False
    show ?thesis
    proof (cases "?r = []")
      case True
      then have "member_values p = []" using logical_wire_not_nil
        by (cases "member_values p") auto
      then show ?thesis using assms(2) tag [of "[]"] len False True
        by (simp add: DeserializeAppPath_def app_path_wire_def em field_if_def)
    next
      case nonempty: False
      then have "hd ?r AND 0xfc \<noteq> kLogicalSegmentConnectionPoint"
        using members_head [OF assms(4) refl nonempty small] by blast
      then show ?thesis using assms(2) tag [of ?r] len False nonempty members_parsed [OF small assms(4)]
        by (simp add: DeserializeAppPath_def app_path_wire_def em field_if_def r_peek_def
            del: deserialize_members.simps) blast
    qed
  qed
qed

subsection \<open>Round trip\<close>

text \<open>The paths the grammar of the specification allows: a tag with an optional connection point and
  indices without a gap; an assembly with an instance or a connection point; another class with an
  attribute or a connection point, not both. Values are within 16 bits.\<close>

definition canonical_path :: "app_path \<Rightarrow> bool" where
  "canonical_path p \<longleftrightarrow>
     wf_app_path p \<and> list_all (\<lambda>k. ap_has k p \<longrightarrow> ap_get k p < 65536) [0..<7] \<and>
     (if ap_has TAG p then
        \<not> ap_has CLASS p \<and> \<not> ap_has INSTANCE p \<and> \<not> ap_has ATTRIBUTE p \<and>
        (ap_has MEMBER2 p \<longrightarrow> ap_has MEMBER1 p) \<and> (ap_has MEMBER3 p \<longrightarrow> ap_has MEMBER2 p)
      else
        ap_has CLASS p \<and> \<not> ap_has MEMBER1 p \<and> \<not> ap_has MEMBER2 p \<and> \<not> ap_has MEMBER3 p \<and>
        (if ap_get CLASS p = kCipAssemblyClass then \<not> (ap_has INSTANCE p \<and> ap_has CONN_PT p)
         else \<not> (ap_has ATTRIBUTE p \<and> ap_has CONN_PT p)))"

definition no_omit :: "u32 \<Rightarrow> bool" where
  "no_omit ctl \<longleftrightarrow> \<not> CTL_OMIT_CLASS ctl \<and> \<not> CTL_OMIT_INSTANCE ctl \<and> \<not> CTL_OMIT_CONN_PT ctl"

lemma upt_7: "[0..<7] = [0, 1, 2, 3, 4, 5, 6 :: nat]"
  by (simp add: upt_rec)

lemma canonical_small: "canonical_path p \<Longrightarrow> small_fields (emitted ctl p)"
  by (auto simp: canonical_path_def emitted_def upt_7 Let_def)

lemma view_get: "k < 7 \<Longrightarrow> ap_view p k = (if ap_has k p then Some (ap_get k p) else None)"
  by (simp add: ap_view_def ap_get_def)

lemma canonical_emitted_view:
  assumes "canonical_path p" and "no_omit ctl"
  shows "map_of (emitted ctl p) = ap_view p"
proof (rule ext)
  fix k
  show "map_of (emitted ctl p) k = ap_view p k"
  proof (cases "k < 7")
    case True
    then have k: "k = 0 \<or> k = 1 \<or> k = 2 \<or> k = 3 \<or> k = 4 \<or> k = 5 \<or> k = 6" by linarith
    show ?thesis
    proof (cases "ap_has TAG p")
      case True
      then show ?thesis using assms k unfolding canonical_path_def
        by (elim disjE) (auto simp: emitted_def field_if_def view_get)
    next
      case False
      then show ?thesis using assms k unfolding canonical_path_def no_omit_def
        by (elim disjE) (auto simp: emitted_def field_if_def view_get Let_def)
    qed
  next
    case False
    then have "k \<notin> fst ` set (emitted ctl p)"
      using emitted_keys(1) [of ctl p] by (auto simp: list_all_iff)
    then show ?thesis using False by (simp add: ap_view_def map_of_eq_None_iff)
  qed
qed

text \<open>Two paths that no accessor can tell apart.\<close>

definition same_path :: "app_path \<Rightarrow> app_path \<Rightarrow> bool" where
  "same_path p q \<longleftrightarrow> ap_view p = ap_view q \<and> ap_has TAG p = ap_has TAG q \<and> GetSymbol p = GetSymbol q"

lemma same_path_accessors:
  assumes "same_path p q"
  shows "k < 7 \<Longrightarrow> ap_get k p = ap_get k q" and "k \<le> 7 \<Longrightarrow> ap_has k p = ap_has k q"
    and "IsSufficient p = IsSufficient q" and "GetInstanceOrConnPt p = GetInstanceOrConnPt q"
proof -
  have has: "ap_has k p = ap_has k q" if "k \<le> 7" for k
  proof (cases "k = 7")
    case False
    then have "(ap_view p k = None) = (ap_view q k = None)" using assms by (simp add: same_path_def)
    then show ?thesis using that False by (simp add: ap_view_def split: if_splits)
  qed (use assms in \<open>simp add: same_path_def\<close>)
  moreover have get: "ap_get k p = ap_get k q" if "k < 7" for k
  proof -
    have "ap_view p k = ap_view q k" using assms by (simp add: same_path_def)
    then show ?thesis using that has [of k] by (auto simp: ap_view_def ap_get_def split: if_splits)
  qed
  ultimately show "k < 7 \<Longrightarrow> ap_get k p = ap_get k q" and "k \<le> 7 \<Longrightarrow> ap_has k p = ap_has k q"
    and "IsSufficient p = IsSufficient q" and "GetInstanceOrConnPt p = GetInstanceOrConnPt q"
    by (simp_all add: IsSufficient_def GetInstanceOrConnPt_def)
qed

lemma parse_canonical_path:
  assumes "canonical_path p" and "no_omit ctl" and "length (ap_stuff p0) = 7" and "path_ends ctl p rest"
  shows "\<exists>p'. DeserializeAppPath ctl None p0 (app_path_wire ctl p @ rest) = Inr (p', rest) \<and>
    same_path p' p"
proof (cases "ap_has TAG p")
  case True
  let ?p' = "set_fields (emitted ctl p) (set_tag (ap_tag p) (ap_Clear p0))"
  have "DeserializeAppPath ctl None p0 (app_path_wire ctl p @ rest) = Inr (?p', rest)"
    using assms True by (intro parse_symbolic_path) (auto simp: canonical_path_def canonical_small path_ends_def)
  moreover have "ap_view ?p' = ap_view p"
    using canonical_emitted_view [OF assms(1,2)] emitted_keys assms(3)
    by (simp add: set_fields_view fun_eq_iff map_add_def split: option.split)
  moreover have "list_all (\<lambda>(k, v). k < 32) (emitted ctl p)"
    using emitted_keys(1) [of ctl p] by (auto simp: list_all_iff)
  ultimately show ?thesis using True by (auto simp: same_path_def GetSymbol_def set_fields_has)
next
  case False
  let ?p' = "set_fields (emitted ctl p) (ap_Clear p0)"
  have "ap_has CLASS p" using assms(1) False by (simp add: canonical_path_def)
  then have ne: "emitted ctl p \<noteq> []"
    using assms(2) False by (simp add: emitted_def field_if_def no_omit_def)
  have "DeserializeAppPath ctl None p0 (app_path_wire ctl p @ rest) = Inr (?p', rest)"
    using assms False ne by (intro parse_logical_path) (auto simp: canonical_small)
  moreover have "ap_view ?p' = ap_view p"
    using canonical_emitted_view [OF assms(1,2)] emitted_keys assms(3)
    by (simp add: set_fields_view fun_eq_iff map_add_def split: option.split)
  moreover have "list_all (\<lambda>(k, v). k < 32) (emitted ctl p)" "TAG \<notin> fst ` set (emitted ctl p)"
    using emitted_keys(1) [of ctl p] by (auto simp: list_all_iff)
  ultimately show ?thesis using False by (auto simp: same_path_def GetSymbol_def set_fields_has)
qed

section \<open>Inheritance\<close>

lemma inherit_field_view:
  assumes "length (ap_stuff p) = 7" and "i < 7"
  shows "ap_view (inherit_field prev i p) =
    (if ap_view p i = None then (ap_view p)(i := ap_view prev i) else ap_view p)"
  using assms by (auto simp: inherit_field_def ap_view_def ap_has_def bit_set_bit_iff fun_eq_iff
      nth_list_update)

lemma length_inherit_field [simp]: "length (ap_stuff (inherit_field prev i p)) = length (ap_stuff p)"
  by (simp add: inherit_field_def)

lemma fold_inherit_view:
  assumes "length (ap_stuff p) = 7" and "list_all (\<lambda>i. i < 7) is"
  shows "ap_view (fold (inherit_field prev) is p) k =
    (if k \<in> set is \<and> ap_view p k = None then ap_view prev k else ap_view p k)"
  using assms by (induction "is" arbitrary: p) (auto simp: inherit_field_view)

lemma inherit_view:
  "length (ap_stuff p) = 7 \<Longrightarrow> ap_view (inherit start prev p) k =
    (if start \<le> k \<and> k < LOGICAL_END \<and> ap_view p k = None then ap_view prev k else ap_view p k)"
  unfolding inherit_def by (subst fold_inherit_view) (auto simp: list_all_iff)

lemma inherit_assembly_view:
  assumes "length (ap_stuff p) = 7"
  shows "ap_view (inherit_assembly start prev p) k =
    (if start \<le> k \<and> k < LOGICAL_END \<and> \<not> (start = INSTANCE \<and> k = INSTANCE) \<and> ap_view p k = None
     then ap_view prev k else ap_view p k)"
proof (cases "start = INSTANCE")
  case True
  then have "inherit_assembly start prev p = fold (inherit_field prev) [CLASS] p"
    by (simp add: inherit_assembly_def upt_rec)
  then show ?thesis using assms True by (auto simp: inherit_field_view)
next
  case False
  then show ?thesis using inherit_view [OF assms] by (simp add: inherit_assembly_def inherit_def)
qed

lemma inherit_tag:
  "ap_has TAG (inherit start prev p) = ap_has TAG p"
  "ap_has TAG (inherit_assembly start prev p) = ap_has TAG p"
proof -
  have step: "i < LOGICAL_END \<Longrightarrow> ap_has TAG (inherit_field prev i p) = ap_has TAG p" for i p
    by (auto simp: inherit_field_def ap_has_def bit_set_bit_iff)
  have "list_all (\<lambda>i. i < LOGICAL_END) is \<Longrightarrow>
      ap_has TAG (fold (inherit_field prev) is p) = ap_has TAG p" for "is"
    by (induction "is" arbitrary: p) (auto simp: step)
  then show "ap_has TAG (inherit start prev p) = ap_has TAG p" by (simp add: inherit_def list_all_iff)
  have "list_all (\<lambda>i. i < LOGICAL_END) is \<Longrightarrow>
      ap_has TAG (fold (\<lambda>i p. if start = INSTANCE \<and> i = INSTANCE then p else inherit_field prev i p) is p) =
      ap_has TAG p" for "is"
    by (induction "is" arbitrary: p) (auto simp: step)
  then show "ap_has TAG (inherit_assembly start prev p) = ap_has TAG p"
    by (simp add: inherit_assembly_def list_all_iff)
qed

lemma inherit_length [simp]:
  "length (ap_stuff (inherit start prev p)) = length (ap_stuff p)"
  "length (ap_stuff (inherit_assembly start prev p)) = length (ap_stuff p)"
proof -
  have "length (ap_stuff (fold (inherit_field prev) is p)) = length (ap_stuff p)" for "is"
    by (induction "is" arbitrary: p) simp_all
  then show "length (ap_stuff (inherit start prev p)) = length (ap_stuff p)" by (simp add: inherit_def)
  have "length (ap_stuff (fold (\<lambda>i p. if start = INSTANCE \<and> i = INSTANCE then p
      else inherit_field prev i p) is p)) = length (ap_stuff p)" for "is"
    by (induction "is" arbitrary: p) simp_all
  then show "length (ap_stuff (inherit_assembly start prev p)) = length (ap_stuff p)"
    by (simp add: inherit_assembly_def)
qed

text \<open>A compressed path: the fields that are on the wire, and above the last of them the fields of the
  path before it.\<close>

definition inherited_view :: "app_path \<Rightarrow> (nat \<times> u32) list \<Rightarrow> nat \<Rightarrow> u32 option" where
  "inherited_view prev kvs k =
    (case map_of kvs k of
       Some v \<Rightarrow> Some v
     | None \<Rightarrow>
         if k < LOGICAL_END \<and> last_field LOGICAL_END kvs < k \<and>
            \<not> (ap_get CLASS prev = kCipAssemblyClass \<and>
               last_field LOGICAL_END kvs = CONN_PT \<and> k = INSTANCE)
         then ap_view prev k else None)"

lemma parse_compressed_path:
  assumes "length (ap_stuff p0) = 7" and "\<not> ap_has TAG p" and "emitted ctl p \<noteq> []"
    and "small_fields (emitted ctl p)" and "path_ends ctl p rest"
  shows "\<exists>p'. DeserializeAppPath ctl (Some prev) p0 (app_path_wire ctl p @ rest) = Inr (p', rest) \<and>
    ap_view p' = inherited_view prev (emitted ctl p) \<and> \<not> ap_has TAG p' \<and> length (ap_stuff p') = 7"
proof -
  let ?kvs = "emitted ctl p"
  let ?q = "set_fields ?kvs (ap_Clear p0)"
  have ne: "fields_wire ctl ?kvs \<noteq> []"
    using assms(3) logical_wire_not_nil by (cases ?kvs) auto
  note loop = emitted_loop [OF assms(1,2,4,5)]
  have q: "ap_view ?q = map_of ?kvs" "length (ap_stuff ?q) = 7"
    using emitted_keys assms(1) by (simp_all add: set_fields_view)
  have "list_all (\<lambda>(k, v). k < 32) ?kvs" "TAG \<notin> fst ` set ?kvs"
    using emitted_keys(1) [of ctl p] by (auto simp: list_all_iff)
  then have tag: "\<not> ap_has TAG ?q" by (simp add: set_fields_has)
  have "DeserializeAppPath ctl (Some prev) p0 (app_path_wire ctl p @ rest) =
    Inr ((if ap_get CLASS prev = kCipAssemblyClass
          then inherit_assembly (last_field LOGICAL_END ?kvs + 1) prev ?q
          else inherit (last_field LOGICAL_END ?kvs + 1) prev ?q), rest)"
    using assms(2) ne loop deserialize_symbolic_logical [OF assms(3) emitted_keys(1)]
    by (simp add: DeserializeAppPath_def app_path_wire_def)
  then show ?thesis
    using q tag
    by (auto simp: inherit_view inherit_assembly_view inherit_tag inherited_view_def fun_eq_iff
        split: option.split)
qed

lemma parse_inheriting_path:
  assumes "length (ap_stuff p0) = 7" and "\<not> ap_has TAG p" and "emitted ctl p \<noteq> []"
    and "small_fields (emitted ctl p)" and "ends_path rest" and "k < LOGICAL_END"
  shows "\<exists>p'. DeserializeAppPath ctl (Some prev) p0 (app_path_wire ctl p @ rest) = Inr (p', rest) \<and>
    ap_view p' k =
      (case map_of (emitted ctl p) k of
         Some v \<Rightarrow> Some v
       | None \<Rightarrow>
           if last_field LOGICAL_END (emitted ctl p) < k \<and>
              \<not> (ap_get CLASS prev = kCipAssemblyClass \<and>
                 last_field LOGICAL_END (emitted ctl p) = CONN_PT \<and> k = INSTANCE)
           then ap_view prev k else None)"
  using parse_compressed_path [OF assms(1-4) ends_path_ends [OF assms(5)], of prev] assms(6)
  by (auto simp: inherited_view_def split: option.split)

section \<open>The 32 bit format\<close>

text \<open>The parser of the 32 bit format skips one byte more than the serializer writes before the
  value: it drops the low byte and takes the byte after the segment for the high one.\<close>

lemma deserialize_logical_32bit:
  assumes "65536 \<le> v" and "k < 4"
  shows "\<exists>h body. logical_wire ctl (seg_of k) v = h # body \<and> h AND 3 = 2 \<and>
    deserialize_logical ctl k 2 p (body @ b # rest) =
      Inr (ap_set k (join32 (byte_of 8 v) (byte_of 16 v) (byte_of 24 v) b) p, rest) \<and>
    deserialize_logical ctl k 2 p body = Inl Range_error"
proof -
  have k: "k = 0 \<or> k = 1 \<or> k = 2 \<or> k = 3" using assms(2) by linarith
  have "\<not> v < 256" "\<not> v < 65536" using assms(1) by (auto simp: word_less_nat_alt word_le_nat_alt)
  then have w: "logical_wire ctl (seg_of k) v =
    (seg_of k OR 2) # (if CTL_PACKED_EPATH ctl then [] else [0]) @ le32 v"
    by (simp add: logical_wire_def)
  show ?thesis unfolding w using k
    by (auto simp: deserialize_logical_def r_advance_def le32_def)
qed

end
