(* ===== verification/Cip_Error.thy ===== *)
theory Cip_Error
  imports Cip_Prelude
begin

text \<open>
  The status values of \<open>cip/ciperror.h\<close> and \<open>typedefs.h\<close>: the general status of a message router
  response (\<open>CipError\<close>), the extended status of the connection manager (\<open>ConnMgrStatus\<close>) and the
  return values of the API functions (\<open>EipStatus\<close>). The enumerators are constructors; the functions
  \<open>error_code\<close>, \<open>conn_status_code\<close> and \<open>eip_status_code\<close> give the numbers the code puts on the wire or
  compares.
\<close>

datatype CipError =
    kCipErrorSuccess | kCipErrorConnectionFailure | kCipErrorResourceUnavailable
  | kCipErrorInvalidParameterValue | kCipErrorPathSegmentError | kCipErrorPathDestinationUnknown
  | kCipErrorPartialTransfer | kCipErrorConnectionLost | kCipErrorServiceNotSupported
  | kCipErrorInvalidAttributeValue | kCipErrorAttributeListError
  | kCipErrorAlreadyInRequestedMode | kCipErrorObjectStateConflict | kCipErrorObjectAlreadyExists
  | kCipErrorAttributeNotSetable | kCipErrorPrivilegeViolation | kCipErrorDeviceStateConflict
  | kCipErrorReplyDataTooLarge | kCipErrorFragmentationOfAPrimitiveValue | kCipErrorNotEnoughData
  | kCipErrorAttributeNotSupported | kCipErrorTooMuchData | kCipErrorObjectDoesNotExist
  | kCipErrorServiceFragmentationSequenceNotInProgress | kCipErrorNoStoredAttributeData
  | kCipErrorStoreOperationFailure | kCipErrorRoutingFailureRequestPacketTooLarge
  | kCipErrorRoutingFailureResponsePacketTooLarge | kCipErrorMissingAttributeListEntry
  | kCipErrorInvalidAttributeValueList | kCipErrorEmbeddedServiceError
  | kCipErrorVendorSpecificError | kCipErrorInvalidParameter
  | kCipErrorWriteonceValueOrMediumAlreadyWritten | kCipErrorInvalidReplyReceived
  | kCipErrorKeyFailureInPath | kCipErrorPathSizeInvalid | kCipErrorUnexpectedAttributeInList
  | kCipErrorInvalidMemberId | kCipErrorMemberNotSetable
  | kCipErrorGroup2OnlyServerGeneralFailure | kCipErrorAttributeNotGettable
  | kCipErrorGeneralError

primrec error_code :: "CipError \<Rightarrow> u8" where
  "error_code kCipErrorSuccess = 0x00"
| "error_code kCipErrorConnectionFailure = 0x01"
| "error_code kCipErrorResourceUnavailable = 0x02"
| "error_code kCipErrorInvalidParameterValue = 0x03"
| "error_code kCipErrorPathSegmentError = 0x04"
| "error_code kCipErrorPathDestinationUnknown = 0x05"
| "error_code kCipErrorPartialTransfer = 0x06"
| "error_code kCipErrorConnectionLost = 0x07"
| "error_code kCipErrorServiceNotSupported = 0x08"
| "error_code kCipErrorInvalidAttributeValue = 0x09"
| "error_code kCipErrorAttributeListError = 0x0A"
| "error_code kCipErrorAlreadyInRequestedMode = 0x0B"
| "error_code kCipErrorObjectStateConflict = 0x0C"
| "error_code kCipErrorObjectAlreadyExists = 0x0D"
| "error_code kCipErrorAttributeNotSetable = 0x0E"
| "error_code kCipErrorPrivilegeViolation = 0x0F"
| "error_code kCipErrorDeviceStateConflict = 0x10"
| "error_code kCipErrorReplyDataTooLarge = 0x11"
| "error_code kCipErrorFragmentationOfAPrimitiveValue = 0x12"
| "error_code kCipErrorNotEnoughData = 0x13"
| "error_code kCipErrorAttributeNotSupported = 0x14"
| "error_code kCipErrorTooMuchData = 0x15"
| "error_code kCipErrorObjectDoesNotExist = 0x16"
| "error_code kCipErrorServiceFragmentationSequenceNotInProgress = 0x17"
| "error_code kCipErrorNoStoredAttributeData = 0x18"
| "error_code kCipErrorStoreOperationFailure = 0x19"
| "error_code kCipErrorRoutingFailureRequestPacketTooLarge = 0x1A"
| "error_code kCipErrorRoutingFailureResponsePacketTooLarge = 0x1B"
| "error_code kCipErrorMissingAttributeListEntry = 0x1C"
| "error_code kCipErrorInvalidAttributeValueList = 0x1D"
| "error_code kCipErrorEmbeddedServiceError = 0x1E"
| "error_code kCipErrorVendorSpecificError = 0x1F"
| "error_code kCipErrorInvalidParameter = 0x20"
| "error_code kCipErrorWriteonceValueOrMediumAlreadyWritten = 0x21"
| "error_code kCipErrorInvalidReplyReceived = 0x22"
| "error_code kCipErrorKeyFailureInPath = 0x25"
| "error_code kCipErrorPathSizeInvalid = 0x26"
| "error_code kCipErrorUnexpectedAttributeInList = 0x27"
| "error_code kCipErrorInvalidMemberId = 0x28"
| "error_code kCipErrorMemberNotSetable = 0x29"
| "error_code kCipErrorGroup2OnlyServerGeneralFailure = 0x2A"
| "error_code kCipErrorAttributeNotGettable = 0x2c"
| "error_code kCipErrorGeneralError = 0xff"

datatype ConnMgrStatus =
    kConnMgrStatusSuccess | kConnMgrStatusConnectionInUse
  | kConnMgrStatusTransportTriggerNotSupported | kConnMgrStatusOwnershipConflict
  | kConnMgrStatusConnectionNotFoundAtTargetApplication
  | kConnMgrStatusInvalidNetworkConnectionParameter | kConnMgrStatusInvalidConnectionSize
  | kConnMgrStatusRPINotSupported | kConnMgrStatusRPIValuesNotAcceptable
  | kConnMgrStatusNoMoreConnectionsAvailable | kConnMgrStatusVendorIdOrProductcodeError
  | kConnMgrStatusDeviceTypeError | kConnMgrStatusRevisionMismatch
  | kConnMgrStatusNonListenOnlyConnectionNotOpened | kConnMgrStatusTargetObjectOutOfConnections
  | kConnMgrStatusPITGreaterThanRPI | kConnMgrStatusInvalidOToTConnectionType
  | kConnMgrStatusInvalidTToOConnectionType | kConnMgrStatusInvalidOToTConnectionSize
  | kConnMgrStatusInvalidTToOConnectionSize | kConnMgrStatusInvalidConfigurationApplicationPath
  | kConnMgrStatusInvalidConsumingApplicationPath | kConnMgrStatusInvalidProducingApplicationPath
  | kConnMgrStatusInconsistentApplicationPathCombo
  | kConnMgrStatusNullForwardOpenFunctionNotSupported
  | kConnMgrStatusConnectionTimeoutMultiplierNotAcceptable
  | kConnMgrStatusParameterErrorInUnconnectedSendService | kConnMgrStatusInvalidSegmentTypeInPath
  | kConnMgrStatusInForwardClosePathMismatch

primrec conn_status_code :: "ConnMgrStatus \<Rightarrow> u16" where
  "conn_status_code kConnMgrStatusSuccess = 0"
| "conn_status_code kConnMgrStatusConnectionInUse = 0x0100"
| "conn_status_code kConnMgrStatusTransportTriggerNotSupported = 0x0103"
| "conn_status_code kConnMgrStatusOwnershipConflict = 0x0106"
| "conn_status_code kConnMgrStatusConnectionNotFoundAtTargetApplication = 0x0107"
| "conn_status_code kConnMgrStatusInvalidNetworkConnectionParameter = 0x0108"
| "conn_status_code kConnMgrStatusInvalidConnectionSize = 0x0109"
| "conn_status_code kConnMgrStatusRPINotSupported = 0x0111"
| "conn_status_code kConnMgrStatusRPIValuesNotAcceptable = 0x0112"
| "conn_status_code kConnMgrStatusNoMoreConnectionsAvailable = 0x0113"
| "conn_status_code kConnMgrStatusVendorIdOrProductcodeError = 0x0114"
| "conn_status_code kConnMgrStatusDeviceTypeError = 0x0115"
| "conn_status_code kConnMgrStatusRevisionMismatch = 0x0116"
| "conn_status_code kConnMgrStatusNonListenOnlyConnectionNotOpened = 0x0119"
| "conn_status_code kConnMgrStatusTargetObjectOutOfConnections = 0x011a"
| "conn_status_code kConnMgrStatusPITGreaterThanRPI = 0x011b"
| "conn_status_code kConnMgrStatusInvalidOToTConnectionType = 0x0123"
| "conn_status_code kConnMgrStatusInvalidTToOConnectionType = 0x0124"
| "conn_status_code kConnMgrStatusInvalidOToTConnectionSize = 0x0127"
| "conn_status_code kConnMgrStatusInvalidTToOConnectionSize = 0x0128"
| "conn_status_code kConnMgrStatusInvalidConfigurationApplicationPath = 0x0129"
| "conn_status_code kConnMgrStatusInvalidConsumingApplicationPath = 0x012a"
| "conn_status_code kConnMgrStatusInvalidProducingApplicationPath = 0x012b"
| "conn_status_code kConnMgrStatusInconsistentApplicationPathCombo = 0x012f"
| "conn_status_code kConnMgrStatusNullForwardOpenFunctionNotSupported = 0x0132"
| "conn_status_code kConnMgrStatusConnectionTimeoutMultiplierNotAcceptable = 0x0133"
| "conn_status_code kConnMgrStatusParameterErrorInUnconnectedSendService = 0x0205"
| "conn_status_code kConnMgrStatusInvalidSegmentTypeInPath = 0x0315"
| "conn_status_code kConnMgrStatusInForwardClosePathMismatch = 0x0316"

datatype EipStatus =
    kEipStatusOk | kEipStatusOkSend | kEipStatusError

primrec eip_status_code :: "EipStatus \<Rightarrow> int" where
  "eip_status_code kEipStatusOk = 0"
| "eip_status_code kEipStatusOkSend = 1"
| "eip_status_code kEipStatusError = -1"

end
