(* ===== verification/Cip_Segments.thy ===== *)
theory Cip_Segments
  imports Cip_EPath Cip_Error
begin

unbundle bit_operations_syntax

text \<open>
  The other segments of \<open>cip/cipepath.h\<close> and \<open>cip/cipepath.cc\<close>: the electronic key, the port segment,
  the group of key, network and port segments in front of a connection path, and the simple data
  segment behind it. The identity of the device, global variables of \<open>cip/cipidentity.cc\<close>, is an
  argument of the check of a key.
\<close>

section \<open>CipElectronicKeySegment\<close>

record key_segment =
  vendor_id :: int
  device_type :: int
  product_code :: int
  major_revision :: int
  minor_revision :: int

record identity =
  id_vendor_id :: u16
  id_device_type :: u16
  id_product_code :: u16
  id_major :: u8
  id_minor :: u8

text \<open>A key is parsed into \<open>this\<close> field by field, so a key that is cut short leaves the fields read
  so far. The result is the byte count, \<open>0\<close> when the input is no key and \<open>-1\<close> on an error.\<close>

definition DeserializeElectronicKey :: "key_segment \<Rightarrow> byte list \<Rightarrow> (int \<times> key_segment) res" where
  "DeserializeElectronicKey k inp =
    bindE (r_peek inp) (\<lambda>first.
    if first \<noteq> 0x34 then Inr (0, k)
    else
      case get8 (tl inp) of Inl e \<Rightarrow> Inr (-1, k) | Inr (key_format, r) \<Rightarrow>
      if key_format \<noteq> 4 then Inr (-1, k)
      else
      case get16 r of Inl e \<Rightarrow> Inr (-1, k) | Inr (v, r) \<Rightarrow>
      let k = k\<lparr>vendor_id := uint v\<rparr> in
      case get16 r of Inl e \<Rightarrow> Inr (-1, k) | Inr (v, r) \<Rightarrow>
      let k = k\<lparr>device_type := uint v\<rparr> in
      case get16 r of Inl e \<Rightarrow> Inr (-1, k) | Inr (v, r) \<Rightarrow>
      let k = k\<lparr>product_code := uint v\<rparr> in
      case get8 r of Inl e \<Rightarrow> Inr (-1, k) | Inr (v, r) \<Rightarrow>
      let k = k\<lparr>major_revision := uint v\<rparr> in
      case get8 r of Inl e \<Rightarrow> Inr (-1, k) | Inr (v, r) \<Rightarrow>
      let k = k\<lparr>minor_revision := uint v\<rparr> in
      Inr (int (length inp - length r), k))"

definition Key_Serialize :: "writer \<Rightarrow> key_segment \<Rightarrow> writer res" where
  "Key_Serialize w k =
     bindE (put8 w 0x34) (\<lambda>w.
     bindE (put8 w 4) (\<lambda>w.
     bindE (put16 w (word_of_int (vendor_id k))) (\<lambda>w.
     bindE (put16 w (word_of_int (device_type k))) (\<lambda>w.
     bindE (put16 w (word_of_int (product_code k))) (\<lambda>w.
     bindE (put8 w (word_of_int (major_revision k))) (\<lambda>w.
     put8 w (word_of_int (minor_revision k))))))))"

definition Key_SerializedCount :: nat where
  "Key_SerializedCount = 10"

definition Key_Check :: "identity \<Rightarrow> key_segment \<Rightarrow> ConnMgrStatus" where
  "Key_Check me k =
    (let compatibility_mode = bit (major_revision k) 7;
         mjr_revision = major_revision k AND 0x7f in
     if (vendor_id k \<noteq> 0 \<and> vendor_id k \<noteq> uint (id_vendor_id me)) \<or>
        (product_code k \<noteq> 0 \<and> product_code k \<noteq> uint (id_product_code me))
     then kConnMgrStatusVendorIdOrProductcodeError
     else if device_type k \<noteq> 0 \<and> device_type k \<noteq> uint (id_device_type me)
     then kConnMgrStatusDeviceTypeError
     else if \<not> compatibility_mode then
       if (mjr_revision \<noteq> 0 \<and> mjr_revision \<noteq> uint (id_major me)) \<or>
          (minor_revision k \<noteq> 0 \<and> minor_revision k \<noteq> uint (id_minor me))
       then kConnMgrStatusRevisionMismatch
       else kConnMgrStatusSuccess
     else
       if mjr_revision \<noteq> uint (id_major me) \<or> minor_revision k = 0 \<or>
          minor_revision k > uint (id_minor me)
       then kConnMgrStatusRevisionMismatch
       else kConnMgrStatusSuccess)"

section \<open>CipPortSegment\<close>

record port_segment =
  ps_port :: int
  link_address :: "byte list"

definition Port_Clear :: port_segment where
  "Port_Clear = \<lparr>ps_port = -1, link_address = []\<rparr>"

definition Port_Set :: "int \<Rightarrow> byte list \<Rightarrow> int \<Rightarrow> port_segment" where
  "Port_Set port src byte_count = \<lparr>ps_port = port, link_address = take (nat byte_count) src\<rparr>"

text \<open>\<open>while( link_addrz-- ) link_address.push_back( in.get8() )\<close>.\<close>

fun get_each8 :: "nat \<Rightarrow> byte list \<Rightarrow> (byte list \<times> byte list) res" where
  "get_each8 0 r = Inr ([], r)"
| "get_each8 (Suc n) r =
     bindE (get8 r) (\<lambda>(b, r). bindE (get_each8 n r) (\<lambda>(bs, r). Inr (b # bs, r)))"

definition DeserializePortSegment :: "u32 \<Rightarrow> byte list \<Rightarrow> (port_segment \<times> byte list) res" where
  "DeserializePortSegment ctl inp =
     bindE (get8 inp) (\<lambda>(first, r).
     bindE (if first AND 0x10 \<noteq> 0 then get8 r else Inr (1, r)) (\<lambda>(link_addrz, r).
     bindE (if first AND 0xf = 15 then bindE (get16 r) (\<lambda>(p, r). Inr (uint p, r))
            else Inr (uint (first AND 0xf), r)) (\<lambda>(port, r).
     bindE (get_each8 (unat link_addrz) r) (\<lambda>(link, r).
     bindE (if \<not> CTL_PACKED_EPATH ctl \<and> odd (length inp - length r) then r_advance r 1
            else Inr r) (\<lambda>r.
     Inr (\<lparr>ps_port = port, link_address = link\<rparr>, r))))))"

fun put_each8 :: "writer \<Rightarrow> byte list \<Rightarrow> writer res" where
  "put_each8 w [] = Inr w"
| "put_each8 w (b # bs) = bindE (put8 w b) (\<lambda>w. put_each8 w bs)"

definition Port_Serialize :: "u32 \<Rightarrow> writer \<Rightarrow> port_segment \<Rightarrow> writer res" where
  "Port_Serialize ctl out s =
    (let n = length (link_address s); port = ps_port s in
     if n > 255 then Inl Runtime_error
     else
       bindE
        (if n = 1 then
           if port \<le> 15 then put8 out (word_of_int port)
           else bindE (put8 out 0x0f) (\<lambda>w. put16 w (word_of_int port))
         else
           if port \<le> 15 then
             bindE (put8 out (0x10 OR word_of_int port)) (\<lambda>w. put8 w (of_nat n))
           else
             bindE (put8 out 0x1f) (\<lambda>w.
             bindE (put8 w (of_nat n)) (\<lambda>w. put16 w (word_of_int port)))) (\<lambda>w.
       bindE (put_each8 w (link_address s)) (\<lambda>w.
       if \<not> CTL_PACKED_EPATH ctl then ser_if (odd (w_count out w)) (\<lambda>w. put8 w 0) w else Inr w)))"

definition Port_SerializedCount :: "u32 \<Rightarrow> port_segment \<Rightarrow> nat res" where
  "Port_SerializedCount ctl s =
     bindE (Port_Serialize ctl (writer_on (replicate 256 0)) s) (\<lambda>w. Inr (w_pos w))"

section \<open>CipPortSegmentGroup\<close>

abbreviation KEY :: nat where "KEY \<equiv> 0"
abbreviation PIT_USECS :: nat where "PIT_USECS \<equiv> 1"
abbreviation PIT_MSECS :: nat where "PIT_MSECS \<equiv> 2"
abbreviation PORT :: nat where "PORT \<equiv> 3"

record port_group =
  pg_pbits :: u32
  pg_key :: key_segment
  pg_port :: port_segment
  pit_usecs :: u32

definition pg_has :: "nat \<Rightarrow> port_group \<Rightarrow> bool" where
  "pg_has k g = bit (pg_pbits g) k"

definition HasPIT :: "port_group \<Rightarrow> bool" where
  "HasPIT g \<longleftrightarrow> pg_has PIT_USECS g \<or> pg_has PIT_MSECS g"

definition pg_mark :: "nat \<Rightarrow> port_group \<Rightarrow> port_group" where
  "pg_mark k g = g\<lparr>pg_pbits := set_bit k (pg_pbits g)\<rparr>"

definition pg_Clear :: "port_group \<Rightarrow> port_group" where
  "pg_Clear g = g\<lparr>pg_pbits := 0, pg_port := Port_Clear\<rparr>"

definition SetCipPortSegment :: "int \<Rightarrow> byte list \<Rightarrow> int \<Rightarrow> port_group \<Rightarrow> port_group" where
  "SetCipPortSegment port src n g = pg_mark PORT (g\<lparr>pg_port := Port_Set port src n\<rparr>)"

definition GetPIT_USecs :: "port_group \<Rightarrow> u32" where
  "GetPIT_USecs g = (if HasPIT g then pit_usecs g else 0)"

definition GetPIT_MSecs :: "port_group \<Rightarrow> u32" where
  "GetPIT_MSecs g = (if HasPIT g then pit_usecs g div 1000 else 0)"

definition SetPIT_USecs :: "u32 \<Rightarrow> port_group \<Rightarrow> port_group" where
  "SetPIT_USecs v g = (pg_mark PIT_USECS g)\<lparr>pit_usecs := v\<rparr>"

definition SetPIT_MSecs :: "u32 \<Rightarrow> port_group \<Rightarrow> port_group" where
  "SetPIT_MSecs v g = (pg_mark PIT_MSECS g)\<lparr>pit_usecs := v * 1000\<rparr>"

text \<open>One round of the loop on the first byte of what is left: \<open>None\<close> is the \<open>goto exit\<close>, and a
  negative result, which the function returns at once, is a \<open>Neg\<close>.\<close>

datatype 'a step_result = Exit | Neg int 'a | Go 'a "byte list"

definition port_group_step :: "u32 \<Rightarrow> port_group \<Rightarrow> byte list \<Rightarrow> (port_group step_result) res" where
  "port_group_step ctl g r =
    bindE (r_peek r) (\<lambda>first.
    if first AND 0xe0 = 0 then
      bindE (DeserializePortSegment ctl r) (\<lambda>(s, r). Inr (Go (pg_mark PORT (g\<lparr>pg_port := s\<rparr>)) r))
    else if first = 0x34 then
      bindE (DeserializeElectronicKey (pg_key g) r) (\<lambda>(result, k).
      if result < 0 then Inr (Neg result (g\<lparr>pg_key := k\<rparr>))
      else bindE (r_advance r (nat result)) (\<lambda>r. Inr (Go (pg_mark KEY (g\<lparr>pg_key := k\<rparr>)) r)))
    else if first = 0x43 then
      bindE (r_advance r 1) (\<lambda>r. bindE (get8 r) (\<lambda>(v, r). Inr (Go (SetPIT_MSecs (ucast v) g) r)))
    else if first = 0x51 then
      bindE (r_advance r 1) (\<lambda>r.
      bindE (get8 r) (\<lambda>(num_words, r).
      if num_words = 1 then
        bindE (get16 r) (\<lambda>(v, r). Inr (Go (SetPIT_USecs (ucast v) g) r))
      else if num_words = 2 then
        bindE (get32 r) (\<lambda>(v, r). Inr (Go (SetPIT_USecs v g) r))
      else Inl Runtime_error))
    else Inr Exit)"

text \<open>Every round consumes at least one byte.\<close>

lemma get_lengths:
  "get8 r = Inr (b, r') \<Longrightarrow> length r = length r' + 1"
  "get16 r = Inr (c, r') \<Longrightarrow> length r = length r' + 2"
  "get32 r = Inr (d, r') \<Longrightarrow> length r = length r' + 4"
  by (auto dest: get_exact)

lemma r_advance_length: "r_advance r n = Inr r' \<Longrightarrow> length r' + n = length r"
  by (auto simp: r_advance_def split: if_splits)

lemma get_each8_length: "get_each8 n r = Inr (bs, r') \<Longrightarrow> length r = length r' + n"
  by (induction n arbitrary: bs r r') (auto simp: bindE_eq_Inr dest!: get_lengths)

lemma DeserializePortSegment_shrinks:
  "DeserializePortSegment ctl r = Inr (s, r') \<Longrightarrow> length r' < length r"
  by (auto simp: DeserializePortSegment_def bindE_eq_Inr dest!: get_lengths get_each8_length
      r_advance_length split: if_splits)

lemma DeserializeElectronicKey_count:
  assumes "DeserializeElectronicKey k r = Inr (n, k')" and "r \<noteq> []" and "hd r = 0x34" and "n \<ge> 0"
  shows "n = 10"
  using assms by (cases r) (auto simp: DeserializeElectronicKey_def r_peek_def Let_def dest!: get_lengths
      split: if_splits sum.splits)

lemma port_group_step_shrinks:
  assumes "port_group_step ctl g r = Inr (Go g' r')"
  shows "length r' < length r"
  using assms
  by (auto simp: port_group_step_def bindE_eq_Inr r_peek_def
      dest!: DeserializePortSegment_shrinks get_lengths r_advance_length DeserializeElectronicKey_count
      split: if_splits)

function port_group_loop :: "u32 \<Rightarrow> port_group \<Rightarrow> byte list \<Rightarrow> (port_group step_result) res" where
  "port_group_loop ctl g r =
     (if r = [] then Inr (Go g r)
      else case port_group_step ctl g r of
        Inl e \<Rightarrow> Inl e
      | Inr Exit \<Rightarrow> Inr (Go g r)
      | Inr (Neg n g') \<Rightarrow> Inr (Neg n g')
      | Inr (Go g' r') \<Rightarrow> port_group_loop ctl g' r')"
  by pat_completeness auto

termination
  by (relation "measure (\<lambda>(ctl, g, r). length r)") (auto dest: port_group_step_shrinks)

declare port_group_loop.simps [simp del]

text \<open>The result is the return value with the group, and the rest of the input when it is not
  negative.\<close>

definition DeserializePortSegmentGroup ::
    "u32 \<Rightarrow> port_group \<Rightarrow> byte list \<Rightarrow> (port_group step_result) res" where
  "DeserializePortSegmentGroup ctl g inp = port_group_loop ctl (pg_Clear g) inp"

definition PortGroup_Serialize :: "u32 \<Rightarrow> writer \<Rightarrow> port_group \<Rightarrow> writer res" where
  "PortGroup_Serialize ctl out g =
     bindE (ser_if (pg_has KEY g) (\<lambda>w. Key_Serialize w (pg_key g)) out) (\<lambda>w.
     bindE (ser_if (pg_has PIT_USECS g)
              (\<lambda>w. bindE (put8 w 0x51) (\<lambda>w. bindE (put8 w 2) (\<lambda>w. put32 w (GetPIT_USecs g)))) w) (\<lambda>w.
     bindE (if pg_has PIT_MSECS g then
              let msecs = GetPIT_MSecs g in
              if msecs > 255 then Inl Runtime_error
              else bindE (put8 w 0x43) (\<lambda>w. put8 w (ucast msecs))
            else Inr w) (\<lambda>w.
     ser_if (pg_has PORT g) (\<lambda>w. Port_Serialize ctl w (pg_port g)) w)))"

definition PortGroup_SerializedCount :: "u32 \<Rightarrow> port_group \<Rightarrow> nat res" where
  "PortGroup_SerializedCount ctl g =
     (let count = (if pg_has KEY g then Key_SerializedCount else 0) +
                  (if pg_has PIT_USECS g then 6 else 0) +
                  (if pg_has PIT_MSECS g then 2 else 0)
      in if pg_has PORT g
         then bindE (Port_SerializedCount ctl (pg_port g)) (\<lambda>n. Inr (count + n))
         else Inr count)"

section \<open>CipSimpleDataSegment\<close>

record data_segment =
  ds_pbits :: u32
  ds_words :: "u16 list"

definition ds_HasAny :: "data_segment \<Rightarrow> bool" where
  "ds_HasAny d \<longleftrightarrow> ds_pbits d \<noteq> 0"

definition ds_empty :: data_segment where
  "ds_empty = \<lparr>ds_pbits = 0, ds_words = []\<rparr>"

definition AddWord :: "u16 \<Rightarrow> data_segment \<Rightarrow> data_segment" where
  "AddWord x d = d\<lparr>ds_pbits := 1, ds_words := ds_words d @ [x]\<rparr>"

fun get_each16 :: "nat \<Rightarrow> byte list \<Rightarrow> (u16 list \<times> byte list) res" where
  "get_each16 0 r = Inr ([], r)"
| "get_each16 (Suc n) r =
     bindE (get16 r) (\<lambda>(x, r). bindE (get_each16 n r) (\<lambda>(xs, r). Inr (x # xs, r)))"

definition DeserializeDataSegment :: "byte list \<Rightarrow> (data_segment \<times> byte list) res" where
  "DeserializeDataSegment inp =
     bindE (r_peek inp) (\<lambda>first.
     if first = 0x80 then
       bindE (r_advance inp 1) (\<lambda>r.
       bindE (get8 r) (\<lambda>(word_count, r).
       bindE (get_each16 (unat word_count) r) (\<lambda>(ws, r).
       Inr (\<lparr>ds_pbits = 1, ds_words = ws\<rparr>, r))))
     else Inr (ds_empty, inp))"

fun put_each16 :: "writer \<Rightarrow> u16 list \<Rightarrow> writer res" where
  "put_each16 w [] = Inr w"
| "put_each16 w (x # xs) = bindE (put16 w x) (\<lambda>w. put_each16 w xs)"

definition Data_Serialize :: "writer \<Rightarrow> data_segment \<Rightarrow> writer res" where
  "Data_Serialize w d =
     (if length (ds_words d) > 255 then Inl Runtime_error
      else bindE (put8 w 0x80) (\<lambda>w.
           bindE (put8 w (of_nat (length (ds_words d)))) (\<lambda>w.
           put_each16 w (ds_words d))))"

definition Data_SerializedCount :: "data_segment \<Rightarrow> nat" where
  "Data_SerializedCount d = 1 + 1 + 2 * length (ds_words d)"

section \<open>Wire formats\<close>

subsection \<open>Electronic key\<close>

definition key_wire :: "key_segment \<Rightarrow> byte list" where
  "key_wire k = [0x34, 4] @ le16 (word_of_int (vendor_id k)) @ le16 (word_of_int (device_type k)) @
     le16 (word_of_int (product_code k)) @
     [word_of_int (major_revision k), word_of_int (minor_revision k)]"

definition ok_key :: "key_segment \<Rightarrow> bool" where
  "ok_key k \<longleftrightarrow> 0 \<le> vendor_id k \<and> vendor_id k < 65536 \<and>
     0 \<le> device_type k \<and> device_type k < 65536 \<and> 0 \<le> product_code k \<and> product_code k < 65536 \<and>
     0 \<le> major_revision k \<and> major_revision k < 256 \<and> 0 \<le> minor_revision k \<and> minor_revision k < 256"

lemma uint_of_int_u16: "0 \<le> i \<Longrightarrow> i < 65536 \<Longrightarrow> uint (word_of_int i :: u16) = i"
  by (simp add: uint_word_of_int_eq take_bit_int_eq_self)

lemma uint_of_int_u8: "0 \<le> i \<Longrightarrow> i < 256 \<Longrightarrow> uint (word_of_int i :: u8) = i"
  by (simp add: uint_word_of_int_eq take_bit_int_eq_self)

lemma length_key_wire [simp]: "length (key_wire k) = 10"
  by (simp add: key_wire_def)

lemma Key_Serialize_wire [ser_simps]: "Key_Serialize w k = append_bytes w (key_wire k)"
  by (simp add: Key_Serialize_def key_wire_def ser_simps)

lemma DeserializeElectronicKey_wire:
  "ok_key k \<Longrightarrow> DeserializeElectronicKey k0 (key_wire k @ rest) = Inr (10, k)"
  by (simp add: DeserializeElectronicKey_def key_wire_def des_simps ok_key_def uint_of_int_u16
      uint_of_int_u8 Let_def)

text \<open>The parser as one that hands on the rest of the input.\<close>

definition key_parse :: "byte list \<Rightarrow> (key_segment \<times> byte list) res" where
  "key_parse inp = bindE (DeserializeElectronicKey \<lparr>vendor_id = 0, device_type = 0, product_code = 0,
      major_revision = 0, minor_revision = 0\<rparr> inp) (\<lambda>(n, k).
    if n \<le> 0 then Inl Invalid_argument else Inr (k, drop (nat n) inp))"

interpretation key_codec: wire_codec Key_Serialize key_parse key_wire ok_key
  by unfold_locales (simp_all add: ser_simps key_parse_def DeserializeElectronicKey_wire)

subsection \<open>Port segment\<close>

definition port_head :: "port_segment \<Rightarrow> byte list" where
  "port_head s =
    (let n = length (link_address s); port = ps_port s in
     if n = 1 then
       if port \<le> 15 then [word_of_int port] else 0x0f # le16 (word_of_int port)
     else
       if port \<le> 15 then [0x10 OR word_of_int port, of_nat n]
       else [0x1f, of_nat n] @ le16 (word_of_int port))"

definition port_wire :: "u32 \<Rightarrow> port_segment \<Rightarrow> byte list" where
  "port_wire ctl s =
    (let body = port_head s @ link_address s
     in body @ (if \<not> CTL_PACKED_EPATH ctl \<and> odd (length body) then [0] else []))"

lemma put_each8_wire: "wf_writer w \<Longrightarrow> put_each8 w bs = append_bytes w bs"
proof (induction w bs rule: put_each8.induct)
  case (2 w b bs)
  have "bindE (append_bytes w [b]) (\<lambda>w. put_each8 w bs) = append_bytes w ([b] @ bs)"
    using 2 by (intro append_then) (auto simp: put_wire)
  then show ?case by (simp add: put_wire)
qed (simp add: append_nil)

lemma bind_put_each8 [ser_simps]:
  "wf_writer w \<Longrightarrow> bindE (append_bytes w a) (\<lambda>w. bindE (put_each8 w bs) f) =
     bindE (append_bytes w (a @ bs)) f"
  by (cases "append_bytes w a")
     (auto simp: put_each8_wire append_bind_append [symmetric] dest: append_wf)

lemma port_head_ser:
  "(let n = length (link_address s); port = ps_port s in
        (if n = 1 then
           if port \<le> 15 then put8 out (word_of_int port)
           else bindE (put8 out 0x0f) (\<lambda>w. put16 w (word_of_int port))
         else
           if port \<le> 15 then
             bindE (put8 out (0x10 OR word_of_int port)) (\<lambda>w. put8 w (of_nat n))
           else
             bindE (put8 out 0x1f) (\<lambda>w.
             bindE (put8 w (of_nat n)) (\<lambda>w. put16 w (word_of_int port))))) =
   append_bytes out (port_head s)"
  by (simp add: port_head_def ser_simps Let_def)

lemma Port_Serialize_wire:
  assumes "wf_writer w" and "length (link_address s) \<le> 255"
  shows "Port_Serialize ctl w s = append_bytes w (port_wire ctl s)"
proof -
  have "Port_Serialize ctl w s =
    bindE (append_bytes w (port_head s)) (\<lambda>w'.
    bindE (put_each8 w' (link_address s)) (\<lambda>w'.
    if \<not> CTL_PACKED_EPATH ctl then ser_if (odd (w_count w w')) (\<lambda>w. put8 w 0) w' else Inr w'))"
    using assms(2) port_head_ser [of s w] by (simp add: Port_Serialize_def Let_def)
  also have "\<dots> = bindE (append_bytes w (port_head s @ link_address s)) (\<lambda>w'.
    if \<not> CTL_PACKED_EPATH ctl then ser_if (odd (w_count w w')) (\<lambda>w. put8 w 0) w' else Inr w')"
    using assms(1) by (rule bind_put_each8)
  also have "\<dots> = append_bytes w (port_wire ctl s)"
    unfolding port_wire_def Let_def using assms(1)
    by (intro append_then) (auto simp: ser_if_def ser_simps append_nil)
  finally show ?thesis .
qed

lemma Port_Serialize_too_long:
  "length (link_address s) > 255 \<Longrightarrow> Port_Serialize ctl w s = Inl Runtime_error"
  by (simp add: Port_Serialize_def)

definition ok_port :: "port_segment \<Rightarrow> bool" where
  "ok_port s \<longleftrightarrow> 0 \<le> ps_port s \<and> ps_port s < 65536 \<and> ps_port s \<noteq> 15 \<and>
     length (link_address s) \<le> 255"

lemma get_each8_append: "get_each8 (length bs) (bs @ r) = Inr (bs, r)"
  by (induction bs) (simp_all add: des_simps)

lemma small_port_byte:
  assumes "0 \<le> i" and "i < 15"
  shows "(word_of_int i :: u8) AND 0x10 = 0" and "(word_of_int i :: u8) AND 0xf = word_of_int i"
    and "(0x10 OR word_of_int i :: u8) AND 0x10 = 0x10"
    and "(0x10 OR word_of_int i :: u8) AND 0xf = word_of_int i"
    and "word_of_int i \<noteq> (15 :: u8)" and "uint (word_of_int i :: u8) = i"
    and "(word_of_int i :: u8) AND 0xe0 = 0" and "(0x10 OR word_of_int i :: u8) AND 0xe0 = 0"
proof -
  have "i \<in> set [0..14]" using assms by simp
  then have "i \<in> {0, 1, 2, 3, 4, 5, 6, 7, 8, 9, 10, 11, 12, 13, 14}" by (simp add: upto.simps)
  then show "(word_of_int i :: u8) AND 0x10 = 0" and "(word_of_int i :: u8) AND 0xf = word_of_int i"
    and "(0x10 OR word_of_int i :: u8) AND 0x10 = 0x10"
    and "(0x10 OR word_of_int i :: u8) AND 0xf = word_of_int i"
    and "word_of_int i \<noteq> (15 :: u8)" and "uint (word_of_int i :: u8) = i"
    and "(word_of_int i :: u8) AND 0xe0 = 0" and "(0x10 OR word_of_int i :: u8) AND 0xe0 = 0"
    by (elim insertE; simp)+
qed

lemma get_each8_one [simp]: "get_each8 (Suc 0) (b # r) = Inr ([b], r)"
  by (simp add: des_simps)

lemma DeserializePortSegment_wire [des_simps]:
  assumes "ok_port s"
  shows "DeserializePortSegment ctl (port_wire ctl s @ rest) = Inr (s, rest)"
proof -
  obtain port link where s: "s = \<lparr>ps_port = port, link_address = link\<rparr>" by (cases s)
  have port: "0 \<le> port" "port < 65536" "port \<noteq> 15" and n: "length link < 256"
    using assms s by (auto simp: ok_port_def)
  note defs = DeserializePortSegment_def port_wire_def port_head_def s Let_def des_simps
    get_each8_append n r_advance_def uint_of_int_u16
  consider "port < 15" "length link = 1" | "port < 15" "length link \<noteq> 1"
    | "port > 15" "length link = 1" | "port > 15" "length link \<noteq> 1" using port(3) by linarith
  then show ?thesis
  proof cases
    case 1
    obtain b where b: "link = [b]" using 1(2) by (auto simp: length_Suc_conv)
    show ?thesis using 1 port small_port_byte [of port] by (simp add: defs b)
  next
    case 2
    then show ?thesis using port small_port_byte [of port] by (simp add: defs)
  next
    case 3
    obtain b where b: "link = [b]" using 3(2) by (auto simp: length_Suc_conv)
    show ?thesis using 3 port by (simp add: defs b)
  next
    case 4
    then show ?thesis using port by (simp add: defs)
  qed
qed

text \<open>Port 15: the serializer takes it for a small port, the parser for the escape to a 16 bit one.\<close>

lemma port_15_not_parsed:
  "DeserializePortSegment ctl (port_wire ctl \<lparr>ps_port = 15, link_address = [a]\<rparr>) = Inl Range_error"
  by (simp add: DeserializePortSegment_def port_wire_def port_head_def Let_def)

interpretation port_codec: wire_codec "Port_Serialize ctl" "DeserializePortSegment ctl"
    "port_wire ctl" ok_port for ctl
  by unfold_locales (auto simp: Port_Serialize_wire ok_port_def des_simps)

subsection \<open>Port segment group\<close>

definition ok_group :: "port_group \<Rightarrow> bool" where
  "ok_group g \<longleftrightarrow>
     (pg_has KEY g \<longrightarrow> ok_key (pg_key g)) \<and> (pg_has PORT g \<longrightarrow> ok_port (pg_port g)) \<and>
     \<not> (pg_has PIT_USECS g \<and> pg_has PIT_MSECS g) \<and>
     (pg_has PIT_MSECS g \<longrightarrow> GetPIT_MSecs g \<le> 255 \<and> pit_usecs g = GetPIT_MSecs g * 1000)"

definition group_wire :: "u32 \<Rightarrow> port_group \<Rightarrow> byte list" where
  "group_wire ctl g =
     (if pg_has KEY g then key_wire (pg_key g) else []) @
     (if pg_has PIT_USECS g then [0x51, 2] @ le32 (GetPIT_USecs g) else []) @
     (if pg_has PIT_MSECS g then [0x43, ucast (GetPIT_MSecs g)] else []) @
     (if pg_has PORT g then port_wire ctl (pg_port g) else [])"

lemma PortGroup_Serialize_wire [ser_simps]:
  assumes "wf_writer w" and "ok_group g"
  shows "PortGroup_Serialize ctl w g = append_bytes w (group_wire ctl g)"
proof -
  have port: "pg_has PORT g \<Longrightarrow> wf_writer w' \<Longrightarrow>
      Port_Serialize ctl w' (pg_port g) = append_bytes w' (port_wire ctl (pg_port g))" for w'
    using assms(2) by (intro Port_Serialize_wire) (auto simp: ok_group_def ok_port_def)
  let ?front = "(if pg_has KEY g then key_wire (pg_key g) else []) @
     (if pg_has PIT_USECS g then [0x51, 2] @ le32 (GetPIT_USecs g) else []) @
     (if pg_has PIT_MSECS g then [0x43, ucast (GetPIT_MSecs g)] else [])"
  have "\<not> GetPIT_MSecs g > 255" if "pg_has PIT_MSECS g"
    using assms(2) that by (auto simp: ok_group_def)
  then have "PortGroup_Serialize ctl w g = bindE (append_bytes w ?front)
      (ser_if (pg_has PORT g) (\<lambda>w. Port_Serialize ctl w (pg_port g)))"
    using assms(1)
    by (simp add: PortGroup_Serialize_def ser_simps ser_if_wire Let_def split del: if_split cong: if_cong)
  also have "\<dots> = append_bytes w (?front @ (if pg_has PORT g then port_wire ctl (pg_port g) else []))"
    using assms(1) port by (intro append_then) (auto simp: ser_if_def append_nil)
  finally show ?thesis by (simp add: group_wire_def)
qed

text \<open>What may follow a group so that its loop ends there.\<close>

definition ends_group :: "byte list \<Rightarrow> bool" where
  "ends_group r \<longleftrightarrow> r = [] \<or> (hd r AND 0xe0 \<noteq> 0 \<and> hd r \<notin> {0x34, 0x43, 0x51})"

lemma port_group_loop_end: "ends_group r \<Longrightarrow> port_group_loop ctl g r = Inr (Go g r)"
  by (subst port_group_loop.simps) (auto simp: ends_group_def port_group_step_def r_peek_def)

lemma port_group_loop_go:
  "r \<noteq> [] \<Longrightarrow> port_group_step ctl g r = Inr (Go g' r') \<Longrightarrow>
   port_group_loop ctl g r = port_group_loop ctl g' r'"
  by (subst port_group_loop.simps) simp

lemma port_group_loop_key:
  assumes "ok_key k"
  shows "port_group_loop ctl g (key_wire k @ r) = port_group_loop ctl (pg_mark KEY (g\<lparr>pg_key := k\<rparr>)) r"
proof (rule port_group_loop_go)
  show "key_wire k @ r \<noteq> []" by (simp add: key_wire_def)
  have "hd (key_wire k @ r) = 0x34" by (simp add: key_wire_def)
  then show "port_group_step ctl g (key_wire k @ r) = Inr (Go (pg_mark KEY (g\<lparr>pg_key := k\<rparr>)) r)"
    using \<open>key_wire k @ r \<noteq> []\<close> DeserializeElectronicKey_wire [OF assms, of "pg_key g" r]
    by (simp add: port_group_step_def r_peek_def r_advance_def)
qed

lemma port_group_loop_usecs:
  "port_group_loop ctl g (0x51 # 2 # le32 v @ r) = port_group_loop ctl (SetPIT_USecs v g) r"
  by (rule port_group_loop_go) (simp_all add: port_group_step_def des_simps r_advance_def)

lemma port_group_loop_msecs:
  "port_group_loop ctl g (0x43 # v # r) = port_group_loop ctl (SetPIT_MSecs (ucast v) g) r"
  by (rule port_group_loop_go) (simp_all add: port_group_step_def des_simps r_advance_def)

lemma port_wire_head:
  assumes "ok_port s"
  shows "port_wire ctl s \<noteq> []" and "hd (port_wire ctl s) AND 0xe0 = 0"
proof -
  show "port_wire ctl s \<noteq> []" by (auto simp: port_wire_def port_head_def Let_def)
  show "hd (port_wire ctl s) AND 0xe0 = 0"
    using assms small_port_byte [of "ps_port s"]
    by (auto simp: port_wire_def port_head_def Let_def ok_port_def)
qed

lemma port_group_loop_port:
  assumes "ok_port s"
  shows "port_group_loop ctl g (port_wire ctl s @ r) =
         port_group_loop ctl (pg_mark PORT (g\<lparr>pg_port := s\<rparr>)) r"
  using port_wire_head [OF assms, of ctl] assms
  by (intro port_group_loop_go) (simp_all add: port_group_step_def r_peek_def des_simps)

text \<open>The group as a caller sees it.\<close>

definition same_group :: "port_group \<Rightarrow> port_group \<Rightarrow> bool" where
  "same_group g h \<longleftrightarrow> (\<forall>k < 4. pg_has k g = pg_has k h) \<and> (pg_has KEY g \<longrightarrow> pg_key g = pg_key h) \<and>
     (pg_has PORT g \<longrightarrow> pg_port g = pg_port h) \<and> GetPIT_USecs g = GetPIT_USecs h"

lemma pg_has_simps [simp]:
  "k < 32 \<Longrightarrow> pg_has j (pg_mark k g) \<longleftrightarrow> j = k \<or> pg_has j g"
  "\<not> pg_has j (pg_Clear g)" "pg_has j (g\<lparr>pg_key := ky\<rparr>) = pg_has j g"
  "pg_has j (g\<lparr>pg_port := s\<rparr>) = pg_has j g" "pg_has j (g\<lparr>pit_usecs := u\<rparr>) = pg_has j g"
  by (auto simp: pg_has_def pg_mark_def pg_Clear_def bit_set_bit_iff)

lemma pg_mark_simps [simp]:
  "pg_key (pg_mark k g) = pg_key g" "pg_port (pg_mark k g) = pg_port g"
  "pit_usecs (pg_mark k g) = pit_usecs g"
  by (simp_all add: pg_mark_def)

text \<open>The fields of a parsed group, one optional segment after the other.\<close>

definition group_parsed :: "port_group \<Rightarrow> port_group \<Rightarrow> port_group" where
  "group_parsed g0 g =
    (let h = pg_Clear g0;
         h = (if pg_has KEY g then pg_mark KEY (h\<lparr>pg_key := pg_key g\<rparr>) else h);
         h = (if pg_has PIT_USECS g then SetPIT_USecs (GetPIT_USecs g) h else h);
         h = (if pg_has PIT_MSECS g then SetPIT_MSecs (GetPIT_MSecs g) h else h)
     in if pg_has PORT g then pg_mark PORT (h\<lparr>pg_port := pg_port g\<rparr>) else h)"

lemma DeserializePortSegmentGroup_wire:
  assumes "ok_group g" and "ends_group rest"
  shows "DeserializePortSegmentGroup ctl g0 (group_wire ctl g @ rest) = Inr (Go (group_parsed g0 g) rest)"
proof -
  have ms: "pg_has PIT_MSECS g \<Longrightarrow> ucast (ucast (GetPIT_MSecs g) :: u8) = GetPIT_MSecs g"
    using assms(1) by (intro ucast_back_u8) (auto simp: ok_group_def word_less_nat_alt word_le_nat_alt)
  show ?thesis using assms ms
    by (cases "pg_has KEY g"; cases "pg_has PIT_USECS g"; cases "pg_has PIT_MSECS g"; cases "pg_has PORT g")
       (simp_all add: DeserializePortSegmentGroup_def group_wire_def group_parsed_def Let_def
          ok_group_def port_group_loop_key port_group_loop_usecs port_group_loop_msecs
          port_group_loop_port port_group_loop_end)
qed

lemma group_parsed_same: "ok_group g \<Longrightarrow> same_group (group_parsed g0 g) g"
  by (auto simp: same_group_def group_parsed_def Let_def SetPIT_USecs_def SetPIT_MSecs_def
      GetPIT_USecs_def HasPIT_def ok_group_def less_Suc_eq numeral_eq_Suc)

subsection \<open>Data segment\<close>

definition data_wire :: "data_segment \<Rightarrow> byte list" where
  "data_wire d = 0x80 # of_nat (length (ds_words d)) # concat (map le16 (ds_words d))"

definition ok_data :: "data_segment \<Rightarrow> bool" where
  "ok_data d \<longleftrightarrow> ds_pbits d = 1 \<and> length (ds_words d) \<le> 255"

lemma put_each16_wire: "wf_writer w \<Longrightarrow> put_each16 w xs = append_bytes w (concat (map le16 xs))"
proof (induction w xs rule: put_each16.induct)
  case (2 w x xs)
  have "bindE (append_bytes w (le16 x)) (\<lambda>w. put_each16 w xs) =
        append_bytes w (le16 x @ concat (map le16 xs))"
    using 2 by (intro append_then) (auto simp: put_wire)
  then show ?case by (simp add: put_wire)
qed (simp add: append_nil)

lemma Data_Serialize_wire [ser_simps]:
  assumes "wf_writer w" and "length (ds_words d) \<le> 255"
  shows "Data_Serialize w d = append_bytes w (data_wire d)"
proof -
  have "Data_Serialize w d = bindE (append_bytes w [0x80, of_nat (length (ds_words d))])
      (\<lambda>w. put_each16 w (ds_words d))"
    using assms(2) by (simp add: Data_Serialize_def ser_simps)
  also have "\<dots> = append_bytes w ([0x80, of_nat (length (ds_words d))] @ concat (map le16 (ds_words d)))"
    using assms(1) by (intro append_then) (auto simp: put_each16_wire)
  finally show ?thesis by (simp add: data_wire_def)
qed

lemma get_each16_append: "get_each16 (length xs) (concat (map le16 xs) @ r) = Inr (xs, r)"
  by (induction xs) (simp_all add: des_simps)

lemma DeserializeDataSegment_wire [des_simps]:
  "ok_data d \<Longrightarrow> DeserializeDataSegment (data_wire d @ rest) = Inr (d, rest)"
  by (simp add: DeserializeDataSegment_def data_wire_def ok_data_def des_simps r_advance_def
      get_each16_append)

lemma length_data_wire: "length (data_wire d) = Data_SerializedCount d"
proof -
  have "length (concat (map le16 xs)) = 2 * length xs" for xs by (induction xs) simp_all
  then show ?thesis by (simp add: data_wire_def Data_SerializedCount_def)
qed

interpretation data_codec: wire_codec Data_Serialize DeserializeDataSegment data_wire ok_data
  by unfold_locales (auto simp: ser_simps des_simps ok_data_def)

end
