(* ===== verification/Encap.thy ===== *)
theory Encap
  imports Encap_Session Cpf Cip_Segments
begin

unbundle bit_operations_syntax

text \<open>
  The encapsulation layer, \<open>Encapsulation\<close>, \<open>ListIdentity\<close> and \<open>DelayedMsg\<close> of
  \<open>enet_encap/encap.h\<close> and \<open>enet_encap/encap.cc\<close>: the header of a message, the handlers of the commands
  that arrive over TCP and UDP, and the ListIdentity replies that are sent after a delay.

  A handler gets the bytes of the command and a writer for the reply and returns the C++ result with
  the reply memory. What lies behind SendRRData and SendUnitData, the functions
  \<open>Cpf::NotifyCommonPacketFormat\<close> and \<open>Cpf::NotifyConnectedCommonPacketFormat\<close>, is an argument here:
  a function on the state of the stack, which consists of the session table and a rest of any type.
  \<open>recv\<close>, \<open>rand\<close> and the clock are arguments too.
\<close>

section \<open>The encapsulation header\<close>

abbreviation kEncapCmdNoOperation :: u16 where "kEncapCmdNoOperation \<equiv> 0x00"
abbreviation kEncapCmdListServices :: u16 where "kEncapCmdListServices \<equiv> 0x04"
abbreviation kEncapCmdListIdentity :: u16 where "kEncapCmdListIdentity \<equiv> 0x63"
abbreviation kEncapCmdListInterfaces :: u16 where "kEncapCmdListInterfaces \<equiv> 0x64"
abbreviation kEncapCmdRegisterSession :: u16 where "kEncapCmdRegisterSession \<equiv> 0x65"
abbreviation kEncapCmdUnregisterSession :: u16 where "kEncapCmdUnregisterSession \<equiv> 0x66"
abbreviation kEncapCmdSendRRData :: u16 where "kEncapCmdSendRRData \<equiv> 0x6F"
abbreviation kEncapCmdSendUnitData :: u16 where "kEncapCmdSendUnitData \<equiv> 0x70"

abbreviation ENCAPSULATION_HEADER_LENGTH :: nat where "ENCAPSULATION_HEADER_LENGTH \<equiv> 24"
abbreviation ENCAPSULATION_HEADER_LENGTHX :: nat where "ENCAPSULATION_HEADER_LENGTHX \<equiv> 30"
abbreviation kSupportedProtocolVersion :: u16 where "kSupportedProtocolVersion \<equiv> 1"
abbreviation kEIP_Reserved_Port :: u16 where "kEIP_Reserved_Port \<equiv> 0xAF12"

record encap =
  en_command :: u16
  en_length :: u32
  en_session_handle :: u32
  en_status :: u32
  sender_context :: "byte list"
  en_options :: u32
  interface_handle :: u32
  en_timeout :: u16
  en_payload :: "cpf option"

definition Encapsulation :: "u16 \<Rightarrow> u32 \<Rightarrow> cpf option \<Rightarrow> encap" where
  "Encapsulation cmd handle pl =
     \<lparr>en_command = cmd, en_length = 0, en_session_handle = handle, en_status = 0,
      sender_context = replicate 8 0, en_options = 0, interface_handle = 0, en_timeout = 0,
      en_payload = pl\<rparr>"

definition IsBigHdr :: "encap \<Rightarrow> bool" where
  "IsBigHdr e \<longleftrightarrow> en_command e = kEncapCmdSendRRData \<or> en_command e = kEncapCmdSendUnitData"

definition HeaderLength :: "encap \<Rightarrow> nat" where
  "HeaderLength e = (if IsBigHdr e then ENCAPSULATION_HEADER_LENGTHX else ENCAPSULATION_HEADER_LENGTH)"

definition SetPayloadLength :: "u32 \<Rightarrow> encap \<Rightarrow> encap" where
  "SetPayloadLength n e = e\<lparr>en_length := (if IsBigHdr e then n + 6 else n)\<rparr>"

definition PayloadLength :: "encap \<Rightarrow> u32" where
  "PayloadLength e = (if IsBigHdr e then en_length e - 6 else en_length e)"

definition TimeoutMS :: "encap \<Rightarrow> u16" where
  "TimeoutMS e = ucast (sender_context e ! 0) OR push_bit 8 (ucast (sender_context e ! 1))"

text \<open>The result is the byte count, or \<open>-1\<close> when the two fields of a big header are cut off, with
  the header.\<close>

definition DeserializeEncap :: "byte list \<Rightarrow> (int \<times> encap) res" where
  "DeserializeEncap inp =
     bindE (get16 inp) (\<lambda>(cmd, r).
     bindE (get16 r) (\<lambda>(len, r).
     bindE (get32 r) (\<lambda>(handle, r).
     bindE (get32 r) (\<lambda>(status, r).
     bindE (get_each8 8 r) (\<lambda>(ctx, r).
     bindE (get32 r) (\<lambda>(opts, r).
     let e = \<lparr>en_command = cmd, en_length = ucast len, en_session_handle = handle,
              en_status = status, sender_context = ctx, en_options = opts,
              interface_handle = 0, en_timeout = 0, en_payload = None\<rparr> in
     if IsBigHdr e then
       case bindE (get32 r) (\<lambda>(ih, r). bindE (get16 r) (\<lambda>(tmo, r).
              Inr (e\<lparr>interface_handle := ih, en_timeout := tmo\<rparr>, r))) of
         Inl x \<Rightarrow> if is_runtime_error x then Inr (-1, e) else Inl x
       | Inr (e, r) \<Rightarrow> Inr (int (length inp) - int (length r), e)
     else Inr (int (length inp) - int (length r), e)))))))"

definition Encap_SerializedCount :: "encap \<Rightarrow> nat" where
  "Encap_SerializedCount e = HeaderLength e"

definition Encap_Serialize :: "writer \<Rightarrow> encap \<Rightarrow> writer res" where
  "Encap_Serialize out e =
    (let len = (case en_payload e of
                  None \<Rightarrow> ucast (en_length e)
                | Some pl \<Rightarrow> of_nat (Cpf_SerializedCount pl) + (if IsBigHdr e then 6 else 0)) in
     bindE (put16 out (en_command e)) (\<lambda>w.
     bindE (put16 w len) (\<lambda>w.
     bindE (put32 w (en_session_handle e)) (\<lambda>w.
     bindE (put32 w (en_status e)) (\<lambda>w.
     bindE (append_bytes w (sender_context e)) (\<lambda>w.
     bindE (put32 w (en_options e)) (\<lambda>w.
     bindE (if IsBigHdr e
            then bindE (put32 w (interface_handle e)) (\<lambda>w. put16 w (en_timeout e))
            else Inr w) (\<lambda>w.
     case en_payload e of None \<Rightarrow> Inr w | Some pl \<Rightarrow> Cpf_Serialize w pl))))))))"

section \<open>Commands about the device\<close>

record device = identity +
  dev_status :: u16
  dev_serial_number :: u32
  dev_product_name :: "byte list"
  dev_ip_address :: u32

definition handleReceivedListInterfacesCommand :: "writer \<Rightarrow> (int \<times> byte list) res" where
  "handleReceivedListInterfacesCommand reply = bindE (put16 reply 0) (\<lambda>w. Inr (2, w_mem w))"

text \<open>\<open>"Communications"\<close>, filled up with zeros to 16 bytes.\<close>

definition name_of_service :: "byte list" where
  "name_of_service = [0x43, 0x6F, 0x6D, 0x6D, 0x75, 0x6E, 0x69, 0x63,
                      0x61, 0x74, 0x69, 0x6F, 0x6E, 0x73, 0, 0]"

definition handleReceivedListServicesCommand :: "writer \<Rightarrow> (int \<times> byte list) res" where
  "handleReceivedListServicesCommand reply =
    (case
       bindE (put16 reply 1) (\<lambda>w.
       bindE (put16 w 0x0100) (\<lambda>w.
       bindE (put16 w 20) (\<lambda>w.
       bindE (put16 w 1) (\<lambda>w.
       bindE (put16 w (0x0020 OR 0x0100)) (\<lambda>w.
       append_bytes w name_of_service))))) of
       Inr w \<Rightarrow> Inr (int (w_count reply w), w_mem w)
     | Inl e \<Rightarrow> if is_runtime_error e then Inr (-1, w_mem reply) else Inl e)"

text \<open>The length is written last, through the writer \<open>id_length\<close> into the slot left for it.\<close>

definition serializeListIdentityResponse :: "device \<Rightarrow> writer \<Rightarrow> writer res" where
  "serializeListIdentityResponse dev reply =
     bindE (put16 reply 1) (\<lambda>w.
     bindE (put16 w 0x000C) (\<lambda>id_length.
     bindE (w_advance id_length 2) (\<lambda>w.
     bindE (put16 w kSupportedProtocolVersion) (\<lambda>w.
     bindE (put16BE w AF_INET) (\<lambda>w.
     bindE (put16BE w kEIP_Reserved_Port) (\<lambda>w.
     bindE (put32BE w (bswap32 (dev_ip_address dev))) (\<lambda>w.
     bindE (fill w 8 0) (\<lambda>w.
     bindE (put16 w (id_vendor_id dev)) (\<lambda>w.
     bindE (put16 w (id_device_type dev)) (\<lambda>w.
     bindE (put16 w (id_product_code dev)) (\<lambda>w.
     bindE (put8 w (id_major dev)) (\<lambda>w.
     bindE (put8 w (id_minor dev)) (\<lambda>w.
     bindE (put16 w (dev_status dev)) (\<lambda>w.
     bindE (put32 w (dev_serial_number dev)) (\<lambda>w.
     bindE (put_SHORT_STRING False w (dev_product_name dev)) (\<lambda>w.
     bindE (put8 w 0xff) (\<lambda>out.
     bindE (put16 (id_length\<lparr>w_mem := w_mem out\<rparr>) (of_nat (w_count id_length out - 2))) (\<lambda>patched.
     Inr (out\<lparr>w_mem := w_mem patched\<rparr>)))))))))))))))))))"

definition handleReceivedListIdentityCommandImmediate :: "device \<Rightarrow> writer \<Rightarrow> (int \<times> byte list) res" where
  "handleReceivedListIdentityCommandImmediate dev reply =
     bindE (serializeListIdentityResponse dev reply) (\<lambda>w. Inr (int (w_count reply w), w_mem w))"

text \<open>The decoder of the reply, used by a scanner.\<close>

record list_identity =
  li_protocol_ver :: u16
  li_sockaddr :: sock_addr
  li_vendor_id :: u16
  li_device_type :: u16
  li_product_code :: u16
  li_major :: u8
  li_minor :: u8
  li_status :: u16
  li_serial_num :: u32
  li_product_name :: "byte list"
  li_state :: u8

definition DeserializeListIdendityResponse :: "byte list \<Rightarrow> (list_identity \<times> byte list) res" where
  "DeserializeListIdendityResponse inp =
     bindE (get16 inp) (\<lambda>(item_count, r).
     bindE (get16 r) (\<lambda>(cip_id, r).
     if item_count \<noteq> 1 then Inl Invalid_argument
     else if cip_id \<noteq> 0xc then Inl Invalid_argument
     else
     bindE (get16 r) (\<lambda>(len, r).
     bindE (get16 r) (\<lambda>(ver, r).
     bindE (get16BE r) (\<lambda>(family, r).
     bindE (get16BE r) (\<lambda>(port, r).
     bindE (get32BE r) (\<lambda>(ip, r).
     bindE (r_advance r 8) (\<lambda>r.
     bindE (get16 r) (\<lambda>(vendor, r).
     bindE (get16 r) (\<lambda>(dtype, r).
     bindE (get16 r) (\<lambda>(code, r).
     bindE (get8 r) (\<lambda>(maj, r).
     bindE (get8 r) (\<lambda>(min, r).
     bindE (get16 r) (\<lambda>(status, r).
     bindE (get32 r) (\<lambda>(serial, r).
     bindE (get_SHORT_STRING False r) (\<lambda>(name, r).
     bindE (get8 r) (\<lambda>(state, r).
     Inr (\<lparr>li_protocol_ver = ver,
           li_sockaddr = SetAddr ip (SetPort (ucast port) (SetFamily (ucast family) (SockAddr 0 0))),
           li_vendor_id = vendor, li_device_type = dtype, li_product_code = code,
           li_major = maj, li_minor = min, li_status = status, li_serial_num = serial,
           li_product_name = name, li_state = state\<rparr>, r))))))))))))))))))"

section \<open>Delayed replies\<close>

text \<open>\<open>determineDelayTimeMSecs\<close>, with the value of \<open>rand()\<close>, which is between 0 and \<open>RAND_MAX\<close>. The
  product of a 32 bit number and a 31 bit one does not overflow 64 bits.\<close>

abbreviation RAND_MAX :: nat where "RAND_MAX \<equiv> 2147483647"

definition delay_bound :: "nat \<Rightarrow> nat" where
  "delay_bound max_msecs = (if max_msecs = 0 then 2000 else if max_msecs < 500 then 500 else max_msecs)"

definition determineDelayTimeMSecs :: "nat \<Rightarrow> nat \<Rightarrow> nat" where
  "determineDelayTimeMSecs rand max_msecs = (delay_bound max_msecs * rand) div RAND_MAX"

record delayed_msg =
  dm_time_out_usecs :: int
  dm_socket :: int
  dm_receiver :: sock_addr
  dm_message :: "byte list"
  dm_message_size :: nat

fun find_delayed :: "delayed_msg list \<Rightarrow> nat option" where
  "find_delayed [] = None"
| "find_delayed (d # ds) =
     (if dm_socket d = kSocketInvalid then Some 0 else map_option Suc (find_delayed ds))"

text \<open>The reply of the request's header and the response is kept in the first free slot; when there
  is none the request is dropped. The result is always zero.\<close>

definition handleReceivedListIdentityCommandDelayed ::
    "device \<Rightarrow> int \<Rightarrow> sock_addr \<Rightarrow> nat \<Rightarrow> byte list \<Rightarrow> delayed_msg list \<Rightarrow> (int \<times> delayed_msg list) res" where
  "handleReceivedListIdentityCommandDelayed dev sock from msec_delay command ds =
    (case find_delayed ds of
       None \<Rightarrow> Inr (0, ds)
     | Some i \<Rightarrow>
         let d = ds ! i in
         bindE (append_bytes (writer_on (dm_message d)) (take ENCAPSULATION_HEADER_LENGTH command)) (\<lambda>out.
         bindE (serializeListIdentityResponse dev out) (\<lambda>w.
         let size = w_count out w in
         bindE (put16 \<lparr>w_mem = w_mem w, w_pos = 2, w_lim = 4\<rparr> (of_nat size)) (\<lambda>len.
         Inr (0, ds[i := \<lparr>dm_time_out_usecs = int msec_delay * 1000, dm_socket = sock,
                         dm_receiver = from, dm_message = w_mem len,
                         dm_message_size = size + ENCAPSULATION_HEADER_LENGTH\<rparr>])))))"

text \<open>\<open>ManageEncapsulationMessages\<close>, with the tick of the timer: the messages sent and the slots.\<close>

definition delayed_tick :: "int \<Rightarrow> delayed_msg \<Rightarrow> (sock_addr \<times> int \<times> byte list) list \<times> delayed_msg" where
  "delayed_tick tick d =
    (if dm_socket d \<noteq> kSocketInvalid then
       let d = d\<lparr>dm_time_out_usecs := dm_time_out_usecs d - tick\<rparr> in
       if dm_time_out_usecs d < 0
       then ([(dm_receiver d, dm_socket d, take (dm_message_size d) (dm_message d))],
             d\<lparr>dm_socket := kSocketInvalid\<rparr>)
       else ([], d)
     else ([], d))"

definition ManageEncapsulationMessages ::
    "int \<Rightarrow> delayed_msg list \<Rightarrow> (sock_addr \<times> int \<times> byte list) list \<times> delayed_msg list" where
  "ManageEncapsulationMessages tick ds =
     (concat (map (\<lambda>d. fst (delayed_tick tick d)) ds), map (\<lambda>d. snd (delayed_tick tick d)) ds)"

section \<open>Receiving a message over TCP\<close>

text \<open>A stream is the list of what arrives on the socket: pieces of data, its end, or an error.
  \<open>recv\<close> hands out the next piece, or as much of it as was asked for.\<close>

datatype recv_result = Received "byte list" | Closed | Recv_error

fun EnsuredTcpRecv :: "recv_result list \<Rightarrow> nat \<Rightarrow> byte list \<Rightarrow> int \<times> byte list \<times> recv_result list" where
  "EnsuredTcpRecv rs 0 got = (int (length got), got, rs)"
| "EnsuredTcpRecv [] (Suc n) got = (int (length got), got, [])"
| "EnsuredTcpRecv (Closed # rs) (Suc n) got = (int (length got), got, rs)"
| "EnsuredTcpRecv (Recv_error # rs) (Suc n) got = (-1, got, rs)"
| "EnsuredTcpRecv (Received bs # rs) (Suc n) got =
     (if bs = [] then (int (length got), got, rs)
      else EnsuredTcpRecv (if length bs > Suc n then Received (drop (Suc n) bs) # rs else rs)
             (Suc n - length bs) (got @ take (Suc n) bs))"

function disposeOfLargePacket :: "recv_result list \<Rightarrow> nat \<Rightarrow> int \<Rightarrow> int \<times> recv_result list" where
  "disposeOfLargePacket rs count tot =
     (if count = 0 then (tot, rs)
      else
        let readz = min count 256 in
        case EnsuredTcpRecv rs readz [] of
          (num_read, got, rs) \<Rightarrow>
            if num_read \<noteq> int readz then (num_read, rs)
            else disposeOfLargePacket rs (count - readz) (tot + num_read))"
  by pat_completeness auto

termination
  by (relation "measure (\<lambda>(rs, count, tot). count)") auto

declare disposeOfLargePacket.simps [simp del]

text \<open>The result is the length of the message or \<open>kEipStatusError\<close>, with the message and the
  stream behind it.\<close>

definition ReceiveTcpMsg :: "recv_result list \<Rightarrow> nat \<Rightarrow> int \<times> byte list \<times> recv_result list" where
  "ReceiveTcpMsg rs cap =
    (if cap < ENCAPSULATION_HEADER_LENGTH then (-1, [], rs)
     else case EnsuredTcpRecv rs ENCAPSULATION_HEADER_LENGTH [] of
       (num_read, hdr, rs) \<Rightarrow>
         if num_read < int ENCAPSULATION_HEADER_LENGTH then (-1, [], rs)
         else
           let remaining = unat (ucast (hdr ! 2) OR push_bit 8 (ucast (hdr ! 3)) :: u32) in
           if remaining > cap - ENCAPSULATION_HEADER_LENGTH then
             if remaining > 65511 then (-1, [], rs)
             else (-1, [], snd (disposeOfLargePacket rs remaining 0))
           else case EnsuredTcpRecv rs remaining [] of
             (num_read, body, rs) \<Rightarrow>
               if num_read < int remaining then (-1, [], rs)
               else (num_read + int ENCAPSULATION_HEADER_LENGTH, hdr @ body, rs))"

section \<open>The commands over TCP\<close>

text \<open>A handler that may throw and changes the state of the stack: the state survives the exception.\<close>

type_synonym 's notify =
  "cpf \<Rightarrow> byte list \<Rightarrow> writer \<Rightarrow> session_mgr \<times> 's \<Rightarrow> (int \<times> byte list) res \<times> session_mgr \<times> 's"

text \<open>\<open>registerSession\<close>: the byte count or \<open>-1\<close>, the encapsulation status and the session handle.\<close>

definition registerSession ::
    "int \<Rightarrow> byte list \<Rightarrow> writer \<Rightarrow> session_mgr \<Rightarrow>
     ((int \<times> byte list) \<times> EncapError \<times> u32) res \<times> session_mgr" where
  "registerSession sock command reply m =
    (case bindE (get16 command) (\<lambda>(version, r). bindE (get16 r) (\<lambda>(opts, r). Inr (version, opts))) of
       Inl e \<Rightarrow> (if is_runtime_error e then Inr ((-1, w_mem reply), kEncapErrorSuccess, 0) else Inl e, m)
     | Inr (version, opts) \<Rightarrow>
         (case (if version \<noteq> 0 \<and> version \<le> kSupportedProtocolVersion \<and> opts = 0
                then RegisterSession sock m else ((kEncapErrorUnsupportedProtocol, None), m)) of
            ((status, sh), m) \<Rightarrow>
              let version = (if version > kSupportedProtocolVersion then kSupportedProtocolVersion
                             else version) in
              (bindE (put16 reply version) (\<lambda>w. bindE (put16 w opts) (\<lambda>w.
               Inr ((int (w_count reply w), w_mem w), status, (case sh of None \<Rightarrow> 0 | Some h \<Rightarrow> h)))),
               m)))"

text \<open>The bottom of \<open>HandleReceivedExplicitTcpData\<close>: a result that is not negative gets its header.\<close>

definition finish_tcp :: "writer \<Rightarrow> encap \<Rightarrow> int \<times> byte list \<Rightarrow> (int \<times> byte list) res" where
  "finish_tcp aReply e = (\<lambda>(result, mem).
     if result \<ge> 0 then
       bindE (Encap_Serialize (aReply\<lparr>w_mem := mem\<rparr>) (SetPayloadLength (word_of_int result) e)) (\<lambda>w.
       Inr (result + int (w_count aReply w), w_mem w))
     else Inr (result, mem))"

text \<open>The \<open>switch\<close> on the command: the result with the header as the case leaves it, or \<open>None\<close> for
  the case that returns at once.\<close>

definition tcp_command ::
    "'s notify \<Rightarrow> 's notify \<Rightarrow> device \<Rightarrow> int \<Rightarrow> encap \<Rightarrow> byte list \<Rightarrow> writer \<Rightarrow> session_mgr \<times> 's \<Rightarrow>
     (encap \<times> (int \<times> byte list) option) res \<times> session_mgr \<times> 's" where
  "tcp_command notify_rr notify_unit dev sock e command reply st =
    (let (m, s) = st;
         plain = (\<lambda>r. (bindE r (\<lambda>x. Inr (e, Some x)), st));
         status = (\<lambda>x. (Inr (e\<lparr>en_status := word_of_int (encap_error_code x)\<rparr>, Some (0, w_mem reply)), st));
         cmd = en_command e in
     if cmd = kEncapCmdListServices then plain (handleReceivedListServicesCommand reply)
     else if cmd = kEncapCmdListIdentity then
       plain (handleReceivedListIdentityCommandImmediate dev reply)
     else if cmd = kEncapCmdListInterfaces then plain (handleReceivedListInterfacesCommand reply)
     else if cmd = kEncapCmdRegisterSession then
       (case registerSession sock command reply m of
          (Inl x, m) \<Rightarrow> (Inl x, m, s)
        | (Inr (res, error, sh), m) \<Rightarrow>
            (Inr (e\<lparr>en_session_handle := sh, en_status := word_of_int (encap_error_code error)\<rparr>,
                  Some res), m, s))
     else if cmd = kEncapCmdUnregisterSession then
       (Inr (e, None), snd (UnregisterSession (en_session_handle e) sock m), s)
     else if cmd = kEncapCmdSendRRData then
       if command = [] then (Inr (e, Some (-1, w_mem reply)), st)
       else
         (case CheckRegisteredSession (en_session_handle e) sock m of
            None \<Rightarrow> status kEncapErrorInvalidSessionHandle
          | Some i \<Rightarrow>
              (case notify_rr (Cpf_for_peer (m_peeraddr (sessions m ! i)) (en_session_handle e))
                      command reply st of
                 (Inl x, st) \<Rightarrow> (Inl x, st)
               | (Inr (result, mem), st) \<Rightarrow>
                   if result < 0
                   then (Inr (e\<lparr>en_status := word_of_int (- result)\<rparr>, Some (0, mem)), st)
                   else (Inr (e, Some (result, mem)), st)))
     else if cmd = kEncapCmdSendUnitData then
       if command = [] then (Inr (e, Some (-1, w_mem reply)), st)
       else
         (case CheckRegisteredSession (en_session_handle e) sock m of
            None \<Rightarrow> status kEncapErrorInvalidSessionHandle
          | Some i \<Rightarrow>
              (case notify_unit (Cpf_for_peer (m_peeraddr (sessions m ! i)) (en_session_handle e))
                      command reply st of
                 (Inl x, st) \<Rightarrow> (Inl x, st)
               | (Inr (result, mem), st) \<Rightarrow> (Inr (e, Some (result, mem)), st)))
     else status kEncapErrorInvalidOrUnsupportedCommand)"

definition HandleReceivedExplicitTcpData ::
    "'s notify \<Rightarrow> 's notify \<Rightarrow> device \<Rightarrow> u64 \<Rightarrow> int \<Rightarrow> byte list \<Rightarrow> writer \<Rightarrow> session_mgr \<times> 's \<Rightarrow>
     (int \<times> byte list) res \<times> session_mgr \<times> 's" where
  "HandleReceivedExplicitTcpData notify_rr notify_unit dev now sock aCommand aReply st =
    (if length aCommand < ENCAPSULATION_HEADER_LENGTH then (Inr (-1, w_mem aReply), st)
     else
       let st = (snd (UpdateRegisteredTcpConnection now sock (fst st)), snd st) in
       case DeserializeEncap aCommand of
         Inl x \<Rightarrow> (Inl x, st)
       | Inr (headerz, e) \<Rightarrow>
           if headerz \<noteq> int (HeaderLength e) then (Inr (-1, w_mem aReply), st)
           else if en_command e = kEncapCmdNoOperation then (Inr (0, w_mem aReply), st)
           else if en_command e \<noteq> kEncapCmdUnregisterSession \<and> (en_status e \<noteq> 0 \<or> en_options e \<noteq> 0)
           then (Inr (0, w_mem aReply), st)
           else
             let e = SetPayloadLength 0 e in
             case r_advance aCommand (nat headerz) of
               Inl x \<Rightarrow> (Inl x, st)
             | Inr command \<Rightarrow>
                 (case w_advance aReply (nat headerz) of
                    Inl x \<Rightarrow> (Inl x, st)
                  | Inr reply \<Rightarrow>
                      (case tcp_command notify_rr notify_unit dev sock e command reply st of
                         (Inl x, st) \<Rightarrow> (Inl x, st)
                       | (Inr (e, None), st) \<Rightarrow> (Inr (0, w_mem aReply), st)
                       | (Inr (e, Some res), st) \<Rightarrow> (finish_tcp aReply e res, st))))"

section \<open>The commands over UDP\<close>

text \<open>\<open>result\<close> enters the \<open>switch\<close> as the length of the header, and the two commands that test the
  options leave it so when they are not zero.\<close>

definition udp_command ::
    "device \<Rightarrow> nat \<Rightarrow> int \<Rightarrow> sock_addr \<Rightarrow> bool \<Rightarrow> encap \<Rightarrow> byte list \<Rightarrow> writer \<Rightarrow> delayed_msg list \<Rightarrow>
     (encap \<times> (int \<times> byte list) \<times> delayed_msg list) res" where
  "udp_command dev rand sock from isUnicast e aCommand reply ds =
    (let cmd = en_command e;
         plain = (\<lambda>r. bindE r (\<lambda>x. Inr (e, x, ds)));
         header = Inr (e, (int ENCAPSULATION_HEADER_LENGTH, w_mem reply), ds) in
     if cmd = kEncapCmdListServices then
       if en_options e = 0 then plain (handleReceivedListServicesCommand reply) else header
     else if cmd = kEncapCmdListIdentity then
       if isUnicast then plain (handleReceivedListIdentityCommandImmediate dev reply)
       else
         bindE (handleReceivedListIdentityCommandDelayed dev sock from
                  (determineDelayTimeMSecs rand (unat (TimeoutMS e))) aCommand ds) (\<lambda>(result, ds).
         Inr (e, (result, w_mem reply), ds))
     else if cmd = kEncapCmdListInterfaces then
       if en_options e = 0 then plain (handleReceivedListInterfacesCommand reply) else header
     else Inr (e\<lparr>en_status := word_of_int (encap_error_code kEncapErrorInvalidOrUnsupportedCommand)\<rparr>,
               (-1, w_mem reply), ds))"

definition HandleReceivedExplicitUdpData ::
    "device \<Rightarrow> nat \<Rightarrow> int \<Rightarrow> sock_addr \<Rightarrow> byte list \<Rightarrow> writer \<Rightarrow> bool \<Rightarrow> delayed_msg list \<Rightarrow>
     ((int \<times> byte list) \<times> delayed_msg list) res" where
  "HandleReceivedExplicitUdpData dev rand sock from aCommand aReply isUnicast ds =
    (if length aCommand < ENCAPSULATION_HEADER_LENGTH then Inr ((-1, w_mem aReply), ds)
     else
       bindE (DeserializeEncap aCommand) (\<lambda>(result, e).
       if result \<noteq> int ENCAPSULATION_HEADER_LENGTH then Inr ((-1, w_mem aReply), ds)
       else if en_command e = kEncapCmdNoOperation then Inr ((-1, w_mem aReply), ds)
       else if en_status e \<noteq> 0 then Inr ((-1, w_mem aReply), ds)
       else
         bindE (w_advance aReply ENCAPSULATION_HEADER_LENGTH) (\<lambda>reply.
         bindE (udp_command dev rand sock from isUnicast (SetPayloadLength 0 e) aCommand reply ds)
           (\<lambda>(e, (result, mem), ds).
         if result > 0 then
           bindE (Encap_Serialize (aReply\<lparr>w_mem := mem\<rparr>) (SetPayloadLength (word_of_int result) e)) (\<lambda>w.
           Inr ((result + int ENCAPSULATION_HEADER_LENGTH, w_mem w), ds))
         else Inr ((result, mem), ds)))))"

section \<open>Wire formats\<close>

definition encap_wire :: "encap \<Rightarrow> byte list" where
  "encap_wire e = le16 (en_command e) @ le16 (ucast (en_length e)) @ le32 (en_session_handle e) @
     le32 (en_status e) @ sender_context e @ le32 (en_options e) @
     (if IsBigHdr e then le32 (interface_handle e) @ le16 (en_timeout e) else [])"

definition ok_encap :: "encap \<Rightarrow> bool" where
  "ok_encap e \<longleftrightarrow> length (sender_context e) = 8 \<and> en_length e < 65536 \<and> en_payload e = None \<and>
     (\<not> IsBigHdr e \<longrightarrow> interface_handle e = 0 \<and> en_timeout e = 0)"

lemma Encap_Serialize_wire [ser_simps]:
  "en_payload e = None \<Longrightarrow> Encap_Serialize w e = append_bytes w (encap_wire e)"
  by (simp add: Encap_Serialize_def encap_wire_def ser_simps Let_def)

lemma length_encap_wire:
  "length (sender_context e) = 8 \<Longrightarrow> length (encap_wire e) = HeaderLength e"
  by (simp add: encap_wire_def HeaderLength_def)

lemma get_each8_exactly: "length bs = n \<Longrightarrow> get_each8 n (bs @ r) = Inr (bs, r)"
  using get_each8_append by blast

lemma DeserializeEncap_wire:
  assumes "ok_encap e"
  shows "DeserializeEncap (encap_wire e @ rest) = Inr (int (HeaderLength e), e)"
proof -
  have "ucast (ucast (en_length e) :: u16) = en_length e"
    using assms by (intro ucast_back_u16) (simp add: ok_encap_def)
  then show ?thesis using assms
    by (cases e) (auto simp: DeserializeEncap_def encap_wire_def des_simps Let_def
        get_each8_exactly
        IsBigHdr_def HeaderLength_def ok_encap_def)
qed

text \<open>Skipping two bytes and filling them in later is the same as writing them in order.\<close>

lemma backpatch16:
  assumes "wf_writer w"
  shows "bindE (w_advance w 2) (\<lambda>w1. bindE (append_bytes w1 bs) (\<lambda>out.
     bindE (put16 (w\<lparr>w_mem := w_mem out\<rparr>) (f (w_count w out))) (\<lambda>patched.
     Inr (out\<lparr>w_mem := w_mem patched\<rparr>)))) =
   append_bytes w (le16 (f (length bs + 2)) @ bs)"
proof (cases "w_pos w + 2 + length bs \<le> w_lim w")
  case True
  have "poke (poke (w_mem w) (w_pos w + 2) bs) (w_pos w) (le16 v) =
        poke (poke (w_mem w) (w_pos w) (le16 v)) (w_pos w + 2) bs" for v
    using assms True by (intro poke_commute) (auto simp: wf_writer_def)
  then show ?thesis using True
    by (simp add: w_advance_def append_bytes_def put_wire w_count_def poke_append add.commute)
next
  case False
  then show ?thesis by (auto simp: w_advance_def append_bytes_def)
qed

section \<open>The ListIdentity response\<close>

definition list_identity_body :: "device \<Rightarrow> byte list" where
  "list_identity_body dev =
     le16 kSupportedProtocolVersion @ be16 AF_INET @ be16 kEIP_Reserved_Port @
     be32 (bswap32 (dev_ip_address dev)) @ replicate 8 0 @
     le16 (id_vendor_id dev) @ le16 (id_device_type dev) @ le16 (id_product_code dev) @
     [id_major dev, id_minor dev] @ le16 (dev_status dev) @ le32 (dev_serial_number dev) @
     short_string_wire False (dev_product_name dev) @ [0xff]"

definition list_identity_wire :: "device \<Rightarrow> byte list" where
  "list_identity_wire dev = le16 1 @ le16 0x000C @ le16 (of_nat (length (list_identity_body dev))) @
     list_identity_body dev"

lemma length_list_identity: "length (list_identity_wire dev) = 40 + length (dev_product_name dev)"
  by (simp add: list_identity_wire_def list_identity_body_def short_string_wire_def)

lemma serializeListIdentityResponse_wire:
  assumes "wf_writer w"
  shows "serializeListIdentityResponse dev w = append_bytes w (list_identity_wire dev)"
proof -
  let ?body = "list_identity_body dev"
  have "serializeListIdentityResponse dev w = bindE (append_bytes w (le16 1 @ le16 0x000C)) (\<lambda>w.
     bindE (w_advance w 2) (\<lambda>w1. bindE (append_bytes w1 ?body) (\<lambda>out.
     bindE (put16 (w\<lparr>w_mem := w_mem out\<rparr>) (of_nat (w_count w out - 2))) (\<lambda>patched.
     Inr (out\<lparr>w_mem := w_mem patched\<rparr>)))))"
    by (simp add: serializeListIdentityResponse_def list_identity_body_def ser_simps)
  also have "\<dots> = append_bytes w ((le16 1 @ le16 0x000C) @ le16 (of_nat (length ?body + 2 - 2)) @ ?body)"
    by (rule append_then [OF assms], rule backpatch16 [where f = "\<lambda>n. of_nat (n - 2)"])
  finally show ?thesis by (simp add: list_identity_wire_def)
qed

lemma DeserializeListIdendityResponse_wire:
  assumes "length (dev_product_name dev) < 256"
  shows "DeserializeListIdendityResponse (list_identity_wire dev @ rest) =
    Inr (\<lparr>li_protocol_ver = kSupportedProtocolVersion,
          li_sockaddr = SetAddr (bswap32 (dev_ip_address dev)) (SockAddr 0xAF12 0),
          li_vendor_id = id_vendor_id dev, li_device_type = id_device_type dev,
          li_product_code = id_product_code dev, li_major = id_major dev, li_minor = id_minor dev,
          li_status = dev_status dev, li_serial_num = dev_serial_number dev,
          li_product_name = dev_product_name dev, li_state = 0xff\<rparr>, rest)"
  using assms
  by (simp add: DeserializeListIdendityResponse_def list_identity_wire_def list_identity_body_def
      des_simps r_advance_def SetAddr_def SetPort_def SetFamily_def SockAddr_def)

section \<open>Delayed replies\<close>

text \<open>\<open>ENCAP_MAX_DELAYED_ENCAP_MESSAGE_SIZE\<close>: the header, 39, and the name with its terminating zero.\<close>

definition delayed_capacity :: "device \<Rightarrow> nat" where
  "delayed_capacity dev = ENCAPSULATION_HEADER_LENGTH + 39 + (length (dev_product_name dev) + 1)"

definition wf_delayed :: "device \<Rightarrow> delayed_msg list \<Rightarrow> bool" where
  "wf_delayed dev ds \<longleftrightarrow> list_all (\<lambda>d. length (dm_message d) = delayed_capacity dev \<and>
     dm_message_size d \<le> delayed_capacity dev) ds"

lemma find_delayed_Some: "find_delayed ds = Some i \<Longrightarrow> i < length ds \<and> dm_socket (ds ! i) = kSocketInvalid"
  by (induction ds arbitrary: i) (auto split: if_splits)

lemma poke_prefix: "length xs \<le> length m \<Longrightarrow> poke m 0 xs = xs @ drop (length xs) m"
  by (simp add: poke_eq)

text \<open>The message kept is the request's header with the length of the response in it, then the
  response; it fills the buffer to the last byte.\<close>

definition delayed_reply :: "device \<Rightarrow> byte list \<Rightarrow> byte list" where
  "delayed_reply dev command =
     take 2 command @ le16 (of_nat (length (list_identity_wire dev))) @ take 20 (drop 4 command) @
     list_identity_wire dev"

lemma delayed_stored:
  assumes "wf_delayed dev ds" and "find_delayed ds = Some i"
    and "ENCAPSULATION_HEADER_LENGTH \<le> length command"
  shows "handleReceivedListIdentityCommandDelayed dev sock from msecs command ds =
    Inr (0, ds[i := \<lparr>dm_time_out_usecs = int msecs * 1000, dm_socket = sock, dm_receiver = from,
                    dm_message = delayed_reply dev command,
                    dm_message_size = delayed_capacity dev\<rparr>])"
proof -
  let ?hdr = "take 24 command"
  let ?wire = "list_identity_wire dev"
  have i: "i < length ds" using find_delayed_Some [OF assms(2)] by simp
  then have len: "length (dm_message (ds ! i)) = delayed_capacity dev"
    using assms(1) by (simp add: wf_delayed_def list_all_length)
  have cap: "delayed_capacity dev = 24 + length ?wire"
    by (simp add: delayed_capacity_def length_list_identity)
  have hdr: "length ?hdr = 24" using assms(3) by simp
  let ?w0 = "writer_on (dm_message (ds ! i))"
  let ?out = "\<lparr>w_mem = ?hdr @ drop 24 (dm_message (ds ! i)), w_pos = 24, w_lim = delayed_capacity dev\<rparr>"
  have a1: "append_bytes ?w0 ?hdr = Inr ?out"
    using hdr len cap by (simp add: append_bytes_def writer_on_def poke_prefix)
  have wf: "wf_writer ?out" using hdr len cap by (simp add: wf_writer_def)
  have "poke (?hdr @ drop 24 (dm_message (ds ! i))) 24 ?wire = ?hdr @ ?wire"
    using hdr len cap by (simp add: poke_eq)
  then have a2: "serializeListIdentityResponse dev ?out =
      Inr \<lparr>w_mem = ?hdr @ ?wire, w_pos = 24 + length ?wire, w_lim = delayed_capacity dev\<rparr>"
    using wf cap by (simp add: serializeListIdentityResponse_wire append_bytes_def)
  have "poke (?hdr @ ?wire) 2 (le16 v) = take 2 ?hdr @ le16 v @ drop 4 ?hdr @ ?wire" for v
    using hdr by (simp add: poke_eq)
  moreover have "take 2 ?hdr = take 2 command" "drop 4 ?hdr = take 20 (drop 4 command)"
    by (simp_all add: drop_take)
  ultimately have "put16 \<lparr>w_mem = ?hdr @ ?wire, w_pos = 2, w_lim = 4\<rparr> (of_nat (length ?wire)) =
      Inr \<lparr>w_mem = delayed_reply dev command, w_pos = 4, w_lim = 4\<rparr>"
    by (simp add: put_wire append_bytes_def delayed_reply_def)
  then show ?thesis
    unfolding handleReceivedListIdentityCommandDelayed_def assms(2) option.case Let_def a1 bindE_simps a2
    by (simp add: w_count_def cap add.commute)
qed

lemma delayed_wf:
  assumes "wf_delayed dev ds" and "ENCAPSULATION_HEADER_LENGTH \<le> length command"
    and "handleReceivedListIdentityCommandDelayed dev sock from msecs command ds = Inr (n, ds')"
  shows "wf_delayed dev ds'"
proof (cases "find_delayed ds")
  case None
  then show ?thesis using assms by (simp add: handleReceivedListIdentityCommandDelayed_def)
next
  case (Some i)
  have "length (delayed_reply dev command) = delayed_capacity dev"
    using assms(2) by (simp add: delayed_reply_def delayed_capacity_def length_list_identity)
  then show ?thesis
    using assms delayed_stored [OF assms(1) Some assms(2)] find_delayed_Some [OF Some]
    by (auto simp: wf_delayed_def list_all_length nth_list_update)
qed

text \<open>Every request is answered within its delay: the number of ticks is bounded by the delay.\<close>

lemma determineDelayTimeMSecs_bound:
  assumes "rand \<le> RAND_MAX"
  shows "determineDelayTimeMSecs rand max_msecs \<le> delay_bound max_msecs"
proof -
  have "delay_bound max_msecs * rand \<le> delay_bound max_msecs * RAND_MAX"
    using assms by (rule mult_le_mono2)
  then have "(delay_bound max_msecs * rand) div RAND_MAX \<le> (delay_bound max_msecs * RAND_MAX) div RAND_MAX"
    by (rule div_le_mono)
  then show ?thesis by (simp add: determineDelayTimeMSecs_def)
qed

text \<open>The ticks of the timer, as one slot of the table sees them.\<close>

definition manage :: "int \<Rightarrow> nat \<Rightarrow> delayed_msg list \<Rightarrow> delayed_msg list" where
  "manage tick k = (\<lambda>ds. snd (ManageEncapsulationMessages tick ds)) ^^ k"

lemma manage_nth: "i < length ds \<Longrightarrow> manage tick k ds ! i = ((\<lambda>d. snd (delayed_tick tick d)) ^^ k) (ds ! i)"
proof (induction k arbitrary: ds)
  case (Suc k)
  have "manage tick (Suc k) ds = manage tick k (snd (ManageEncapsulationMessages tick ds))"
    by (simp add: manage_def funpow_Suc_right del: funpow.simps)
  then show ?case using Suc
    by (simp add: ManageEncapsulationMessages_def funpow_Suc_right del: funpow.simps)
qed (simp add: manage_def)

lemma delayed_waits:
  assumes "dm_socket d \<noteq> kSocketInvalid" and "int k * tick \<le> dm_time_out_usecs d" and "0 < tick"
  shows "((\<lambda>d. snd (delayed_tick tick d)) ^^ k) d =
    d\<lparr>dm_time_out_usecs := dm_time_out_usecs d - int k * tick\<rparr>"
  using assms(2)
proof (induction k)
  case (Suc k)
  then have "int k * tick \<le> dm_time_out_usecs d" using assms(3) by (simp add: distrib_right)
  then show ?case using Suc assms(1) by (simp add: delayed_tick_def Let_def algebra_simps)
qed simp

text \<open>A message waits for its delay, goes out once and frees its slot.\<close>

lemma delayed_sent:
  assumes "i < length ds" and "dm_socket (ds ! i) \<noteq> kSocketInvalid" and "0 < tick"
    and "0 \<le> dm_time_out_usecs (ds ! i)" and "k = nat (dm_time_out_usecs (ds ! i) div tick)"
  shows "j < k \<Longrightarrow> fst (delayed_tick tick (manage tick j ds ! i)) = []"
    and "fst (delayed_tick tick (manage tick k ds ! i)) =
      [(dm_receiver (ds ! i), dm_socket (ds ! i), take (dm_message_size (ds ! i)) (dm_message (ds ! i)))]"
    and "dm_socket (manage tick (Suc k) ds ! i) = kSocketInvalid"
proof -
  let ?d = "ds ! i" and ?t = "dm_time_out_usecs (ds ! i)"
  have k: "int k = ?t div tick" using assms(3,4,5) by (simp add: pos_imp_zdiv_nonneg_iff)
  then have kt: "int k * tick \<le> ?t" "?t < (int k + 1) * tick"
    using assms(3) by (simp_all add: algebra_simps) (smt (verit) mult_div_mod_eq pos_mod_bound pos_mod_sign mult.commute)+
  have at: "manage tick j ds ! i = ?d\<lparr>dm_time_out_usecs := ?t - int j * tick\<rparr>" if "j \<le> k" for j
  proof -
    have "int j * tick \<le> int k * tick" using that assms(3) by (simp add: mult_right_mono)
    then have "int j * tick \<le> ?t" using kt(1) by simp
    from delayed_waits [OF assms(2) this assms(3)] show ?thesis using assms(1) by (simp add: manage_nth)
  qed
  show "fst (delayed_tick tick (manage tick j ds ! i)) = []" if "j < k"
  proof -
    have "(int j + 1) * tick \<le> int k * tick" using that assms(3) by (intro mult_right_mono) auto
    then show ?thesis using that at [of j] kt(1) assms(2)
      by (simp add: delayed_tick_def Let_def algebra_simps)
  qed
  have last: "delayed_tick tick (manage tick k ds ! i) =
      ([(dm_receiver ?d, dm_socket ?d, take (dm_message_size ?d) (dm_message ?d))],
       ?d\<lparr>dm_time_out_usecs := ?t - int k * tick - tick, dm_socket := kSocketInvalid\<rparr>)"
    using at [of k] kt(2) assms(2) by (simp add: delayed_tick_def Let_def algebra_simps)
  then show "fst (delayed_tick tick (manage tick k ds ! i)) =
      [(dm_receiver ?d, dm_socket ?d, take (dm_message_size ?d) (dm_message ?d))]" by simp
  show "dm_socket (manage tick (Suc k) ds ! i) = kSocketInvalid"
    using last assms(1) by (simp add: manage_nth)
qed

section \<open>Reading a message off the stream\<close>

text \<open>The bytes a stream has to offer before it ends or fails.\<close>

fun offered :: "recv_result list \<Rightarrow> byte list" where
  "offered [] = []"
| "offered (Closed # rs) = []"
| "offered (Recv_error # rs) = []"
| "offered (Received bs # rs) = (if bs = [] then [] else bs @ offered rs)"

lemma EnsuredTcpRecv_full:
  assumes "n \<le> length (offered rs)"
  shows "\<exists>rs'. EnsuredTcpRecv rs n got = (int (length got + n), got @ take n (offered rs), rs') \<and>
    offered rs' = drop n (offered rs)"
  using assms
proof (induction rs n got rule: EnsuredTcpRecv.induct)
  case (5 bs rs n got)
  then have ne: "bs \<noteq> []" by (auto split: if_splits)
  let ?rs = "if length bs > Suc n then Received (drop (Suc n) bs) # rs else rs"
  have off: "offered ?rs = drop (Suc n) (bs @ offered rs) \<or>
      length bs \<le> Suc n \<and> offered ?rs = offered rs"
    by auto
  have "Suc n - length bs \<le> length (offered ?rs)" using 5(2) ne by auto
  then obtain rs' where rs': "EnsuredTcpRecv ?rs (Suc n - length bs) (got @ take (Suc n) bs) =
      (int (length (got @ take (Suc n) bs) + (Suc n - length bs)),
       (got @ take (Suc n) bs) @ take (Suc n - length bs) (offered ?rs), rs')"
    "offered rs' = drop (Suc n - length bs) (offered ?rs)"
    using 5(1) ne by blast
  then show ?case using ne 5(2) by (auto simp: min_def split: if_splits)
qed auto

lemma EnsuredTcpRecv_short:
  assumes "length (offered rs) < n"
  shows "fst (EnsuredTcpRecv rs n got) < int (length got + n)"
  using assms
proof (induction rs n got rule: EnsuredTcpRecv.induct)
  case (5 bs rs n got)
  then show ?case by (cases "bs = []") (auto split: if_splits)
qed auto

definition declared_length :: "byte list \<Rightarrow> nat" where
  "declared_length hdr = unat (ucast (hdr ! 2) OR push_bit 8 (ucast (hdr ! 3)) :: u32)"

lemma ReceiveTcpMsg_parts:
  assumes "ENCAPSULATION_HEADER_LENGTH \<le> cap" and "ReceiveTcpMsg rs cap = (n, msg, rs')" and "0 \<le> n"
  obtains k1 hdr rs1 k2 body where "EnsuredTcpRecv rs 24 [] = (k1, hdr, rs1)" and "\<not> k1 < 24"
    and "declared_length hdr \<le> cap - 24"
    and "EnsuredTcpRecv rs1 (declared_length hdr) [] = (k2, body, rs')"
    and "\<not> k2 < int (declared_length hdr)" and "n = k2 + 24" and "msg = hdr @ body"
proof -
  obtain k1 hdr rs1 where e1: "EnsuredTcpRecv rs 24 [] = (k1, hdr, rs1)"
    using prod_cases3 by blast
  obtain k2 body rs2 where e2: "EnsuredTcpRecv rs1 (declared_length hdr) [] = (k2, body, rs2)"
    using prod_cases3 by blast
  have eq: "ReceiveTcpMsg rs cap =
    (if k1 < 24 then (-1, [], rs1)
     else if declared_length hdr > cap - 24 then
       if declared_length hdr > 65511 then (-1, [], rs1)
       else (-1, [], snd (disposeOfLargePacket rs1 (declared_length hdr) 0))
     else if k2 < int (declared_length hdr) then (-1, [], rs2)
     else (k2 + 24, hdr @ body, rs2))"
    using assms(1) e2 unfolding ReceiveTcpMsg_def e1 declared_length_def by (simp add: Let_def)
  have n: "n = fst (ReceiveTcpMsg rs cap)" "msg = fst (snd (ReceiveTcpMsg rs cap))"
    "rs' = snd (snd (ReceiveTcpMsg rs cap))" using assms(2) by simp_all
  have k1: "\<not> k1 < 24" using n(1) assms(3) unfolding eq by (cases "k1 < 24") simp_all
  have d: "\<not> declared_length hdr > cap - 24"
    using n(1) assms(3) k1 unfolding eq by (cases "declared_length hdr > cap - 24") (simp_all split: if_splits)
  have k2: "\<not> k2 < int (declared_length hdr)"
    using n(1) assms(3) k1 d unfolding eq by (cases "k2 < int (declared_length hdr)") simp_all
  show thesis
    using that [OF e1 k1 _ _ k2] e2 n k1 d k2 unfolding eq by simp
qed

text \<open>A result that is not negative is a whole message: the header and the bytes it declares, taken
  off the front of the stream, nothing beyond them.\<close>

lemma ReceiveTcpMsg_message:
  assumes "ENCAPSULATION_HEADER_LENGTH \<le> cap" and "ReceiveTcpMsg rs cap = (n, msg, rs')" and "0 \<le> n"
  shows "n = int (length msg) \<and> length msg = ENCAPSULATION_HEADER_LENGTH + declared_length msg \<and>
    length msg \<le> cap \<and> offered rs = msg @ offered rs'"
proof -
  obtain k1 hdr rs1 k2 body where p: "EnsuredTcpRecv rs 24 [] = (k1, hdr, rs1)" "\<not> k1 < 24"
    "declared_length hdr \<le> cap - 24" "EnsuredTcpRecv rs1 (declared_length hdr) [] = (k2, body, rs')"
    "\<not> k2 < int (declared_length hdr)" "n = k2 + 24" "msg = hdr @ body"
    using ReceiveTcpMsg_parts [OF assms] by metis
  have h: "24 \<le> length (offered rs)"
    using EnsuredTcpRecv_short [of rs 24 "[]"] p(1,2) by (cases "length (offered rs) < 24") auto
  have b: "declared_length hdr \<le> length (offered rs1)"
    using EnsuredTcpRecv_short [of rs1 "declared_length hdr" "[]"] p(4,5)
    by (cases "length (offered rs1) < declared_length hdr") auto
  have e1: "k1 = 24" "hdr = take 24 (offered rs)" "offered rs1 = drop 24 (offered rs)"
    using EnsuredTcpRecv_full [OF h, of "[]"] p(1) by auto
  have e2: "k2 = int (declared_length hdr)" "body = take (declared_length hdr) (offered rs1)"
    "offered rs' = drop (declared_length hdr) (offered rs1)"
    using EnsuredTcpRecv_full [OF b, of "[]"] p(4) by auto
  have len: "length hdr = 24" "length body = declared_length hdr" using e1 e2 h b by simp_all
  then have "declared_length msg = declared_length hdr"
    using p(7) by (simp add: declared_length_def nth_append)
  moreover have "offered rs = msg @ offered rs'"
    unfolding p(7) e2(3) using e1 e2(2) by (metis append.assoc append_take_drop_id)
  ultimately show ?thesis using p len e2(1) assms(1) by simp
qed

section \<open>Replies over TCP\<close>

text \<open>What a handler owes to the bottom of \<open>HandleReceivedExplicitTcpData\<close>: the memory is still the
  same block, and the result counts bytes that fit.\<close>

definition reply_fits :: "writer \<Rightarrow> int \<times> byte list \<Rightarrow> bool" where
  "reply_fits reply res \<longleftrightarrow> length (snd res) = length (w_mem reply) \<and> fst res \<le> capacity reply"

definition fitting_notify :: "'s notify \<Rightarrow> bool" where
  "fitting_notify notify \<longleftrightarrow> (\<forall>c command reply st. wf_writer reply \<longrightarrow>
     (case fst (notify c command reply st) of Inl e \<Rightarrow> True | Inr res \<Rightarrow> reply_fits reply res))"

lemma fitting_notifyD:
  "fitting_notify notify \<Longrightarrow> wf_writer reply \<Longrightarrow> notify c command reply st = (Inr res, st') \<Longrightarrow> reply_fits reply res"
  unfolding fitting_notify_def by (metis fst_conv sum.case(2))

lemma append_reply_fits:
  "append_bytes reply bs = Inr w \<Longrightarrow> reply_fits reply (int (w_count reply w), w_mem w)"
  by (auto simp: reply_fits_def append_bytes_def w_count_def capacity_def split: if_splits)

lemma services_fits:
  assumes "wf_writer reply" and "handleReceivedListServicesCommand reply = Inr res"
  shows "reply_fits reply res"
proof -
  obtain bs where bs: "handleReceivedListServicesCommand reply =
    (case append_bytes reply bs of Inr w \<Rightarrow> Inr (int (w_count reply w), w_mem w)
     | Inl e \<Rightarrow> if is_runtime_error e then Inr (-1, w_mem reply) else Inl e)"
    by (simp add: handleReceivedListServicesCommand_def ser_simps)
  show ?thesis
  proof (cases "append_bytes reply bs")
    case (Inl e)
    then show ?thesis using assms bs
      by (auto simp: reply_fits_def capacity_def wf_writer_def split: if_splits)
  next
    case (Inr w)
    then show ?thesis using assms(2) bs append_reply_fits by auto
  qed
qed

lemma interfaces_fits:
  "handleReceivedListInterfacesCommand reply = Inr res \<Longrightarrow> reply_fits reply res"
  by (auto simp: handleReceivedListInterfacesCommand_def ser_simps reply_fits_def append_bytes_def
      capacity_def split: if_splits)

lemma identity_fits:
  "wf_writer reply \<Longrightarrow> handleReceivedListIdentityCommandImmediate dev reply = Inr res \<Longrightarrow>
   reply_fits reply res"
  by (auto simp: handleReceivedListIdentityCommandImmediate_def serializeListIdentityResponse_wire
      bindE_eq_Inr dest: append_reply_fits)

lemma register_fits:
  assumes "wf_writer reply" and "registerSession sock command reply m = (Inr (res, error, sh), m')"
  shows "reply_fits reply res"
proof -
  have neg: "reply_fits reply (-1, w_mem reply)"
    using assms(1) by (simp add: reply_fits_def capacity_def wf_writer_def)
  have "bindE (append_bytes reply bs) (\<lambda>w. Inr ((int (w_count reply w), w_mem w), x, y)) = Inr (res, error, sh)
      \<Longrightarrow> reply_fits reply res" for bs x y
    by (auto simp: bindE_eq_Inr dest: append_reply_fits)
  then show ?thesis using assms(2) neg
    by (auto simp: registerSession_def Let_def ser_simps split: sum.splits prod.splits if_splits)
qed

text \<open>The header of the reply differs from that of the request in handle, status and length only.\<close>

definition same_request :: "encap \<Rightarrow> encap \<Rightarrow> bool" where
  "same_request e e' \<longleftrightarrow> en_command e' = en_command e \<and> sender_context e' = sender_context e \<and>
     en_options e' = en_options e \<and> interface_handle e' = interface_handle e \<and>
     en_timeout e' = en_timeout e \<and> en_payload e' = en_payload e"

lemma empty_reply_fits: "wf_writer reply \<Longrightarrow> k \<le> 0 \<Longrightarrow> reply_fits reply (k, w_mem reply)"
  by (simp add: reply_fits_def capacity_def wf_writer_def)

text \<open>SendRRData and SendUnitData, once the session has been looked up.\<close>

lemma tcp_command_rr:
  assumes "en_command e = kEncapCmdSendRRData"
  shows "tcp_command rr ud dev sock e command reply (m, s) =
    (if command = [] then (Inr (e, Some (-1, w_mem reply)), (m, s))
     else case CheckRegisteredSession (en_session_handle e) sock m of
       None \<Rightarrow> (Inr (e\<lparr>en_status := word_of_int (encap_error_code kEncapErrorInvalidSessionHandle)\<rparr>,
                    Some (0, w_mem reply)), (m, s))
     | Some i \<Rightarrow>
         (case rr (Cpf_for_peer (m_peeraddr (sessions m ! i)) (en_session_handle e)) command reply (m, s) of
            (Inl x, st) \<Rightarrow> (Inl x, st)
          | (Inr (result, mem), st) \<Rightarrow>
              if result < 0
              then (Inr (e\<lparr>en_status := word_of_int (- result)\<rparr>, Some (0, mem)), st)
              else (Inr (e, Some (result, mem)), st)))"
  using assms by (simp add: tcp_command_def Let_def)

lemma tcp_command_unit:
  assumes "en_command e = kEncapCmdSendUnitData"
  shows "tcp_command rr ud dev sock e command reply (m, s) =
    (if command = [] then (Inr (e, Some (-1, w_mem reply)), (m, s))
     else case CheckRegisteredSession (en_session_handle e) sock m of
       None \<Rightarrow> (Inr (e\<lparr>en_status := word_of_int (encap_error_code kEncapErrorInvalidSessionHandle)\<rparr>,
                    Some (0, w_mem reply)), (m, s))
     | Some i \<Rightarrow>
         (case ud (Cpf_for_peer (m_peeraddr (sessions m ! i)) (en_session_handle e)) command reply (m, s) of
            (Inl x, st) \<Rightarrow> (Inl x, st)
          | (Inr (result, mem), st) \<Rightarrow> (Inr (e, Some (result, mem)), st)))"
  using assms by (simp add: tcp_command_def Let_def)

lemma tcp_command_register:
  assumes "en_command e = kEncapCmdRegisterSession"
  shows "tcp_command rr ud dev sock e command reply (m, s) =
    (case registerSession sock command reply m of
       (Inl x, m) \<Rightarrow> (Inl x, m, s)
     | (Inr (res, error, sh), m) \<Rightarrow>
         (Inr (e\<lparr>en_session_handle := sh, en_status := word_of_int (encap_error_code error)\<rparr>, Some res),
          m, s))"
  using assms by (simp add: tcp_command_def Let_def)

lemma tcp_command_others:
  "en_command e = kEncapCmdListServices \<Longrightarrow> tcp_command rr ud dev sock e command reply st =
     (bindE (handleReceivedListServicesCommand reply) (\<lambda>x. Inr (e, Some x)), st)"
  "en_command e = kEncapCmdListIdentity \<Longrightarrow> tcp_command rr ud dev sock e command reply st =
     (bindE (handleReceivedListIdentityCommandImmediate dev reply) (\<lambda>x. Inr (e, Some x)), st)"
  "en_command e = kEncapCmdListInterfaces \<Longrightarrow> tcp_command rr ud dev sock e command reply st =
     (bindE (handleReceivedListInterfacesCommand reply) (\<lambda>x. Inr (e, Some x)), st)"
  "en_command e = kEncapCmdUnregisterSession \<Longrightarrow> tcp_command rr ud dev sock e command reply st =
     (Inr (e, None), snd (UnregisterSession (en_session_handle e) sock (fst st)), snd st)"
  "en_command e \<notin> {kEncapCmdListServices, kEncapCmdListIdentity, kEncapCmdListInterfaces,
        kEncapCmdRegisterSession, kEncapCmdUnregisterSession, kEncapCmdSendRRData, kEncapCmdSendUnitData} \<Longrightarrow>
   tcp_command rr ud dev sock e command reply st =
     (Inr (e\<lparr>en_status := word_of_int (encap_error_code kEncapErrorInvalidOrUnsupportedCommand)\<rparr>,
           Some (0, w_mem reply)), st)"
  by (simp_all add: tcp_command_def Let_def split_beta)

lemma tcp_command_fits:
  assumes "fitting_notify rr" and "fitting_notify ud" and "wf_writer reply"
    and "tcp_command rr ud dev sock e command reply st = (Inr (e', Some res), st')"
  shows "reply_fits reply res \<and> same_request e e'"
proof -
  obtain m s where st: "st = (m, s)" by (cases st)
  note fits = services_fits [OF assms(3)] interfaces_fits identity_fits [OF assms(3)]
    register_fits [OF assms(3)] empty_reply_fits [OF assms(3)]
  have zero: "reply_fits reply (r, mem) \<Longrightarrow> reply_fits reply (0, mem)" for r mem
    using assms(3) by (simp add: reply_fits_def capacity_def wf_writer_def)
  consider "en_command e = kEncapCmdListServices" | "en_command e = kEncapCmdListIdentity"
    | "en_command e = kEncapCmdListInterfaces" | "en_command e = kEncapCmdRegisterSession"
    | "en_command e = kEncapCmdUnregisterSession" | "en_command e = kEncapCmdSendRRData"
    | "en_command e = kEncapCmdSendUnitData"
    | "en_command e \<notin> {kEncapCmdListServices, kEncapCmdListIdentity, kEncapCmdListInterfaces,
        kEncapCmdRegisterSession, kEncapCmdUnregisterSession, kEncapCmdSendRRData, kEncapCmdSendUnitData}"
    by blast
  then show ?thesis
  proof cases
    case 4
    show ?thesis
      using assms(4) fits(4) unfolding st tcp_command_register [OF 4]
      by (auto simp: same_request_def split: prod.splits sum.splits)
  next
    case 6
    show ?thesis
    proof (cases "CheckRegisteredSession (en_session_handle e) sock m")
      case None
      then show ?thesis using assms(4) fits(5) unfolding st tcp_command_rr [OF 6]
        by (auto simp: same_request_def split: if_splits)
    next
      case (Some i)
      obtain x st1 where x: "rr (Cpf_for_peer (m_peeraddr (sessions m ! i)) (en_session_handle e))
          command reply (m, s) = (x, st1)" by (meson surj_pair)
      show ?thesis
        using assms(4) fitting_notifyD [OF assms(1,3), of _ _ "(m, s)" _ st1] x zero fits(5)
        unfolding st tcp_command_rr [OF 6] Some
        by (cases x; cases st1) (fastforce simp: same_request_def split: if_splits)+
    qed
  next
    case 7
    show ?thesis
    proof (cases "CheckRegisteredSession (en_session_handle e) sock m")
      case None
      then show ?thesis using assms(4) fits(5) unfolding st tcp_command_unit [OF 7]
        by (auto simp: same_request_def split: if_splits)
    next
      case (Some i)
      obtain x st1 where x: "ud (Cpf_for_peer (m_peeraddr (sessions m ! i)) (en_session_handle e))
          command reply (m, s) = (x, st1)" by (meson surj_pair)
      show ?thesis
        using assms(4) fits(5) fitting_notifyD [OF assms(2,3), of _ _ "(m, s)" _ st1] x unfolding st tcp_command_unit [OF 7] Some
        by (cases x) (auto simp: same_request_def split: if_splits)
    qed
  qed (use assms(4) fits in \<open>auto simp: tcp_command_others same_request_def bindE_eq_Inr\<close>)
qed

lemma get_each8_size: "get_each8 n r = Inr (bs, r') \<Longrightarrow> length bs = n"
  by (induction n arbitrary: bs r r') (auto simp: bindE_eq_Inr)

lemma DeserializeEncap_header:
  assumes "DeserializeEncap inp = Inr (h, e)"
  shows "length (sender_context e) = 8" and "en_payload e = None"
    and "\<not> IsBigHdr e \<Longrightarrow> interface_handle e = 0 \<and> en_timeout e = 0"
proof -
  have "length (sender_context e) = 8 \<and> en_payload e = None \<and>
      (\<not> IsBigHdr e \<longrightarrow> interface_handle e = 0 \<and> en_timeout e = 0)"
    using assms get_each8_size
    by (auto simp: DeserializeEncap_def bindE_eq_Inr Let_def IsBigHdr_def split: if_splits sum.splits)
  then show "length (sender_context e) = 8" and "en_payload e = None"
    and "\<not> IsBigHdr e \<Longrightarrow> interface_handle e = 0 \<and> en_timeout e = 0" by blast+
qed

text \<open>The reply as it goes out: a header that parses, whose length field covers the rest.\<close>

definition reply_message :: "writer \<Rightarrow> int \<Rightarrow> byte list \<Rightarrow> byte list" where
  "reply_message aReply n mem = take (nat n) (drop (w_pos aReply) mem)"

lemma finish_tcp_message:
  assumes "wf_writer aReply" and "w_advance aReply (HeaderLength e) = Inr reply"
    and "length (sender_context e) = 8" and "en_payload e = None"
    and "\<not> IsBigHdr e \<Longrightarrow> interface_handle e = 0 \<and> en_timeout e = 0"
    and "reply_fits reply res" and "0 \<le> fst res" and "capacity aReply < 65536"
    and "finish_tcp aReply e res = Inr (n, mem)"
  shows "n \<le> capacity aReply \<and> length mem = length (w_mem aReply) \<and>
    (\<exists>e'. DeserializeEncap (reply_message aReply n mem) = Inr (int (HeaderLength e), e') \<and>
       int (unat (en_length e')) = n - 24 \<and> same_request e e' \<and>
       en_session_handle e' = en_session_handle e \<and> en_status e' = en_status e)"
proof -
  obtain result m where res: "res = (result, m)" by (cases res)
  let ?e = "SetPayloadLength (word_of_int result) e"
  let ?w = "aReply\<lparr>w_mem := m\<rparr>"
  have adv: "w_pos aReply + HeaderLength e \<le> w_lim aReply" "w_pos reply = w_pos aReply + HeaderLength e"
    "w_lim reply = w_lim aReply" "w_mem reply = w_mem aReply"
    using assms(2) by (auto simp: w_advance_def split: if_splits)
  have mlen: "length m = length (w_mem aReply)" and rmax: "result \<le> capacity reply"
    using assms(6) res adv by (auto simp: reply_fits_def)
  have big: "HeaderLength e = (if IsBigHdr e then 30 else 24)" by (simp add: HeaderLength_def)
  have same: "IsBigHdr ?e = IsBigHdr e" "HeaderLength ?e = HeaderLength e" "sender_context ?e = sender_context e"
    "en_payload ?e = None" using assms(4)
    by (simp_all add: IsBigHdr_def HeaderLength_def SetPayloadLength_def)
  have r: "0 \<le> result" "result < 65536 - int (HeaderLength e)"
    using assms(7,8) res rmax adv by (auto simp: capacity_def)
  obtain k where k: "result = int k" using r(1) nonneg_int_cases by blast
  have elen: "unat (en_length ?e) = nat result + (HeaderLength e - 24)"
  proof -
    have "(of_nat k + 6 :: u32) = of_nat (k + 6)" by simp
    then have "unat (of_nat k + 6 :: u32) = k + 6" if "k < 65536"
      using that by (simp only: unat_of_nat_u32)
    then show ?thesis using r big k by (auto simp: SetPayloadLength_def unat_of_nat_u32)
  qed
  have "unat (en_length ?e) < 65536" using elen r big by (auto split: if_splits)
  then have "en_length ?e < 65536" by (simp add: word_less_nat_alt)
  then have ok: "ok_encap ?e"
    using assms(3,5) same
    by (auto simp: ok_encap_def) (simp_all add: SetPayloadLength_def)
  have hlen: "length (encap_wire ?e) = HeaderLength e"
    using length_encap_wire [of ?e] same assms(3) by simp
  have app: "append_bytes ?w (encap_wire ?e) = Inr (?w\<lparr>w_mem := poke m (w_pos aReply) (encap_wire ?e),
      w_pos := w_pos aReply + HeaderLength e\<rparr>)"
    using adv hlen by (simp add: append_bytes_def)
  have fin: "n = result + int (HeaderLength e)" "mem = poke m (w_pos aReply) (encap_wire ?e)"
    using assms(9) res r(1) app same(4) by (auto simp: finish_tcp_def ser_simps w_count_def)
  have lim: "w_lim aReply \<le> length m" using assms(1) mlen by (simp add: wf_writer_def)
  have "drop (w_pos aReply) mem = encap_wire ?e @ drop (w_pos aReply + HeaderLength e) m"
    unfolding fin(2) using adv(1) lim hlen by (subst poke_eq) auto
  then have "reply_message aReply n mem =
      encap_wire ?e @ take (nat result) (drop (w_pos aReply + HeaderLength e) m)"
    using fin(1) r(1) hlen by (simp add: reply_message_def nat_add_distrib)
  then have "DeserializeEncap (reply_message aReply n mem) = Inr (int (HeaderLength e), ?e)"
    using DeserializeEncap_wire [OF ok] same(2) by simp
  moreover have "same_request e ?e \<and> en_session_handle ?e = en_session_handle e \<and> en_status ?e = en_status e"
    by (simp add: same_request_def SetPayloadLength_def)
  moreover have "int (unat (en_length ?e)) = n - 24" using elen fin(1) r(1) big by simp
  moreover have "n \<le> capacity aReply" using rmax adv fin(1) by (simp add: capacity_def)
  ultimately show ?thesis using fin(2) mlen by auto
qed

lemma same_request_trans: "same_request a b \<Longrightarrow> same_request b c \<Longrightarrow> same_request a c"
  by (simp add: same_request_def)

lemma same_request_length: "same_request e (SetPayloadLength n e)"
  by (simp add: same_request_def SetPayloadLength_def)

lemma same_request_header:
  assumes "same_request e e'"
  shows "HeaderLength e' = HeaderLength e" and "IsBigHdr e' = IsBigHdr e"
  using assms by (simp_all add: same_request_def HeaderLength_def IsBigHdr_def)

text \<open>The way to a reply: the guards of \<open>HandleReceivedExplicitTcpData\<close> one after the other.\<close>

lemma tcp_handler_reply:
  assumes "HandleReceivedExplicitTcpData rr ud dev now sock aCommand aReply st = (Inr (n, mem), st')"
    and "0 < n"
  obtains e reply e2 res where "DeserializeEncap aCommand = Inr (int (HeaderLength e), e)"
    and "w_advance aReply (HeaderLength e) = Inr reply"
    and "tcp_command rr ud dev sock (SetPayloadLength 0 e) (drop (HeaderLength e) aCommand) reply
           (snd (UpdateRegisteredTcpConnection now sock (fst st)), snd st) = (Inr (e2, Some res), st')"
    and "finish_tcp aReply e2 res = Inr (n, mem)"
proof -
  let ?st = "(snd (UpdateRegisteredTcpConnection now sock (fst st)), snd st)"
  note handler = assms(1) [unfolded HandleReceivedExplicitTcpData_def Let_def]
  have long: "\<not> length aCommand < 24" using handler assms(2) by (auto split: if_splits)
  obtain h e where d: "DeserializeEncap aCommand = Inr (h, e)"
    using handler long by (cases "DeserializeEncap aCommand") auto
  have h: "h = int (HeaderLength e)" using handler long d assms(2) by (auto split: if_splits)
  have pass: "\<not> en_command e = kEncapCmdNoOperation"
    "\<not> (en_command e \<noteq> kEncapCmdUnregisterSession \<and> (en_status e \<noteq> 0 \<or> en_options e \<noteq> 0))"
    using handler long d h assms(2) by (auto split: if_splits)
  obtain command where c: "r_advance aCommand (HeaderLength e) = Inr command"
    using handler long d h pass by (cases "r_advance aCommand (HeaderLength e)") auto
  then have command: "command = drop (HeaderLength e) aCommand"
    by (auto simp: r_advance_def split: if_splits)
  obtain reply where w: "w_advance aReply (HeaderLength e) = Inr reply"
    using handler long d h pass c by (cases "w_advance aReply (HeaderLength e)") auto
  obtain x st1 where t: "tcp_command rr ud dev sock (SetPayloadLength 0 e) command reply ?st = (x, st1)"
    by (meson surj_pair)
  obtain e2 res where x: "x = Inr (e2, Some res)" and f: "finish_tcp aReply e2 res = Inr (n, mem)" "st1 = st'"
    using handler long d h pass c w t assms(2) by (auto split: sum.splits option.splits prod.splits)
  show thesis using that [of e reply e2 res] d h w t x f command by simp
qed

lemma tcp_handler_message:
  assumes "wf_writer aReply" and "capacity aReply < 65536"
    and "fitting_notify rr" and "fitting_notify ud"
    and "HandleReceivedExplicitTcpData rr ud dev now sock aCommand aReply st = (Inr (n, mem), st')"
    and "0 < n"
  shows "n \<le> capacity aReply \<and> length mem = length (w_mem aReply) \<and>
    (\<exists>e e'. DeserializeEncap aCommand = Inr (int (HeaderLength e), e) \<and>
       DeserializeEncap (reply_message aReply n mem) = Inr (int (HeaderLength e), e') \<and>
       int (unat (en_length e')) = n - 24 \<and> same_request e e')"
proof -
  obtain e reply e2 res where p: "DeserializeEncap aCommand = Inr (int (HeaderLength e), e)"
    "w_advance aReply (HeaderLength e) = Inr reply"
    "tcp_command rr ud dev sock (SetPayloadLength 0 e) (drop (HeaderLength e) aCommand) reply
       (snd (UpdateRegisteredTcpConnection now sock (fst st)), snd st) = (Inr (e2, Some res), st')"
    "finish_tcp aReply e2 res = Inr (n, mem)"
    using tcp_handler_reply [OF assms(5,6)] by metis
  have wf: "wf_writer reply" using p(2) assms(1) by (auto simp: w_advance_def wf_writer_def split: if_splits)
  have t: "reply_fits reply res" "same_request (SetPayloadLength 0 e) e2"
    using tcp_command_fits [OF assms(3,4) wf p(3)] by blast+
  have same: "same_request e e2" using same_request_trans [OF same_request_length t(2)] .
  note hdr = same_request_header [OF same]
  have e2: "length (sender_context e2) = 8" "en_payload e2 = None"
    "\<not> IsBigHdr e2 \<Longrightarrow> interface_handle e2 = 0 \<and> en_timeout e2 = 0"
    using DeserializeEncap_header [OF p(1)] same hdr by (simp_all add: same_request_def)
  have "0 \<le> fst res" using p(4) assms(6) by (auto simp: finish_tcp_def split_beta split: if_splits)
  from finish_tcp_message [OF assms(1) _ e2 t(1) this assms(2) p(4)] p(1,2) hdr(1) same
  show ?thesis using same_request_trans by fastforce
qed

text \<open>A session command on a handle that this socket has not registered gets the status for it, and
  nothing behind the encapsulation layer is called.\<close>

lemma tcp_unregistered:
  assumes "en_command e \<in> {kEncapCmdSendRRData, kEncapCmdSendUnitData}" and "command \<noteq> []"
    and "CheckRegisteredSession (en_session_handle e) sock m = None"
  shows "tcp_command rr ud dev sock e command reply (m, s) =
    (Inr (e\<lparr>en_status := 0x64\<rparr>, Some (0, w_mem reply)), (m, s))"
  using assms by (auto simp: tcp_command_rr tcp_command_unit)

lemma check_update:
  "CheckRegisteredSession h s (snd (UpdateRegisteredTcpConnection now sock m)) = CheckRegisteredSession h s m"
  by (simp add: CheckRegisteredSession_def UpdateRegisteredTcpConnection_def note_keeps Let_def
      split: option.split)

lemma tcp_unregistered_reply:
  assumes "wf_writer aReply" and "30 \<le> capacity aReply" and "capacity aReply < 65536"
    and "DeserializeEncap aCommand = Inr (30, e)" and "30 < length aCommand"
    and "en_status e = 0" and "en_options e = 0"
    and "CheckRegisteredSession (en_session_handle e) sock m = None"
    and "en_command e \<in> {kEncapCmdSendRRData, kEncapCmdSendUnitData}"
  shows "\<exists>mem e'. HandleReceivedExplicitTcpData rr ud dev now sock aCommand aReply (m, s) =
      (Inr (30, mem), snd (UpdateRegisteredTcpConnection now sock m), s) \<and>
    DeserializeEncap (reply_message aReply 30 mem) = Inr (30, e') \<and>
    en_status e' = 0x64 \<and> en_session_handle e' = en_session_handle e \<and> same_request e e'"
proof -
  have hdr: "length (sender_context e) = 8" "en_payload e = None"
    using DeserializeEncap_header [OF assms(4)] by blast+
  have big: "IsBigHdr e" using assms(9) by (auto simp: IsBigHdr_def)
  let ?e = "SetPayloadLength 0 e" and ?m = "snd (UpdateRegisteredTcpConnection now sock m)"
  let ?e2 = "?e\<lparr>en_status := 0x64\<rparr>" and ?reply = "aReply\<lparr>w_pos := w_pos aReply + 30\<rparr>"
  have hl: "HeaderLength e = 30" using big by (simp add: HeaderLength_def)
  note cmd = assms(9)
  have same: "en_command ?e = en_command e" "en_session_handle ?e = en_session_handle e"
    by (simp_all add: SetPayloadLength_def)
  have adv: "w_advance aReply (HeaderLength e) = Inr ?reply"
    using assms(2) hl by (simp add: w_advance_def capacity_def)
  have t: "tcp_command rr ud dev sock ?e (drop 30 aCommand) ?reply (?m, s) =
      (Inr (?e2, Some (0, w_mem ?reply)), (?m, s))"
    by (subst tcp_unregistered) (use cmd same assms(5,8) in \<open>auto simp: check_update\<close>)
  have ctx: "length (sender_context ?e2) = 8" "en_payload ?e2 = None" "IsBigHdr ?e2"
    using hdr big by (simp_all add: SetPayloadLength_def IsBigHdr_def)
  have "length (encap_wire (SetPayloadLength 0 ?e2)) = 30"
    using ctx length_encap_wire [of "SetPayloadLength 0 ?e2"] by (simp add: SetPayloadLength_def HeaderLength_def IsBigHdr_def)
  then have f: "\<exists>mem. finish_tcp aReply ?e2 (0, w_mem aReply) = Inr (30, mem)"
    using ctx assms(2)
    by (simp add: finish_tcp_def Encap_Serialize_wire SetPayloadLength_def [of 0 "?e2"] append_bytes_def
        capacity_def w_count_def)
  then obtain mem where f: "finish_tcp aReply ?e2 (0, w_mem aReply) = Inr (30, mem)" by blast
  have "HandleReceivedExplicitTcpData rr ud dev now sock aCommand aReply (m, s) = (Inr (30, mem), ?m, s)"
    using assms(4-7) hl adv t f cmd
    by (auto simp: HandleReceivedExplicitTcpData_def r_advance_def Let_def)
  moreover have "HeaderLength ?e2 = 30" using ctx by (simp add: HeaderLength_def)
  moreover have "reply_fits ?reply (0, w_mem aReply)"
    using assms(1,2) by (simp add: reply_fits_def capacity_def)
  ultimately show ?thesis
    using finish_tcp_message [OF assms(1) _ ctx(1,2) _ _ _ assms(3) f, of ?reply] ctx(3) adv hl
    by (fastforce simp: same_request_def SetPayloadLength_def)
qed

section \<open>Replies over UDP\<close>

text \<open>ListServices with options that are not zero: the result is still the length of the header, and
  48 bytes are sent, of which the last 24 are what the reply buffer held before.\<close>

lemma udp_options_reply:
  assumes "wf_writer aReply" and "48 \<le> capacity aReply"
    and "DeserializeEncap aCommand = Inr (24, e)" and "24 \<le> length aCommand"
    and "en_command e = kEncapCmdListServices \<or> en_command e = kEncapCmdListInterfaces"
    and "en_status e = 0" and "en_options e \<noteq> 0"
  shows "\<exists>mem. HandleReceivedExplicitUdpData dev rand sock from aCommand aReply unicast ds =
      Inr ((48, mem), ds) \<and>
    take 24 (drop (w_pos aReply + 24) mem) = take 24 (drop (w_pos aReply + 24) (w_mem aReply))"
proof -
  let ?e = "SetPayloadLength 24 (SetPayloadLength 0 e)"
  have cap: "w_pos aReply + 48 \<le> w_lim aReply" "w_lim aReply \<le> length (w_mem aReply)"
    using assms(1,2) by (auto simp: capacity_def wf_writer_def)
  have small: "\<not> IsBigHdr e" using assms(5) by (auto simp: IsBigHdr_def)
  have ctx: "length (sender_context ?e) = 8" "en_payload ?e = None"
    using DeserializeEncap_header [OF assms(3)] by (simp_all add: SetPayloadLength_def)
  have hl: "length (encap_wire ?e) = 24"
    using length_encap_wire [OF ctx(1)] small by (simp add: HeaderLength_def IsBigHdr_def SetPayloadLength_def)
  let ?mem = "poke (w_mem aReply) (w_pos aReply) (encap_wire ?e)"
  have "HandleReceivedExplicitUdpData dev rand sock from aCommand aReply unicast ds = Inr ((48, ?mem), ds)"
    using assms cap hl ctx(2)
    by (auto simp: HandleReceivedExplicitUdpData_def udp_command_def w_advance_def Let_def
        SetPayloadLength_def [where n = 0] Encap_Serialize_wire append_bytes_def)
  moreover have "take 24 (drop (w_pos aReply + 24) ?mem) = take 24 (drop (w_pos aReply + 24) (w_mem aReply))"
    using cap hl by (simp add: poke_eq)
  ultimately show ?thesis by blast
qed


end
