(* ===== verification/Cip_Class.thy ===== *)
theory Cip_Class
  imports Cip_Common
begin

unbundle bit_operations_syntax

text \<open>
  Classes, instances, attributes and services: the containers of \<open>cip/cipclass.h\<close>,
  \<open>cip/cipclass.cc\<close>, \<open>cip/cipattribute.h\<close>, \<open>cip/cipservice.h\<close> and \<open>cip/cipinstance.cc\<close>.

  An instance is its id: what else an instance object holds is reached through attributes only, and
  is kept in the store of theory \<open>Cip_Object\<close>. Function pointers are the constructors of
  \<open>service_function\<close> and \<open>attr_func\<close>, with one constructor for the functions of an application.
  The three kinds of lists are kept sorted by id and searched with \<open>vec_search\<close>.
\<close>

section \<open>Data\<close>

datatype service_function =
    GetAttributeSingle | GetAttributeAll | SetAttributeSingle | Reset | User_service nat

datatype attr_func =
    GetAttrData | SetAttrData | getInstanceCount | getLargestInstanceId
  | getLargestInstanceAttributeId | getLargestClassAttributeId | User_attr_func nat

datatype CI = CI_I | CI_C

record cip_attribute =
  attribute_id :: int
  attr_type :: CipDataType
  is_getable_all :: bool
  is_offset :: bool
  attr_where :: nat
  getter :: "attr_func option"
  setter :: "attr_func option"

record cip_service =
  service_name :: string
  service_id :: int
  service_function :: service_function

record cip_class =
  class_id :: int
  class_name :: string
  revision :: u16
  clss_getable_all_mask :: u32
  inst_getable_all_mask :: u32
  instances :: "int list"
  services_I :: "cip_service list"
  services_C :: "cip_service list"
  attributes_I :: "cip_attribute list"
  attributes_C :: "cip_attribute list"

abbreviation kGetAttributeAll :: u8 where "kGetAttributeAll \<equiv> 0x01"
abbreviation kReset :: u8 where "kReset \<equiv> 0x05"
abbreviation kGetAttributeSingle :: u8 where "kGetAttributeSingle \<equiv> 0x0e"
abbreviation kSetAttributeSingle :: u8 where "kSetAttributeSingle \<equiv> 0x10"

section \<open>Lists sorted by id\<close>

text \<open>The insertion loop of \<open>ServiceInsert\<close> and \<open>AttributeInsert\<close>: an element with the same id is
  replaced.\<close>

fun insert_by_id :: "('a \<Rightarrow> int) \<Rightarrow> 'a \<Rightarrow> 'a list \<Rightarrow> 'a list" where
  "insert_by_id key x [] = [x]"
| "insert_by_id key x (y # ys) =
     (if key x < key y then x # y # ys
      else if key x = key y then x # ys
      else y # insert_by_id key x ys)"

text \<open>The loop of \<open>InstanceInsert\<close>, which refuses an id that is there.\<close>

fun insert_new_id :: "int \<Rightarrow> int list \<Rightarrow> int list option" where
  "insert_new_id x [] = Some [x]"
| "insert_new_id x (y # ys) =
     (if x < y then Some (x # y # ys)
      else if x = y then None
      else map_option (Cons y) (insert_new_id x ys))"

text \<open>The loop of \<open>InstanceRemove\<close> and \<open>ServiceRemove\<close>: the element taken out and the rest.\<close>

fun remove_by_id :: "('a \<Rightarrow> int) \<Rightarrow> int \<Rightarrow> 'a list \<Rightarrow> 'a option \<times> 'a list" where
  "remove_by_id key i [] = (None, [])"
| "remove_by_id key i (x # xs) =
     (if i = key x then (Some x, xs) else map_prod id (Cons x) (remove_by_id key i xs))"

definition find_by_id :: "('a \<Rightarrow> int) \<Rightarrow> int \<Rightarrow> 'a list \<Rightarrow> 'a option" where
  "find_by_id key i xs =
     (let k = vec_search (map key xs) i in if k < length xs then Some (xs ! k) else None)"

section \<open>Instances\<close>

text \<open>\<open>owned\<close> tells whether the instance is already in a class.\<close>

definition InstanceInsert :: "bool \<Rightarrow> int \<Rightarrow> cip_class \<Rightarrow> bool \<times> cip_class" where
  "InstanceInsert owned i c =
    (if owned then (False, c)
     else case insert_new_id i (instances c) of
       None \<Rightarrow> (False, c)
     | Some is \<Rightarrow> (True, c\<lparr>instances := is\<rparr>))"

definition InstanceRemove :: "int \<Rightarrow> cip_class \<Rightarrow> int option \<times> cip_class" where
  "InstanceRemove i c =
    (case remove_by_id id i (instances c) of (ret, is) \<Rightarrow> (ret, c\<lparr>instances := is\<rparr>))"

text \<open>Instance 0 is the class itself.\<close>

definition Instance :: "int \<Rightarrow> cip_class \<Rightarrow> int option" where
  "Instance i c = (if i = 0 then Some 0 else find_by_id id i (instances c))"

text \<open>The position of the iterator.\<close>

definition InstanceNext :: "int \<Rightarrow> cip_class \<Rightarrow> nat" where
  "InstanceNext i c = vec_search_gte (instances c) i"

fun find_gap :: "int \<Rightarrow> int list \<Rightarrow> int" where
  "find_gap last_id [] = last_id + 1"
| "find_gap last_id (i # is) = (if i > last_id + 1 then last_id + 1 else find_gap i is)"

definition FindUniqueFreeId :: "cip_class \<Rightarrow> int" where
  "FindUniqueFreeId c = find_gap 0 (instances c)"

section \<open>Services\<close>

definition services :: "CI \<Rightarrow> cip_class \<Rightarrow> cip_service list" where
  "services ci c = (case ci of CI_I \<Rightarrow> services_I c | CI_C \<Rightarrow> services_C c)"

definition set_services :: "CI \<Rightarrow> cip_service list \<Rightarrow> cip_class \<Rightarrow> cip_class" where
  "set_services ci ss c = (case ci of CI_I \<Rightarrow> c\<lparr>services_I := ss\<rparr> | CI_C \<Rightarrow> c\<lparr>services_C := ss\<rparr>)"

definition Service :: "CI \<Rightarrow> int \<Rightarrow> cip_class \<Rightarrow> cip_service option" where
  "Service ci i c = find_by_id service_id i (services ci c)"

definition ServiceInsert :: "CI \<Rightarrow> cip_service \<Rightarrow> cip_class \<Rightarrow> cip_class" where
  "ServiceInsert ci s c = set_services ci (insert_by_id service_id s (services ci c)) c"

definition ServiceRemove :: "CI \<Rightarrow> int \<Rightarrow> cip_class \<Rightarrow> cip_service option \<times> cip_class" where
  "ServiceRemove ci i c =
    (case remove_by_id service_id i (services ci c) of (ret, ss) \<Rightarrow> (ret, set_services ci ss c))"

section \<open>Attributes\<close>

text \<open>The sizes of the 64 bit target: a \<open>std::string\<close> is 32 bytes, a \<open>CipByteArray\<close> 16.\<close>

definition CipTypeSize :: "CipDataType \<Rightarrow> nat" where
  "CipTypeSize t =
    (if t \<in> {kCipBool, kCipSint, kCipUsint, kCipByte} then 1
     else if t \<in> {kCipInt, kCipUint, kCipWord} then 2
     else if t \<in> {kCipDint, kCipUdint, kCipDword, kCipReal} then 4
     else if t \<in> {kCipLint, kCipUlint, kCipLword, kCipLreal} then 8
     else if t = kCipUsintUsint then 2
     else if t = kCip6Usint then 6
     else if t \<in> {kCipByteArray, kCipByteArrayLength} then 16
     else if t \<in> {kCipString, kCipShortString, kCipString2} then 32
     else 0)"

definition isByteArrayType :: "CipDataType \<Rightarrow> bool" where
  "isByteArrayType t \<longleftrightarrow> t = kCipByteArray \<or> t = kCipByteArrayLength"

definition attributes :: "CI \<Rightarrow> cip_class \<Rightarrow> cip_attribute list" where
  "attributes ci c = (case ci of CI_I \<Rightarrow> attributes_I c | CI_C \<Rightarrow> attributes_C c)"

definition set_attributes :: "CI \<Rightarrow> cip_attribute list \<Rightarrow> cip_class \<Rightarrow> cip_class" where
  "set_attributes ci as c =
    (case ci of CI_I \<Rightarrow> c\<lparr>attributes_I := as\<rparr> | CI_C \<Rightarrow> c\<lparr>attributes_C := as\<rparr>)"

definition Attribute :: "CI \<Rightarrow> int \<Rightarrow> cip_class \<Rightarrow> cip_attribute option" where
  "Attribute ci i c = find_by_id attribute_id i (attributes ci c)"

text \<open>The body of the loop over the attributes there are: \<open>e\<close> makes the insertion of \<open>a\<close> fail.\<close>

definition storage_conflict :: "cip_attribute \<Rightarrow> cip_attribute \<Rightarrow> bool" where
  "storage_conflict a e \<longleftrightarrow>
     attribute_id e \<noteq> attribute_id a \<and> is_offset e = is_offset a \<and>
     CipTypeSize (attr_type e) \<noteq> 0 \<and>
     attr_where a < attr_where e + CipTypeSize (attr_type e) \<and>
     attr_where e < attr_where a + CipTypeSize (attr_type a) \<and>
     attr_type a \<noteq> attr_type e \<and>
     \<not> (isByteArrayType (attr_type a) \<and> isByteArrayType (attr_type e))"

definition note_getable_all :: "CI \<Rightarrow> cip_attribute \<Rightarrow> cip_class \<Rightarrow> cip_class" where
  "note_getable_all ci a c =
    (if attribute_id a < 32 \<and> is_getable_all a then
       case ci of
         CI_C \<Rightarrow> c\<lparr>clss_getable_all_mask := set_bit (nat (attribute_id a)) (clss_getable_all_mask c)\<rparr>
       | CI_I \<Rightarrow> c\<lparr>inst_getable_all_mask := set_bit (nat (attribute_id a)) (inst_getable_all_mask c)\<rparr>
     else c)"

definition AttributeInsert :: "CI \<Rightarrow> cip_attribute \<Rightarrow> cip_class \<Rightarrow> bool \<times> cip_class" where
  "AttributeInsert ci a c =
    (if CipTypeSize (attr_type a) \<noteq> 0 \<and> list_ex (storage_conflict a) (attributes ci c) then (False, c)
     else
       (True, note_getable_all ci a
                (set_attributes ci (insert_by_id attribute_id a (attributes ci c)) c)))"

text \<open>The overload for getter and setter functions, and the workers behind the typed inserters.\<close>

definition AttributeInsert_func ::
    "CI \<Rightarrow> int \<Rightarrow> attr_func option \<Rightarrow> bool \<Rightarrow> attr_func option \<Rightarrow> nat \<Rightarrow> bool \<Rightarrow> CipDataType \<Rightarrow> cip_class \<Rightarrow>
     bool \<times> cip_class" where
  "AttributeInsert_func ci i g all s cookie is_off ty =
     AttributeInsert ci \<lparr>attribute_id = i, attr_type = ty, is_getable_all = all, is_offset = is_off,
       attr_where = cookie, getter = g, setter = s\<rparr>"

definition attrInsert ::
    "bool \<Rightarrow> CI \<Rightarrow> int \<Rightarrow> CipDataType \<Rightarrow> nat \<Rightarrow> bool \<Rightarrow> bool \<Rightarrow> bool \<Rightarrow> cip_class \<Rightarrow> bool \<times> cip_class" where
  "attrInsert is_off ci i ty place getable getable_all setable =
     AttributeInsert ci \<lparr>attribute_id = i, attr_type = ty, is_getable_all = getable_all,
       is_offset = is_off, attr_where = place,
       getter = (if getable then Some GetAttrData else None),
       setter = (if setable then Some SetAttrData else None)\<rparr>"

abbreviation attrInsertPtr where "attrInsertPtr \<equiv> attrInsert False"
abbreviation attrInsertOff where "attrInsertOff \<equiv> attrInsert True"

text \<open>The deprecated overloads, which refuse byte arrays.\<close>

definition AttributeInsert_deprecated ::
    "bool \<Rightarrow> CI \<Rightarrow> int \<Rightarrow> CipDataType \<Rightarrow> nat \<Rightarrow> bool \<Rightarrow> bool \<Rightarrow> bool \<Rightarrow> cip_class \<Rightarrow> bool \<times> cip_class" where
  "AttributeInsert_deprecated is_off ci i ty place getable getable_all setable c =
    (if isByteArrayType ty then (False, c)
     else attrInsert is_off ci i ty place getable getable_all setable c)"

section \<open>The constructor\<close>

text \<open>The addresses of \<open>this->revision\<close> and of the static \<open>Zero\<close> are arguments. The mask of the
  instance attributes is zero when the constructor tests it.\<close>

definition class_attribute :: "nat \<Rightarrow> nat \<Rightarrow> int \<Rightarrow> cip_class \<Rightarrow> cip_class" where
  "class_attribute revision_at zero_at i c = snd
    (if i = 1 then attrInsertPtr CI_C 1 kCipUint revision_at True True False c
     else if i = 2 then AttributeInsert_func CI_C 2 (Some getLargestInstanceId) True None 0 True kCipAny c
     else if i = 3 then AttributeInsert_func CI_C 3 (Some getInstanceCount) True None 0 True kCipAny c
     else if i = 4 then attrInsertPtr CI_C 4 kCipUint zero_at True True False c
     else if i = 5 then attrInsertPtr CI_C 5 kCipUint zero_at True True False c
     else if i = 6 then AttributeInsert_func CI_C 6 (Some getLargestClassAttributeId) True None 0 True kCipAny c
     else AttributeInsert_func CI_C 7 (Some getLargestInstanceAttributeId) True None 0 True kCipAny c)"

definition CipClass :: "nat \<Rightarrow> nat \<Rightarrow> int \<Rightarrow> string \<Rightarrow> u32 \<Rightarrow> u16 \<Rightarrow> cip_class" where
  "CipClass revision_at zero_at cid name attr_mask rev_no =
    (let c = \<lparr>class_id = cid, class_name = name, revision = rev_no,
              clss_getable_all_mask = 0, inst_getable_all_mask = 0, instances = [],
              services_I = [], services_C = [], attributes_I = [], attributes_C = []\<rparr>;
         c = ServiceInsert CI_C \<lparr>service_name = ''GetAttributeSingle'',
               service_id = uint kGetAttributeSingle, service_function = GetAttributeSingle\<rparr> c;
         c = ServiceInsert CI_C \<lparr>service_name = ''GetAttributeAll'',
               service_id = uint kGetAttributeAll, service_function = GetAttributeAll\<rparr> c;
         c = ServiceInsert CI_C \<lparr>service_name = ''Reset'',
               service_id = uint kReset, service_function = Reset\<rparr> c;
         c = fold (\<lambda>i c. if bit attr_mask (nat i) then class_attribute revision_at zero_at i c else c) [1..7] c;
         c = ServiceInsert CI_I \<lparr>service_name = ''GetAttributeSingle'',
               service_id = uint kGetAttributeSingle, service_function = GetAttributeSingle\<rparr> c;
         c = ServiceInsert CI_I \<lparr>service_name = ''SetAttributeSingle'',
               service_id = uint kSetAttributeSingle, service_function = SetAttributeSingle\<rparr> c
     in if inst_getable_all_mask c \<noteq> 0
        then ServiceInsert CI_I \<lparr>service_name = ''GetAttributeAll'',
               service_id = uint kGetAttributeAll, service_function = GetAttributeAll\<rparr> c
        else c)"

section \<open>The registry\<close>

type_synonym registry = "int \<Rightarrow> cip_class option"

definition RegisterClass :: "cip_class \<Rightarrow> registry \<Rightarrow> bool \<times> registry" where
  "RegisterClass c reg =
    (case reg (class_id c) of None \<Rightarrow> (True, reg(class_id c \<mapsto> c)) | Some _ \<Rightarrow> (False, reg))"

definition FindClass :: "int \<Rightarrow> registry \<Rightarrow> cip_class option" where
  "FindClass i reg = reg i"

section \<open>Sorted lists\<close>

abbreviation by_id :: "('a \<Rightarrow> int) \<Rightarrow> 'a list \<Rightarrow> bool" where
  "by_id key xs \<equiv> sorted_ids (map key xs)"

lemma sorted_ids_simps [simp]:
  "sorted_ids []" "sorted_ids (i # is) \<longleftrightarrow> (\<forall>j \<in> set is. i < j) \<and> sorted_ids is"
  by (auto simp: sorted_ids_def)

lemma set_insert_by_id:
  "by_id key xs \<Longrightarrow> set (insert_by_id key x xs) = insert x {y \<in> set xs. key y \<noteq> key x}"
  by (induction xs) auto

lemma insert_by_id_sorted: "by_id key xs \<Longrightarrow> by_id key (insert_by_id key x xs)"
  by (induction xs) (auto simp: set_insert_by_id)

lemma find_by_id_Some:
  assumes "by_id key xs"
  shows "find_by_id key i xs = Some x \<longleftrightarrow> x \<in> set xs \<and> key x = i"
proof
  assume f: "find_by_id key i xs = Some x"
  then have k: "vec_search (map key xs) i < length xs" "x = xs ! vec_search (map key xs) i"
    by (auto simp: find_by_id_def Let_def split: if_splits)
  then have "i \<in> set (map key xs)" using vec_search_absent [OF assms, of i] by fastforce
  then obtain j where "j < length xs" "key (xs ! j) = i" by (auto simp: in_set_conv_nth)
  then show "x \<in> set xs \<and> key x = i" using vec_search_found [OF assms, of j] k by auto
next
  assume x: "x \<in> set xs \<and> key x = i"
  then obtain j where "j < length xs" "xs ! j = x" by (auto simp: in_set_conv_nth)
  then show "find_by_id key i xs = Some x"
    using vec_search_found [OF assms, of j] x by (simp add: find_by_id_def)
qed

lemma find_by_id_None:
  assumes "by_id key xs"
  shows "find_by_id key i xs = None \<longleftrightarrow> i \<notin> key ` set xs"
proof (cases "find_by_id key i xs")
  case None
  then show ?thesis using find_by_id_Some [OF assms, of i] by auto
next
  case (Some a)
  then show ?thesis using find_by_id_Some [OF assms, of i a] by auto
qed

lemma find_insert_by_id:
  assumes "by_id key xs"
  shows "find_by_id key i (insert_by_id key x xs) = (if i = key x then Some x else find_by_id key i xs)"
proof -
  note s = insert_by_id_sorted [OF assms, of x]
  have "find_by_id key i (insert_by_id key x xs) = find_by_id key i xs" if "i \<noteq> key x"
  proof (cases "find_by_id key i xs")
    case None
    then have "find_by_id key i (insert_by_id key x xs) = None" using that
      by (auto simp: find_by_id_None [OF s] find_by_id_None [OF assms] set_insert_by_id [OF assms])
    then show ?thesis using None by simp
  next
    case (Some y)
    then have "find_by_id key i (insert_by_id key x xs) = Some y" using that
      by (auto simp: find_by_id_Some [OF s] find_by_id_Some [OF assms] set_insert_by_id [OF assms])
    then show ?thesis using Some by simp
  qed
  then show ?thesis using find_by_id_Some [OF s] set_insert_by_id [OF assms] by auto
qed

lemma insert_new_id_iff:
  "sorted_ids is \<Longrightarrow> insert_new_id i is = (if i \<in> set is then None else Some (insert_by_id id i is))"
  by (induction "is") (auto simp: sorted_ids_def)

lemma remove_by_id_sorted:
  "by_id key xs \<Longrightarrow> remove_by_id key i xs = (find_by_id key i xs, filter (\<lambda>x. key x \<noteq> i) xs)"
proof (induction xs)
  case (Cons x xs)
  then show ?case
  proof (cases "i = key x")
    case True
    then have "find_by_id key i (x # xs) = Some x" using Cons.prems by (subst find_by_id_Some) simp_all
    moreover have "filter (\<lambda>y. key y \<noteq> i) xs = xs" using Cons.prems True by (auto simp: filter_id_conv)
    ultimately show ?thesis using True by simp
  next
    case False
    have "find_by_id key i (x # xs) = find_by_id key i xs"
    proof (cases "find_by_id key i xs")
      case None
      then have "i \<notin> key ` set (x # xs)" using Cons.prems False by (simp add: find_by_id_None)
      then show ?thesis using None find_by_id_None [OF Cons.prems, of i] by simp
    next
      case (Some y)
      then have "y \<in> set (x # xs) \<and> key y = i" using Cons.prems by (simp add: find_by_id_Some)
      then show ?thesis using Some find_by_id_Some [OF Cons.prems, of i y] by simp
    qed
    then show ?thesis using Cons False by simp
  qed
qed (simp add: find_by_id_def)

lemma filter_sorted: "by_id key xs \<Longrightarrow> by_id key (filter P xs)"
  by (induction xs) auto

section \<open>Tables with ids\<close>

text \<open>What the clients of a table rely on: an insertion is seen by the next lookup of its id, hides
  what was there, and is seen by no other lookup.\<close>

locale id_table =
  fixes key :: "'a \<Rightarrow> int" and ins :: "'a \<Rightarrow> 't \<Rightarrow> 't" and look :: "int \<Rightarrow> 't \<Rightarrow> 'a option"
    and good :: "'t \<Rightarrow> bool"
  assumes ins_good: "good t \<Longrightarrow> good (ins x t)"
    and look_ins: "good t \<Longrightarrow> look i (ins x t) = (if i = key x then Some x else look i t)"
begin

lemma fold_good: "good t \<Longrightarrow> good (fold ins xs t)"
  by (induction xs arbitrary: t) (simp_all add: ins_good)

text \<open>The last insertion wins.\<close>

lemma history:
  assumes "good t"
  shows "look i (fold ins xs t) =
    (case find (\<lambda>x. key x = i) (rev xs) of Some x \<Rightarrow> Some x | None \<Rightarrow> look i t)"
proof (induction xs rule: rev_induct)
  case (snoc x xs)
  then show ?case using look_ins [OF fold_good [OF assms]] by auto
qed simp

text \<open>The order of insertions with different ids does not matter.\<close>

lemma commute:
  assumes "good t" and "key x \<noteq> key y"
  shows "look i (ins x (ins y t)) = look i (ins y (ins x t))"
  using assms by (simp add: look_ins ins_good)

lemma override:
  assumes "good t" and "key x = key y"
  shows "look i (ins x (ins y t)) = look i (ins x t)"
  using assms by (simp add: look_ins ins_good)

end

interpretation id_list: id_table key "insert_by_id key" "find_by_id key" "by_id key" for key :: "'a \<Rightarrow> int"
  by unfold_locales (simp_all add: insert_by_id_sorted find_insert_by_id)

section \<open>Classes\<close>

text \<open>Two attributes may share storage when they have the same type or are both about a byte array.\<close>

definition compatible :: "cip_attribute \<Rightarrow> cip_attribute \<Rightarrow> bool" where
  "compatible a b \<longleftrightarrow>
     is_offset a \<noteq> is_offset b \<or> CipTypeSize (attr_type a) = 0 \<or> CipTypeSize (attr_type b) = 0 \<or>
     attr_where a + CipTypeSize (attr_type a) \<le> attr_where b \<or>
     attr_where b + CipTypeSize (attr_type b) \<le> attr_where a \<or>
     attr_type a = attr_type b \<or> isByteArrayType (attr_type a) \<and> isByteArrayType (attr_type b)"

definition wf_attributes :: "u32 \<Rightarrow> cip_attribute list \<Rightarrow> bool" where
  "wf_attributes all as \<longleftrightarrow> by_id attribute_id as \<and>
     (\<forall>a \<in> set as. 0 < attribute_id a \<and>
        (attribute_id a < 32 \<and> is_getable_all a \<longrightarrow> bit all (nat (attribute_id a)))) \<and>
     (\<forall>a \<in> set as. \<forall>b \<in> set as. compatible a b)"

definition wf_class :: "cip_class \<Rightarrow> bool" where
  "wf_class c \<longleftrightarrow> sorted_ids (instances c) \<and> (\<forall>i \<in> set (instances c). 0 < i) \<and>
     by_id service_id (services_I c) \<and> by_id service_id (services_C c) \<and>
     wf_attributes (inst_getable_all_mask c) (attributes_I c) \<and>
     wf_attributes (clss_getable_all_mask c) (attributes_C c)"

lemma compatible_sym: "compatible a b \<longleftrightarrow> compatible b a"
  by (auto simp: compatible_def)

lemma compatible_refl [simp]: "compatible a a"
  by (simp add: compatible_def)

lemma no_conflict_compatible:
  assumes "attribute_id e \<noteq> attribute_id a"
  shows "(CipTypeSize (attr_type a) \<noteq> 0 \<and> storage_conflict a e) \<longleftrightarrow> \<not> compatible a e"
  using assms by (auto simp: storage_conflict_def compatible_def)

lemma wf_attributes_insert:
  assumes "wf_attributes all as" and "0 < attribute_id a"
    and "CipTypeSize (attr_type a) = 0 \<or> \<not> list_ex (storage_conflict a) as"
  shows "wf_attributes (if attribute_id a < 32 \<and> is_getable_all a
                        then set_bit (nat (attribute_id a)) all else all)
           (insert_by_id attribute_id a as)"
proof -
  have s: "by_id attribute_id as" using assms(1) by (simp add: wf_attributes_def)
  have new: "compatible a b" if "b \<in> set as" "attribute_id b \<noteq> attribute_id a" for b
    using no_conflict_compatible [OF that(2)] assms(3) that(1) by (auto simp: list_ex_iff)
  show ?thesis
    using assms(1,2) new
    by (auto simp: wf_attributes_def set_insert_by_id [OF s] insert_by_id_sorted [OF s]
        bit_set_bit_iff compatible_sym [of _ a])
qed

lemma class_simps [simp]:
  "services ci (set_services ci' ss c) = (if ci = ci' then ss else services ci c)"
  "attributes ci (set_services ci' ss c) = attributes ci c"
  "services ci (set_attributes ci' as c) = services ci c"
  "attributes ci (set_attributes ci' as c) = (if ci = ci' then as else attributes ci c)"
  "services ci (note_getable_all ci' a c) = services ci c"
  "attributes ci (note_getable_all ci' a c) = attributes ci c"
  "instances (set_services ci ss c) = instances c" "instances (set_attributes ci as c) = instances c"
  "instances (note_getable_all ci a c) = instances c"
  by (cases ci; cases ci'; simp add: services_def attributes_def set_services_def set_attributes_def
      note_getable_all_def)+

lemma wf_class_services: "wf_class c \<Longrightarrow> by_id service_id (services ci c)"
  by (cases ci) (simp_all add: wf_class_def services_def)

lemma wf_class_attributes: "wf_class c \<Longrightarrow> by_id attribute_id (attributes ci c)"
  by (cases ci) (simp_all add: wf_class_def attributes_def wf_attributes_def)

lemma set_services_wf: "wf_class c \<Longrightarrow> by_id service_id ss \<Longrightarrow> wf_class (set_services ci ss c)"
  by (cases ci) (simp_all add: wf_class_def set_services_def)

lemma ServiceInsert_wf: "wf_class c \<Longrightarrow> wf_class (ServiceInsert ci s c)"
  by (simp add: ServiceInsert_def set_services_wf insert_by_id_sorted wf_class_services)

lemma ServiceRemove_wf: "wf_class c \<Longrightarrow> wf_class (snd (ServiceRemove ci i c))"
  by (simp add: ServiceRemove_def remove_by_id_sorted wf_class_services set_services_wf filter_sorted)

lemma InstanceInsert_wf:
  assumes "wf_class c" and "0 < i"
  shows "wf_class (snd (InstanceInsert owned i c))"
proof -
  have s: "sorted_ids (instances c)" using assms(1) by (simp add: wf_class_def)
  have "by_id id (instances c)" using s by simp
  then show ?thesis
    using assms insert_by_id_sorted [of id "instances c" i] set_insert_by_id [of id "instances c" i]
    by (auto simp: InstanceInsert_def insert_new_id_iff [OF s] wf_class_def)
qed

lemma InstanceRemove_wf: "wf_class c \<Longrightarrow> wf_class (snd (InstanceRemove i c))"
  using filter_sorted [of id "instances c"]
  by (simp add: InstanceRemove_def remove_by_id_sorted [of id] wf_class_def)

lemma AttributeInsert_wf:
  assumes "wf_class c" and "0 < attribute_id a"
  shows "wf_class (snd (AttributeInsert ci a c))"
  using assms wf_attributes_insert [of _ _ a]
  by (cases ci)
    (auto simp: AttributeInsert_def wf_class_def note_getable_all_def set_attributes_def attributes_def)

text \<open>The operations on classes, and all classes they can build from a constructor call.\<close>

lemma class_attribute_wf: "wf_class c \<Longrightarrow> wf_class (class_attribute r z i c)"
  by (simp add: class_attribute_def attrInsert_def AttributeInsert_func_def AttributeInsert_wf)

lemma fold_wf: "(\<And>x c. wf_class c \<Longrightarrow> wf_class (f x c)) \<Longrightarrow> wf_class c \<Longrightarrow> wf_class (fold f xs c)"
  by (induction xs arbitrary: c) auto

lemma CipClass_wf: "wf_class (CipClass r z cid name m v)"
proof -
  have "wf_class \<lparr>class_id = cid, class_name = name, revision = v,
      clss_getable_all_mask = 0, inst_getable_all_mask = 0, instances = [],
      services_I = [], services_C = [], attributes_I = [], attributes_C = []\<rparr>"
    by (simp add: wf_class_def wf_attributes_def sorted_ids_def)
  then show ?thesis
    by (simp add: CipClass_def Let_def ServiceInsert_wf fold_wf class_attribute_wf)
qed

interpretation class_services: id_table service_id "ServiceInsert ci" "\<lambda>i. Service ci i" wf_class for ci
  by unfold_locales
    (simp_all add: ServiceInsert_wf, simp add: ServiceInsert_def Service_def find_insert_by_id wf_class_services)

section \<open>Free ids\<close>

lemma find_gap_free:
  assumes "sorted_ids is" and "\<forall>i \<in> set is. l < i"
  shows "l < find_gap l is" and "find_gap l is \<notin> set is"
    and "l < j \<Longrightarrow> j < find_gap l is \<Longrightarrow> j \<in> set is"
proof -
  have "l < find_gap l is \<and> find_gap l is \<notin> set is \<and> (l < j \<and> j < find_gap l is \<longrightarrow> j \<in> set is)"
    using assms
  proof (induction "is" arbitrary: l)
    case Nil
    then show ?case by simp
  next
    case (Cons i "is")
    show ?case
    proof (cases "i > l + 1")
      case True
      moreover from this have "l + 1 \<notin> set (i # is)" using Cons.prems by force
      ultimately show ?thesis by simp
    next
      case False
      then have i: "i = l + 1" using Cons.prems by simp
      have IH: "i < find_gap i is" "find_gap i is \<notin> set is" "i < j \<and> j < find_gap i is \<longrightarrow> j \<in> set is"
        using Cons.IH [of i] Cons.prems by simp_all
      have "l < j \<and> j < find_gap i is \<longrightarrow> j = i \<or> j \<in> set is" using IH(3) i by linarith
      then show ?thesis using IH(1,2) i by simp
    qed
  qed
  then show "l < find_gap l is" and "find_gap l is \<notin> set is"
    and "l < j \<Longrightarrow> j < find_gap l is \<Longrightarrow> j \<in> set is" by blast+
qed

text \<open>The id is free, positive, and no smaller id is both.\<close>

lemma FindUniqueFreeId_least:
  assumes "wf_class c"
  shows "0 < FindUniqueFreeId c" and "FindUniqueFreeId c \<notin> set (instances c)"
    and "0 < j \<Longrightarrow> j < FindUniqueFreeId c \<Longrightarrow> j \<in> set (instances c)"
proof -
  have "sorted_ids (instances c)" "\<forall>i \<in> set (instances c). 0 < i" using assms by (simp_all add: wf_class_def)
  from find_gap_free [OF this]
  show "0 < FindUniqueFreeId c" and "FindUniqueFreeId c \<notin> set (instances c)"
    and "0 < j \<Longrightarrow> j < FindUniqueFreeId c \<Longrightarrow> j \<in> set (instances c)"
    unfolding FindUniqueFreeId_def by blast+
qed

lemma Instance_iff:
  assumes "wf_class c"
  shows "Instance i c = (if i = 0 \<or> i \<in> set (instances c) then Some i else None)"
proof -
  have s: "by_id id (instances c)" using assms by (simp add: wf_class_def)
  have "find_by_id id i (instances c) = (if i \<in> set (instances c) then Some i else None)"
    using find_by_id_Some [OF s, of i i] find_by_id_None [OF s, of i] by simp
  then show ?thesis by (simp add: Instance_def)
qed

lemma InstanceInsert_iff:
  assumes "wf_class c"
  shows "fst (InstanceInsert owned i c) \<longleftrightarrow> \<not> owned \<and> i \<notin> set (instances c)"
    and "fst (InstanceInsert owned i c) \<Longrightarrow>
      set (instances (snd (InstanceInsert owned i c))) = insert i (set (instances c))"
    and "\<not> fst (InstanceInsert owned i c) \<Longrightarrow> snd (InstanceInsert owned i c) = c"
proof -
  have s: "sorted_ids (instances c)" "by_id id (instances c)" using assms by (simp_all add: wf_class_def)
  show "fst (InstanceInsert owned i c) \<longleftrightarrow> \<not> owned \<and> i \<notin> set (instances c)"
    and "fst (InstanceInsert owned i c) \<Longrightarrow>
      set (instances (snd (InstanceInsert owned i c))) = insert i (set (instances c))"
    and "\<not> fst (InstanceInsert owned i c) \<Longrightarrow> snd (InstanceInsert owned i c) = c"
    using set_insert_by_id [OF s(2), of i]
    by (auto simp: InstanceInsert_def insert_new_id_iff [OF s(1)] split: if_splits)
qed

text \<open>An attribute inserted is found; it is refused exactly when it would share storage with another
  one under an incompatible type, and then nothing changes.\<close>

lemma AttributeInsert_iff:
  "fst (AttributeInsert ci a c) \<longleftrightarrow>
     (\<forall>e \<in> set (attributes ci c). attribute_id e \<noteq> attribute_id a \<longrightarrow> compatible a e)"
  "\<not> fst (AttributeInsert ci a c) \<Longrightarrow> snd (AttributeInsert ci a c) = c"
proof -
  have "CipTypeSize (attr_type a) \<noteq> 0 \<and> storage_conflict a e \<longleftrightarrow>
      attribute_id e \<noteq> attribute_id a \<and> \<not> compatible a e" for e
    using no_conflict_compatible [of e a] by (auto simp: storage_conflict_def)
  then have "(CipTypeSize (attr_type a) \<noteq> 0 \<and> list_ex (storage_conflict a) (attributes ci c)) \<longleftrightarrow>
      (\<exists>e \<in> set (attributes ci c). attribute_id e \<noteq> attribute_id a \<and> \<not> compatible a e)"
    unfolding list_ex_iff by blast
  then show "fst (AttributeInsert ci a c) \<longleftrightarrow>
     (\<forall>e \<in> set (attributes ci c). attribute_id e \<noteq> attribute_id a \<longrightarrow> compatible a e)"
    unfolding AttributeInsert_def by (simp split: if_split) blast
  show "\<not> fst (AttributeInsert ci a c) \<Longrightarrow> snd (AttributeInsert ci a c) = c"
    by (simp add: AttributeInsert_def split: if_splits)
qed

lemma Attribute_after_insert:
  assumes "wf_class c" and "fst (AttributeInsert ci a c)"
  shows "Attribute ci i (snd (AttributeInsert ci a c)) =
    (if i = attribute_id a then Some a else Attribute ci i c)"
proof -
  have "\<not> (CipTypeSize (attr_type a) \<noteq> 0 \<and> list_ex (storage_conflict a) (attributes ci c))"
    using assms(2) by (simp add: AttributeInsert_def split: if_splits)
  then show ?thesis using find_insert_by_id [OF wf_class_attributes [OF assms(1)]]
    by (auto simp: AttributeInsert_def Attribute_def)
qed

text \<open>The constructor leaves a class without instance attributes, so its test of their mask always
  fails.\<close>

lemma class_attribute_mask: "inst_getable_all_mask (class_attribute r z i c) = inst_getable_all_mask c"
  by (simp add: class_attribute_def attrInsert_def AttributeInsert_func_def AttributeInsert_def
      note_getable_all_def set_attributes_def)

lemma service_mask: "inst_getable_all_mask (ServiceInsert ci s c) = inst_getable_all_mask c"
  by (cases ci) (simp_all add: ServiceInsert_def set_services_def)

lemma fold_class_attribute:
  "inst_getable_all_mask (fold (\<lambda>i c. if bit m (nat i) then class_attribute r z i c else c) is c) =
   inst_getable_all_mask c"
  "services ci (fold (\<lambda>i c. if bit m (nat i) then class_attribute r z i c else c) is c) = services ci c"
proof -
  have "services ci (class_attribute r z i c) = services ci c" for i c
    by (simp add: class_attribute_def attrInsert_def AttributeInsert_func_def AttributeInsert_def)
  then show "inst_getable_all_mask (fold (\<lambda>i c. if bit m (nat i) then class_attribute r z i c else c) is c) =
      inst_getable_all_mask c"
    and "services ci (fold (\<lambda>i c. if bit m (nat i) then class_attribute r z i c else c) is c) = services ci c"
    by (induction "is" arbitrary: c) (auto simp: class_attribute_mask)
qed

lemma services_insert:
  "services ci (ServiceInsert ci' s c) =
     (if ci = ci' then insert_by_id service_id s (services ci c) else services ci c)"
  by (simp add: ServiceInsert_def)

lemma no_instance_get_all: "Service CI_I (uint kGetAttributeAll) (CipClass r z cid name m v) = None"
  by (simp add: CipClass_def Let_def Service_def service_mask fold_class_attribute services_insert)
    (simp add: services_def, subst find_by_id_None, simp_all)

end
