(* ===== verification/Mr_Message.thy ===== *)
theory Mr_Message
  imports Cip_Segments
begin

unbundle bit_operations_syntax

text \<open>
  The messages of the message router, \<open>CipMessageRouterRequest\<close> and \<open>CipMessageRouterResponse\<close> of
  \<open>cip/cipmessagerouter.h\<close> and \<open>cip/cipmessagerouter.cc\<close>. A request is a service code, a path and the
  data behind it. A response is filled in by the service functions: its status, and data that they
  write through \<open>Writer()\<close> and announce with \<open>SetWrittenSize()\<close>.

  The \<open>Cpf\<close> a response belongs to is not a field here; the functions that need it get it as an
  argument. \<open>CipError\<close> and service codes are kept as the numbers on the wire.
\<close>

section \<open>Requests\<close>

record mr_request =
  mr_service :: u8
  mr_path :: app_path
  mr_data :: "byte list"

definition SetPathAttribute :: "u32 \<Rightarrow> mr_request \<Rightarrow> mr_request" where
  "SetPathAttribute a q = q\<lparr>mr_path := ap_set ATTRIBUTE a (mr_path q)\<rparr>"

text \<open>The path goes behind the byte for the word count, which is filled in afterwards.\<close>

definition Request_Serialize :: "u32 \<Rightarrow> writer \<Rightarrow> mr_request \<Rightarrow> writer res" where
  "Request_Serialize ctl out q =
     bindE (put8 out (mr_service q)) (\<lambda>w.
     bindE (w_advance w 1) (\<lambda>w1.
     bindE (AppPath_Serialize ctl w1 (mr_path q)) (\<lambda>w2.
     let rplen = w_count w1 w2 in
     bindE (put8 (w\<lparr>w_mem := w_mem w2\<rparr>) (of_nat (rplen div 2))) (\<lambda>w3.
     bindE (w_advance w3 rplen) (\<lambda>w4.
     append_bytes w4 (mr_data q))))))"

definition Request_SerializedCount :: "u32 \<Rightarrow> mr_request \<Rightarrow> nat res" where
  "Request_SerializedCount ctl q =
     bindE (AppPath_SerializedCount ctl (mr_path q)) (\<lambda>n. Inr (2 + n + length (mr_data q)))"

text \<open>The result is the value returned and, when it is positive, the request; what a failed parse
  leaves in the object is not looked at by the callers. \<open>p0\<close> is the path object before. A key in
  front of the path is read and dropped.\<close>

definition DeserializeMRReq :: "app_path \<Rightarrow> byte list \<Rightarrow> (int \<times> mr_request option) res" where
  "DeserializeMRReq p0 inp =
    (case
       bindE (get8 inp) (\<lambda>(service, r).
       bindE (get8 r) (\<lambda>(words, r).
       let byte_count = unat words * 2 in
       if byte_count > length r then Inr (-1, None)
       else
         let rpath = take byte_count r in
         bindE (DeserializeElectronicKey \<lparr>vendor_id = -1, device_type = -1, product_code = -1,
                  major_revision = -1, minor_revision = -1\<rparr> rpath) (\<lambda>(result, key).
         if result < 0 then Inr (result, None)
         else
           bindE (r_advance rpath (nat result)) (\<lambda>rp.
           bindE (DeserializeAppPath 0 None p0 rp) (\<lambda>(path, rest).
           let consumed = 2 + nat result + (length rp - length rest) in
           bindE (r_advance inp consumed) (\<lambda>d.
           Inr (int consumed, Some \<lparr>mr_service = service, mr_path = path, mr_data = d\<rparr>))))))) of
       Inl e \<Rightarrow> if is_runtime_error e then Inr (-1, None) else Inl e
     | Inr x \<Rightarrow> Inr x)"

section \<open>Responses\<close>

record mr_response =
  reply_service :: u8
  general_status :: u8
  sts_size :: nat
  additional_status :: "u16 list"
  mr_writer :: writer
  written_size :: nat

definition Response_Clear :: "mr_response \<Rightarrow> mr_response" where
  "Response_Clear r = r\<lparr>reply_service := 0, general_status := 0, sts_size := 0,
     additional_status := [0, 0], written_size := 0\<rparr>"

definition CipMessageRouterResponse :: "writer \<Rightarrow> mr_response" where
  "CipMessageRouterResponse out =
     Response_Clear \<lparr>reply_service = 0, general_status = 0, sts_size = 0, additional_status = [],
       mr_writer = out, written_size = 0\<rparr>"

definition SetGenStatus :: "CipError \<Rightarrow> mr_response \<Rightarrow> mr_response" where
  "SetGenStatus e r = r\<lparr>general_status := error_code e\<rparr>"

definition AddAdditionalSts :: "u16 \<Rightarrow> mr_response \<Rightarrow> mr_response" where
  "AddAdditionalSts x r =
     (if sts_size r < 2
      then r\<lparr>additional_status := (additional_status r)[sts_size r := x], sts_size := sts_size r + 1\<rparr>
      else r)"

definition ExtStatus :: "mr_response \<Rightarrow> u16" where
  "ExtStatus r = (if sts_size r \<noteq> 0 then additional_status r ! 0 else 0)"

definition Reader :: "mr_response \<Rightarrow> byte list" where
  "Reader r = take (written_size r) (drop (w_pos (mr_writer r)) (w_mem (mr_writer r)))"

definition SetReader :: "byte list \<Rightarrow> nat \<Rightarrow> mr_response \<Rightarrow> mr_response" where
  "SetReader mem pos r =
     r\<lparr>mr_writer := \<lparr>w_mem = mem, w_pos = pos, w_lim = length mem\<rparr>, written_size := length mem - pos\<rparr>"

lemma SetReader_simps:
  "reply_service (SetReader mem pos r) = reply_service r"
  "general_status (SetReader mem pos r) = general_status r"
  "sts_size (SetReader mem pos r) = sts_size r"
  "additional_status (SetReader mem pos r) = additional_status r"
  by (simp_all add: SetReader_def)

text \<open>What a service function does with \<open>Writer()\<close>: it writes through a copy, and the bytes are in the
  buffer; \<open>data\<close> itself stays where it is.\<close>

definition wrote :: "writer \<Rightarrow> mr_response \<Rightarrow> mr_response" where
  "wrote w r = r\<lparr>mr_writer := (mr_writer r)\<lparr>w_mem := w_mem w\<rparr>\<rparr>"

definition WriterAdvance :: "nat \<Rightarrow> mr_response \<Rightarrow> mr_response res" where
  "WriterAdvance n r = bindE (w_advance (mr_writer r) n) (\<lambda>w. Inr (r\<lparr>mr_writer := w\<rparr>))"

definition Response_SerializedCount :: "mr_response \<Rightarrow> nat" where
  "Response_SerializedCount r = 4 + 2 * sts_size r + written_size r"

definition Response_Serialize :: "writer \<Rightarrow> mr_response \<Rightarrow> writer res" where
  "Response_Serialize out r =
     bindE (put8 out (reply_service r OR 0x80)) (\<lambda>w.
     bindE (put8 w 0) (\<lambda>w.
     bindE (put8 w (general_status r)) (\<lambda>w.
     bindE (put8 w (of_nat (sts_size r))) (\<lambda>w.
     bindE (put_each16 w (take (sts_size r) (additional_status r))) (\<lambda>w.
     append_bytes w (Reader r))))))"

text \<open>The loop over the additional status words, \<open>i\<close> of which have been read.\<close>

fun get_status_words :: "nat \<Rightarrow> nat \<Rightarrow> u16 list \<Rightarrow> byte list \<Rightarrow> (u16 list \<times> byte list) res" where
  "get_status_words 0 i sts r = Inr (sts, r)"
| "get_status_words (Suc n) i sts r =
     (if i = 2 then Inl Invalid_argument
      else bindE (get16 r) (\<lambda>(x, r). get_status_words n (Suc i) (sts[i := x]) r))"

definition DeserializeMRRes :: "mr_response \<Rightarrow> byte list \<Rightarrow> (int \<times> mr_response) res" where
  "DeserializeMRRes r0 inp =
     bindE (get8 inp) (\<lambda>(service, r).
     bindE (r_advance r 1) (\<lambda>r.
     bindE (get8 r) (\<lambda>(status, r).
     bindE (get8 r) (\<lambda>(size, r).
     bindE (get_status_words (unat size) 0 (additional_status r0) r) (\<lambda>(sts, r).
     let pos = length inp - length r in
     Inr (int pos, SetReader inp pos
            (r0\<lparr>reply_service := service AND 0x7f, general_status := status, sts_size := unat size,
                additional_status := sts\<rparr>)))))))"

section \<open>Wire formats\<close>

definition request_wire :: "u32 \<Rightarrow> mr_request \<Rightarrow> byte list" where
  "request_wire ctl q =
     [mr_service q, of_nat (length (app_path_wire ctl (mr_path q)) div 2)] @
     app_path_wire ctl (mr_path q) @ mr_data q"

lemma backpatch8:
  assumes "wf_writer w"
  shows "bindE (w_advance w 1) (\<lambda>w1. bindE (append_bytes w1 bs) (\<lambda>w2.
     bindE (put8 (w\<lparr>w_mem := w_mem w2\<rparr>) (f (w_count w1 w2))) (\<lambda>w3.
     bindE (w_advance w3 (w_count w1 w2)) g))) =
   bindE (append_bytes w (f (length bs) # bs)) g"
proof (cases "w_pos w + 1 + length bs \<le> w_lim w")
  case True
  have "poke (poke (w_mem w) (w_pos w + 1) bs) (w_pos w) [v] =
        poke (poke (w_mem w) (w_pos w) [v]) (w_pos w + 1) bs" for v
    using assms True by (intro poke_commute) (auto simp: wf_writer_def)
  then show ?thesis using True
    by (simp add: w_advance_def append_bytes_def put_wire w_count_def poke_append add.commute)
next
  case False
  then show ?thesis by (auto simp: w_advance_def append_bytes_def)
qed

lemma Request_Serialize_wire:
  assumes "wf_writer w"
  shows "Request_Serialize ctl w q = append_bytes w (request_wire ctl q)"
proof -
  let ?p = "app_path_wire ctl (mr_path q)"
  have path: "bindE (w_advance v 1) (\<lambda>w1. bindE (AppPath_Serialize ctl w1 (mr_path q)) (f w1)) =
      bindE (w_advance v 1) (\<lambda>w1. bindE (append_bytes w1 ?p) (f w1))" if "wf_writer v" for v f
  proof (cases "w_advance v 1")
    case (Inr w1)
    then have "wf_writer w1" using that by (auto simp: w_advance_def wf_writer_def split: if_splits)
    then show ?thesis using Inr by (simp add: AppPath_Serialize_wire)
  qed simp
  have step: "bindE (w_advance v 1) (\<lambda>w1. bindE (AppPath_Serialize ctl w1 (mr_path q)) (\<lambda>w2.
      bindE (put8 (v\<lparr>w_mem := w_mem w2\<rparr>) (of_nat (w_count w1 w2 div 2))) (\<lambda>w3.
      bindE (w_advance w3 (w_count w1 w2)) (\<lambda>w4. append_bytes w4 (mr_data q))))) =
    append_bytes v ((of_nat (length ?p div 2) # ?p) @ mr_data q)" if "wf_writer v" for v
    unfolding path [OF that] backpatch8 [OF that, where f = "\<lambda>n. of_nat (n div 2)"] by (simp add: ser_simps)
  have "Request_Serialize ctl w q = bindE (append_bytes w [mr_service q]) (\<lambda>w.
      append_bytes w ((of_nat (length ?p div 2) # ?p) @ mr_data q))"
    unfolding Request_Serialize_def put_wire(1) [of w "mr_service q"] Let_def
    by (rule bindE_cong [OF refl], rule step, rule append_wf [OF _ assms])
  then show ?thesis by (simp add: request_wire_def ser_simps)
qed

text \<open>A path that is not packed is a whole number of words, and short enough for the word count.\<close>

lemma length_logical_wire:
  "\<not> CTL_PACKED_EPATH ctl \<Longrightarrow> even (length (logical_wire ctl seg v))"
  "length (logical_wire ctl seg v) \<le> 6"
  by (simp_all add: logical_wire_def)

lemma length_fields_wire:
  "\<not> CTL_PACKED_EPATH ctl \<Longrightarrow> even (length (fields_wire ctl kvs))"
  "length (fields_wire ctl kvs) \<le> 6 * length kvs"
  using length_logical_wire by (induction kvs) (auto intro: order_trans [OF add_mono])

lemma length_emitted: "length (emitted ctl p) \<le> 4"
  by (simp add: emitted_def field_if_def Let_def)

lemma length_app_path_wire:
  assumes "length (ap_tag p) \<le> 41"
  shows "\<not> CTL_PACKED_EPATH ctl \<Longrightarrow> even (length (app_path_wire ctl p))"
    and "length (app_path_wire ctl p) \<le> 68"
proof -
  show "\<not> CTL_PACKED_EPATH ctl \<Longrightarrow> even (length (app_path_wire ctl p))"
    using length_fields_wire(1) [of ctl "emitted ctl p"] by (auto simp: app_path_wire_def tag_wire_def)
  have "length (fields_wire ctl (emitted ctl p)) \<le> 24"
    using length_fields_wire(2) [of ctl "emitted ctl p"] length_emitted [of ctl p] by linarith
  then show "length (app_path_wire ctl p) \<le> 68"
    using assms by (auto simp: app_path_wire_def tag_wire_def)
qed

lemma app_path_wire_head:
  assumes "canonical_path p"
  shows "app_path_wire 0 p \<noteq> []" and "hd (app_path_wire 0 p) \<noteq> 0x34"
proof -
  have "app_path_wire 0 p \<noteq> [] \<and> hd (app_path_wire 0 p) \<noteq> 0x34"
  proof (cases "ap_has TAG p")
    case False
    then have "ap_has CLASS p" using assms by (simp add: canonical_path_def)
    then obtain kvs where "emitted 0 p = (CLASS, ap_get CLASS p) # kvs"
      using False by (auto simp: emitted_def field_if_def CTL_OMIT_CLASS_def)
    then show ?thesis using False by (simp add: app_path_wire_def logical_wire_def)
  qed (simp add: app_path_wire_def tag_wire_def)
  then show "app_path_wire 0 p \<noteq> []" and "hd (app_path_wire 0 p) \<noteq> 0x34" by blast+
qed

lemma DeserializeMRReq_wire:
  assumes "canonical_path (mr_path q)" and "length (ap_stuff p0) = 7"
  shows "\<exists>q'. DeserializeMRReq p0 (request_wire 0 q) =
      Inr (2 + int (length (app_path_wire 0 (mr_path q))), Some q') \<and>
    mr_service q' = mr_service q \<and> same_path (mr_path q') (mr_path q) \<and> mr_data q' = mr_data q"
proof -
  let ?p = "app_path_wire 0 (mr_path q)"
  have tag: "length (ap_tag (mr_path q)) \<le> 41" using assms(1) by (simp add: canonical_path_def wf_app_path_def)
  have even: "even (length ?p)" using length_app_path_wire(1) [OF tag] by (simp add: CTL_PACKED_EPATH_def)
  have "length ?p div 2 < 256" using length_app_path_wire(2) [OF tag, of 0] by simp
  then have "unat (of_nat (length ?p div 2) :: u8) = length ?p div 2" by (simp add: unat_of_nat)
  then have words: "unat (of_nat (length ?p div 2) :: u8) * 2 = length ?p" using even by simp
  obtain p' where p': "DeserializeAppPath 0 None p0 ?p = Inr (p', [])" "same_path p' (mr_path q)"
    using parse_canonical_path [OF assms(1) _ assms(2), of 0 "[]"]
    by (auto simp: no_omit_def ends_path_def ends_path_ends CTL_OMIT_CLASS_def CTL_OMIT_INSTANCE_def CTL_OMIT_CONN_PT_def)
  have key: "DeserializeElectronicKey k ?p = Inr (0, k)" for k
    using app_path_wire_head [OF assms(1)] by (cases ?p) (auto simp: DeserializeElectronicKey_def r_peek_def)
  show ?thesis
    using p' key words
    by (auto simp: DeserializeMRReq_def request_wire_def Let_def r_advance_def)
qed

definition response_wire :: "mr_response \<Rightarrow> byte list" where
  "response_wire r =
     [reply_service r OR 0x80, 0, general_status r, of_nat (sts_size r)] @
     concat (map le16 (take (sts_size r) (additional_status r))) @ Reader r"

lemma Response_Serialize_wire:
  assumes "wf_writer w"
  shows "Response_Serialize w r = append_bytes w (response_wire r)"
proof -
  have "Response_Serialize w r =
      bindE (append_bytes w [reply_service r OR 0x80, 0, general_status r, of_nat (sts_size r)]) (\<lambda>w.
      bindE (put_each16 w (take (sts_size r) (additional_status r))) (\<lambda>w. append_bytes w (Reader r)))"
    by (simp add: Response_Serialize_def ser_simps)
  also have "\<dots> = append_bytes w (response_wire r)"
    unfolding response_wire_def using assms
    by (intro append_then) (auto simp: put_each16_wire ser_simps)
  finally show ?thesis .
qed

text \<open>A response as the service functions build it: at most two status words, and data within the
  buffer.\<close>

definition wf_response :: "mr_response \<Rightarrow> bool" where
  "wf_response r \<longleftrightarrow> sts_size r \<le> 2 \<and> length (additional_status r) = 2 \<and> wf_writer (mr_writer r) \<and>
     w_pos (mr_writer r) + written_size r \<le> w_lim (mr_writer r)"

lemma length_Reader: "wf_response r \<Longrightarrow> length (Reader r) = written_size r"
  by (auto simp: Reader_def wf_response_def wf_writer_def min_def)

lemma length_response_wire: "wf_response r \<Longrightarrow> length (response_wire r) = Response_SerializedCount r"
proof -
  have "length (concat (map le16 xs)) = 2 * length xs" for xs by (induction xs) simp_all
  then show "wf_response r \<Longrightarrow> length (response_wire r) = Response_SerializedCount r"
    by (simp add: response_wire_def Response_SerializedCount_def length_Reader) (simp add: wf_response_def)
qed

lemma wf_response_ops:
  assumes "wf_response r"
  shows "wf_response (SetGenStatus e r)" and "wf_response (AddAdditionalSts x r)"
    and "wf_writer out \<Longrightarrow> wf_response (CipMessageRouterResponse out)"
    and "WriterAdvance (written_size r) r = Inr r' \<Longrightarrow> wf_response (r'\<lparr>written_size := 0\<rparr>)"
  using assms
  by (auto simp: wf_response_def SetGenStatus_def AddAdditionalSts_def CipMessageRouterResponse_def
      Response_Clear_def WriterAdvance_def w_advance_def wf_writer_def split: if_splits)

lemma get_status_words_wire:
  "i + length xs \<le> 2 \<Longrightarrow> length sts = 2 \<Longrightarrow>
   get_status_words (length xs) i sts (concat (map le16 xs) @ rest) =
     Inr (take i sts @ xs @ drop (i + length xs) sts, rest)"
proof (induction xs arbitrary: i sts)
  case (Cons x xs)
  then have "i < 2" by simp
  then show ?case using Cons by (simp add: des_simps take_Suc_conv_app_nth)
qed simp

lemma DeserializeMRRes_wire:
  assumes "wf_response r" and "reply_service r < 0x80" and "length (additional_status r0) = 2"
  shows "\<exists>r'. DeserializeMRRes r0 (response_wire r) = Inr (int (4 + 2 * sts_size r), r') \<and>
    reply_service r' = reply_service r \<and> general_status r' = general_status r \<and>
    sts_size r' = sts_size r \<and>
    take (sts_size r') (additional_status r') = take (sts_size r) (additional_status r) \<and>
    Reader r' = Reader r \<and> ExtStatus r' = ExtStatus r"
proof -
  let ?xs = "take (sts_size r) (additional_status r)"
  have n: "length ?xs = sts_size r" "sts_size r \<le> 2" using assms(1) by (simp_all add: wf_response_def)
  have size: "unat (of_nat (sts_size r) :: u8) = sts_size r" using n(2) by (simp add: unat_of_nat)
  have "(x OR 0x80) AND 0x7f = x" if "x < 0x80" for x :: u8
  proof -
    have "x AND mask 7 = x" using that by (intro less_mask_eq) simp
    then have "x AND 0x7f = x" by (simp add: mask_eq_exp_minus_1)
    then show ?thesis by (simp add: word_ao_dist)
  qed
  then have service: "(reply_service r OR 0x80) AND 0x7f = reply_service r" using assms(2) by blast
  have words: "get_status_words (sts_size r) 0 (additional_status r0) (concat (map le16 ?xs) @ Reader r) =
      Inr (?xs @ drop (sts_size r) (additional_status r0), Reader r)"
    using get_status_words_wire [of 0 ?xs "additional_status r0" "Reader r"] n assms(3) by simp
  have len: "length (concat (map le16 ?xs)) = 2 * sts_size r"
  proof -
    have "length (concat (map le16 xs)) = 2 * length xs" for xs by (induction xs) simp_all
    then show ?thesis using n(1) by simp
  qed
  have pos: "length (response_wire r) - length (Reader r) = 4 + 2 * sts_size r"
    "drop (4 + 2 * sts_size r) (response_wire r) = Reader r"
  proof -
    obtain hdr where "response_wire r = hdr @ Reader r" "length hdr = 4 + 2 * sts_size r"
      using len that [of "[reply_service r OR 0x80, 0, general_status r, of_nat (sts_size r)] @
        concat (map le16 ?xs)"] by (simp add: response_wire_def)
    then show "length (response_wire r) - length (Reader r) = 4 + 2 * sts_size r"
      and "drop (4 + 2 * sts_size r) (response_wire r) = Reader r" by simp_all
  qed
  have "DeserializeMRRes r0 (response_wire r) =
    Inr (int (4 + 2 * sts_size r), SetReader (response_wire r) (4 + 2 * sts_size r)
      (r0\<lparr>reply_service := reply_service r, general_status := general_status r, sts_size := sts_size r,
          additional_status := ?xs @ drop (sts_size r) (additional_status r0)\<rparr>))"
    using words size service pos(1) 
    by (simp add: DeserializeMRRes_def response_wire_def [of r] r_advance_def Let_def)
  moreover have "Reader (SetReader (response_wire r) (4 + 2 * sts_size r) x) = Reader r" for x
    unfolding SetReader_def
    by (subst Reader_def) (simp flip: pos(2))
  ultimately show ?thesis using n
    by (cases "sts_size r") (auto simp: SetReader_simps ExtStatus_def nth_append)
qed

end
