(* ===== verification/Cip_Object.thy ===== *)
theory Cip_Object
  imports Cip_Class Mr_Message
begin

unbundle bit_operations_syntax

text \<open>
  What happens to a request inside the object model: the attribute functions of
  \<open>cip/cipattribute.cc\<close> and \<open>cip/cipclass.cc\<close>, the common services of \<open>cip/cipclass.cc\<close>, and
  the message router \<open>CipMessageRouterClass::NotifyMR\<close>.

  The state of the stack is the registry of classes, the store of the objects that attributes point
  to, and a rest of any type, which the functions of an application may use. A location of the store
  is a static address or an offset in an instance. Functions of an application are an argument, the
  record \<open>app\<close>. A service gets the class and the instance it is called on, the request and the
  response; it may change both, and the stack, and may throw after it has changed them, so all of
  them are part of the outcome. What a function that throws has written into the reply buffer beyond
  the announced bytes is not kept.
\<close>

section \<open>State\<close>

datatype data_loc = Static nat | Member int int nat

record 's stack =
  st_classes :: registry
  st_data :: "data_loc \<Rightarrow> cip_value"
  st_rest :: 's

type_synonym 's outcome = "EipStatus res \<times> mr_request \<times> mr_response \<times> 's stack"

type_synonym 's service_call =
  "cip_class \<Rightarrow> int \<Rightarrow> mr_request \<Rightarrow> mr_response \<Rightarrow> 's stack \<Rightarrow> 's outcome"

record 's app =
  user_attr :: "nat \<Rightarrow> cip_attribute \<Rightarrow> 's service_call"
  user_service :: "nat \<Rightarrow> 's service_call"

text \<open>\<open>CipInstance::Data\<close>.\<close>

definition Data :: "cip_class \<Rightarrow> int \<Rightarrow> cip_attribute \<Rightarrow> data_loc" where
  "Data c i a = (if is_offset a then Member (class_id c) i (attr_where a) else Static (attr_where a))"

text \<open>\<open>CipInstance::CI_\<close>: the class itself is instance 0.\<close>

definition CI_of :: "int \<Rightarrow> CI" where
  "CI_of i = (if i = 0 then CI_C else CI_I)"

section \<open>Attribute functions\<close>

definition get_attr_data :: "cip_attribute \<Rightarrow> 's service_call" where
  "get_attr_data a c i q r st =
    (case EncodeData (attr_type a) (st_data st (Data c i a)) (mr_writer r) of
       Inl e \<Rightarrow> (Inl e, q, r, st)
     | Inr w \<Rightarrow> (Inr kEipStatusOkSend, q, (wrote w r)\<lparr>written_size := w_count (mr_writer r) w\<rparr>, st))"

definition set_attr_data :: "cip_attribute \<Rightarrow> 's service_call" where
  "set_attr_data a c i q r st =
    (case DecodeData (attr_type a) (st_data st (Data c i a)) (mr_data q) of
       Inl e \<Rightarrow> (Inl e, q, r, st)
     | Inr (out_count, v, rest) \<Rightarrow>
         let st = st\<lparr>st_data := (st_data st)(Data c i a := v)\<rparr> in
         if out_count \<ge> 0 then (Inr kEipStatusOkSend, q, r, st)
         else (Inr kEipStatusOkSend, q, SetGenStatus kCipErrorInvalidAttributeValue r, st))"

text \<open>The getters of the class attributes write one 16 bit number.\<close>

definition put_number :: "u16 \<Rightarrow> 's service_call" where
  "put_number x c i q r st =
    (case put16 (mr_writer r) x of
       Inl e \<Rightarrow> (Inl e, q, r, st)
     | Inr w \<Rightarrow> (Inr kEipStatusOkSend, q, (wrote w r)\<lparr>written_size := 2\<rparr>, st))"

definition largest_id :: "int list \<Rightarrow> u16" where
  "largest_id is = (if is = [] then 0 else word_of_int (List.last is))"

fun call_attr :: "'s app \<Rightarrow> attr_func \<Rightarrow> cip_attribute \<Rightarrow> 's service_call" where
  "call_attr app GetAttrData a c = get_attr_data a c"
| "call_attr app SetAttrData a c = set_attr_data a c"
| "call_attr app getInstanceCount a c = put_number (of_nat (length (instances c))) c"
| "call_attr app getLargestInstanceId a c = put_number (largest_id (instances c)) c"
| "call_attr app getLargestInstanceAttributeId a c =
     put_number (largest_id (map attribute_id (attributes_I c))) c"
| "call_attr app getLargestClassAttributeId a c =
     put_number (largest_id (map attribute_id (attributes_C c))) c"
| "call_attr app (User_attr_func n) a c = user_attr app n a c"

definition Attribute_Get :: "'s app \<Rightarrow> cip_attribute \<Rightarrow> 's service_call" where
  "Attribute_Get app a c i q r st =
    (case getter a of
       None \<Rightarrow> (Inr kEipStatusOkSend, q, SetGenStatus kCipErrorAttributeNotGettable r, st)
     | Some g \<Rightarrow>
         if mr_service q = kGetAttributeAll \<and> \<not> is_getable_all a
         then (Inr kEipStatusOkSend, q, SetGenStatus kCipErrorAttributeNotGettable r, st)
         else
           case call_attr app g a c i q r st of
             (Inl Range_error, q, r, st) \<Rightarrow>
               (Inr kEipStatusOkSend, q, SetGenStatus kCipErrorNotEnoughData r, st)
           | (Inl Overflow_error, q, r, st) \<Rightarrow> (Inr kEipStatusError, q, r, st)
           | x \<Rightarrow> x)"

definition Attribute_Set :: "'s app \<Rightarrow> cip_attribute \<Rightarrow> 's service_call" where
  "Attribute_Set app a c i q r st =
    (case setter a of
       None \<Rightarrow> (Inr kEipStatusOkSend, q, SetGenStatus kCipErrorAttributeNotSetable r, st)
     | Some s \<Rightarrow>
         case call_attr app s a c i q r st of
           (Inl Range_error, q, r, st) \<Rightarrow>
             (Inr kEipStatusOkSend, q, SetGenStatus kCipErrorNotEnoughData r, st)
         | x \<Rightarrow> x)"

section \<open>The common services\<close>

definition path_int :: "nat \<Rightarrow> app_path \<Rightarrow> int" where
  "path_int k p = sint (ap_get k p)"

definition get_attribute_single :: "'s app \<Rightarrow> 's service_call" where
  "get_attribute_single app c i q r st =
    (case Attribute (CI_of i) (path_int ATTRIBUTE (mr_path q)) c of
       None \<Rightarrow> (Inr kEipStatusOkSend, q, SetGenStatus kCipErrorAttributeNotSupported r, st)
     | Some a \<Rightarrow> Attribute_Get app a c i q r st)"

definition set_attribute_single :: "'s app \<Rightarrow> 's service_call" where
  "set_attribute_single app c i q r st =
    (case Attribute (CI_of i) (path_int ATTRIBUTE (mr_path q)) c of
       None \<Rightarrow> (Inr kEipStatusOkSend, q, SetGenStatus kCipErrorAttributeNotSupported r, st)
     | Some a \<Rightarrow> Attribute_Set app a c i q r st)"

definition reset_service :: "'s service_call" where
  "reset_service c i q r st =
    (Inr kEipStatusOkSend, q,
     if mr_data q \<noteq> [] then SetGenStatus kCipErrorInvalidParameter r else r, st)"

text \<open>A service function other than \<open>GetAttributeAll\<close>. A class that has \<open>GetAttributeAll\<close> under the
  code of \<open>GetAttributeSingle\<close> would call itself without end.\<close>

fun call_single :: "'s app \<Rightarrow> service_function \<Rightarrow> 's service_call" where
  "call_single app GetAttributeSingle c i q r st = get_attribute_single app c i q r st"
| "call_single app SetAttributeSingle c i q r st = set_attribute_single app c i q r st"
| "call_single app Reset c i q r st = reset_service c i q r st"
| "call_single app (User_service n) c i q r st = user_service app n c i q r st"
| "call_single app GetAttributeAll c i q r st = (Inl Undefined, q, r, st)"

text \<open>The loop of \<open>GetAttributeAll\<close>. The flag is false when it was left with \<open>kEipStatusError\<close>.\<close>

fun get_all_loop ::
    "'s service_call \<Rightarrow> u32 \<Rightarrow> cip_attribute list \<Rightarrow> cip_class \<Rightarrow> int \<Rightarrow> mr_request \<Rightarrow> mr_response \<Rightarrow>
     's stack \<Rightarrow> bool res \<times> mr_request \<times> mr_response \<times> 's stack" where
  "get_all_loop f get_mask [] c i q r st = (Inr True, q, r, st)"
| "get_all_loop f get_mask (a # as) c i q r st =
    (let aid = attribute_id a in
     if aid < 32 \<and> bit get_mask (nat aid) then
       case f c i (SetPathAttribute (word_of_int aid) q) r st of
         (Inl e, q, r, st) \<Rightarrow> (Inl e, q, r, st)
       | (Inr s, q, r, st) \<Rightarrow>
           if s \<noteq> kEipStatusOkSend then (Inr False, q, r, st)
           else
             case WriterAdvance (written_size r) r of
               Inl e \<Rightarrow> (Inl e, q, r, st)
             | Inr r \<Rightarrow>
                 get_all_loop f get_mask as c i q (SetGenStatus kCipErrorSuccess (r\<lparr>written_size := 0\<rparr>)) st
     else get_all_loop f get_mask as c i q r st)"

text \<open>\<open>response->SetWriter( start )\<close>: the start, with the memory as it is now.\<close>

definition SetWriter :: "writer \<Rightarrow> mr_response \<Rightarrow> mr_response" where
  "SetWriter start r = r\<lparr>mr_writer := start\<lparr>w_mem := w_mem (mr_writer r)\<rparr>\<rparr>"

definition get_attribute_all :: "'s app \<Rightarrow> 's service_call" where
  "get_attribute_all app c i q r st =
    (let start = mr_writer r in
     case Service (CI_of i) (uint kGetAttributeSingle) c of
       None \<Rightarrow> (Inr kEipStatusOk, q, r, st)
     | Some service \<Rightarrow>
         if attributes (CI_of i) c = []
         then (Inr kEipStatusOkSend, q, SetGenStatus kCipErrorServiceNotSupported r, st)
         else
           let get_mask = (if i \<noteq> 0 then inst_getable_all_mask c else clss_getable_all_mask c) in
           case get_all_loop (call_single app (service_function service)) get_mask
                  (attributes (CI_of i) c) c i q r st of
             (Inl e, q, r, st) \<Rightarrow> (Inl e, q, r, st)
           | (Inr False, q, r, st) \<Rightarrow> (Inr kEipStatusError, q, SetWriter start r, st)
           | (Inr True, q, r, st) \<Rightarrow>
               (Inr kEipStatusOkSend, q,
                (SetWriter start r)\<lparr>written_size := w_count start (mr_writer r)\<rparr>, st))"

definition call_service :: "'s app \<Rightarrow> service_function \<Rightarrow> 's service_call" where
  "call_service app f =
    (if f = GetAttributeAll then get_attribute_all app else call_single app f)"

section \<open>The message router\<close>

definition MessageRouterClass :: "nat \<Rightarrow> nat \<Rightarrow> cip_class" where
  "MessageRouterClass revision_at zero_at =
     snd (ServiceRemove CI_I (uint kSetAttributeSingle)
       (CipClass revision_at zero_at 2 ''Message Router'' 0xFE 1))"

definition GetCipClass :: "int \<Rightarrow> 's stack \<Rightarrow> cip_class option" where
  "GetCipClass i st = FindClass i (st_classes st)"

text \<open>\<open>CipMessageRouterClass::Init\<close>: the class with its one instance.\<close>

definition MessageRouter_Init :: "nat \<Rightarrow> nat \<Rightarrow> registry \<Rightarrow> registry" where
  "MessageRouter_Init revision_at zero_at reg =
    (if FindClass 2 reg = None then
       let c = MessageRouterClass revision_at zero_at in
       snd (RegisterClass (snd (InstanceInsert False (int (length (instances c)) + 1) c)) reg)
     else reg)"

definition NotifyMR :: "'s app \<Rightarrow> mr_request \<Rightarrow> mr_response \<Rightarrow> 's stack \<Rightarrow> 's outcome" where
  "NotifyMR app q r st =
    (let r = r\<lparr>reply_service := mr_service q\<rparr>;
         p = mr_path q;
         unknown = (Inr kEipStatusOkSend, q, SetGenStatus kCipErrorPathDestinationUnknown r, st) in
     if \<not> ap_has TAG p \<and> \<not> ap_has INSTANCE p then unknown
     else
       let (i, clazz) =
         (if ap_has TAG p then (0, GetCipClass 0x6b st)
          else (path_int INSTANCE p, GetCipClass (path_int CLASS p) st)) in
       case clazz of
         None \<Rightarrow> unknown
       | Some c \<Rightarrow>
           (case Service (if i = 0 then CI_C else CI_I) (uint (mr_service q)) c of
              None \<Rightarrow> (Inr kEipStatusOkSend, q, SetGenStatus kCipErrorServiceNotSupported r, st)
            | Some s \<Rightarrow>
                (case Instance i c of
                   None \<Rightarrow> unknown
                 | Some i \<Rightarrow> call_service app (service_function s) c i q r st)))"

section \<open>Typed values\<close>

text \<open>The object a location holds is one that the type of the attribute describes.\<close>

fun value_ok :: "CipDataType \<Rightarrow> cip_value \<Rightarrow> bool" where
  "value_ok ty v \<longleftrightarrow>
    (if CipTypeSize ty = 0 then True
     else case v of
       V8 _ \<Rightarrow> ty \<in> {kCipBool, kCipSint, kCipUsint, kCipByte}
     | V16 _ \<Rightarrow> ty \<in> {kCipInt, kCipUint, kCipWord}
     | V32 _ \<Rightarrow> ty \<in> {kCipDint, kCipUdint, kCipDword, kCipReal}
     | V64 _ \<Rightarrow> ty \<in> {kCipLint, kCipUlint, kCipLword, kCipLreal}
     | VString _ \<Rightarrow> ty \<in> {kCipString, kCipShortString, kCipString2}
     | VRevision _ _ \<Rightarrow> ty = kCipUsintUsint
     | VBytes bs \<Rightarrow> ty = kCip6Usint \<and> length bs = 6
     | VArray a \<Rightarrow> isByteArrayType ty \<and> wf_byte_array a)"

declare value_ok.simps [simp del]

definition encoded :: "CipDataType \<Rightarrow> cip_value \<Rightarrow> byte list" where
  "encoded ty v = (if CipTypeSize ty = 0 then [] else value_wire ty v)"

lemma EncodeData_encoded:
  assumes "value_ok ty v" and "wf_writer w"
  shows "EncodeData ty v w = append_bytes w (encoded ty v)"
proof (cases "CipTypeSize ty = 0")
  case True
  then have "EncodeData ty v w = Inr w" by (cases ty) (simp_all add: CipTypeSize_def EncodeData_def)
  then show ?thesis using True assms(2) by (simp add: encoded_def append_nil)
next
  case False
  then show ?thesis using assms
    by (cases v) (auto simp: value_ok.simps encoded_def EncodeData_def ser_simps isByteArrayType_def)
qed

lemma get_only_range:
  "get8 r = Inl e \<Longrightarrow> e = Range_error" "get16 r = Inl e \<Longrightarrow> e = Range_error"
  "get32 r = Inl e \<Longrightarrow> e = Range_error" "get64 r = Inl e \<Longrightarrow> e = Range_error"
  by (cases r rule: get8.cases, simp_all) (cases r rule: get16.cases, simp_all,
      cases r rule: get32.cases, simp_all, cases r rule: get64.cases, simp_all)

lemma get_strings_only_range:
  "get_STRING pad r = Inl e \<Longrightarrow> e = Range_error"
  "get_SHORT_STRING pad r = Inl e \<Longrightarrow> e = Range_error"
  "get_chars16 n r = Inl e \<Longrightarrow> e = Range_error" "get_STRING2 r = Inl e \<Longrightarrow> e = Range_error"
proof -
  show chars: "get_chars16 n r = Inl e \<Longrightarrow> e = Range_error" for n r
    by (induction n r rule: get_chars16.induct) (auto simp: bindE_eq_Inl dest: get_only_range)
  show "get_STRING pad r = Inl e \<Longrightarrow> e = Range_error" "get_SHORT_STRING pad r = Inl e \<Longrightarrow> e = Range_error"
    "get_STRING2 r = Inl e \<Longrightarrow> e = Range_error"
    by (auto simp: get_STRING_def get_SHORT_STRING_def get_STRING2_def bindE_eq_Inl get_bytes_def
        r_advance_def Let_def dest: get_only_range chars split: if_splits)
qed

text \<open>Decoding into a typed object fails with \<open>range_error\<close> only, and leaves a typed object.\<close>

lemma get_v_shapes:
  "get_v8 r = Inr (n, v, r') \<Longrightarrow> \<exists>x. v = V8 x" "get_v16 r = Inr (n, v, r') \<Longrightarrow> \<exists>x. v = V16 x"
  "get_v32 r = Inr (n, v, r') \<Longrightarrow> \<exists>x. v = V32 x" "get_v64 r = Inr (n, v, r') \<Longrightarrow> \<exists>x. v = V64 x"
  "get_v8 r = Inl e \<Longrightarrow> e = Range_error" "get_v16 r = Inl e \<Longrightarrow> e = Range_error"
  "get_v32 r = Inl e \<Longrightarrow> e = Range_error" "get_v64 r = Inl e \<Longrightarrow> e = Range_error"
  by (auto simp: get_v8_def get_v16_def get_v32_def get_v64_def decoded_def bindE_eq_Inr bindE_eq_Inl
      dest: get_only_range)

lemma decode_array_length_eq:
  "decode_array_length a r =
    (case get16 r of Inl e \<Rightarrow> Inl e
     | Inr (n, r') \<Rightarrow>
         if n > ba_cap a then Inr (-1, VArray a, r')
         else Inr (decoded r (VArray (a\<lparr>ba_len := n\<rparr>), r')))"
  by (cases "get16 r") (simp_all add: decode_array_length_def SetLength_def split_beta)

lemma decode_array_shapes:
  assumes "wf_byte_array a"
  shows "decode_array a r \<noteq> Inl e" and "decode_array_length a r = Inl e \<Longrightarrow> e = Range_error"
    and "decode_array a r = Inr (n, v, r') \<Longrightarrow> \<exists>a'. v = VArray a' \<and> wf_byte_array a'"
    and "decode_array_length a r = Inr (n, v, r') \<Longrightarrow> \<exists>a'. v = VArray a' \<and> wf_byte_array a'"
proof -
  show "decode_array a r \<noteq> Inl e"
    using assms by (cases "length r \<le> unat (ba_cap a)") (simp_all add: decode_array_fits decode_array_too_long)
  show "decode_array_length a r = Inl e \<Longrightarrow> e = Range_error"
    by (simp add: decode_array_length_eq get_only_range(2) split: sum.splits prod.splits if_splits)
  have "decode_array a r = Inr (n, v, r') \<Longrightarrow> \<exists>a'. v = VArray a'"
    using assms by (cases "length r \<le> unat (ba_cap a)") (auto simp: decode_array_fits decode_array_too_long)
  then show "decode_array a r = Inr (n, v, r') \<Longrightarrow> \<exists>a'. v = VArray a' \<and> wf_byte_array a'"
    using decode_array_wf [OF assms] by blast
  have "decode_array_length a r = Inr (n, v, r') \<Longrightarrow> \<exists>a'. v = VArray a'"
    by (auto simp: decode_array_length_eq decoded_def split: sum.splits prod.splits if_splits)
  then show "decode_array_length a r = Inr (n, v, r') \<Longrightarrow> \<exists>a'. v = VArray a' \<and> wf_byte_array a'"
    using decode_array_length_wf [OF assms] by blast
qed

lemma array_value:
  assumes "value_ok ty v" and "isByteArrayType ty"
  obtains a where "v = VArray a" and "wf_byte_array a"
  using assms by (cases v) (auto simp: value_ok.simps isByteArrayType_def CipTypeSize_def)

lemma DecodeData_safe:
  assumes "value_ok ty v"
  shows "DecodeData ty v r = Inl e \<Longrightarrow> e = Range_error"
    and "DecodeData ty v r = Inr (n, v', r') \<Longrightarrow> value_ok ty v'"
proof -
  consider "isByteArrayType ty" | "ty \<in> {kCipString, kCipShortString, kCipString2}"
    | "\<not> isByteArrayType ty" "ty \<notin> {kCipString, kCipShortString, kCipString2}" by blast
  then have "(DecodeData ty v r = Inl e \<longrightarrow> e = Range_error) \<and>
      (DecodeData ty v r = Inr (n, v', r') \<longrightarrow> value_ok ty v')"
  proof cases
    case 1
    obtain a where v: "v = VArray a" and wf: "wf_byte_array a" using array_value [OF assms 1] .
    have "value_ok ty (VArray a')" if "wf_byte_array a'" for a'
      using that 1 by (simp add: value_ok.simps)
    moreover have "DecodeData ty v r = decode_array a r \<or> DecodeData ty v r = decode_array_length a r"
      using 1 v by (auto simp: isByteArrayType_def DecodeData_def)
    ultimately show ?thesis using decode_array_shapes [OF wf] by metis
  next
    case 2
    then show ?thesis
      by (auto simp: DecodeData_def bindE_eq_Inl bindE_eq_Inr decoded_def value_ok.simps CipTypeSize_def
          dest: get_strings_only_range)
  next
    case 3
    then show ?thesis
      using assms get_v_shapes
      by (cases ty) (fastforce simp: isByteArrayType_def DecodeData_def value_ok.simps CipTypeSize_def)+
  qed
  then show "DecodeData ty v r = Inl e \<Longrightarrow> e = Range_error"
    and "DecodeData ty v r = Inr (n, v', r') \<Longrightarrow> value_ok ty v'" by blast+
qed

end
