(* ===== verification/Cip_Safety.thy ===== *)
theory Cip_Safety
  imports Cip_Object
begin

unbundle bit_operations_syntax

text \<open>
  The object model never leaves the language: on a stack whose locations hold objects of the types
  its attributes announce, no request throws out of \<open>NotifyMR\<close>, every response fits its buffer, and
  the stack stays typed. This is what the overlap check of \<open>AttributeInsert\<close> is for.
\<close>

section \<open>Safe stacks\<close>

text \<open>Every location that an attribute of an instance names holds an object of the attribute's type.\<close>

definition typed_instance :: "cip_class \<Rightarrow> int \<Rightarrow> 's stack \<Rightarrow> bool" where
  "typed_instance c i st \<longleftrightarrow>
     (\<forall>a \<in> set (attributes (CI_of i) c). value_ok (attr_type a) (st_data st (Data c i a)))"

text \<open>A class as the inserters build it: getters get and setters set, and \<open>GetAttributeAll\<close> does not
  call itself.\<close>

definition ok_class :: "cip_class \<Rightarrow> bool" where
  "ok_class c \<longleftrightarrow> wf_class c \<and>
     (\<forall>ci. \<forall>a \<in> set (attributes ci c). getter a \<noteq> Some SetAttrData \<and>
        (\<forall>s. setter a = Some s \<longrightarrow> s = SetAttrData \<or> (\<exists>n. s = User_attr_func n))) \<and>
     (\<forall>ci s. Service ci (uint kGetAttributeSingle) c = Some s \<longrightarrow> service_function s \<noteq> GetAttributeAll)"

text \<open>What \<open>AttributeInsert\<close> checks within one list only: static storage that several classes, or a
  class and its instances, share is used under compatible types.\<close>

definition statics_agree :: "registry \<Rightarrow> bool" where
  "statics_agree reg \<longleftrightarrow> (\<forall>k c ci a k' c' ci' a'.
     reg k = Some c \<longrightarrow> a \<in> set (attributes ci c) \<longrightarrow> \<not> is_offset a \<longrightarrow>
     reg k' = Some c' \<longrightarrow> a' \<in> set (attributes ci' c') \<longrightarrow> \<not> is_offset a' \<longrightarrow> compatible a a')"

definition ok_stack :: "'s stack \<Rightarrow> bool" where
  "ok_stack st \<longleftrightarrow> statics_agree (st_classes st) \<and>
     (\<forall>k c. st_classes st k = Some c \<longrightarrow> class_id c = k \<and> ok_class c \<and>
        (\<forall>i. Instance i c \<noteq> None \<longrightarrow> typed_instance c i st))"

definition ok_request :: "mr_request \<Rightarrow> bool" where
  "ok_request q \<longleftrightarrow> length (ap_stuff (mr_path q)) = 7"

text \<open>A call on an instance there is that throws nothing but the exceptions in \<open>E\<close>, and leaves a
  response that fits its buffer, a safe stack with the same classes, and the service of the request. The function may not move the
  writer of the response.\<close>

definition same_buffer :: "writer \<Rightarrow> writer \<Rightarrow> bool" where
  "same_buffer v w \<longleftrightarrow> w_pos w = w_pos v \<and> w_lim w = w_lim v \<and> length (w_mem w) = length (w_mem v)"

definition safe_outcome :: "exn set \<Rightarrow> mr_request \<Rightarrow> mr_response \<Rightarrow> 's stack \<Rightarrow> 's outcome \<Rightarrow> bool" where
  "safe_outcome E q r0 st out \<longleftrightarrow>
    (case out of (s, q', r', st') \<Rightarrow>
       (case s of Inl e \<Rightarrow> e \<in> E | Inr _ \<Rightarrow> True) \<and> ok_request q' \<and> mr_service q' = mr_service q \<and>
       wf_response r' \<and> same_buffer (mr_writer r0) (mr_writer r') \<and>
       ok_stack st' \<and> st_classes st' = st_classes st)"

definition contained :: "exn set \<Rightarrow> 's service_call \<Rightarrow> bool" where
  "contained E f \<longleftrightarrow> (\<forall>c i q r st.
     ok_stack st \<longrightarrow> ok_request q \<longrightarrow> wf_response r \<longrightarrow> st_classes st (class_id c) = Some c \<longrightarrow>
     Instance i c \<noteq> None \<longrightarrow> safe_outcome E q r st (f c i q r st))"

lemma containedD:
  "contained E f \<Longrightarrow> ok_stack st \<Longrightarrow> ok_request q \<Longrightarrow> wf_response r \<Longrightarrow>
   st_classes st (class_id c) = Some c \<Longrightarrow> Instance i c \<noteq> None \<Longrightarrow> safe_outcome E q r st (f c i q r st)"
  by (simp add: contained_def)

lemma ok_stackD:
  assumes "ok_stack st" and "st_classes st k = Some c"
  shows "class_id c = k" and "ok_class c" and "wf_class c"
    and "Instance i c \<noteq> None \<Longrightarrow> typed_instance c i st"
  using assms by (auto simp: ok_stack_def ok_class_def)

lemma safe_status [simp]:
  "safe_outcome E q r0 st (Inr s, q', SetGenStatus e r, st') = safe_outcome E q r0 st (Inr s, q', r, st')"
  by (simp add: safe_outcome_def wf_response_def SetGenStatus_def)

lemma safe_same: "ok_request q \<Longrightarrow> wf_response r \<Longrightarrow> ok_stack st \<Longrightarrow> safe_outcome E q r st (Inr s, q, r, st)"
  by (simp add: safe_outcome_def same_buffer_def)

lemma safe_throw: "ok_request q \<Longrightarrow> wf_response r \<Longrightarrow> ok_stack st \<Longrightarrow> e \<in> E \<Longrightarrow> safe_outcome E q r st (Inl e, q, r, st)"
  by (simp add: safe_outcome_def same_buffer_def)

lemma wrote_wf:
  assumes "wf_response r" and "append_bytes (mr_writer r) bs = Inr w"
  shows "wf_response ((wrote w r)\<lparr>written_size := length bs\<rparr>)"
    and "same_buffer (mr_writer r) (mr_writer ((wrote w r)\<lparr>written_size := length bs\<rparr>))"
  using assms by (auto simp: wf_response_def wrote_def wf_writer_def append_bytes_def same_buffer_def
      split: if_splits)

lemma safe_wrote:
  assumes "ok_stack st" and "ok_request q" and "wf_response r" and "append_bytes (mr_writer r) bs = Inr w"
  shows "safe_outcome E q r st (Inr s, q, (wrote w r)\<lparr>written_size := length bs\<rparr>, st)"
  using assms wrote_wf [OF assms(3,4)] by (simp add: safe_outcome_def)

section \<open>The attribute functions are safe\<close>

lemma append_error: "append_bytes w bs = Inl e \<Longrightarrow> e = Overflow_error"
  by (auto simp: append_bytes_def split: if_splits)

lemma get_attr_data_safe:
  assumes "ok_stack st" and "ok_request q" and "wf_response r" and "value_ok (attr_type a) (st_data st (Data c i a))"
  shows "safe_outcome {Overflow_error} q r st (get_attr_data a c i q r st)"
proof -
  let ?bs = "encoded (attr_type a) (st_data st (Data c i a))"
  have e: "EncodeData (attr_type a) (st_data st (Data c i a)) (mr_writer r) = append_bytes (mr_writer r) ?bs"
    using assms(3,4) by (intro EncodeData_encoded) (simp_all add: wf_response_def)
  show ?thesis
  proof (cases "append_bytes (mr_writer r) ?bs")
    case (Inl x)
    then show ?thesis using assms append_error [OF Inl] by (simp add: get_attr_data_def e safe_throw)
  next
    case (Inr w)
    then show ?thesis
      using safe_wrote [OF assms(1-3) Inr] append_count [OF Inr] by (simp add: get_attr_data_def e)
  qed
qed

lemma put_number_safe:
  assumes "ok_stack st" and "ok_request q" and "wf_response r"
  shows "safe_outcome {Overflow_error} q r st (put_number x c i q r st)"
proof (cases "append_bytes (mr_writer r) (le16 x)")
  case (Inl e)
  then show ?thesis using assms append_error [OF Inl] by (simp add: put_number_def put_wire safe_throw)
next
  case (Inr w)
  then show ?thesis using safe_wrote [OF assms Inr] by (simp add: put_number_def put_wire)
qed

text \<open>Two attributes of the same place: what is good for one stays good for the other.\<close>

lemma decode_keeps:
  assumes "compatible a b" and "is_offset a = is_offset b" and "attr_where a = attr_where b"
    and "value_ok (attr_type a) v" and "value_ok (attr_type b) v"
    and "DecodeData (attr_type a) v inp = Inr (n, v', rest)"
  shows "value_ok (attr_type b) v'"
proof -
  have same: "attr_type a = attr_type b \<or> isByteArrayType (attr_type a) \<and> isByteArrayType (attr_type b) \<or>
      CipTypeSize (attr_type a) = 0 \<or> CipTypeSize (attr_type b) = 0"
    using assms(1-3) by (auto simp: compatible_def)
  have new: "value_ok (attr_type a) v'" using DecodeData_safe(2) [OF assms(4,6)] .
  show ?thesis
  proof (cases "CipTypeSize (attr_type a) = 0")
    case True
    then have "v' = v" using assms(6) by (cases "attr_type a") (auto simp: CipTypeSize_def DecodeData_def)
    then show ?thesis using assms(5) by simp
  next
    case False
    have "value_ok s v' \<Longrightarrow> value_ok t v'" if "isByteArrayType s" "isByteArrayType t" for s t
      using that by (auto simp: value_ok.simps isByteArrayType_def CipTypeSize_def split: cip_value.splits)
    moreover have "CipTypeSize (attr_type b) = 0 \<Longrightarrow> value_ok (attr_type b) v'" by (simp add: value_ok.simps)
    ultimately show ?thesis using same new False by metis
  qed
qed

lemma attribute_sharing:
  assumes "ok_stack st" and "st_classes st k = Some c" and "a \<in> set (attributes (CI_of i) c)"
    and "st_classes st k' = Some c'" and "a' \<in> set (attributes (CI_of i') c')"
    and "Data c i a = Data c' i' a'"
  shows "compatible a a' \<and> is_offset a = is_offset a' \<and> attr_where a = attr_where a'"
proof -
  have place: "is_offset a = is_offset a'" "attr_where a = attr_where a'"
    using assms(6) by (auto simp: Data_def split: if_splits)
  have "compatible a a'"
  proof (cases "is_offset a")
    case False
    then show ?thesis using assms place by (simp add: ok_stack_def statics_agree_def)
  next
    case True
    then have "class_id c = class_id c'" "i = i'" using assms(6) place by (auto simp: Data_def)
    then have "c = c'" using assms(2,4) ok_stackD(1) [OF assms(1)] by (metis option.inject)
    moreover have "wf_class c" using ok_stackD(3) [OF assms(1,2)] .
    ultimately show ?thesis using assms(3,5) \<open>i = i'\<close>
      by (cases "CI_of i") (simp_all add: wf_class_def wf_attributes_def attributes_def)
  qed
  then show ?thesis using place by blast
qed

lemma store_safe:
  assumes "ok_stack st" and "st_classes st k = Some c" and "Instance i c \<noteq> None"
    and "a \<in> set (attributes (CI_of i) c)"
    and "DecodeData (attr_type a) (st_data st (Data c i a)) inp = Inr (n, v, rest)"
  shows "ok_stack (st\<lparr>st_data := (st_data st)(Data c i a := v)\<rparr>)"
proof -
  have old: "value_ok (attr_type a) (st_data st (Data c i a))"
    using ok_stackD(4) [OF assms(1,2,3)] assms(4) by (simp add: typed_instance_def)
  have "typed_instance c' i' (st\<lparr>st_data := (st_data st)(Data c i a := v)\<rparr>)"
    if c': "st_classes st k' = Some c'" and i': "Instance i' c' \<noteq> None" for k' c' i'
    unfolding typed_instance_def
  proof
    fix b assume b: "b \<in> set (attributes (CI_of i') c')"
    have ok: "value_ok (attr_type b) (st_data st (Data c' i' b))"
      using ok_stackD(4) [OF assms(1) c' i'] b by (simp add: typed_instance_def)
    show "value_ok (attr_type b) (st_data (st\<lparr>st_data := (st_data st)(Data c i a := v)\<rparr>) (Data c' i' b))"
    proof (cases "Data c' i' b = Data c i a")
      case False
      then show ?thesis using ok by simp
    next
      case True
      have "compatible a b \<and> is_offset a = is_offset b \<and> attr_where a = attr_where b"
        using attribute_sharing [OF assms(1,2,4) c' b] True by simp
      then show ?thesis using decode_keeps [of a b, OF _ _ _ old _ assms(5)] ok True by simp
    qed
  qed
  then show ?thesis using assms(1) by (simp add: ok_stack_def)
qed

lemma set_attr_data_safe:
  assumes "ok_stack st" and "ok_request q" and "wf_response r"
    and "st_classes st (class_id c) = Some c" and "Instance i c \<noteq> None" and "a \<in> set (attributes (CI_of i) c)"
  shows "safe_outcome {Range_error} q r st (set_attr_data a c i q r st)"
proof (cases "DecodeData (attr_type a) (st_data st (Data c i a)) (mr_data q)")
  case (Inl e)
  have "value_ok (attr_type a) (st_data st (Data c i a))"
    using ok_stackD(4) [OF assms(1,4,5)] assms(6) by (simp add: typed_instance_def)
  then have "e = Range_error" using DecodeData_safe(1) Inl by blast
  then show ?thesis using Inl assms by (simp add: set_attr_data_def safe_throw)
next
  case (Inr x)
  obtain n v rest where x: "x = (n, v, rest)" by (cases x)
  have "ok_stack (st\<lparr>st_data := (st_data st)(Data c i a := v)\<rparr>)"
    using store_safe [OF assms(1,4,5,6)] Inr x by simp
  then have "safe_outcome {Range_error} q r st (Inr s, q, r, st\<lparr>st_data := (st_data st)(Data c i a := v)\<rparr>)" for s
    using assms by (simp add: safe_outcome_def same_buffer_def)
  then show ?thesis using Inr x by (simp add: set_attr_data_def Let_def)
qed

section \<open>The services are safe\<close>

text \<open>An application whose functions are contained: getters and setters may throw \<open>range_error\<close>,
  which \<open>Get\<close> and \<open>Set\<close> turn into a status.\<close>

definition contained_app :: "'s app \<Rightarrow> bool" where
  "contained_app app \<longleftrightarrow> (\<forall>n a. contained {Range_error} (user_attr app n a)) \<and>
     (\<forall>n. contained {} (user_service app n))"

lemma safe_catch:
  assumes "safe_outcome {Range_error, Overflow_error} q r0 st out"
  shows "safe_outcome {} q r0 st
    (case out of
       (Inl Range_error, q, r, st) \<Rightarrow> (Inr kEipStatusOkSend, q, SetGenStatus kCipErrorNotEnoughData r, st)
     | (Inl Overflow_error, q, r, st) \<Rightarrow> (Inr kEipStatusError, q, r, st)
     | x \<Rightarrow> x)"
proof -
  obtain s q' r' st' where out: "out = (s, q', r', st')" by (metis prod_cases4)
  show ?thesis using assms unfolding out
    by (cases s) (auto simp: safe_outcome_def wf_response_def SetGenStatus_def)
qed

lemma safe_catch_range:
  assumes "safe_outcome {Range_error} q r0 st out"
  shows "safe_outcome {} q r0 st
    (case out of
       (Inl Range_error, q, r, st) \<Rightarrow> (Inr kEipStatusOkSend, q, SetGenStatus kCipErrorNotEnoughData r, st)
     | x \<Rightarrow> x)"
proof -
  obtain s q' r' st' where out: "out = (s, q', r', st')" by (metis prod_cases4)
  show ?thesis using assms unfolding out
    by (cases s) (auto simp: safe_outcome_def wf_response_def SetGenStatus_def)
qed

lemma safe_weaken: "safe_outcome E q r0 st out \<Longrightarrow> E \<subseteq> F \<Longrightarrow> safe_outcome F q r0 st out"
  by (auto simp: safe_outcome_def split: sum.splits prod.splits)

lemma ok_class_funcs:
  assumes "ok_class c" and "a \<in> set (attributes ci c)"
  shows "getter a = Some g \<Longrightarrow> g \<noteq> SetAttrData"
    and "setter a = Some s \<Longrightarrow> s = SetAttrData \<or> (\<exists>n. s = User_attr_func n)"
  using assms by (auto simp: ok_class_def)

lemma getter_safe:
  assumes "contained_app app" and "ok_stack st" and "ok_request q" and "wf_response r"
    and "st_classes st (class_id c) = Some c" and "Instance i c \<noteq> None"
    and "a \<in> set (attributes (CI_of i) c)" and "g \<noteq> SetAttrData"
  shows "safe_outcome {Range_error, Overflow_error} q r st (call_attr app g a c i q r st)"
proof -
  have v: "value_ok (attr_type a) (st_data st (Data c i a))"
    using ok_stackD(4) [OF assms(2,5,6)] assms(7) by (simp add: typed_instance_def)
  have user: "safe_outcome {Range_error} q r st (user_attr app n a c i q r st)" for n
    using assms(1-6) by (intro containedD) (simp_all add: contained_app_def)
  note number = put_number_safe [OF assms(2-4)]
  show ?thesis
  proof (cases g)
    case GetAttrData
    have "safe_outcome {Overflow_error} q r st (call_attr app g a c i q r st)"
      using get_attr_data_safe [OF assms(2-4) v] by (simp add: GetAttrData)
    then show ?thesis by (rule safe_weaken) simp
  next
    case (User_attr_func n)
    then show ?thesis using safe_weaken [OF user [of n]] by simp
  qed (use assms(8) safe_weaken [OF number] in simp_all)
qed

lemma Attribute_Get_safe:
  assumes "contained_app app" and "ok_stack st" and "ok_request q" and "wf_response r"
    and "st_classes st (class_id c) = Some c" and "Instance i c \<noteq> None"
    and "a \<in> set (attributes (CI_of i) c)"
  shows "safe_outcome {} q r st (Attribute_Get app a c i q r st)"
proof (cases "getter a")
  case None
  then show ?thesis using assms by (simp add: Attribute_Get_def safe_same)
next
  case (Some g)
  have "g \<noteq> SetAttrData" using ok_class_funcs(1) [OF ok_stackD(2) [OF assms(2,5)] assms(7) Some] .
  from safe_catch [OF getter_safe [OF assms this]] Some show ?thesis
    using assms by (simp add: Attribute_Get_def safe_same)
qed

lemma Attribute_Set_safe:
  assumes "contained_app app" and "ok_stack st" and "ok_request q" and "wf_response r"
    and "st_classes st (class_id c) = Some c" and "Instance i c \<noteq> None"
    and "a \<in> set (attributes (CI_of i) c)"
  shows "safe_outcome {} q r st (Attribute_Set app a c i q r st)"
proof (cases "setter a")
  case None
  then show ?thesis using assms by (simp add: Attribute_Set_def safe_same)
next
  case (Some s)
  have "safe_outcome {Range_error} q r st (user_attr app n a c i q r st)" for n
    using assms(1-6) by (intro containedD) (simp_all add: contained_app_def)
  then have "safe_outcome {Range_error} q r st (call_attr app s a c i q r st)"
    using ok_class_funcs(2) [OF ok_stackD(2) [OF assms(2,5)] assms(7) Some] set_attr_data_safe [OF assms(2-7)]
    by auto
  from safe_catch_range [OF this] Some show ?thesis by (simp add: Attribute_Set_def)
qed

lemma Attribute_in:
  assumes "wf_class c" and "Attribute ci k c = Some a"
  shows "a \<in> set (attributes ci c)" and "attribute_id a = k"
  using assms find_by_id_Some [OF wf_class_attributes [OF assms(1)]] by (auto simp: Attribute_def)

lemma call_single_safe:
  assumes "contained_app app" and "f \<noteq> GetAttributeAll"
  shows "contained {} (call_single app f)"
  unfolding contained_def
proof (intro allI impI)
  fix c i q r and st :: "'a stack"
  assume p: "ok_stack st" "ok_request q" "wf_response r" "st_classes st (class_id c) = Some c" "Instance i c \<noteq> None"
  have wf: "wf_class c" using ok_stackD(3) [OF p(1,4)] .
  note get = Attribute_Get_safe [OF assms(1) p] and set = Attribute_Set_safe [OF assms(1) p]
  have "safe_outcome {} q r st (get_attribute_single app c i q r st)"
    using get Attribute_in(1) [OF wf] p by (auto simp: get_attribute_single_def safe_same split: option.split)
  moreover have "safe_outcome {} q r st (set_attribute_single app c i q r st)"
    using set Attribute_in(1) [OF wf] p by (auto simp: set_attribute_single_def safe_same split: option.split)
  moreover have "safe_outcome {} q r st (reset_service c i q r st)"
    using p by (simp add: reset_service_def safe_same)
  moreover have "safe_outcome {} q r st (user_service app n c i q r st)" for n
    using assms(1) p by (intro containedD) (simp_all add: contained_app_def)
  ultimately show "safe_outcome {} q r st (call_single app f c i q r st)"
    using assms(2) by (cases f) simp_all
qed

text \<open>What the loop of \<open>GetAttributeAll\<close> keeps: it only moves the writer forward.\<close>

definition loop_outcome ::
    "mr_request \<Rightarrow> mr_response \<Rightarrow> 's stack \<Rightarrow> bool res \<times> mr_request \<times> mr_response \<times> 's stack \<Rightarrow> bool" where
  "loop_outcome q r0 st out \<longleftrightarrow>
    (case out of (s, q', r', st') \<Rightarrow>
       (case s of Inl e \<Rightarrow> False | Inr _ \<Rightarrow> True) \<and> ok_request q' \<and> mr_service q' = mr_service q \<and>
       wf_response r' \<and> w_pos (mr_writer r0) \<le> w_pos (mr_writer r') \<and>
       w_lim (mr_writer r') = w_lim (mr_writer r0) \<and>
       length (w_mem (mr_writer r')) = length (w_mem (mr_writer r0)) \<and>
       ok_stack st' \<and> st_classes st' = st_classes st)"

lemma ok_request_path [simp]: "ok_request (SetPathAttribute k q) = ok_request q"
  "mr_service (SetPathAttribute k q) = mr_service q"
  by (simp_all add: ok_request_def SetPathAttribute_def)

lemma advance_written:
  assumes "wf_response r"
  obtains w where "WriterAdvance (written_size r) r = Inr (r\<lparr>mr_writer := w\<rparr>)"
    and "w = (mr_writer r)\<lparr>w_pos := w_pos (mr_writer r) + written_size r\<rparr>"
  using assms by (simp add: WriterAdvance_def w_advance_def wf_response_def)

lemma get_all_loop_safe:
  assumes "contained {} f"
  shows "ok_stack st \<Longrightarrow> ok_request q \<Longrightarrow> wf_response r \<Longrightarrow> st_classes st (class_id c) = Some c \<Longrightarrow>
    Instance i c \<noteq> None \<Longrightarrow> loop_outcome q r st (get_all_loop f get_mask as c i q r st)"
proof (induction "as" arbitrary: q r st)
  case Nil
  then show ?case by (simp add: loop_outcome_def)
next
  case (Cons a as)
  let ?q = "SetPathAttribute (word_of_int (attribute_id a)) q"
  obtain s q1 r1 st1 where f: "f c i ?q r st = (s, q1, r1, st1)" by (metis prod_cases4)
  have "safe_outcome {} ?q r st (f c i ?q r st)" using containedD [OF assms] Cons.prems by simp
  then have safe: "\<exists>x. s = Inr x" "ok_request q1" "mr_service q1 = mr_service q" "wf_response r1"
    "same_buffer (mr_writer r) (mr_writer r1)" "ok_stack st1" "st_classes st1 = st_classes st"
    unfolding f by (auto simp: safe_outcome_def split: sum.splits)
  obtain w where adv: "WriterAdvance (written_size r1) r1 = Inr (r1\<lparr>mr_writer := w\<rparr>)"
    "w = (mr_writer r1)\<lparr>w_pos := w_pos (mr_writer r1) + written_size r1\<rparr>"
    using advance_written [OF safe(4)] .
  let ?r2 = "SetGenStatus kCipErrorSuccess (r1\<lparr>mr_writer := w, written_size := 0\<rparr>)"
  have "wf_response ?r2"
    using wf_response_ops(1) wf_response_ops(4) [OF safe(4) adv(1)] by simp
  then have "loop_outcome q1 ?r2 st1 (get_all_loop f get_mask as c i q1 ?r2 st1)"
    using Cons.IH safe Cons.prems by simp
  then have next_step: "loop_outcome q r st (get_all_loop f get_mask as c i q1 ?r2 st1)"
    using safe adv(2) by (auto simp: loop_outcome_def SetGenStatus_def same_buffer_def split: sum.splits)
  have stop: "loop_outcome q r st (Inr False, q1, r1, st1)"
    using safe by (simp add: loop_outcome_def same_buffer_def)
  have skip: "loop_outcome q r st (get_all_loop f get_mask as c i q r st)" using Cons.IH Cons.prems by simp
  show ?case using skip stop next_step f safe(1) adv(1) by (auto simp: Let_def)
qed

lemma get_attribute_all_safe:
  assumes "contained_app app"
  shows "contained {} (get_attribute_all app)"
  unfolding contained_def
proof (intro allI impI)
  fix c i q r and st :: "'a stack"
  assume p: "ok_stack st" "ok_request q" "wf_response r" "st_classes st (class_id c) = Some c" "Instance i c \<noteq> None"
  show "safe_outcome {} q r st (get_attribute_all app c i q r st)"
  proof (cases "Service (CI_of i) (uint kGetAttributeSingle) c")
    case None
    then show ?thesis using p by (simp add: get_attribute_all_def safe_same)
  next
    case (Some s)
    have "service_function s \<noteq> GetAttributeAll"
      using Some ok_stackD(2) [OF p(1,4)] by (simp add: ok_class_def)
    note f = call_single_safe [OF assms this]
    let ?loop = "get_all_loop (call_single app (service_function s))
      (if i \<noteq> 0 then inst_getable_all_mask c else clss_getable_all_mask c) (attributes (CI_of i) c) c i q r st"
    obtain x q' r' st' where l: "?loop = (x, q', r', st')" by (metis prod_cases4)
    have "loop_outcome q r st ?loop" by (rule get_all_loop_safe [OF f p])
    then have out: "loop_outcome q r st (x, q', r', st')" by (simp only: l)
    then obtain b where "x = Inr b" by (auto simp: loop_outcome_def split: sum.splits)
    then show ?thesis using out p l Some
      by (cases b) (auto simp: get_attribute_all_def Let_def loop_outcome_def safe_outcome_def SetWriter_def
          wf_response_def wf_writer_def same_buffer_def SetGenStatus_def w_count_def)
  qed
qed

lemma call_service_safe: "contained_app app \<Longrightarrow> contained {} (call_service app f)"
  using call_single_safe get_attribute_all_safe by (cases "f = GetAttributeAll") (auto simp: call_service_def [abs_def])

text \<open>Every request gets an answer.\<close>

lemma NotifyMR_safe:
  assumes "contained_app app" and "ok_stack st" and "ok_request q" and "wf_response r"
  shows "safe_outcome {} q r st (NotifyMR app q r st)"
proof -
  let ?r = "r\<lparr>reply_service := mr_service q\<rparr>"
  have r: "wf_response ?r" "safe_outcome E q r st out = safe_outcome E q ?r st out" for E out
    using assms(4) by (simp_all add: wf_response_def safe_outcome_def)
  have same: "safe_outcome {} q ?r st (Inr s, q, SetGenStatus e ?r, st)" for s e
    using assms r(1) by (simp add: safe_same)
  have call: "safe_outcome {} q ?r st (call_service app f c i q ?r st)"
    if "st_classes st k = Some c" "Instance i c \<noteq> None" for f c i k
    using containedD [OF call_service_safe [OF assms(1)] assms(2,3) r(1)] that ok_stackD(1) [OF assms(2) that(1)]
    by simp
  have id: "Instance i c = Some j \<Longrightarrow> Instance j c \<noteq> None" if "st_classes st k = Some c" for c i j k
    using Instance_iff [OF ok_stackD(3) [OF assms(2) that]] by (auto split: if_splits)
  show ?thesis
    unfolding r(2) [of "{}"] using same call id
    by (auto simp: NotifyMR_def Let_def GetCipClass_def FindClass_def split: option.split)
qed

end
