(* ===== verification/Cip_Router.thy ===== *)
theory Cip_Router
  imports Cip_Safety
begin

unbundle bit_operations_syntax

text \<open>
  What a client of the message router observes: a request for one attribute reads the object behind it,
  a request that sets it stores what the next one reads, and \<open>GetAttributeAll\<close> answers the
  concatenation of the single answers.
\<close>

section \<open>One attribute\<close>

text \<open>The request addresses an instance there is, with a service of its class.\<close>

definition addressed :: "mr_request \<Rightarrow> 's stack \<Rightarrow> cip_class \<Rightarrow> int \<Rightarrow> service_function \<Rightarrow> bool" where
  "addressed q st c i f \<longleftrightarrow>
     \<not> ap_has TAG (mr_path q) \<and> ap_has INSTANCE (mr_path q) \<and> path_int INSTANCE (mr_path q) = i \<and>
     GetCipClass (path_int CLASS (mr_path q)) st = Some c \<and> Instance i c = Some i \<and>
     (\<exists>s. Service (CI_of i) (uint (mr_service q)) c = Some s \<and> service_function s = f)"

lemma NotifyMR_addressed:
  "addressed q st c i f \<Longrightarrow>
   NotifyMR app q r st = call_service app f c i q (r\<lparr>reply_service := mr_service q\<rparr>) st"
  by (auto simp: addressed_def NotifyMR_def Let_def CI_of_def)

lemma get_attr_data_wrote:
  assumes "value_ok (attr_type a) (st_data st (Data c i a))" and "wf_writer (mr_writer r)"
    and "append_bytes (mr_writer r) (encoded (attr_type a) (st_data st (Data c i a))) = Inr w"
  shows "get_attr_data a c i q r st =
    (Inr kEipStatusOkSend, q,
     (wrote w r)\<lparr>written_size := length (encoded (attr_type a) (st_data st (Data c i a)))\<rparr>, st)"
  using EncodeData_encoded [OF assms(1,2)] append_count [OF assms(3)] assms(3)
  by (simp add: get_attr_data_def)

lemma Attribute_Get_wrote:
  assumes "getter a = Some GetAttrData" and "mr_service q = kGetAttributeAll \<Longrightarrow> is_getable_all a"
    and "value_ok (attr_type a) (st_data st (Data c i a))" and "wf_writer (mr_writer r)"
    and "append_bytes (mr_writer r) (encoded (attr_type a) (st_data st (Data c i a))) = Inr w"
  shows "Attribute_Get app a c i q r st =
    (Inr kEipStatusOkSend, q,
     (wrote w r)\<lparr>written_size := length (encoded (attr_type a) (st_data st (Data c i a)))\<rparr>, st)"
  using assms(1) get_attr_data_wrote [OF assms(3,4,5)] by (auto simp: Attribute_Get_def dest: assms(2))

lemma wrote_Reader:
  assumes "wf_writer (mr_writer r)" and "append_bytes (mr_writer r) bs = Inr w"
  shows "Reader ((wrote w r)\<lparr>written_size := length bs\<rparr>) = bs"
  using assms by (auto simp: Reader_def wrote_def append_bytes_def wf_writer_def poke_eq split: if_splits)

lemma get_single_reads:
  assumes "addressed q st c i GetAttributeSingle" and "mr_service q = kGetAttributeSingle"
    and "Attribute (CI_of i) (path_int ATTRIBUTE (mr_path q)) c = Some a" and "getter a = Some GetAttrData"
    and "value_ok (attr_type a) (st_data st (Data c i a))" and "wf_writer (mr_writer r)"
    and "int (length (encoded (attr_type a) (st_data st (Data c i a)))) \<le> capacity (mr_writer r)"
  shows "\<exists>r'. NotifyMR app q r st = (Inr kEipStatusOkSend, q, r', st) \<and>
    Reader r' = encoded (attr_type a) (st_data st (Data c i a)) \<and>
    general_status r' = general_status r \<and> reply_service r' = kGetAttributeSingle"
proof -
  let ?r = "r\<lparr>reply_service := mr_service q\<rparr>" and ?bs = "encoded (attr_type a) (st_data st (Data c i a))"
  obtain w where w: "append_bytes (mr_writer ?r) ?bs = Inr w"
    using assms(7) by (auto simp: append_bytes_def capacity_def)
  have wf: "wf_writer (mr_writer ?r)" using assms(6) by simp
  have "Attribute_Get app a c i q ?r st = (Inr kEipStatusOkSend, q, (wrote w ?r)\<lparr>written_size := length ?bs\<rparr>, st)"
    by (rule Attribute_Get_wrote [OF assms(4) _ assms(5) wf w]) (simp add: assms(2))
  then have "NotifyMR app q r st = (Inr kEipStatusOkSend, q, (wrote w ?r)\<lparr>written_size := length ?bs\<rparr>, st)"
    using assms(3) by (simp add: NotifyMR_addressed [OF assms(1)] call_service_def get_attribute_single_def)
  then show ?thesis
    using wrote_Reader [OF wf w] assms(2) by (simp add: wrote_def)
qed

text \<open>What a set request stores.\<close>

lemma set_single_stores:
  assumes "addressed q st c i SetAttributeSingle"
    and "Attribute (CI_of i) (path_int ATTRIBUTE (mr_path q)) c = Some a" and "setter a = Some SetAttrData"
    and "decodable (attr_type a) v" and "mr_data q = value_wire (attr_type a) v @ rest"
  shows "NotifyMR app q r st =
    (Inr kEipStatusOkSend, q, r\<lparr>reply_service := mr_service q\<rparr>, st\<lparr>st_data := (st_data st)(Data c i a := v)\<rparr>)"
  using assms(2,3) DecodeData_wire [OF assms(4), of _ rest]
  by (simp add: NotifyMR_addressed [OF assms(1)] call_service_def set_attribute_single_def Attribute_Set_def
      set_attr_data_def assms(5))

section \<open>All attributes\<close>

text \<open>The attributes that \<open>GetAttributeAll\<close> returns, and the condition under which each of them is read
  from its object.\<close>

definition in_mask :: "u32 \<Rightarrow> cip_attribute \<Rightarrow> bool" where
  "in_mask m a \<longleftrightarrow> attribute_id a < 32 \<and> bit m (nat (attribute_id a))"

definition plain_attribute :: "cip_class \<Rightarrow> int \<Rightarrow> 's stack \<Rightarrow> cip_attribute \<Rightarrow> bool" where
  "plain_attribute c i st a \<longleftrightarrow>
     0 \<le> attribute_id a \<and> getter a = Some GetAttrData \<and> is_getable_all a \<and>
     value_ok (attr_type a) (st_data st (Data c i a))"

definition all_bytes :: "u32 \<Rightarrow> cip_class \<Rightarrow> int \<Rightarrow> 's stack \<Rightarrow> cip_attribute list \<Rightarrow> byte list" where
  "all_bytes m c i st as =
     concat (map (\<lambda>a. encoded (attr_type a) (st_data st (Data c i a))) (filter (in_mask m) as))"

lemma SetPathAttribute_reads:
  assumes "length (ap_stuff (mr_path q)) = 7" and "0 \<le> k" and "k < 32"
  shows "path_int ATTRIBUTE (mr_path (SetPathAttribute (word_of_int k) q)) = k"
proof -
  have "sint (word_of_int k :: u32) = k"
    using assms(2,3) by (simp add: sint_word_ariths signed_of_int signed_take_bit_int_eq_self)
  then show ?thesis
    using assms(1) by (simp add: SetPathAttribute_def path_int_def ap_get_def ap_has_def ap_set_def bit_set_bit_iff)
qed

lemma get_all_loop_bytes:
  assumes "wf_class c" and "set as \<subseteq> set (attributes (CI_of i) c)"
    and "\<forall>a \<in> set as. in_mask m a \<longrightarrow> plain_attribute c i st a"
    and "length (ap_stuff (mr_path q)) = 7" and "mr_service q = kGetAttributeAll"
    and "wf_writer (mr_writer r)" and "written_size r = 0" and "general_status r = error_code kCipErrorSuccess"
    and "append_bytes (mr_writer r) (all_bytes m c i st as) = Inr w"
  shows "\<exists>q'. get_all_loop (get_attribute_single app) m as c i q r st = (Inr True, q', r\<lparr>mr_writer := w\<rparr>, st)"
  using assms(2-9)
proof (induction "as" arbitrary: q r)
  case Nil
  then show ?case by (simp add: all_bytes_def append_nil)
next
  case (Cons a as)
  show ?case
  proof (cases "in_mask m a")
    case False
    then have "all_bytes m c i st (a # as) = all_bytes m c i st as" by (simp add: all_bytes_def)
    then show ?thesis using Cons.IH [of q r] Cons.prems False by (auto simp: in_mask_def Let_def)
  next
    case True
    let ?bs = "encoded (attr_type a) (st_data st (Data c i a))"
    let ?q = "SetPathAttribute (word_of_int (attribute_id a)) q"
    have p: "0 \<le> attribute_id a" "getter a = Some GetAttrData" "is_getable_all a"
      "value_ok (attr_type a) (st_data st (Data c i a))"
      using Cons.prems(2) True by (simp_all add: plain_attribute_def)
    have id: "attribute_id a < 32" using True by (simp add: in_mask_def)
    have find: "Attribute (CI_of i) (attribute_id a) c = Some a"
      using find_by_id_Some [OF wf_class_attributes [OF assms(1)]] Cons.prems(1) by (simp add: Attribute_def)
    obtain v where v: "append_bytes (mr_writer r) ?bs = Inr v" "append_bytes v (all_bytes m c i st as) = Inr w"
      using Cons.prems(8) True by (auto simp: all_bytes_def append_append [symmetric] bindE_eq_Inr)
    let ?r = "(wrote v r)\<lparr>written_size := length ?bs\<rparr>"
    have "get_attribute_single app c i ?q r st = (Inr kEipStatusOkSend, ?q, ?r, st)"
      using find SetPathAttribute_reads [OF Cons.prems(3) p(1) id] p(3)
      by (simp add: get_attribute_single_def Attribute_Get_wrote [OF p(2) _ p(4) Cons.prems(5) v(1)])
    moreover have "WriterAdvance (written_size ?r) ?r = Inr (?r\<lparr>mr_writer := v\<rparr>)"
      using v(1) Cons.prems(5) by (auto simp: WriterAdvance_def w_advance_def append_bytes_def wrote_def split: if_splits)
    moreover have "SetGenStatus kCipErrorSuccess (?r\<lparr>mr_writer := v, written_size := 0\<rparr>) = r\<lparr>mr_writer := v\<rparr>"
      using Cons.prems(6,7) by (simp add: SetGenStatus_def wrote_def)
    moreover obtain q' where "get_all_loop (get_attribute_single app) m as c i ?q (r\<lparr>mr_writer := v\<rparr>) st =
        (Inr True, q', r\<lparr>mr_writer := w\<rparr>, st)"
      using Cons.IH [of ?q "r\<lparr>mr_writer := v\<rparr>"] Cons.prems v append_wf [OF v(1) Cons.prems(5)]
      by (auto simp: SetPathAttribute_def ap_set_def)
    ultimately show ?thesis using True by (simp add: in_mask_def Let_def)
  qed
qed

definition all_mask :: "cip_class \<Rightarrow> int \<Rightarrow> u32" where
  "all_mask c i = (if i \<noteq> 0 then inst_getable_all_mask c else clss_getable_all_mask c)"

lemma get_all_reads:
  assumes "addressed q st c i GetAttributeAll" and "mr_service q = kGetAttributeAll" and "wf_class c"
    and "attributes (CI_of i) c \<noteq> []"
    and "Service (CI_of i) (uint kGetAttributeSingle) c = Some s" and "service_function s = GetAttributeSingle"
    and "\<forall>a \<in> set (attributes (CI_of i) c). in_mask (all_mask c i) a \<longrightarrow> plain_attribute c i st a"
    and "length (ap_stuff (mr_path q)) = 7" and "wf_writer (mr_writer r)"
    and "written_size r = 0" and "general_status r = error_code kCipErrorSuccess"
    and "int (length (all_bytes (all_mask c i) c i st (attributes (CI_of i) c))) \<le> capacity (mr_writer r)"
  shows "\<exists>q' r'. NotifyMR app q r st = (Inr kEipStatusOkSend, q', r', st) \<and>
    Reader r' = all_bytes (all_mask c i) c i st (attributes (CI_of i) c) \<and>
    general_status r' = error_code kCipErrorSuccess"
proof -
  let ?r = "r\<lparr>reply_service := mr_service q\<rparr>" and ?as = "attributes (CI_of i) c"
  let ?bs = "all_bytes (all_mask c i) c i st ?as"
  obtain w where w: "append_bytes (mr_writer ?r) ?bs = Inr w"
    using assms(12) by (auto simp: append_bytes_def capacity_def)
  obtain q' where l: "get_all_loop (get_attribute_single app) (all_mask c i) ?as c i q ?r st =
      (Inr True, q', ?r\<lparr>mr_writer := w\<rparr>, st)"
    using get_all_loop_bytes [OF assms(3) subset_refl assms(7,8,2), of ?r w] assms(9-11) w by auto
  have f: "call_single app GetAttributeSingle = get_attribute_single app" by (intro ext) simp
  let ?r' = "(SetWriter (mr_writer r) (?r\<lparr>mr_writer := w\<rparr>))\<lparr>written_size := w_count (mr_writer r) w\<rparr>"
  have "get_attribute_all app c i q ?r st = (Inr kEipStatusOkSend, q', ?r', st)"
    unfolding get_attribute_all_def Let_def assms(5) option.case assms(6) f all_mask_def [symmetric] l
    using assms(4) by simp
  then have "NotifyMR app q r st = (Inr kEipStatusOkSend, q', ?r', st)"
    by (simp add: NotifyMR_addressed [OF assms(1)] call_service_def)
  moreover have "Reader ?r' = ?bs"
    using w assms(9) append_count [OF w]
    by (auto simp: Reader_def SetWriter_def append_bytes_def wf_writer_def poke_eq split: if_splits)
  ultimately show ?thesis using assms(11) by (simp add: SetWriter_def)
qed

end
