(* ===== verification/Conn_Path.thy ===== *)
theory Conn_Path
  imports Cip_Segments
begin

unbundle bit_operations_syntax

text \<open>
  What a forward open request carries besides numbers: the network connection parameters, the
  transport trigger, the run/idle header and the connection path of \<open>cip/cipconnection.h\<close> and
  \<open>cip/cipconnection.cc\<close>.

  Bit fields are words, the enumerations that are read out of them the words of their values.
\<close>

section \<open>NetCnParams\<close>

abbreviation kIOConnTypeNull :: u32 where "kIOConnTypeNull \<equiv> 0"
abbreviation kIOConnTypeMulticast :: u32 where "kIOConnTypeMulticast \<equiv> 1"
abbreviation kIOConnTypePointToPoint :: u32 where "kIOConnTypePointToPoint \<equiv> 2"
abbreviation kIOConnTypeInvalid :: u32 where "kIOConnTypeInvalid \<equiv> 3"

record net_params =
  not_large :: bool
  ncp_bits :: u32

definition Ncp_Clear :: net_params where
  "Ncp_Clear = \<lparr>not_large = True, ncp_bits = 0\<rparr>"

text \<open>A field of \<open>w\<close> bits at position \<open>k\<close>: \<open>(bits >> k) & m\<close> and
  \<open>(bits & ~(m << k)) | (v << k)\<close>.\<close>

definition get_bits :: "nat \<Rightarrow> u32 \<Rightarrow> u32 \<Rightarrow> u32" where
  "get_bits k m b = drop_bit k b AND m"

definition set_bits :: "nat \<Rightarrow> u32 \<Rightarrow> u32 \<Rightarrow> u32 \<Rightarrow> u32" where
  "set_bits k m v b = (b AND NOT (push_bit k m)) OR push_bit k v"

definition ncp_get :: "nat \<Rightarrow> nat \<Rightarrow> u32 \<Rightarrow> net_params \<Rightarrow> u32" where
  "ncp_get small large m n = get_bits (if not_large n then small else large) m (ncp_bits n)"

definition ncp_set :: "nat \<Rightarrow> nat \<Rightarrow> u32 \<Rightarrow> u32 \<Rightarrow> net_params \<Rightarrow> net_params" where
  "ncp_set small large m v n =
     n\<lparr>ncp_bits := set_bits (if not_large n then small else large) m v (ncp_bits n)\<rparr>"

definition RedundantOwner :: "net_params \<Rightarrow> bool" where
  "RedundantOwner n \<longleftrightarrow> ncp_get 15 31 1 n = 1"

definition SetRedundantOwner :: "bool \<Rightarrow> net_params \<Rightarrow> net_params" where
  "SetRedundantOwner b = ncp_set 15 31 1 (of_bool b)"

definition ConnectionType :: "net_params \<Rightarrow> u32" where
  "ConnectionType = ncp_get 13 29 3"

definition SetConnectionType :: "u32 \<Rightarrow> net_params \<Rightarrow> net_params" where
  "SetConnectionType = ncp_set 13 29 3"

definition IsNull :: "net_params \<Rightarrow> bool" where
  "IsNull n \<longleftrightarrow> ConnectionType n = kIOConnTypeNull"

definition Priority :: "net_params \<Rightarrow> u32" where
  "Priority = ncp_get 10 26 3"

definition SetPriority :: "u32 \<Rightarrow> net_params \<Rightarrow> net_params" where
  "SetPriority = ncp_set 10 26 3"

definition IsFixed :: "net_params \<Rightarrow> bool" where
  "IsFixed n \<longleftrightarrow> ncp_get 9 25 1 n = 0"

definition SetFixed :: "bool \<Rightarrow> net_params \<Rightarrow> net_params" where
  "SetFixed b = ncp_set 9 25 1 (of_bool (\<not> b))"

definition ConnectionSize :: "net_params \<Rightarrow> u32" where
  "ConnectionSize n = (if not_large n then ncp_bits n AND 0x1ff else ncp_bits n AND 0xffff)"

definition SetConnectionSize :: "int \<Rightarrow> net_params \<Rightarrow> net_params" where
  "SetConnectionSize aSize n =
     n\<lparr>ncp_bits := (ncp_bits n AND NOT (if not_large n then 0x1ff else 0xffff)) OR word_of_int aSize\<rparr>"

definition NetCnParams :: "int \<Rightarrow> bool \<Rightarrow> u32 \<Rightarrow> u32 \<Rightarrow> net_params" where
  "NetCnParams aSize fixed ty prio =
     SetPriority prio (SetFixed fixed (SetConnectionSize aSize (SetConnectionType ty
       \<lparr>not_large = aSize \<le> 0x1ff, ncp_bits = 0\<rparr>)))"

definition Ncp_Set :: "u32 \<Rightarrow> bool \<Rightarrow> net_params" where
  "Ncp_Set ncp is_large = \<lparr>not_large = \<not> is_large, ncp_bits = ncp\<rparr>"

definition Ncp_Serialize :: "writer \<Rightarrow> net_params \<Rightarrow> writer res" where
  "Ncp_Serialize w n = (if not_large n then put16 w (ucast (ncp_bits n)) else put32 w (ncp_bits n))"

definition Ncp_SerializedCount :: "net_params \<Rightarrow> nat" where
  "Ncp_SerializedCount n = (if not_large n then 2 else 4)"

section \<open>TransportTrigger and Header32Bit\<close>

abbreviation kConnTransportClass0 :: u8 where "kConnTransportClass0 \<equiv> 0"
abbreviation kConnTransportClass1 :: u8 where "kConnTransportClass1 \<equiv> 1"
abbreviation kConnTransportClass2 :: u8 where "kConnTransportClass2 \<equiv> 2"
abbreviation kConnTransportClass3 :: u8 where "kConnTransportClass3 \<equiv> 3"
abbreviation kConnTriggerTypeCyclic :: u8 where "kConnTriggerTypeCyclic \<equiv> 0"
abbreviation kConnTriggerTypeChangeOfState :: u8 where "kConnTriggerTypeChangeOfState \<equiv> 1"
abbreviation kConnTriggerTypeApplication :: u8 where "kConnTriggerTypeApplication \<equiv> 2"

text \<open>A trigger is its one byte.\<close>

definition TransportTrigger :: "bool \<Rightarrow> u8 \<Rightarrow> u8 \<Rightarrow> u8" where
  "TransportTrigger server trig cls = push_bit 7 (of_bool server) OR push_bit 4 trig OR cls"

definition IsServer :: "u8 \<Rightarrow> bool" where
  "IsServer t \<longleftrightarrow> t AND 0x80 \<noteq> 0"

definition SetServer :: "bool \<Rightarrow> u8 \<Rightarrow> u8" where
  "SetServer b t = (t AND NOT (push_bit 7 1)) OR push_bit 7 (of_bool b)"

definition Trigger :: "u8 \<Rightarrow> u8" where
  "Trigger t = drop_bit 4 t AND 7"

definition SetTrigger :: "u8 \<Rightarrow> u8 \<Rightarrow> u8" where
  "SetTrigger trig t = (t AND NOT (push_bit 4 7)) OR push_bit 4 trig"

definition TransportClass :: "u8 \<Rightarrow> u8" where
  "TransportClass t = t AND 15"

definition SetTransportClass :: "u8 \<Rightarrow> u8 \<Rightarrow> u8" where
  "SetTransportClass cls t = (t AND NOT 15) OR cls"

text \<open>The run/idle header of an I/O datagram.\<close>

datatype OpMode = kOpModeIdle | kOpModeRun | kOpModeUnknown

definition Mode :: "u32 \<Rightarrow> OpMode" where
  "Mode h = (if h AND 1 \<noteq> 0 then kOpModeRun else kOpModeIdle)"

definition SetMode :: "OpMode \<Rightarrow> u32 \<Rightarrow> u32" where
  "SetMode m h = (h AND NOT 1) OR of_bool (m = kOpModeRun)"

definition HasCOO :: "u32 \<Rightarrow> bool" where
  "HasCOO h \<longleftrightarrow> h AND push_bit 1 1 \<noteq> 0"

definition SetCOO :: "bool \<Rightarrow> u32 \<Rightarrow> u32" where
  "SetCOO on h = (h AND NOT (push_bit 1 1)) OR push_bit 1 (of_bool on)"

definition ROO :: "u32 \<Rightarrow> u32" where
  "ROO h = get_bits 2 3 h"

definition SetROO :: "u32 \<Rightarrow> u32 \<Rightarrow> u32" where
  "SetROO v h = set_bits 2 3 v h"

section \<open>ConnectionPath\<close>

text \<open>The three application paths are a list; the three indices say which of them is the path for
  configuration, consumption and production, \<open>-1\<close> for none.\<close>

record conn_path =
  port_segs :: port_group
  app_paths :: "app_path list"
  data_seg :: data_segment
  config_path :: int
  consuming_path :: int
  producing_path :: int

definition path_at :: "int \<Rightarrow> conn_path \<Rightarrow> app_path" where
  "path_at i cp = (if i < 0 then new_app_path (replicate 7 0) else app_paths cp ! nat i)"

definition ConfigPath :: "conn_path \<Rightarrow> app_path" where
  "ConfigPath cp = path_at (config_path cp) cp"

definition ConsumingPath :: "conn_path \<Rightarrow> app_path" where
  "ConsumingPath cp = path_at (consuming_path cp) cp"

definition ProducingPath :: "conn_path \<Rightarrow> app_path" where
  "ProducingPath cp = path_at (producing_path cp) cp"

definition AssignAppPaths :: "int \<Rightarrow> int \<Rightarrow> int \<Rightarrow> conn_path \<Rightarrow> conn_path" where
  "AssignAppPaths config consuming producing cp =
     cp\<lparr>config_path := config, consuming_path := consuming, producing_path := producing\<rparr>"

definition ap_HasAny :: "app_path \<Rightarrow> bool" where
  "ap_HasAny p \<longleftrightarrow> ap_pbits p \<noteq> 0"

definition pg_HasAny :: "port_group \<Rightarrow> bool" where
  "pg_HasAny g \<longleftrightarrow> pg_pbits g \<noteq> 0"

definition ConnPath_Clear :: "conn_path \<Rightarrow> conn_path" where
  "ConnPath_Clear cp = cp\<lparr>port_segs := pg_Clear (port_segs cp), app_paths := map ap_Clear (app_paths cp),
     data_seg := ds_empty\<rparr>"

definition CTL_UNCOMPRESSED_EPATH :: "u32 \<Rightarrow> bool" where
  "CTL_UNCOMPRESSED_EPATH ctl \<longleftrightarrow> bit ctl 4"

subsection \<open>Parsing\<close>

text \<open>The catch blocks: an \<open>overflow_error\<close> stays one, every other \<open>runtime_error\<close> is thrown again as a
  plain one.\<close>

definition rethrow :: "'a res \<Rightarrow> 'a res" where
  "rethrow m =
     (case m of
        Inl e \<Rightarrow> Inl (if e = Overflow_error then Overflow_error
                      else if is_runtime_error e then Runtime_error else e)
      | Inr x \<Rightarrow> Inr x)"

text \<open>One \<open>if( in.size() ) in += ...Deserialize( in, ... )\<close> after the other. A negative result of the
  port segments moves the reader to before its input.\<close>

definition parse_port_segs :: "u32 \<Rightarrow> conn_path \<times> byte list \<Rightarrow> (conn_path \<times> byte list) res" where
  "parse_port_segs ctl = (\<lambda>(cp, r).
     if r = [] then Inr (cp, r)
     else bindE (DeserializePortSegmentGroup ctl (port_segs cp) r) (\<lambda>result.
       case result of
         Go g r \<Rightarrow> Inr (cp\<lparr>port_segs := g\<rparr>, r)
       | _ \<Rightarrow> Inl Undefined))"

definition parse_app_path :: "u32 \<Rightarrow> nat \<Rightarrow> conn_path \<times> byte list \<Rightarrow> (conn_path \<times> byte list) res" where
  "parse_app_path ctl i = (\<lambda>(cp, r).
     if r = [] then Inr (cp, r)
     else bindE (DeserializeAppPath ctl (if i = 0 then None else Some (app_paths cp ! (i - 1)))
                   (app_paths cp ! i) r) (\<lambda>(p, r).
       Inr (cp\<lparr>app_paths := (app_paths cp)[i := p]\<rparr>, r)))"

definition parse_data_seg :: "conn_path \<times> byte list \<Rightarrow> (conn_path \<times> byte list) res" where
  "parse_data_seg = (\<lambda>(cp, r).
     if r = [] then Inr (cp, r)
     else bindE (DeserializeDataSegment r) (\<lambda>(d, r). Inr (cp\<lparr>data_seg := d\<rparr>, r)))"

text \<open>When it returns, the whole input has been consumed.\<close>

definition ConnectionPath_Deserialize :: "u32 \<Rightarrow> conn_path \<Rightarrow> byte list \<Rightarrow> conn_path res" where
  "ConnectionPath_Deserialize ctl cp inp =
     bindE (rethrow
       (bindE (parse_port_segs ctl (ConnPath_Clear cp, inp)) (\<lambda>x.
        bindE (parse_app_path ctl 0 x) (\<lambda>x.
        bindE (parse_app_path ctl 1 x) (\<lambda>x.
        bindE (parse_app_path ctl 2 x) parse_data_seg))))) (\<lambda>(cp, r).
     if r = [] then Inr cp
     else if length r = 1 \<and> even (length inp) then Inr cp
     else Inl Runtime_error)"

subsection \<open>Serialization\<close>

definition omit_ctl :: "u32 \<Rightarrow> app_path option \<Rightarrow> app_path \<Rightarrow> u32" where
  "omit_ctl ctl previous cur =
    (case previous of
       None \<Rightarrow> ctl
     | Some prev \<Rightarrow>
         let ctl = (if ap_get CLASS prev = ap_get CLASS cur then set_bit 0 ctl else ctl);
             ctl = (if (ap_has CONN_PT cur \<or> ap_has ATTRIBUTE cur) \<and>
                       ap_get INSTANCE prev = ap_get INSTANCE cur then set_bit 1 ctl else ctl)
         in if ap_has ATTRIBUTE cur \<and> ap_get CONN_PT prev = ap_get CONN_PT cur
            then set_bit 2 ctl else ctl)"

fun serialize_compressed :: "u32 \<Rightarrow> app_path option \<Rightarrow> app_path list \<Rightarrow> writer \<Rightarrow> writer res" where
  "serialize_compressed ctl prev [] w = Inr w"
| "serialize_compressed ctl prev (cur # ps) w =
     (if \<not> ap_HasAny cur then serialize_compressed ctl prev ps w
      else bindE (AppPath_Serialize (omit_ctl ctl prev cur) w cur)
             (serialize_compressed ctl (Some cur) ps))"

fun serialize_uncompressed :: "u32 \<Rightarrow> app_path list \<Rightarrow> writer \<Rightarrow> writer res" where
  "serialize_uncompressed ctl [] w = Inr w"
| "serialize_uncompressed ctl (p # ps) w =
     bindE (ser_if (ap_HasAny p) (\<lambda>w. AppPath_Serialize ctl w p) w) (serialize_uncompressed ctl ps)"

definition ConnectionPath_Serialize :: "u32 \<Rightarrow> writer \<Rightarrow> conn_path \<Rightarrow> writer res" where
  "ConnectionPath_Serialize ctl out cp =
     bindE (ser_if (pg_HasAny (port_segs cp)) (\<lambda>w. PortGroup_Serialize ctl w (port_segs cp)) out) (\<lambda>w.
     bindE (if \<not> CTL_UNCOMPRESSED_EPATH ctl then serialize_compressed ctl None (app_paths cp) w
            else serialize_uncompressed ctl (app_paths cp) w) (\<lambda>w.
     ser_if (ds_HasAny (data_seg cp)) (\<lambda>w. Data_Serialize w (data_seg cp)) w))"

text \<open>\<open>SerializedCount\<close> serializes into 128 bytes of stack.\<close>

definition ConnectionPath_SerializedCount :: "u32 \<Rightarrow> conn_path \<Rightarrow> nat res" where
  "ConnectionPath_SerializedCount ctl cp =
     bindE (ConnectionPath_Serialize ctl (writer_on (replicate 128 0)) cp) (\<lambda>w. Inr (w_pos w))"

section \<open>Bit fields\<close>

text \<open>The number of bits of the masks the code uses.\<close>

definition field_width :: "u32 \<Rightarrow> nat" where
  "field_width m = (if m = 1 then 1 else if m = 3 then 2 else if m = 0x1ff then 9 else 16)"

definition field_mask :: "u32 \<Rightarrow> bool" where
  "field_mask m \<longleftrightarrow> m \<in> {1, 3, 0x1ff, 0xffff}"

lemma field_mask_simps [simp]:
  "field_mask 1" "field_mask 3" "field_mask 0x1ff" "field_mask 0xffff"
  "field_width 1 = 1" "field_width 3 = 2" "field_width 0x1ff = 9" "field_width 0xffff = 16"
  by (simp_all add: field_mask_def field_width_def)

lemma bit_field_mask:
  assumes "field_mask m"
  shows "bit m i \<longleftrightarrow> i < field_width m"
proof -
  have m: "m = mask (field_width m)"
    using assms by (auto simp: field_mask_def field_width_def mask_eq_exp_minus_1)
  have "field_width m \<le> 16" by (simp add: field_width_def)
  then have "bit (mask (field_width m) :: u32) i \<longleftrightarrow> i < field_width m"
    by (auto simp: bit_mask_iff)
  then show ?thesis by (simp only: m [symmetric])
qed

lemma bit_less_exp: "v < 2 ^ n \<Longrightarrow> n < 32 \<Longrightarrow> bit (v :: u32) i \<Longrightarrow> i < n"
  by (metis bit_take_bit_iff less_mask_eq take_bit_eq_mask word_bw_comms(1))

lemma get_set_bits:
  assumes "field_mask m" and "k + field_width m \<le> 32" and "v < 2 ^ field_width m"
  shows "get_bits k m (set_bits k m v b) = v"
proof (rule bit_word_eqI)
  fix i assume i: "i < LENGTH(32)"
  have "field_width m < 32" by (simp add: field_width_def)
  then have v: "bit v i \<Longrightarrow> i < field_width m" using assms(3) bit_less_exp by blast
  show "bit (get_bits k m (set_bits k m v b)) i = bit v i"
    using assms(2) i v by (auto simp: get_bits_def set_bits_def bit_simps bit_field_mask [OF assms(1)])
qed

lemma get_set_other:
  assumes "field_mask m" and "field_mask n" and "k + field_width n \<le> l \<or> l + field_width m \<le> k"
    and "v < 2 ^ field_width n"
  shows "get_bits l m (set_bits k n v b) = get_bits l m b"
proof (rule bit_word_eqI)
  fix i assume i: "i < LENGTH(32)"
  have "field_width n < 32" by (simp add: field_width_def)
  then have v: "bit v j \<Longrightarrow> j < field_width n" for j using assms(4) bit_less_exp by blast
  show "bit (get_bits l m (set_bits k n v b)) i = bit (get_bits l m b) i"
    using assms(3) v [of "l + i - k"]
    by (auto simp: get_bits_def set_bits_def bit_simps bit_field_mask [OF assms(1)] bit_field_mask [OF assms(2)]
        dest: bit_imp_le_length)
qed

text \<open>The setters and getters as fields of the word.\<close>

lemma size_field:
  "ConnectionSize n = (if not_large n then get_bits 0 0x1ff (ncp_bits n) else get_bits 0 0xffff (ncp_bits n))"
  "ncp_bits (SetConnectionSize s n) =
     (if not_large n then set_bits 0 0x1ff (word_of_int s) (ncp_bits n)
      else set_bits 0 0xffff (word_of_int s) (ncp_bits n))"
  by (simp_all add: ConnectionSize_def SetConnectionSize_def get_bits_def set_bits_def)

lemma ncp_fields:
  "ncp_bits (ncp_set k l m v n) = set_bits (if not_large n then k else l) m v (ncp_bits n)"
  "not_large (ncp_set k l m v n) = not_large n"
  "not_large (SetConnectionSize s n) = not_large n"
  by (simp_all add: ncp_set_def SetConnectionSize_def)

lemmas ncp_field_defs = NetCnParams_def ConnectionType_def SetConnectionType_def Priority_def SetPriority_def
  IsFixed_def SetFixed_def RedundantOwner_def ncp_get_def ncp_fields size_field

lemma NetCnParams_fields:
  assumes "0 \<le> s" and "s < 65536" and "ty < 4" and "prio < 4"
  shows "not_large (NetCnParams s fixed ty prio) \<longleftrightarrow> s \<le> 0x1ff"
    and "ConnectionSize (NetCnParams s fixed ty prio) = word_of_int s"
    and "ConnectionType (NetCnParams s fixed ty prio) = ty"
    and "IsFixed (NetCnParams s fixed ty prio) = fixed"
    and "Priority (NetCnParams s fixed ty prio) = prio"
    and "\<not> RedundantOwner (NetCnParams s fixed ty prio)"
proof -
  show "not_large (NetCnParams s fixed ty prio) \<longleftrightarrow> s \<le> 0x1ff" by (simp add: ncp_field_defs)
  have small: "s \<le> 0x1ff \<Longrightarrow> (word_of_int s :: u32) < 512" "(word_of_int s :: u32) < 65536"
    using assms(1,2) by (simp_all add: word_less_def uint_word_of_int)
  have "get_bits k m 0 = 0" for k m by (simp add: get_bits_def)
  note facts = small assms(3,4) get_set_bits get_set_other this
  show "ConnectionSize (NetCnParams s fixed ty prio) = word_of_int s"
    "ConnectionType (NetCnParams s fixed ty prio) = ty" "IsFixed (NetCnParams s fixed ty prio) = fixed"
    "Priority (NetCnParams s fixed ty prio) = prio" "\<not> RedundantOwner (NetCnParams s fixed ty prio)"
    by (simp_all add: ncp_field_defs facts)
qed

section \<open>The wire format of a connection path\<close>

fun compressed_wire :: "u32 \<Rightarrow> app_path option \<Rightarrow> app_path list \<Rightarrow> byte list" where
  "compressed_wire ctl prev [] = []"
| "compressed_wire ctl prev (cur # ps) =
     (if \<not> ap_HasAny cur then compressed_wire ctl prev ps
      else app_path_wire (omit_ctl ctl prev cur) cur @ compressed_wire ctl (Some cur) ps)"

definition conn_path_wire :: "u32 \<Rightarrow> conn_path \<Rightarrow> byte list" where
  "conn_path_wire ctl cp =
     (if pg_HasAny (port_segs cp) then group_wire ctl (port_segs cp) else []) @
     compressed_wire ctl None (app_paths cp) @
     (if ds_HasAny (data_seg cp) then data_wire (data_seg cp) else [])"

lemma serialize_compressed_wire:
  "wf_writer w \<Longrightarrow> serialize_compressed ctl prev ps w = append_bytes w (compressed_wire ctl prev ps)"
proof (induction ps arbitrary: prev w)
  case Nil
  then show ?case by (simp add: append_nil)
next
  case (Cons cur ps)
  then show ?case by (auto simp: AppPath_Serialize_wire intro!: append_then)
qed

lemma ConnectionPath_Serialize_wire:
  assumes "wf_writer w" and "\<not> CTL_UNCOMPRESSED_EPATH ctl"
    and "pg_HasAny (port_segs cp) \<Longrightarrow> ok_group (port_segs cp)"
    and "ds_HasAny (data_seg cp) \<Longrightarrow> ok_data (data_seg cp)"
  shows "ConnectionPath_Serialize ctl w cp = append_bytes w (conn_path_wire ctl cp)"
proof -
  let ?g = "if pg_HasAny (port_segs cp) then group_wire ctl (port_segs cp) else []"
  let ?d = "if ds_HasAny (data_seg cp) then data_wire (data_seg cp) else []"
  have "ser_if (pg_HasAny (port_segs cp)) (\<lambda>w. PortGroup_Serialize ctl w (port_segs cp)) w = append_bytes w ?g"
    using assms(1,3) by (simp add: ser_if_def PortGroup_Serialize_wire append_nil)
  moreover have "bindE (append_bytes w ?g) (\<lambda>w. bindE (serialize_compressed ctl None (app_paths cp) w)
      (ser_if (ds_HasAny (data_seg cp)) (\<lambda>w. Data_Serialize w (data_seg cp)))) =
    append_bytes w (?g @ compressed_wire ctl None (app_paths cp) @ ?d)"
  proof (rule append_then [OF assms(1)])
    fix v assume v: "wf_writer v"
    have "bindE (append_bytes v (compressed_wire ctl None (app_paths cp)))
        (ser_if (ds_HasAny (data_seg cp)) (\<lambda>w. Data_Serialize w (data_seg cp))) =
      append_bytes v (compressed_wire ctl None (app_paths cp) @ ?d)"
      using assms(4) by (intro append_then [OF v]) (auto simp: ser_if_def Data_Serialize_wire append_nil ok_data_def)
    then show "bindE (serialize_compressed ctl None (app_paths cp) v)
        (ser_if (ds_HasAny (data_seg cp)) (\<lambda>w. Data_Serialize w (data_seg cp))) =
      append_bytes v (compressed_wire ctl None (app_paths cp) @ ?d)"
      by (simp add: serialize_compressed_wire [OF v])
  qed
  ultimately show ?thesis using assms(2) by (simp add: ConnectionPath_Serialize_def conn_path_wire_def)
qed

text \<open>A parser looks at no flag but the one for packed paths.\<close>

lemma deserialize_ctl:
  assumes "CTL_PACKED_EPATH ctl = CTL_PACKED_EPATH ctl'"
  shows "deserialize_logical ctl = deserialize_logical ctl'"
    and "deserialize_members ctl ks p r = deserialize_members ctl' ks p r"
    and "deserialize_logicals ctl l p r = deserialize_logicals ctl' l p r"
    and "DeserializeAppPath ctl prev p r = DeserializeAppPath ctl' prev p r"
proof -
  show one: "deserialize_logical ctl = deserialize_logical ctl'"
    using assms by (intro ext) (simp add: deserialize_logical_def)
  show members: "deserialize_members ctl ks p r = deserialize_members ctl' ks p r" for ks p r
    by (induction ks arbitrary: p r) (auto simp: one intro!: bindE_cong)
  show logicals: "deserialize_logicals ctl l p r = deserialize_logicals ctl' l p r" for l p r
  proof (induction l arbitrary: p r rule: less_induct)
    case (less l)
    then show ?case
      by (subst (1 2) deserialize_logicals.simps) (auto simp: one intro!: bindE_cong split: option.split)
  qed
  show "DeserializeAppPath ctl prev p r = DeserializeAppPath ctl' prev p r"
    unfolding DeserializeAppPath_def one members logicals ..
qed

text \<open>Where a data segment starts there is no path.\<close>

lemma no_path_at_data:
  "DeserializeAppPath ctl prev p (0x80 # r) = Inr (ap_Clear p, 0x80 # r)"
proof -
  have "ends_logical l a (0x80 # r)" for l a by (simp add: ends_logical_def logical_field_def)
  then show ?thesis
    by (simp add: DeserializeAppPath_def deserialize_symbolic_def r_peek_def deserialize_logicals_end
        split: option.split)
qed

lemma same_as_clear:
  assumes "\<not> ap_HasAny p"
  shows "same_path (ap_Clear q) p"
proof -
  have "\<not> ap_has k p" for k using assms by (simp add: ap_HasAny_def ap_has_def)
  then show ?thesis by (simp add: same_path_def GetSymbol_def ap_view_def fun_eq_iff)
qed

section \<open>Compressed paths\<close>

text \<open>A path as I/O connections use them: a class with an instance, or the assembly class with a
  connection point.\<close>

definition io_path :: "app_path \<Rightarrow> bool" where
  "io_path p \<longleftrightarrow> wf_app_path p \<and> \<not> ap_has TAG p \<and> ap_has CLASS p \<and>
     ap_has INSTANCE p \<noteq> ap_has CONN_PT p \<and>
     (ap_has CONN_PT p \<longrightarrow> ap_get CLASS p = kCipAssemblyClass) \<and>
     \<not> ap_has ATTRIBUTE p \<and> \<not> ap_has MEMBER1 p \<and> \<not> ap_has MEMBER2 p \<and> \<not> ap_has MEMBER3 p \<and>
     ap_get CLASS p < 65536 \<and> ap_get INSTANCE p < 65536 \<and> ap_get CONN_PT p < 65536"

lemma io_path_canonical: "io_path p \<Longrightarrow> canonical_path p"
  by (auto simp: io_path_def canonical_path_def upt_7 ap_get_def)

definition endpoint :: "app_path \<Rightarrow> nat" where
  "endpoint p = (if ap_has INSTANCE p then INSTANCE else CONN_PT)"

lemma emitted_io:
  assumes "io_path p" and "no_omit ctl"
  shows "emitted (omit_ctl ctl prev p) p =
    (if (case prev of None \<Rightarrow> True | Some q \<Rightarrow> ap_get CLASS q \<noteq> ap_get CLASS p)
     then [(CLASS, ap_get CLASS p)] else []) @ [(endpoint p, ap_get (endpoint p) p)]"
  using assms
  by (cases "ap_has INSTANCE p")
     (auto simp: io_path_def emitted_def field_if_def Let_def endpoint_def no_omit_def omit_ctl_def
       CTL_OMIT_CLASS_def CTL_OMIT_INSTANCE_def CTL_OMIT_CONN_PT_def bit_set_bit_iff split: option.split)


lemma io_path_HasAny: "io_path p \<Longrightarrow> ap_HasAny p"
  by (auto simp: io_path_def ap_HasAny_def ap_has_def)

lemma omit_ctl_packed [simp]: "CTL_PACKED_EPATH (omit_ctl ctl prev cur) = CTL_PACKED_EPATH ctl"
  by (simp add: omit_ctl_def CTL_PACKED_EPATH_def Let_def bit_set_bit_iff split: option.split)

lemma emitted_io_facts:
  assumes "io_path p" and "no_omit ctl"
  shows "emitted (omit_ctl ctl prev p) p \<noteq> []" and "small_fields (emitted (omit_ctl ctl prev p) p)"
    and "last_field LOGICAL_END (emitted (omit_ctl ctl prev p) p) = endpoint p"
    and "list_all (\<lambda>(k, v). k < 4) (emitted (omit_ctl ctl prev p) p)"
  using assms(1)
  unfolding emitted_io [OF assms]
  by (auto simp: io_path_def last_field_def endpoint_def)

lemma io_view:
  assumes "io_path p"
  shows "ap_view p = [CLASS \<mapsto> ap_get CLASS p, endpoint p \<mapsto> ap_get (endpoint p) p]"
proof
  fix k :: nat
  have "k < 7 \<Longrightarrow> k \<in> {0, 1, 2, 3, 4, 5, 6}" by auto
  then show "ap_view p k = [CLASS \<mapsto> ap_get CLASS p, endpoint p \<mapsto> ap_get (endpoint p) p] k"
    using assms by (auto simp: io_path_def endpoint_def ap_view_def ap_get_def)
qed

lemma endpoint_neq [simp]: "endpoint p \<noteq> CLASS" "endpoint p < CLASS"
  by (simp_all add: endpoint_def)

lemma endpoint_iff:
  "endpoint p = INSTANCE \<longleftrightarrow> ap_has INSTANCE p"
  "io_path p \<Longrightarrow> endpoint p = CONN_PT \<longleftrightarrow> ap_has CONN_PT p"
  by (auto simp: endpoint_def io_path_def)

text \<open>A path is read back behind the one it was compressed against.\<close>

lemma parse_next_path:
  assumes "io_path prev" and "io_path cur" and "ap_has CONN_PT cur \<Longrightarrow> ap_get CLASS prev = kCipAssemblyClass"
    and "same_path q prev" and "length (ap_stuff p0) = 7" and "no_omit ctl"
    and "path_ends (omit_ctl ctl (Some prev) cur) cur rest"
  shows "\<exists>p'. DeserializeAppPath ctl (Some q) p0 (app_path_wire (omit_ctl ctl (Some prev) cur) cur @ rest) =
      Inr (p', rest) \<and> same_path p' cur"
proof -
  let ?ctl = "omit_ctl ctl (Some prev) cur"
  note facts = emitted_io_facts [OF assms(2,6), of "Some prev"]
  have tag: "\<not> ap_has TAG cur" using assms(2) by (simp add: io_path_def)
  obtain p' where p': "DeserializeAppPath ?ctl (Some q) p0 (app_path_wire ?ctl cur @ rest) = Inr (p', rest)"
    "ap_view p' = inherited_view q (emitted ?ctl cur)" "\<not> ap_has TAG p'"
    using parse_compressed_path [OF assms(5) tag facts(1,2) assms(7), of q] by blast
  have q: "ap_view q = ap_view prev" "ap_get CLASS q = ap_get CLASS prev"
    using assms(4) same_path_accessors(1) [OF assms(4)] by (simp_all add: same_path_def)
  let ?new = "ap_get CLASS prev \<noteq> ap_get CLASS cur"
  have kvs: "map_of (emitted ?ctl cur) k = (if k = CLASS \<and> ?new then Some (ap_get CLASS cur)
      else if k = endpoint cur then Some (ap_get (endpoint cur) cur) else None)" for k
    unfolding emitted_io [OF assms(2,6)] by auto
  have other: "k = CLASS \<or> ap_get CLASS prev = kCipAssemblyClass \<and> endpoint cur = CONN_PT \<and> k = INSTANCE"
    if "k < LOGICAL_END" "endpoint cur < k" for k
    using that assms(2,3) by (auto simp: endpoint_def io_path_def split: if_splits)
  have "inherited_view q (emitted ?ctl cur) k = ap_view cur k" for k
  proof (cases "k = CLASS")
    case True
    then show ?thesis unfolding inherited_view_def facts(3) kvs q io_view [OF assms(1)] io_view [OF assms(2)] by simp
  next
    case False
    then show ?thesis using other [of k]
      unfolding inherited_view_def facts(3) kvs q(2) io_view [OF assms(2)] by auto
  qed
  then have "same_path p' cur" using p'(2,3) tag by (auto simp: same_path_def GetSymbol_def)
  moreover have "DeserializeAppPath ctl (Some q) p0 r = DeserializeAppPath ?ctl (Some q) p0 r" for r
    by (rule deserialize_ctl(4)) simp
  ultimately show ?thesis using p'(1) by auto
qed

text \<open>Where the next path starts, the parser of this one stops, but for one case: the class of this path
  was left out, it is an instance, and the next is a connection point.\<close>

lemma path_ends_next:
  assumes "io_path cur" and "io_path next" and "no_omit ctl"
    and "ap_has CONN_PT next \<Longrightarrow> ap_get CLASS cur = kCipAssemblyClass"
    and "\<And>q. prev = Some q \<Longrightarrow> ap_get CLASS q = ap_get CLASS cur \<Longrightarrow> ap_has INSTANCE cur \<Longrightarrow> \<not> ap_has CONN_PT next"
  shows "path_ends (omit_ctl ctl prev cur) cur (app_path_wire (omit_ctl ctl (Some cur) next) next @ rest)"
proof -
  let ?ctl = "omit_ctl ctl (Some cur) next"
  note facts = emitted_io_facts [OF assms(2,3), of "Some cur"]
  obtain k v kvs where kvs: "emitted ?ctl next = (k, v) # kvs" using facts(1) by (cases "emitted ?ctl next") auto
  have k: "k < 4" "k < 7" "v < 65536" using facts(2,4) by (simp_all add: kvs)
  obtain h body where h: "logical_wire ?ctl (seg_of k) v = h # body" "h AND 0xfc = seg_of k"
    by (rule deserialize_logical_wire [OF k(3,2), of ?ctl]) (rule that)
  have "\<not> ap_has TAG next" "\<not> ap_has TAG cur" using assms(1,2) by (simp_all add: io_path_def)
  then have hd: "hd (app_path_wire ?ctl next @ rest) = h" by (simp add: app_path_wire_def kvs h)
  have next_field: "k = CLASS \<and> ap_get CLASS cur \<noteq> ap_get CLASS next \<or>
      k = endpoint next \<and> ap_get CLASS cur = ap_get CLASS next"
  proof -
    have "(if ap_get CLASS cur \<noteq> ap_get CLASS next then [(CLASS, ap_get CLASS next)] else []) @
        [(endpoint next, ap_get (endpoint next) next)] = (k, v) # kvs"
      using kvs by (simp only: emitted_io [OF assms(2,3)] option.case)
    then show ?thesis by (cases "ap_get CLASS cur = ap_get CLASS next") auto
  qed
  have cls: "map_of (emitted (omit_ctl ctl prev cur) cur) CLASS = Some (ap_get CLASS cur)"
    if "ap_has INSTANCE cur" "ap_has CONN_PT next"
    using assms(5) that by (cases prev) (auto simp: emitted_io [OF assms(1,3)])
  have "endpoint cur \<le> k \<or> map_of (emitted (omit_ctl ctl prev cur) cur) CLASS = Some kCipAssemblyClass \<and>
      endpoint cur = INSTANCE \<and> k = CONN_PT"
  proof (cases "k = CONN_PT \<and> endpoint cur = INSTANCE")
    case True
    then have "ap_has INSTANCE cur" "ap_has CONN_PT next"
      using next_field endpoint_iff(1) endpoint_iff(2) [OF assms(2)] by auto
    then show ?thesis using cls assms(4) True by simp
  next
    case False
    moreover have "endpoint cur \<in> {INSTANCE, CONN_PT}" "endpoint next \<in> {INSTANCE, CONN_PT}"
      by (simp_all add: endpoint_def)
    ultimately show ?thesis using next_field by auto
  qed
  then show ?thesis
    using k(1) hd h(2) emitted_io_facts(3) [OF assms(1,3), of prev] logical_field_seg_of [of k]
      \<open>\<not> ap_has TAG cur\<close>
    by (auto simp: path_ends_def ends_logical_def)
qed

text \<open>The paths of a connection that survive compression. The condition on an instance behind a path
  of the same class is the case above.\<close>

fun io_chain :: "app_path option \<Rightarrow> app_path list \<Rightarrow> bool" where
  "io_chain prev [] \<longleftrightarrow> True"
| "io_chain prev (cur # ps) \<longleftrightarrow>
     io_path cur \<and>
     (case prev of None \<Rightarrow> True
      | Some q \<Rightarrow> ap_has CONN_PT cur \<longrightarrow> ap_get CLASS q = kCipAssemblyClass) \<and>
     (case (prev, ps) of
        (Some q, next # _) \<Rightarrow>
          ap_get CLASS q = ap_get CLASS cur \<longrightarrow> ap_has INSTANCE cur \<longrightarrow> \<not> ap_has CONN_PT next
      | _ \<Rightarrow> True) \<and>
     io_chain (Some cur) ps"

primrec parse_each :: "u32 \<Rightarrow> nat list \<Rightarrow> conn_path \<times> byte list \<Rightarrow> (conn_path \<times> byte list) res" where
  "parse_each ctl [] x = Inr x"
| "parse_each ctl (i # is) x = bindE (parse_app_path ctl i x) (parse_each ctl is)"

definition at_data :: "byte list \<Rightarrow> bool" where
  "at_data d \<longleftrightarrow> d = [] \<or> hd d = 0x80"

lemma at_data_ends_path: "at_data d \<Longrightarrow> ends_path d"
  by (auto simp: at_data_def ends_path_def logical_field_def)

lemma parse_each_at_data:
  assumes "at_data d" and "\<forall>i \<in> set is. i < length (app_paths cp) \<and> \<not> ap_HasAny (app_paths cp ! i)"
  shows "\<exists>aps. parse_each ctl is (cp, d) = Inr (cp\<lparr>app_paths := aps\<rparr>, d) \<and>
    length aps = length (app_paths cp) \<and> (\<forall>j < length aps. j \<notin> set is \<longrightarrow> aps ! j = app_paths cp ! j) \<and>
    (\<forall>j \<in> set is. \<not> ap_HasAny (aps ! j))"
  using assms(2)
proof (induction "is" arbitrary: cp)
  case Nil
  then show ?case by (auto intro: exI [of _ "app_paths cp"])
next
  case (Cons i "is")
  have clear: "\<not> ap_HasAny (ap_Clear p)" for p by (simp add: ap_HasAny_def ap_Clear_def)
  obtain a1 where step: "parse_app_path ctl i (cp, d) = Inr (cp\<lparr>app_paths := a1\<rparr>, d)"
    and a1: "length a1 = length (app_paths cp)" "\<not> ap_HasAny (a1 ! i)" "\<forall>j. j \<noteq> i \<longrightarrow> a1 ! j = app_paths cp ! j"
  proof (cases d)
    case (Cons b r)
    then have "parse_app_path ctl i (cp, d) = Inr (cp\<lparr>app_paths := (app_paths cp)[i := ap_Clear (app_paths cp ! i)]\<rparr>, d)"
      using assms(1) by (simp add: at_data_def parse_app_path_def no_path_at_data)
    then show thesis using that Cons.prems clear by simp
  qed (use that [of "app_paths cp"] Cons.prems in \<open>simp add: parse_app_path_def\<close>)
  have "\<forall>j \<in> set is. j < length a1 \<and> \<not> ap_HasAny (a1 ! j)"
    using Cons.prems a1 by (metis list.set_intros(2))
  then obtain aps where aps: "parse_each ctl is (cp\<lparr>app_paths := a1\<rparr>, d) = Inr (cp\<lparr>app_paths := aps\<rparr>, d)"
    "length aps = length a1" "\<forall>j < length aps. j \<notin> set is \<longrightarrow> aps ! j = a1 ! j"
    "\<forall>j \<in> set is. \<not> ap_HasAny (aps ! j)"
    using Cons.IH [of "cp\<lparr>app_paths := a1\<rparr>"] by auto
  have "\<not> ap_HasAny (aps ! i)"
    using aps a1 Cons.prems by (cases "i \<in> set is") auto
  then show ?case using step aps a1 by (intro exI [of _ aps]) auto
qed

lemma parse_each_wire:
  assumes "io_chain prev ps" and "length (app_paths cp) = n" and "i + length ps \<le> n" and "at_data d"
    and "no_omit ctl" and "\<forall>j. i \<le> j \<and> j < n \<longrightarrow> length (ap_stuff (app_paths cp ! j)) = 7"
    and "\<forall>j. i + length ps \<le> j \<and> j < n \<longrightarrow> \<not> ap_HasAny (app_paths cp ! j)"
    and "case prev of None \<Rightarrow> i = 0 | Some q \<Rightarrow> 0 < i \<and> io_path q \<and> same_path (app_paths cp ! (i - 1)) q"
  shows "\<exists>aps. parse_each ctl [i..<n] (cp, compressed_wire ctl prev ps @ d) = Inr (cp\<lparr>app_paths := aps\<rparr>, d) \<and>
    length aps = n \<and> (\<forall>j < i. aps ! j = app_paths cp ! j) \<and>
    (\<forall>j < length ps. same_path (aps ! (i + j)) (ps ! j)) \<and>
    (\<forall>j. i + length ps \<le> j \<and> j < n \<longrightarrow> \<not> ap_HasAny (aps ! j))"
  using assms(1-3,6-8)
proof (induction ps arbitrary: prev cp i)
  case Nil
  have "\<forall>j \<in> set [i..<n]. j < length (app_paths cp) \<and> \<not> ap_HasAny (app_paths cp ! j)"
    using Nil.prems(2,5) by simp
  from parse_each_at_data [OF assms(4) this, of ctl] obtain aps where
    "parse_each ctl [i..<n] (cp, d) = Inr (cp\<lparr>app_paths := aps\<rparr>, d)" "length aps = n"
    "\<forall>j < n. j \<notin> set [i..<n] \<longrightarrow> aps ! j = app_paths cp ! j" "\<forall>j \<in> set [i..<n]. \<not> ap_HasAny (aps ! j)"
    using Nil.prems(2) by metis
  then show ?case using Nil.prems(3) by (intro exI [of _ aps]) simp
next
  case (Cons cur ps)
  let ?ctl = "omit_ctl ctl prev cur"
  let ?rest = "compressed_wire ctl (Some cur) ps @ d"
  have io: "io_path cur" using Cons.prems(1) by simp
  have stuff: "length (ap_stuff (app_paths cp ! i)) = 7" using Cons.prems(2-4) by simp
  have ends: "path_ends ?ctl cur ?rest"
  proof (cases ps)
    case Nil
    then show ?thesis using at_data_ends_path [OF assms(4)] by (simp add: ends_path_ends)
  next
    case (Cons nxt ps')
    have nxt: "io_path nxt" "ap_has CONN_PT nxt \<Longrightarrow> ap_get CLASS cur = kCipAssemblyClass"
      "\<And>q. prev = Some q \<Longrightarrow> ap_get CLASS q = ap_get CLASS cur \<Longrightarrow> ap_has INSTANCE cur \<Longrightarrow> \<not> ap_has CONN_PT nxt"
      using Cons.prems(1) Cons by auto
    show ?thesis
      using path_ends_next [OF io nxt(1) assms(5) nxt(2,3)] io_path_HasAny [OF nxt(1)] Cons by simp
  qed
  have prevs: "(if i = 0 then None else Some (app_paths cp ! (i - 1))) =
      (case prev of None \<Rightarrow> None | Some q \<Rightarrow> Some (app_paths cp ! (i - 1)))"
    using Cons.prems(6) by (auto split: option.splits)
  obtain p' where p': "DeserializeAppPath ctl (case prev of None \<Rightarrow> None | Some q \<Rightarrow> Some (app_paths cp ! (i - 1)))
      (app_paths cp ! i) (app_path_wire ?ctl cur @ ?rest) = Inr (p', ?rest)" "same_path p' cur"
  proof (cases prev)
    case None
    then show ?thesis
      using parse_canonical_path [OF io_path_canonical [OF io] assms(5) stuff, of ?rest] ends that
      by (auto simp: omit_ctl_def)
  next
    case (Some q)
    then show ?thesis
      using parse_next_path [OF _ io _ _ stuff assms(5), of q] ends Cons.prems(1,6) that by auto
  qed
  have ne: "app_path_wire ?ctl cur \<noteq> []"
  proof -
    obtain k v kvs where "emitted ?ctl cur = (k, v) # kvs"
      using emitted_io_facts(1) [OF io assms(5), of prev] by (cases "emitted ?ctl cur") auto
    then show ?thesis using logical_wire_not_nil by (simp add: app_path_wire_def)
  qed
  let ?cp = "cp\<lparr>app_paths := (app_paths cp)[i := p']\<rparr>"
  have step: "parse_app_path ctl i (cp, compressed_wire ctl prev (cur # ps) @ d) = Inr (?cp, ?rest)"
    using p'(1) ne io_path_HasAny [OF io] by (simp add: parse_app_path_def prevs)
  obtain aps where aps: "parse_each ctl [Suc i..<n] (?cp, ?rest) = Inr (?cp\<lparr>app_paths := aps\<rparr>, d)"
    "length aps = n" "\<forall>j < Suc i. aps ! j = app_paths ?cp ! j"
    "\<forall>j < length ps. same_path (aps ! (Suc i + j)) (ps ! j)"
    "\<forall>j. Suc i + length ps \<le> j \<and> j < n \<longrightarrow> \<not> ap_HasAny (aps ! j)"
    using Cons.IH [of "Some cur" ?cp "Suc i"] Cons.prems io p'(2) by auto
  have "same_path (aps ! (i + j)) ((cur # ps) ! j)" if "j < length (cur # ps)" for j
    using that aps(3,4) p'(2) Cons.prems(2,3) by (cases j) auto
  moreover have "[i..<n] = i # [Suc i..<n]" using Cons.prems(3) by (simp add: upt_conv_Cons)
  ultimately show ?case using step aps by (intro exI [of _ aps]) auto
qed

lemma ends_group_compressed:
  assumes "io_chain prev ps" and "at_data d" and "no_omit ctl"
  shows "ends_group (compressed_wire ctl prev ps @ d)"
proof (cases ps)
  case Nil
  then show ?thesis using assms(2) by (auto simp: at_data_def ends_group_def)
next
  case (Cons cur ps')
  let ?ctl = "omit_ctl ctl prev cur"
  have io: "io_path cur" using assms(1) Cons by simp
  note facts = emitted_io_facts [OF io assms(3), of prev]
  obtain k v kvs where kvs: "emitted ?ctl cur = (k, v) # kvs" using facts(1) by (cases "emitted ?ctl cur") auto
  have k: "k < 4" "k < 7" "v < 65536" using facts(2,4) by (simp_all add: kvs)
  obtain h body where h: "logical_wire ?ctl (seg_of k) v = h # body" "h AND 0xfc = seg_of k"
    by (rule deserialize_logical_wire [OF k(3,2), of ?ctl]) (rule that)
  have "k \<in> {0, 1, 2, 3}" using k(1) by auto
  then have seg: "seg_of k \<in> {0x20, 0x24, 0x2C, 0x30}" by auto
  have "h AND 0xe0 = (h AND 0xfc) AND 0xe0" by (simp add: and.assoc)
  then have "h AND 0xe0 \<noteq> 0" using seg h(2) by auto
  moreover have "h \<notin> {0x34, 0x43, 0x51}" using seg h(2) by auto
  moreover have "\<not> ap_has TAG cur" using io by (simp add: io_path_def)
  ultimately show ?thesis
    using io_path_HasAny [OF io] by (simp add: Cons ends_group_def app_path_wire_def kvs h(1))
qed

text \<open>Connection paths whose serialization the parser understands, and paths that the rest of the code
  cannot tell apart.\<close>

definition ok_conn_path :: "conn_path \<Rightarrow> bool" where
  "ok_conn_path cp \<longleftrightarrow>
     ok_group (port_segs cp) \<and> length (app_paths cp) = 3 \<and>
     io_chain None (takeWhile ap_HasAny (app_paths cp)) \<and>
     list_all (\<lambda>p. \<not> ap_HasAny p) (dropWhile ap_HasAny (app_paths cp)) \<and>
     (if ds_HasAny (data_seg cp) then ok_data (data_seg cp) else data_seg cp = ds_empty)"

definition same_conn_path :: "conn_path \<Rightarrow> conn_path \<Rightarrow> bool" where
  "same_conn_path a b \<longleftrightarrow>
     same_group (port_segs a) (port_segs b) \<and> length (app_paths a) = length (app_paths b) \<and>
     list_all2 same_path (app_paths a) (app_paths b) \<and> data_seg a = data_seg b"

definition wf_conn_path :: "conn_path \<Rightarrow> bool" where
  "wf_conn_path cp \<longleftrightarrow> length (app_paths cp) = 3 \<and> list_all (\<lambda>p. length (ap_stuff p) = 7) (app_paths cp)"

lemma compressed_wire_prefix:
  "list_all (\<lambda>p. \<not> ap_HasAny p) (dropWhile ap_HasAny ps) \<Longrightarrow>
   compressed_wire ctl prev (takeWhile ap_HasAny ps) = compressed_wire ctl prev ps"
proof (induction ctl prev ps rule: compressed_wire.induct)
  case (2 ctl prev cur ps)
  have "list_all (\<lambda>p. \<not> ap_HasAny p) qs \<Longrightarrow> compressed_wire ctl prev qs = []" for qs
    by (induction qs) simp_all
  then show ?case using 2 by auto
qed simp

lemma group_wire_none: "\<not> pg_HasAny g \<Longrightarrow> group_wire ctl g = []"
  by (simp add: pg_HasAny_def group_wire_def pg_has_def)

lemma same_no_path:
  assumes "\<not> ap_HasAny p" and "\<not> ap_HasAny q"
  shows "same_path p q"
proof -
  have "\<not> ap_has k p" "\<not> ap_has k q" for k using assms by (simp_all add: ap_HasAny_def ap_has_def)
  then show ?thesis by (simp add: same_path_def GetSymbol_def ap_view_def fun_eq_iff)
qed

lemma ConnectionPath_Deserialize_each:
  "ConnectionPath_Deserialize ctl cp inp =
     bindE (rethrow
       (bindE (parse_port_segs ctl (ConnPath_Clear cp, inp)) (\<lambda>x.
        bindE (parse_each ctl [0..<3] x) parse_data_seg))) (\<lambda>(cp, r).
     if r = [] then Inr cp
     else if length r = 1 \<and> even (length inp) then Inr cp
     else Inl Runtime_error)"
proof -
  have "[0..<3] = [0, 1, 2 :: nat]" by (simp add: upt_rec)
  moreover have "parse_each ctl [] = Inr" "parse_each ctl (i # is) = (\<lambda>x. bindE (parse_app_path ctl i x) (parse_each ctl is))"
    for i "is" by (rule ext, simp)+
  ultimately have "parse_each ctl [0..<3] x =
      bindE (parse_app_path ctl 0 x) (\<lambda>x. bindE (parse_app_path ctl 1 x) (parse_app_path ctl 2))" for x
    by (simp only: bindE_Inr)
  then show ?thesis by (simp only: ConnectionPath_Deserialize_def bindE_assoc)
qed

lemma ConnectionPath_Deserialize_wire:
  assumes "ok_conn_path cp" and "wf_conn_path cp0" and "no_omit ctl"
  shows "\<exists>cp'. ConnectionPath_Deserialize ctl cp0 (conn_path_wire ctl cp) = Inr cp' \<and> same_conn_path cp' cp \<and>
    config_path cp' = config_path cp0 \<and> consuming_path cp' = consuming_path cp0 \<and>
    producing_path cp' = producing_path cp0"
proof -
  define ps where "ps = takeWhile ap_HasAny (app_paths cp)"
  define d where "d = (if ds_HasAny (data_seg cp) then data_wire (data_seg cp) else [])"
  define g where "g = port_segs cp"
  let ?inp = "conn_path_wire ctl cp" and ?rest = "compressed_wire ctl None ps @ d"
  let ?clear = "ConnPath_Clear cp0"
  have ok: "ok_group g" "io_chain None ps" "length (app_paths cp) = 3"
    "list_all (\<lambda>p. \<not> ap_HasAny p) (dropWhile ap_HasAny (app_paths cp))"
    using assms(1) by (simp_all add: ok_conn_path_def ps_def g_def)
  have d: "at_data d" by (simp add: at_data_def data_wire_def d_def)
  have wire: "?inp = group_wire ctl g @ ?rest"
    by (simp add: conn_path_wire_def compressed_wire_prefix [OF ok(4)] group_wire_none ps_def d_def g_def)
  define g' where "g' = (if ?inp = [] then pg_Clear (port_segs cp0) else group_parsed (pg_Clear (port_segs cp0)) g)"
  have "DeserializePortSegmentGroup ctl (pg_Clear (port_segs cp0)) ?inp =
      Inr (Go (group_parsed (pg_Clear (port_segs cp0)) g) ?rest)"
    unfolding wire by (rule DeserializePortSegmentGroup_wire [OF ok(1) ends_group_compressed [OF ok(2) d assms(3)]])
  moreover have "?inp = [] \<Longrightarrow> ?rest = []" by (simp add: wire)
  ultimately have segs: "parse_port_segs ctl (?clear, ?inp) = Inr (?clear\<lparr>port_segs := g'\<rparr>, ?rest)"
    by (cases "?inp = []") (simp_all add: parse_port_segs_def g'_def ConnPath_Clear_def)
  have group: "same_group g' g"
  proof (cases "?inp = []")
    case True
    then have "group_wire ctl g = []" by (simp add: wire)
    then have "\<not> pg_has KEY g" "\<not> pg_has PIT_USECS g" "\<not> pg_has PIT_MSECS g" "\<not> pg_has PORT g"
      using port_wire_head(1) [of "pg_port g" ctl] ok(1)
      by (auto simp: group_wire_def ok_group_def key_wire_def split: if_splits)
    moreover have "k < 4 \<Longrightarrow> k \<in> {KEY, PIT_USECS, PIT_MSECS, PORT}" for k :: nat by auto
    ultimately have "\<not> pg_has k g" if "k < 4" for k using that by blast
    then show ?thesis using True by (simp add: same_group_def g'_def GetPIT_USecs_def HasPIT_def)
  qed (simp add: g'_def group_parsed_same [OF ok(1)])
  let ?cp1 = "?clear\<lparr>port_segs := g'\<rparr>"
  have cp1: "length (app_paths ?cp1) = 3" "\<forall>j. 0 \<le> j \<and> j < 3 \<longrightarrow> length (ap_stuff (app_paths ?cp1 ! j)) = 7"
    "\<forall>j. 0 + length ps \<le> j \<and> j < 3 \<longrightarrow> \<not> ap_HasAny (app_paths ?cp1 ! j)"
    using assms(2) by (auto simp: wf_conn_path_def ConnPath_Clear_def ap_Clear_def ap_HasAny_def list_all_length)
  have len: "length ps \<le> 3" using ok(3) length_takeWhile_le [of ap_HasAny "app_paths cp"] by (simp add: ps_def)
  obtain aps where aps: "parse_each ctl [0..<3] (?cp1, ?rest) = Inr (?cp1\<lparr>app_paths := aps\<rparr>, d)"
    "length aps = 3" "\<forall>j < length ps. same_path (aps ! j) (ps ! j)"
    "\<forall>j. length ps \<le> j \<and> j < 3 \<longrightarrow> \<not> ap_HasAny (aps ! j)"
    using parse_each_wire [OF ok(2) cp1(1) _ d assms(3) cp1(2,3)] len by auto
  have "same_path (aps ! j) (app_paths cp ! j)" if "j < 3" for j
  proof (cases "j < length ps")
    case True
    then show ?thesis using aps(3) unfolding ps_def by (metis takeWhile_nth)
  next
    case False
    then have "app_paths cp ! j = dropWhile ap_HasAny (app_paths cp) ! (j - length ps)"
      using len that ok(3) by (simp add: ps_def dropWhile_eq_drop nth_drop)
    moreover have "j - length ps < length (dropWhile ap_HasAny (app_paths cp))"
      using False that ok(3) by (simp add: ps_def dropWhile_eq_drop)
    ultimately have "\<not> ap_HasAny (app_paths cp ! j)" using ok(4) by (simp add: list_all_length)
    then show ?thesis using aps(4) False that by (intro same_no_path) auto
  qed
  then have paths: "list_all2 same_path aps (app_paths cp)"
    using aps(2) ok(3) by (simp add: list_all2_conv_all_nth)
  have "data_seg ?cp1 = ds_empty" by (simp add: ConnPath_Clear_def)
  have data: "parse_data_seg (?cp1\<lparr>app_paths := aps\<rparr>, d) = Inr (?cp1\<lparr>app_paths := aps, data_seg := data_seg cp\<rparr>, [])"
    using assms(1) DeserializeDataSegment_wire [of "data_seg cp" "[]"]
    by (auto simp: d_def parse_data_seg_def ok_conn_path_def ConnPath_Clear_def data_wire_def)
  have "ConnectionPath_Deserialize ctl cp0 ?inp = Inr (?cp1\<lparr>app_paths := aps, data_seg := data_seg cp\<rparr>)"
    unfolding ConnectionPath_Deserialize_each segs bindE_simps aps(1) data by (simp add: rethrow_def)
  then show ?thesis
    using group paths aps(2) ok(3) by (simp add: same_conn_path_def g_def ConnPath_Clear_def)
qed

end
