(* ===== verification/Conn_Data.thy ===== *)
theory Conn_Data
  imports Conn_Path Cip_Class Mr_Message
begin

unbundle bit_operations_syntax

text \<open>
  \<open>ConnectionData\<close> of \<open>cip/cipconnection.h\<close> and \<open>cip/cipconnection.cc\<close>: the parameters of a connection
  as a forward open request carries them, and the checks a target makes of them.

  An instance is the pair of its class id and its id, as in theory \<open>Cip_Class\<close>. The constants of the
  user's configuration header, the vendor and the serial number of the device are a record \<open>user_conf\<close>.
  \<open>AssemblyInstance::SizeBytes\<close> is an argument of the one function that calls it.
\<close>

section \<open>The data\<close>

type_synonym inst = "int \<times> int"

datatype rt_fmt =
    kRealTimeFmtModeless | kRealTimeFmtZeroLengthData | kRealTimeFmtHeartbeat
  | kRealTimeFmt32BitHeader | kRealTimeSafety

record user_conf =
  produced_run_idle :: bool
  consumed_run_idle :: bool
  timer_tick_usecs :: u32
  conf_vendor_id :: u16
  conf_serial_number :: u32

record conn_data =
  connection_serial_number :: u16
  originator_vendor_id :: u16
  originator_serial_number :: u32
  trigger :: u8
  priority_timetick :: u8
  timeout_ticks :: u8
  timeout_multiplier_value :: u8
  consuming_RPI_usecs :: u32
  consuming_ncp :: net_params
  consuming_connection_id :: u32
  producing_RPI_usecs :: u32
  producing_ncp :: net_params
  producing_connection_id :: u32
  conn_path :: conn_path
  corrected_consuming_size :: u16
  corrected_producing_size :: u16
  consuming_instance :: "inst option"
  producing_instance :: "inst option"
  config_instance :: "inst option"
  mgmnt_class :: int
  consuming_fmt :: rt_fmt
  producing_fmt :: rt_fmt

definition ConnectionPath :: "u32 list \<Rightarrow> conn_path" where
  "ConnectionPath garbage =
    \<lparr>port_segs = \<lparr>pg_pbits = 0,
       pg_key = \<lparr>vendor_id = -1, device_type = -1, product_code = -1, major_revision = -1, minor_revision = -1\<rparr>,
       pg_port = Port_Clear, pit_usecs = 0\<rparr>,
     app_paths = replicate 3 (new_app_path garbage), data_seg = ds_empty,
     config_path = 0, consuming_path = 1, producing_path = 2\<rparr>"

text \<open>The constructor with its default arguments.\<close>

definition ConnectionData :: "user_conf \<Rightarrow> u32 list \<Rightarrow> conn_data" where
  "ConnectionData conf garbage =
    \<lparr>connection_serial_number = 0, originator_vendor_id = conf_vendor_id conf,
     originator_serial_number = conf_serial_number conf, trigger = 0, priority_timetick = 0,
     timeout_ticks = 0, timeout_multiplier_value = 0,
     consuming_RPI_usecs = 0, consuming_ncp = Ncp_Clear, consuming_connection_id = 0,
     producing_RPI_usecs = 0, producing_ncp = Ncp_Clear, producing_connection_id = 0,
     conn_path = ConnectionPath garbage,
     corrected_consuming_size = 0, corrected_producing_size = 0,
     consuming_instance = None, producing_instance = None, config_instance = None, mgmnt_class = 0,
     consuming_fmt = (if consumed_run_idle conf then kRealTimeFmt32BitHeader else kRealTimeFmtModeless),
     producing_fmt = (if produced_run_idle conf then kRealTimeFmt32BitHeader else kRealTimeFmtModeless)\<rparr>"

text \<open>\<open>Clear\<close> leaves the formats and the three indices of the path alone.\<close>

definition ConnData_Clear :: "user_conf \<Rightarrow> conn_data \<Rightarrow> conn_data" where
  "ConnData_Clear conf d = d\<lparr>connection_serial_number := 0, originator_vendor_id := conf_vendor_id conf,
     originator_serial_number := conf_serial_number conf, trigger := 0, priority_timetick := 0,
     timeout_ticks := 0, timeout_multiplier_value := 0,
     consuming_RPI_usecs := 0, consuming_ncp := Ncp_Clear, consuming_connection_id := 0,
     producing_RPI_usecs := 0, producing_ncp := Ncp_Clear, producing_connection_id := 0,
     conn_path := ConnPath_Clear (conn_path d),
     corrected_consuming_size := 0, corrected_producing_size := 0,
     consuming_instance := None, producing_instance := None, config_instance := None, mgmnt_class := 0\<rparr>"

definition TriadEquals :: "conn_data \<Rightarrow> conn_data \<Rightarrow> bool" where
  "TriadEquals a b \<longleftrightarrow> connection_serial_number a = connection_serial_number b \<and>
     originator_vendor_id a = originator_vendor_id b \<and>
     originator_serial_number a = originator_serial_number b"

definition OriginatorEquals :: "conn_data \<Rightarrow> conn_data \<Rightarrow> bool" where
  "OriginatorEquals a b \<longleftrightarrow> originator_vendor_id a = originator_vendor_id b \<and>
     originator_serial_number a = originator_serial_number b"

section \<open>Timeouts\<close>

definition TickTime :: "conn_data \<Rightarrow> u8" where
  "TickTime d = priority_timetick d AND 0xf"

definition SetTickTime :: "u8 \<Rightarrow> conn_data \<Rightarrow> conn_data" where
  "SetTickTime t d = d\<lparr>priority_timetick := (priority_timetick d AND NOT 0xf) OR t\<rparr>"

definition RequestMSecs :: "u32 \<Rightarrow> u32 \<Rightarrow> u32" where
  "RequestMSecs tick_time tick_count = push_bit (unat tick_time) 1 * tick_count"

definition OriginatorTimeoutMSecs :: "conn_data \<Rightarrow> u32" where
  "OriginatorTimeoutMSecs d = RequestMSecs (ucast (TickTime d)) (ucast (timeout_ticks d))"

text \<open>The loop over tick times, from \<open>t\<close> on with \<open>n\<close> rounds left.\<close>

fun find_tick_time :: "nat \<Rightarrow> u32 \<Rightarrow> u32 \<Rightarrow> u32" where
  "find_tick_time 0 t ms = t"
| "find_tick_time (Suc n) t ms = (if RequestMSecs t 255 \<ge> ms then t else find_tick_time n (t + 1) ms)"

definition SetOriginatorTimeoutMSecs :: "u32 \<Rightarrow> conn_data \<Rightarrow> conn_data" where
  "SetOriginatorTimeoutMSecs ms d =
    (let tick_time = find_tick_time 16 0 ms;
         time_per_tick = push_bit (unat tick_time) 1;
         tick_counts = (ms + time_per_tick - 1) div time_per_tick
     in (SetTickTime (ucast tick_time) d)\<lparr>timeout_ticks := ucast tick_counts\<rparr>)"

text \<open>\<open>while( m ) { ++value;  m >>= 1; }\<close>\<close>

lemma half_smaller: "m \<noteq> 0 \<Longrightarrow> unat (drop_bit (Suc 0) (m :: u32)) < unat m"
  by (simp add: drop_bit_eq_div unat_div word_neq_0_conv unat_gt_0)

function count_shifts :: "u8 \<Rightarrow> u32 \<Rightarrow> u8" where
  "count_shifts value m = (if m = 0 then value else count_shifts (value + 1) (drop_bit 1 m))"
  by pat_completeness auto

termination
  by (relation "measure (\<lambda>(value, m). unat m)") (simp, use half_smaller in simp)

declare count_shifts.simps [simp del]

definition SetTimeoutMultiplier :: "u32 \<Rightarrow> conn_data \<Rightarrow> conn_data" where
  "SetTimeoutMultiplier multiplier d =
     d\<lparr>timeout_multiplier_value := count_shifts 0 (drop_bit 3 multiplier)\<rparr>"

definition TimeoutMultiplier :: "conn_data \<Rightarrow> u32" where
  "TimeoutMultiplier d = push_bit (2 + unat (timeout_multiplier_value d)) 1"

section \<open>Requests\<close>

text \<open>What a target reads is from its own point of view: the originator's O-to-T half is its consuming
  half.\<close>

definition get_ncp :: "bool \<Rightarrow> byte list \<Rightarrow> (net_params \<times> byte list) res" where
  "get_ncp is_large r =
     bindE (if is_large then get32 r else bindE (get16 r) (\<lambda>(v, r). Inr (ucast v, r))) (\<lambda>(v, r).
     Inr (Ncp_Set v is_large, r))"

definition DeserializeForwardOpenRequest ::
    "bool \<Rightarrow> conn_data \<Rightarrow> byte list \<Rightarrow> (conn_data \<times> byte list) res" where
  "DeserializeForwardOpenRequest is_large d r =
     bindE (get8 r) (\<lambda>(tick, r).
     bindE (get8 r) (\<lambda>(ticks, r).
     bindE (get32 r) (\<lambda>(cid, r).
     bindE (get32 r) (\<lambda>(pid, r).
     bindE (get16 r) (\<lambda>(serial, r).
     bindE (get16 r) (\<lambda>(vendor, r).
     bindE (get32 r) (\<lambda>(orig_serial, r).
     bindE (get8 r) (\<lambda>(multiplier, r).
     bindE (r_advance r 3) (\<lambda>r.
     bindE (get32 r) (\<lambda>(c_rpi, r).
     bindE (get_ncp is_large r) (\<lambda>(c_ncp, r).
     bindE (get32 r) (\<lambda>(p_rpi, r).
     bindE (get_ncp is_large r) (\<lambda>(p_ncp, r).
     bindE (get8 r) (\<lambda>(trig, r).
     Inr (d\<lparr>priority_timetick := tick, timeout_ticks := ticks, consuming_connection_id := cid,
            producing_connection_id := pid, connection_serial_number := serial,
            originator_vendor_id := vendor, originator_serial_number := orig_serial,
            timeout_multiplier_value := multiplier, consuming_RPI_usecs := c_rpi, consuming_ncp := c_ncp,
            producing_RPI_usecs := p_rpi, producing_ncp := p_ncp, trigger := trig\<rparr>, r)))))))))))))))"

definition DeserializeForwardCloseRequest :: "conn_data \<Rightarrow> byte list \<Rightarrow> (conn_data \<times> byte list) res" where
  "DeserializeForwardCloseRequest d r =
     bindE (get8 r) (\<lambda>(tick, r).
     bindE (get8 r) (\<lambda>(ticks, r).
     bindE (get16 r) (\<lambda>(serial, r).
     bindE (get16 r) (\<lambda>(vendor, r).
     bindE (get32 r) (\<lambda>(orig_serial, r).
     Inr (d\<lparr>priority_timetick := tick, timeout_ticks := ticks, connection_serial_number := serial,
            originator_vendor_id := vendor, originator_serial_number := orig_serial\<rparr>, r))))))"

definition DeserializeConnectionPath :: "conn_data \<Rightarrow> byte list \<Rightarrow> conn_data res" where
  "DeserializeConnectionPath d r =
     bindE (ConnectionPath_Deserialize 0 (conn_path d) r) (\<lambda>cp. Inr (d\<lparr>conn_path := cp\<rparr>))"

text \<open>\<open>*cpathz_loc = byte_count / 2\<close>.\<close>

definition store8 :: "nat \<Rightarrow> byte \<Rightarrow> writer \<Rightarrow> writer" where
  "store8 p v w = w\<lparr>w_mem := (w_mem w)[p := v]\<rparr>"

definition put_conn_path :: "u32 \<Rightarrow> bool \<Rightarrow> conn_path \<Rightarrow> writer \<Rightarrow> writer res" where
  "put_conn_path ctl reserved cp w =
     bindE (w_advance w 1) (\<lambda>w1.
     bindE (if reserved then put8 w1 0 else Inr w1) (\<lambda>w2.
     bindE (ConnectionPath_Serialize ctl w2 cp) (\<lambda>w3.
     Inr (store8 (w_pos w) (of_nat (w_count w2 w3 div 2)) w3))))"

text \<open>The writer is an originator, whose producing half is O-to-T.\<close>

definition ConnectionData_Serialize :: "u32 \<Rightarrow> writer \<Rightarrow> conn_data \<Rightarrow> writer res" where
  "ConnectionData_Serialize ctl out d =
    (if CTL_FORWARD_OPEN ctl then
       bindE (put8 out (priority_timetick d)) (\<lambda>w.
       bindE (put8 w (timeout_ticks d)) (\<lambda>w.
       bindE (put32 w (producing_connection_id d)) (\<lambda>w.
       bindE (put32 w (consuming_connection_id d)) (\<lambda>w.
       bindE (put16 w (connection_serial_number d)) (\<lambda>w.
       bindE (put16 w (originator_vendor_id d)) (\<lambda>w.
       bindE (put32 w (originator_serial_number d)) (\<lambda>w.
       bindE (put8 w (timeout_multiplier_value d)) (\<lambda>w.
       bindE (fill w 3 0) (\<lambda>w.
       bindE (put32 w (producing_RPI_usecs d)) (\<lambda>w.
       bindE (Ncp_Serialize w (producing_ncp d)) (\<lambda>w.
       bindE (put32 w (consuming_RPI_usecs d)) (\<lambda>w.
       bindE (Ncp_Serialize w (consuming_ncp d)) (\<lambda>w.
       bindE (put8 w (trigger d)) (\<lambda>w.
       if \<not> CTL_OMIT_CONN_PATH ctl then put_conn_path ctl False (conn_path d) w else Inr w))))))))))))))
     else if CTL_FORWARD_CLOSE ctl then
       bindE (put8 out (priority_timetick d)) (\<lambda>w.
       bindE (put8 w (timeout_ticks d)) (\<lambda>w.
       bindE (put16 w (connection_serial_number d)) (\<lambda>w.
       bindE (put16 w (originator_vendor_id d)) (\<lambda>w.
       bindE (put32 w (originator_serial_number d)) (\<lambda>w.
       if \<not> CTL_OMIT_CONN_PATH ctl then put_conn_path ctl True (conn_path d) w else Inr w)))))
     else Inr out)"

definition ConnectionData_SerializedCount :: "u32 \<Rightarrow> conn_data \<Rightarrow> nat res" where
  "ConnectionData_SerializedCount ctl d =
     bindE (if CTL_FORWARD_OPEN ctl then
              bindE (ConnectionPath_SerializedCount ctl (conn_path d)) (\<lambda>n.
              Inr (31 + Ncp_SerializedCount (consuming_ncp d) + Ncp_SerializedCount (producing_ncp d) + 1 + n))
            else Inr 0) (\<lambda>count.
     if CTL_FORWARD_CLOSE ctl then
       bindE (ConnectionPath_SerializedCount ctl (conn_path d)) (\<lambda>n. Inr (count + 12 + n))
     else Inr count)"

section \<open>The timeouts that are set\<close>

lemma count_shifts_bits:
  "\<exists>j. count_shifts v m = v + of_nat j \<and> unat m < 2 ^ j \<and> (if unat m = 0 then j = 0 else 0 < j \<and> 2 ^ (j - 1) \<le> unat m)"
proof (induction v m rule: count_shifts.induct)
  case (1 v m)
  show ?case
  proof (cases "m = 0")
    case True then show ?thesis by (simp add: count_shifts.simps [of v])
  next
    case False
    have half: "unat (drop_bit 1 m) = unat m div 2" by (simp add: drop_bit_eq_div unat_div)
    obtain j where j: "count_shifts (v + 1) (drop_bit 1 m) = v + 1 + of_nat j" "unat m div 2 < 2 ^ j"
        "if unat m div 2 = 0 then j = 0 else 0 < j \<and> 2 ^ (j - 1) \<le> unat m div 2"
      using 1 [OF False] unfolding half by blast
    have c: "count_shifts v m = v + of_nat (Suc j)"
      unfolding count_shifts.simps [of v m] using False j(1) by simp
    have hi: "unat m < 2 ^ Suc j" using j(2) by simp
    have pos: "0 < unat m" using False by (simp add: unat_gt_0)
    have "2 ^ j \<le> unat m"
    proof (cases "unat m div 2 = 0")
      case True then have "j = 0" using j(3) by argo
      then show ?thesis using pos by simp
    next
      case False
      then have k: "0 < j" "2 ^ (j - 1) \<le> unat m div 2" using j(3) by argo+
      then have "(2::nat) ^ j = 2 * 2 ^ (j - 1)" by (simp flip: power_Suc)
      then show ?thesis using k(2) by linarith
    qed
    then have "count_shifts v m = v + of_nat (Suc j) \<and> unat m < 2 ^ Suc j \<and>
        (if unat m = 0 then Suc j = 0 else 0 < Suc j \<and> 2 ^ (Suc j - 1) \<le> unat m)"
      using c hi pos by simp
    then show ?thesis by blast
  qed
qed

lemma unat_push_1:
  assumes "k < 32"
  shows "unat (push_bit k 1 :: u32) = 2 ^ k"
proof -
  have "(push_bit k 1 :: u32) = of_nat (2 ^ k)" by (simp add: push_bit_eq_mult)
  moreover have "(2::nat) ^ k < 2 ^ 32" using assms by (intro power_strict_increasing) simp_all
  ultimately show ?thesis by (simp only: unat_of_nat) simp
qed

text \<open>The multiplier in effect is the power of two at or below the one that was asked for.\<close>

lemma multiplier_rounds_down:
  assumes "4 \<le> unat m"
  shows "unat (TimeoutMultiplier (SetTimeoutMultiplier m d)) \<le> unat m \<and>
    unat m < 2 * unat (TimeoutMultiplier (SetTimeoutMultiplier m d))"
proof -
  let ?n = "unat (drop_bit 3 m)"
  have n: "?n = unat m div 8" by (simp add: drop_bit_eq_div unat_div)
  obtain j where j: "count_shifts 0 (drop_bit 3 m) = of_nat j" "?n < 2 ^ j"
      "if ?n = 0 then j = 0 else 0 < j \<and> 2 ^ (j - 1) \<le> ?n"
    using count_shifts_bits [of 0 "drop_bit 3 m"] by auto
  have m: "unat m < 2 ^ 32" using unsigned_less [of m] by simp
  have le: "2 ^ (2 + j) \<le> unat m" and j29: "j \<le> 29"
  proof -
    show "2 ^ (2 + j) \<le> unat m"
    proof (cases "?n = 0")
      case True then show ?thesis using j(3) assms by simp
    next
      case False
      then have k: "0 < j" "2 ^ (j - 1) \<le> unat m div 8" using j(3) n by auto
      then have "(2::nat) ^ (2 + j) = 8 * 2 ^ (j - 1)" by (cases j) simp_all
      then show ?thesis using k(2) by linarith
    qed
    then have "(2::nat) ^ (2 + j) < 2 ^ 32" using m by linarith
    then have "2 + j < 32" by (rule power_less_imp_less_exp [rotated]) simp
    then show "j \<le> 29" by simp
  qed
  have "unat (of_nat j :: u8) = j" using j29 by (simp add: unat_of_nat)
  then have tm: "unat (TimeoutMultiplier (SetTimeoutMultiplier m d)) = 2 ^ (2 + j)"
    using j29 unat_push_1 [of "2 + j"] by (simp add: TimeoutMultiplier_def SetTimeoutMultiplier_def j(1))
  have "unat m < 8 * 2 ^ j" using j(2) n by linarith
  then show ?thesis using le by (simp add: tm)
qed

lemma unat_RequestMSecs:
  assumes "t < 16" and "unat c < 2 ^ 16"
  shows "unat (RequestMSecs (of_nat t) c) = 2 ^ t * unat c"
proof -
  have t: "unat (of_nat t :: u32) = t" using assms(1) by (simp add: unat_of_nat)
  have "(2::nat) ^ t \<le> 2 ^ 15" using assms(1) by (intro power_increasing) simp_all
  then have "2 ^ t * unat c \<le> 2 ^ 15 * (2 ^ 16 - 1)" using assms(2) by (intro mult_le_mono) simp_all
  then have "2 ^ t * unat c < 2 ^ 32" by (rule le_less_trans) simp
  then show ?thesis
    using unat_push_1 [of t] assms(1) by (simp only: RequestMSecs_def t unat_word_ariths(2)) simp
qed

lemma find_tick_time_spec:
  assumes "t + n \<le> 16" and "0 < n" and "unat ms \<le> 2 ^ (t + n - 1) * 255"
  shows "\<exists>k. find_tick_time n (of_nat t) ms = of_nat k \<and> t \<le> k \<and> k < t + n \<and> unat ms \<le> 2 ^ k * 255 \<and>
    (\<forall>j. t \<le> j \<and> j < k \<longrightarrow> 2 ^ j * 255 < unat ms)"
  using assms
proof (induction n arbitrary: t)
  case 0 then show ?case by simp
next
  case (Suc n)
  have r: "RequestMSecs (of_nat t) 255 \<ge> ms \<longleftrightarrow> unat ms \<le> 2 ^ t * 255"
    using unat_RequestMSecs [of t 255] Suc.prems(1) by (simp add: word_le_nat_alt)
  show ?case
  proof (cases "unat ms \<le> 2 ^ t * 255")
    case True
    then have "find_tick_time (Suc n) (of_nat t) ms = of_nat t" using r by simp
    with True show ?thesis by (intro exI [of _ t]) simp
  next
    case False
    then have n: "0 < n" using Suc.prems(3) by (cases n) simp_all
    have s: "find_tick_time (Suc n) (of_nat t) ms = find_tick_time n (of_nat (Suc t)) ms"
      using r False by (simp add: add.commute)
    obtain k where k: "find_tick_time n (of_nat (Suc t)) ms = of_nat k" "Suc t \<le> k" "k < Suc t + n"
        "unat ms \<le> 2 ^ k * 255" "\<forall>j. Suc t \<le> j \<and> j < k \<longrightarrow> 2 ^ j * 255 < unat ms"
      using Suc.IH [of "Suc t"] Suc.prems n by auto
    have "2 ^ j * 255 < unat ms" if "t \<le> j" "j < k" for j
      using that False k(5) by (cases "j = t") auto
    then show ?thesis using k s by (intro exI [of _ k]) auto
  qed
qed

lemma bit_u8 [simp]: "bit (15 :: u8) i \<longleftrightarrow> i < 4" "bit (128 :: u8) i \<longleftrightarrow> i = 7"
proof -
  have 1: "(15 :: u8) = mask 4" by (simp add: mask_eq_exp_minus_1)
  have "bit (mask 4 :: u8) i \<longleftrightarrow> i < 4" by (auto simp: bit_mask_iff)
  then show "bit (15 :: u8) i \<longleftrightarrow> i < 4" by (simp only: 1)
  have 2: "(128 :: u8) = 2 ^ 7" by simp
  have "bit (2 ^ 7 :: u8) i \<longleftrightarrow> i = 7" unfolding bit_exp_iff by auto
  then show "bit (128 :: u8) i \<longleftrightarrow> i = 7" by (simp only: 2)
qed

lemma TickTime_set:
  assumes "k < 16"
  shows "TickTime (SetTickTime (of_nat k) d) = of_nat k"
proof (rule bit_word_eqI)
  fix i assume i: "i < LENGTH(8)"
  have "(of_nat k :: u8) = take_bit 4 (of_nat k)"
    using assms by (simp only: take_bit_of_nat) (simp add: take_bit_nat_eq_self)
  then have "bit (of_nat k :: u8) i \<Longrightarrow> i < 4" by (metis bit_take_bit_iff)
  moreover have t: "TickTime (SetTickTime x d) = ((priority_timetick d AND NOT 15) OR x) AND 15" for x
    by (simp add: TickTime_def SetTickTime_def)
  ultimately show "bit (TickTime (SetTickTime (of_nat k) d)) i = bit (of_nat k :: u8) i"
    using i unfolding t bit_and_iff bit_or_iff bit_not_iff bit_u8 by auto
qed

lemma originator_timeout:
  fixes ms :: u32 and d :: conn_data
  assumes "unat ms \<le> 2 ^ 15 * 255"
  defines "d' \<equiv> SetOriginatorTimeoutMSecs ms d"
  shows "unat ms \<le> unat (OriginatorTimeoutMSecs d') \<and>
    unat (OriginatorTimeoutMSecs d') < unat ms + 2 ^ unat (TickTime d') \<and>
    (\<forall>j < unat (TickTime d'). 2 ^ j * 255 < unat ms)"
proof -
  obtain k where k: "find_tick_time 16 0 ms = of_nat k" "k < 16" "unat ms \<le> 2 ^ k * 255"
      "\<forall>j<k. 2 ^ j * 255 < unat ms"
    using find_tick_time_spec [of 0 16 ms] assms(1) by auto
  let ?p = "2 ^ k :: nat"
  have p: "?p \<le> 2 ^ 15" "0 < ?p" using power_increasing [of k 15 "2::nat"] k(2) by simp_all
  have push: "unat (push_bit k 1 :: u32) = ?p" using unat_push_1 [of k] k(2) by simp
  have ku: "unat (of_nat k :: u32) = k" "unat (of_nat k :: u8) = k" using k(2) by (simp_all add: unat_of_nat)
  let ?c = "(unat ms + ?p - 1) div ?p"
  let ?cw = "(ms + push_bit k 1 - 1) div push_bit k 1 :: u32"
  have "unat (ms + push_bit k 1 :: u32) = unat ms + ?p"
    unfolding unat_word_ariths(1) push using assms(1) p(1) by simp
  then have "unat (ms + push_bit k 1 - 1 :: u32) = unat ms + ?p - 1"
    using p(2) by (subst unat_minus_one) (auto simp: unat_eq_zero [symmetric])
  then have cw: "unat ?cw = ?c" by (simp only: unat_div push)
  have "unat ms + ?p - 1 < 256 * ?p" using k(3) p(2) by linarith
  then have c: "?c < 256" by (simp add: div_less_iff_less_mult p(2))
  note ucast = unsigned_ucast_eq unsigned_take_bit_eq take_bit_nat_eq_self
  have u: "(ucast (of_nat k :: u32) :: u8) = of_nat k" using k(2) by (simp add: ku ucast word_unat_eq_iff)
  have u': "(ucast (of_nat k :: u8) :: u32) = of_nat k" using k(2) by (simp add: ku ucast word_unat_eq_iff)
  have tick: "TickTime d' = of_nat k"
    using TickTime_set [OF k(2), of d]
    by (simp add: d'_def SetOriginatorTimeoutMSecs_def Let_def k(1) u TickTime_def)
  have ticks: "unat (timeout_ticks d') = ?c"
  proof -
    have "timeout_ticks d' = ucast ?cw"
      by (simp only: d'_def SetOriginatorTimeoutMSecs_def Let_def k(1) ku) simp
    then show ?thesis using c cw by (simp only: ucast) (simp add: take_bit_nat_eq_self)
  qed
  have t: "unat (OriginatorTimeoutMSecs d') = ?p * ?c"
    using unat_RequestMSecs [of k "ucast (timeout_ticks d')"] k(2) c
    by (simp add: OriginatorTimeoutMSecs_def tick u' ucast ku ticks)
  have "unat ms \<le> ?p * ?c \<and> ?p * ?c < unat ms + ?p"
  proof -
    have "?p * ?c + (unat ms + ?p - 1) mod ?p = unat ms + ?p - 1" by simp
    moreover have "(unat ms + ?p - 1) mod ?p < ?p" using p(2) by simp
    ultimately show ?thesis using p(2) by linarith
  qed
  then show ?thesis using k(4) by (simp add: t tick ku)
qed

section \<open>A request on the wire\<close>

definition ncp_wire :: "net_params \<Rightarrow> byte list" where
  "ncp_wire n = (if not_large n then le16 (ucast (ncp_bits n)) else le32 (ncp_bits n))"

definition forward_open_wire :: "conn_data \<Rightarrow> byte list" where
  "forward_open_wire d =
     [priority_timetick d, timeout_ticks d] @ le32 (producing_connection_id d) @
     le32 (consuming_connection_id d) @ le16 (connection_serial_number d) @ le16 (originator_vendor_id d) @
     le32 (originator_serial_number d) @ [timeout_multiplier_value d] @ replicate 3 0 @
     le32 (producing_RPI_usecs d) @ ncp_wire (producing_ncp d) @
     le32 (consuming_RPI_usecs d) @ ncp_wire (consuming_ncp d) @ [trigger d]"

definition forward_close_wire :: "conn_data \<Rightarrow> byte list" where
  "forward_close_wire d =
     [priority_timetick d, timeout_ticks d] @ le16 (connection_serial_number d) @
     le16 (originator_vendor_id d) @ le32 (originator_serial_number d)"

text \<open>The word count of a path in front of it, and the reserved byte of a forward close request.\<close>

definition sized_path_wire :: "u32 \<Rightarrow> bool \<Rightarrow> conn_path \<Rightarrow> byte list" where
  "sized_path_wire ctl reserved cp =
     of_nat (length (conn_path_wire ctl cp) div 2) # (if reserved then [0] else []) @ conn_path_wire ctl cp"

lemma Ncp_Serialize_wire [ser_simps]: "Ncp_Serialize w n = append_bytes w (ncp_wire n)"
  by (simp add: Ncp_Serialize_def ncp_wire_def ser_simps)

lemma get_ncp_wire:
  assumes "is_large \<longleftrightarrow> \<not> not_large n" and "not_large n \<Longrightarrow> ncp_bits n < 65536"
  shows "get_ncp is_large (ncp_wire n @ r) = Inr (n, r)"
  using assms by (cases n) (auto simp: get_ncp_def ncp_wire_def des_simps Ncp_Set_def ucast_back_u16)

text \<open>Storing the count at a byte that was stepped over is writing it in the first place.\<close>

lemma append_store8:
  assumes "wf_writer w" and "w_advance w 1 = Inr w1"
  shows "bindE (append_bytes w1 bs) (\<lambda>w2. Inr (store8 (w_pos w) v w2)) = append_bytes w (v # bs)"
proof (cases "w_pos w + 1 + length bs \<le> w_lim w")
  case True
  have "poke (poke (w_mem w) (w_pos w + 1) bs) (w_pos w) [v] = poke (poke (w_mem w) (w_pos w) [v]) (w_pos w + 1) bs"
    using assms(1) True by (intro poke_commute) (auto simp: wf_writer_def)
  then show ?thesis using True assms(2)
    by (auto simp: w_advance_def append_bytes_def store8_def split: if_splits)
next
  case False
  then show ?thesis using assms(2) by (auto simp: w_advance_def append_bytes_def split: if_splits)
qed

lemma w_advance_wf: "wf_writer w \<Longrightarrow> w_advance w n = Inr w1 \<Longrightarrow> wf_writer w1"
  by (auto simp: w_advance_def wf_writer_def split: if_splits)

lemma put_conn_path_wire:
  assumes "wf_writer w" and "\<not> CTL_UNCOMPRESSED_EPATH ctl" and "ok_conn_path cp"
  shows "put_conn_path ctl reserved cp w = append_bytes w (sized_path_wire ctl reserved cp)"
proof (cases "w_advance w 1")
  case (Inl e)
  then show ?thesis
    by (auto simp: put_conn_path_def w_advance_def append_bytes_def sized_path_wire_def split: if_splits)
next
  case (Inr w1)
  let ?p = "conn_path_wire ctl cp"
  let ?v = "of_nat (length ?p div 2) :: byte"
  have ok: "pg_HasAny (port_segs cp) \<Longrightarrow> ok_group (port_segs cp)" "ds_HasAny (data_seg cp) \<Longrightarrow> ok_data (data_seg cp)"
    using assms(3) by (auto simp: ok_conn_path_def split: if_splits)
  have ser: "ConnectionPath_Serialize ctl v cp = append_bytes v ?p" if "wf_writer v" for v
    using ConnectionPath_Serialize_wire [OF that assms(2) ok] .
  have wf1: "wf_writer w1" by (rule w_advance_wf [OF assms(1) Inr])
  have path: "bindE (append_bytes v ?p) (\<lambda>w3. Inr (store8 k (of_nat (w_count v w3 div 2)) w3)) =
      bindE (append_bytes v ?p) (\<lambda>w3. Inr (store8 k ?v w3))" for v k
    by (rule bindE_cong [OF refl]) (simp add: append_count)
  show ?thesis
  proof (cases reserved)
    case False
    then have "put_conn_path ctl reserved cp w = bindE (append_bytes w1 ?p) (\<lambda>w3. Inr (store8 (w_pos w) ?v w3))"
      unfolding put_conn_path_def Inr bindE_simps by (simp add: ser [OF wf1] path)
    then show ?thesis
      using append_store8 [OF assms(1) Inr, of ?p ?v] False by (simp add: sized_path_wire_def)
  next
    case True
    have "put_conn_path ctl reserved cp w =
        bindE (append_bytes w1 [0]) (\<lambda>w2. bindE (append_bytes w2 ?p) (\<lambda>w3. Inr (store8 (w_pos w) ?v w3)))"
      unfolding put_conn_path_def Inr bindE_simps
      using True ser append_wf [OF _ wf1] by (auto simp: put_wire append_count intro!: bindE_cong)
    also have "\<dots> = bindE (append_bytes w1 (0 # ?p)) (\<lambda>w3. Inr (store8 (w_pos w) ?v w3))"
      by (simp add: append_bind_append)
    finally show ?thesis
      using append_store8 [OF assms(1) Inr, of "0 # ?p" ?v] True by (simp add: sized_path_wire_def)
  qed
qed

lemma ConnectionData_Serialize_open:
  assumes "wf_writer w" and "CTL_FORWARD_OPEN ctl" and "\<not> CTL_OMIT_CONN_PATH ctl"
    and "\<not> CTL_UNCOMPRESSED_EPATH ctl" and "ok_conn_path (conn_path d)"
  shows "ConnectionData_Serialize ctl w d =
    append_bytes w (forward_open_wire d @ sized_path_wire ctl False (conn_path d))"
proof -
  have "ConnectionData_Serialize ctl w d = bindE (append_bytes w (forward_open_wire d)) (put_conn_path ctl False (conn_path d))"
    using assms(2,3) unfolding ConnectionData_Serialize_def forward_open_wire_def by (simp add: ser_simps)
  also have "\<dots> = append_bytes w (forward_open_wire d @ sized_path_wire ctl False (conn_path d))"
    by (rule append_then [OF assms(1)]) (rule put_conn_path_wire [OF _ assms(4,5)])
  finally show ?thesis .
qed

lemma ConnectionData_Serialize_close:
  assumes "wf_writer w" and "\<not> CTL_FORWARD_OPEN ctl" and "CTL_FORWARD_CLOSE ctl" and "\<not> CTL_OMIT_CONN_PATH ctl"
    and "\<not> CTL_UNCOMPRESSED_EPATH ctl" and "ok_conn_path (conn_path d)"
  shows "ConnectionData_Serialize ctl w d =
    append_bytes w (forward_close_wire d @ sized_path_wire ctl True (conn_path d))"
proof -
  have "ConnectionData_Serialize ctl w d = bindE (append_bytes w (forward_close_wire d)) (put_conn_path ctl True (conn_path d))"
    using assms(2,3,4) unfolding ConnectionData_Serialize_def forward_close_wire_def by (simp add: ser_simps)
  also have "\<dots> = append_bytes w (forward_close_wire d @ sized_path_wire ctl True (conn_path d))"
    by (rule append_then [OF assms(1)]) (rule put_conn_path_wire [OF _ assms(5,6)])
  finally show ?thesis .
qed

text \<open>What the target reads. A parser of paths looks at no flag but the one for packed paths.\<close>

lemma port_group_ctl:
  assumes "CTL_PACKED_EPATH ctl = CTL_PACKED_EPATH ctl'"
  shows "port_group_loop ctl g r = port_group_loop ctl' g r"
proof -
  have seg: "DeserializePortSegment ctl = DeserializePortSegment ctl'"
    by (rule ext) (simp only: DeserializePortSegment_def assms)
  have step: "port_group_step ctl g r = port_group_step ctl' g r" for g r
    by (simp only: port_group_step_def seg)
  show ?thesis
  proof (induction "length r" arbitrary: g r rule: less_induct)
    case less
    then show ?case
      by (subst (1 2) port_group_loop.simps)
        (auto simp: step split: sum.split step_result.split dest: port_group_step_shrinks)
  qed
qed

lemma ConnectionPath_Deserialize_ctl:
  assumes "CTL_PACKED_EPATH ctl = CTL_PACKED_EPATH ctl'"
  shows "ConnectionPath_Deserialize ctl cp inp = ConnectionPath_Deserialize ctl' cp inp"
proof -
  have "parse_port_segs ctl = parse_port_segs ctl'"
    by (rule ext) (simp only: parse_port_segs_def DeserializePortSegmentGroup_def port_group_ctl [OF assms])
  moreover have "parse_app_path ctl i = parse_app_path ctl' i" for i
    by (rule ext) (simp only: parse_app_path_def deserialize_ctl(4) [OF assms])
  ultimately show ?thesis by (simp only: ConnectionPath_Deserialize_def)
qed

text \<open>The target's data after a request: what the originator consumes the target produces.\<close>

definition mirrored :: "conn_data \<Rightarrow> conn_data \<Rightarrow> conn_data" where
  "mirrored d0 d = d0\<lparr>priority_timetick := priority_timetick d, timeout_ticks := timeout_ticks d,
     consuming_connection_id := producing_connection_id d, producing_connection_id := consuming_connection_id d,
     connection_serial_number := connection_serial_number d, originator_vendor_id := originator_vendor_id d,
     originator_serial_number := originator_serial_number d,
     timeout_multiplier_value := timeout_multiplier_value d,
     consuming_RPI_usecs := producing_RPI_usecs d, consuming_ncp := producing_ncp d,
     producing_RPI_usecs := consuming_RPI_usecs d, producing_ncp := consuming_ncp d, trigger := trigger d\<rparr>"

definition ok_ncp :: "bool \<Rightarrow> net_params \<Rightarrow> bool" where
  "ok_ncp is_large n \<longleftrightarrow> (if is_large then \<not> not_large n else not_large n \<and> ncp_bits n < 65536)"

lemma get8_append [simp]: "get8 ((b # bs) @ r) = Inr (b, bs @ r)"
  by simp

lemma DeserializeForwardOpenRequest_wire:
  assumes "ok_ncp is_large (consuming_ncp d)" and "ok_ncp is_large (producing_ncp d)"
  shows "DeserializeForwardOpenRequest is_large d0 (forward_open_wire d @ r) = Inr (mirrored d0 d, r)"
proof -
  have ncp: "get_ncp is_large (ncp_wire (consuming_ncp d) @ r') = Inr (consuming_ncp d, r')"
    "get_ncp is_large (ncp_wire (producing_ncp d) @ r') = Inr (producing_ncp d, r')" for r'
    using assms by (intro get_ncp_wire; auto simp: ok_ncp_def split: if_splits)+
  have adv: "r_advance (replicate 3 0 @ r') 3 = Inr r'" for r' :: "byte list"
    using r_advance_append [of "replicate 3 0" r'] by simp
  show ?thesis
    unfolding DeserializeForwardOpenRequest_def forward_open_wire_def append_assoc append_Cons append_Nil
      get_wire bindE_simps prod.case ncp adv by (simp add: mirrored_def)
qed

lemma DeserializeForwardCloseRequest_wire:
  "DeserializeForwardCloseRequest d0 (forward_close_wire d @ r) =
     Inr (d0\<lparr>priority_timetick := priority_timetick d, timeout_ticks := timeout_ticks d,
       connection_serial_number := connection_serial_number d, originator_vendor_id := originator_vendor_id d,
       originator_serial_number := originator_serial_number d\<rparr>, r)"
  unfolding DeserializeForwardCloseRequest_def forward_close_wire_def append_assoc append_Cons append_Nil
    get_wire bindE_simps prod.case by simp

text \<open>A path that is not packed is a whole number of words.\<close>

lemma even_compressed_wire:
  assumes "\<not> CTL_PACKED_EPATH ctl" and "io_chain prev ps"
  shows "even (length (compressed_wire ctl prev ps))"
  using assms(2)
proof (induction ps arbitrary: prev)
  case (Cons p ps)
  then have "io_path p" by simp
  then have tag: "length (ap_tag p) \<le> 41"
    using io_path_canonical by (auto simp: canonical_path_def wf_app_path_def)
  have "\<not> CTL_PACKED_EPATH (omit_ctl ctl prev p)" using assms(1) by simp
  then have "even (length (app_path_wire (omit_ctl ctl prev p) p))" by (rule length_app_path_wire(1) [OF tag])
  then show ?case using Cons io_path_HasAny [OF \<open>io_path p\<close>] by simp
qed simp

lemma even_data_wire: "even (length (data_wire d))"
  by (induction "ds_words d" arbitrary: d) (simp_all add: data_wire_def length_concat o_def sum_list_triv)

lemma even_conn_path_wire:
  assumes "ok_conn_path cp" and "\<not> CTL_PACKED_EPATH ctl"
  shows "even (length (conn_path_wire ctl cp))"
proof -
  note ok = assms(1) [unfolded ok_conn_path_def]
  have "even (length (compressed_wire ctl None (app_paths cp)))"
    using even_compressed_wire [OF assms(2)] compressed_wire_prefix [of "app_paths cp" ctl None] ok by metis
  moreover have "even (length (group_wire ctl (port_segs cp)))"
    using assms(2) by (auto simp: group_wire_def port_wire_def key_wire_def Let_def)
  ultimately show ?thesis using even_data_wire [of "data_seg cp"] by (auto simp: conn_path_wire_def)
qed

text \<open>The first steps of the handler of a forward open request, up to the connection path.\<close>

definition receive_open :: "bool \<Rightarrow> conn_data \<Rightarrow> byte list \<Rightarrow> conn_data res" where
  "receive_open is_large d0 inp =
     bindE (DeserializeForwardOpenRequest is_large d0 inp) (\<lambda>(d1, r).
     bindE (get8 r) (\<lambda>(words, r).
     if length r = 2 * unat words then DeserializeConnectionPath d1 r else Inl Runtime_error))"

lemma receive_open_wire:
  assumes "ok_ncp is_large (consuming_ncp d)" and "ok_ncp is_large (producing_ncp d)"
    and "ok_conn_path (conn_path d)" and "wf_conn_path (conn_path d0)"
    and "no_omit ctl" and "\<not> CTL_PACKED_EPATH ctl" and "length (conn_path_wire ctl (conn_path d)) \<le> 510"
  shows "\<exists>cp. receive_open is_large d0 (forward_open_wire d @ sized_path_wire ctl False (conn_path d)) =
      Inr ((mirrored d0 d)\<lparr>conn_path := cp\<rparr>) \<and> same_conn_path cp (conn_path d)"
proof -
  let ?p = "conn_path_wire ctl (conn_path d)"
  have "length ?p div 2 < 256" using assms(7) by simp
  then have "unat (of_nat (length ?p div 2) :: u8) = length ?p div 2" by (simp add: unat_of_nat)
  then have words: "length ?p = 2 * unat (of_nat (length ?p div 2) :: u8)"
    using even_conn_path_wire [OF assms(3,6)] by simp
  obtain cp where cp: "ConnectionPath_Deserialize ctl (conn_path d0) ?p = Inr cp" "same_conn_path cp (conn_path d)"
    using ConnectionPath_Deserialize_wire [OF assms(3,4,5)] by blast
  have "CTL_PACKED_EPATH ctl = CTL_PACKED_EPATH 0" using assms(6) by (simp add: CTL_PACKED_EPATH_def)
  then have "ConnectionPath_Deserialize 0 (conn_path d0) ?p = Inr cp"
    using ConnectionPath_Deserialize_ctl cp(1) by metis
  moreover have "conn_path (mirrored d0 d) = conn_path d0" by (simp add: mirrored_def)
  ultimately have "DeserializeConnectionPath (mirrored d0 d) ?p = Inr ((mirrored d0 d)\<lparr>conn_path := cp\<rparr>)"
    by (simp add: DeserializeConnectionPath_def)
  then have "receive_open is_large d0 (forward_open_wire d @ sized_path_wire ctl False (conn_path d)) =
      Inr ((mirrored d0 d)\<lparr>conn_path := cp\<rparr>)"
    unfolding receive_open_def DeserializeForwardOpenRequest_wire [OF assms(1,2)] bindE_simps prod.case
      sized_path_wire_def if_False append_Nil get8.simps words [symmetric] by simp
  then show ?thesis using cp(2) by blast
qed

text \<open>The count a caller allocates is the count that is written, when the path is short enough for the buffer
  of \<open>ConnectionPath::SerializedCount\<close>.\<close>

lemma length_ncp_wire: "length (ncp_wire n) = Ncp_SerializedCount n"
  by (simp add: ncp_wire_def Ncp_SerializedCount_def)

lemma ConnectionPath_SerializedCount_wire:
  assumes "ok_conn_path cp" and "\<not> CTL_UNCOMPRESSED_EPATH ctl"
  shows "ConnectionPath_SerializedCount ctl cp =
    (if length (conn_path_wire ctl cp) \<le> 128 then Inr (length (conn_path_wire ctl cp)) else Inl Overflow_error)"
proof -
  have ok: "pg_HasAny (port_segs cp) \<Longrightarrow> ok_group (port_segs cp)" "ds_HasAny (data_seg cp) \<Longrightarrow> ok_data (data_seg cp)"
    using assms(1) by (auto simp: ok_conn_path_def split: if_splits)
  let ?w = "writer_on (replicate 128 0)"
  have wf: "wf_writer ?w" by (simp add: wf_writer_def writer_on_def)
  have "ConnectionPath_Serialize ctl ?w cp = append_bytes ?w (conn_path_wire ctl cp)"
    using ConnectionPath_Serialize_wire [OF wf assms(2) ok] .
  then show ?thesis
    by (simp add: ConnectionPath_SerializedCount_def) (simp add: append_bytes_def writer_on_def)
qed

lemma SerializedCount_open:
  assumes "CTL_FORWARD_OPEN ctl" and "\<not> CTL_FORWARD_CLOSE ctl" and "\<not> CTL_UNCOMPRESSED_EPATH ctl"
    and "ok_conn_path (conn_path d)" and "length (conn_path_wire ctl (conn_path d)) \<le> 128"
  shows "ConnectionData_SerializedCount ctl d =
    Inr (length (forward_open_wire d @ sized_path_wire ctl False (conn_path d)))"
  using assms by (simp add: ConnectionData_SerializedCount_def ConnectionPath_SerializedCount_wire
      forward_open_wire_def sized_path_wire_def length_ncp_wire)

end
