(* ===== verification/Conn_Resolve.thy ===== *)
theory Conn_Resolve
  imports Conn_Data
begin

text \<open>
  What a target makes of a forward open request, in \<open>cip/cipconnection.cc\<close>: which instances the application
  paths name and which of them configures, consumes and produces (\<open>ResolveInstances\<close>), the production
  inhibit time (\<open>VerifyForwardOpenParams\<close>) and the connection sizes (\<open>CorrectSizes\<close>).

  \<open>reference_roles\<close> states table 3-5.13 of the specification in a few lines; the four rows of the code
  compute the same roles and the same extended status. \<open>AssemblyInstance::SizeBytes\<close> is an argument.
\<close>

section \<open>ResolveInstances\<close>

abbreviation kCipMessageRouterClass :: int where "kCipMessageRouterClass \<equiv> 2"
abbreviation kCipAssembly :: int where "kCipAssembly \<equiv> 4"

definition class_of_path :: "app_path \<Rightarrow> int" where
  "class_of_path p = sint (ap_get CLASS p)"

definition inst_of_path :: "app_path \<Rightarrow> int" where
  "inst_of_path p = sint (GetInstanceOrConnPt p)"

text \<open>The instance a path names, or the status that tells what is wrong with the path.\<close>

definition check_path :: "registry \<Rightarrow> app_path \<Rightarrow> ConnMgrStatus + inst" where
  "check_path reg p =
    (if \<not> IsSufficient p then Inl kConnMgrStatusInvalidSegmentTypeInPath
     else
       case FindClass (class_of_path p) reg of
         None \<Rightarrow> if class_of_path p \<ge> 0xc8 then Inl kConnMgrStatusInvalidSegmentTypeInPath
                 else Inl kConnMgrStatusInconsistentApplicationPathCombo
       | Some c \<Rightarrow>
           (case Instance (inst_of_path p) c of
              None \<Rightarrow> Inl kConnMgrStatusInvalidSegmentTypeInPath
            | Some i \<Rightarrow> Inr (class_id c, i)))"

text \<open>A later path, whose failure has a status of its own.\<close>

definition check_later :: "registry \<Rightarrow> ConnMgrStatus \<Rightarrow> app_path \<Rightarrow> ConnMgrStatus + inst" where
  "check_later reg ext p = (case check_path reg p of Inl _ \<Rightarrow> Inl ext | Inr i \<Rightarrow> Inr i)"

text \<open>What the rows of the table set: a path and its instance for each role, and the class that manages the
  connection.\<close>

record roles =
  role_config :: "(int \<times> inst) option"
  role_consuming :: "(int \<times> inst) option"
  role_producing :: "(int \<times> inst) option"
  role_mgmnt :: int

abbreviation no_roles :: "int \<Rightarrow> roles" where
  "no_roles m \<equiv> \<lparr>role_config = None, role_consuming = None, role_producing = None, role_mgmnt = m\<rparr>"

definition app_path1 :: "conn_data \<Rightarrow> app_path" where "app_path1 d = app_paths (conn_path d) ! 0"
definition app_path2 :: "conn_data \<Rightarrow> app_path" where "app_path2 d = app_paths (conn_path d) ! 1"
definition app_path3 :: "conn_data \<Rightarrow> app_path" where "app_path3 d = app_paths (conn_path d) ! 2"

definition path_count :: "conn_data \<Rightarrow> nat" where
  "path_count d = 1 + of_bool (ap_HasAny (app_path2 d)) + of_bool (ap_HasAny (app_path3 d))"

definition null_null_row :: "conn_data \<Rightarrow> inst \<Rightarrow> ConnMgrStatus + roles" where
  "null_null_row d instance1 =
    (let r = no_roles (class_of_path (app_path1 d))
     in if ds_HasAny (data_seg (conn_path d)) then Inr (r\<lparr>role_config := Some (0, instance1)\<rparr>)
        else if path_count d \<noteq> 1 then Inl kConnMgrStatusInvalidSegmentTypeInPath
        else Inr (r\<lparr>role_consuming := Some (0, instance1)\<rparr>))"

definition consuming_row :: "registry \<Rightarrow> conn_data \<Rightarrow> inst \<Rightarrow> ConnMgrStatus + roles" where
  "consuming_row reg d instance1 =
    (let r = no_roles (class_of_path (app_path1 d))
     in if ds_HasAny (data_seg (conn_path d)) then
          if path_count d = 1 then
            Inr (r\<lparr>role_config := Some (0, instance1), role_consuming := Some (0, instance1)\<rparr>)
          else if path_count d = 2 then
            bindE (check_later reg kConnMgrStatusInvalidConsumingApplicationPath (app_path2 d)) (\<lambda>instance2.
            Inr (r\<lparr>role_config := Some (0, instance1), role_consuming := Some (1, instance2)\<rparr>))
          else Inl kConnMgrStatusInvalidSegmentTypeInPath
        else
          if path_count d = 1 then Inr (r\<lparr>role_consuming := Some (0, instance1)\<rparr>)
          else Inl kConnMgrStatusInvalidSegmentTypeInPath)"

definition producing_row :: "registry \<Rightarrow> conn_data \<Rightarrow> inst \<Rightarrow> ConnMgrStatus + roles" where
  "producing_row reg d instance1 =
    (let r = no_roles (class_of_path (app_path1 d))
     in if ds_HasAny (data_seg (conn_path d)) then
          if path_count d = 1 then
            Inr (r\<lparr>role_config := Some (0, instance1), role_producing := Some (0, instance1)\<rparr>)
          else if path_count d = 2 then
            bindE (check_later reg kConnMgrStatusInvalidProducingApplicationPath (app_path2 d)) (\<lambda>instance2.
            Inr (r\<lparr>role_config := Some (0, instance1), role_producing := Some (1, instance2)\<rparr>))
          else Inl kConnMgrStatusInvalidSegmentTypeInPath
        else
          if path_count d = 1 then Inr (r\<lparr>role_producing := Some (0, instance1)\<rparr>)
          else Inl kConnMgrStatusInvalidSegmentTypeInPath)"

definition both_row :: "registry \<Rightarrow> conn_data \<Rightarrow> inst \<Rightarrow> ConnMgrStatus + roles" where
  "both_row reg d instance1 =
    (let r = no_roles (class_of_path (app_path1 d));
         consumed = check_later reg kConnMgrStatusInvalidConsumingApplicationPath;
         produced = check_later reg kConnMgrStatusInvalidProducingApplicationPath
     in if ds_HasAny (data_seg (conn_path d)) then
          if path_count d = 1 then
            Inr (r\<lparr>role_config := Some (0, instance1), role_consuming := Some (0, instance1),
                   role_producing := Some (0, instance1)\<rparr>)
          else if path_count d = 2 then
            bindE (consumed (app_path2 d)) (\<lambda>instance2.
            Inr (r\<lparr>role_config := Some (0, instance1), role_consuming := Some (1, instance2),
                   role_producing := Some (1, instance2)\<rparr>))
          else
            bindE (consumed (app_path2 d)) (\<lambda>instance2.
            bindE (produced (app_path3 d)) (\<lambda>instance3.
            Inr (r\<lparr>role_config := Some (0, instance1), role_consuming := Some (1, instance2),
                   role_producing := Some (2, instance3)\<rparr>)))
        else
          if path_count d = 1 then
            Inr (r\<lparr>role_consuming := Some (0, instance1), role_producing := Some (0, instance1)\<rparr>)
          else if path_count d = 2 then
            bindE (produced (app_path2 d)) (\<lambda>instance2.
            Inr (r\<lparr>role_consuming := Some (0, instance1), role_producing := Some (1, instance2)\<rparr>))
          else
            bindE (consumed (app_path2 d)) (\<lambda>instance2.
            bindE (produced (app_path3 d)) (\<lambda>instance3.
            Inr (r\<lparr>role_consuming := Some (1, instance2), role_producing := Some (2, instance3),
                   role_mgmnt := class_of_path (app_path2 d)\<rparr>))))"

definition table_3_5_13 :: "registry \<Rightarrow> conn_data \<Rightarrow> inst \<Rightarrow> ConnMgrStatus + roles" where
  "table_3_5_13 reg d instance1 =
    (let o_t = ConnectionType (consuming_ncp d); t_o = ConnectionType (producing_ncp d)
     in if o_t = kIOConnTypeNull \<and> t_o = kIOConnTypeNull then null_null_row d instance1
        else if o_t \<noteq> kIOConnTypeNull \<and> t_o = kIOConnTypeNull then consuming_row reg d instance1
        else if o_t = kIOConnTypeNull \<and> t_o \<noteq> kIOConnTypeNull then producing_row reg d instance1
        else both_row reg d instance1)"

definition path_ndx :: "(int \<times> inst) option \<Rightarrow> int" where
  "path_ndx r = (case r of None \<Rightarrow> -1 | Some (k, i) \<Rightarrow> k)"

definition assign_roles :: "roles \<Rightarrow> conn_data \<Rightarrow> conn_data" where
  "assign_roles r d =
     d\<lparr>config_instance := map_option snd (role_config r),
       consuming_instance := map_option snd (role_consuming r),
       producing_instance := map_option snd (role_producing r),
       mgmnt_class := role_mgmnt r,
       conn_path := AssignAppPaths (path_ndx (role_config r)) (path_ndx (role_consuming r))
                      (path_ndx (role_producing r)) (conn_path d)\<rparr>"

text \<open>The \<open>switch\<close> over the transport class: the status of what is wrong, or the trigger.\<close>

definition transport_check :: "conn_data \<Rightarrow> ConnMgrStatus + conn_data" where
  "transport_check d =
    (let cp = conn_path d
     in if TransportClass (trigger d) = kConnTransportClass3 then
          if class_of_path (ConsumingPath cp) \<noteq> kCipMessageRouterClass \<or>
             inst_of_path (ConsumingPath cp) \<noteq> 1
          then Inl kConnMgrStatusInconsistentApplicationPathCombo else Inr d
        else if TransportClass (trigger d) = kConnTransportClass0 \<or>
                TransportClass (trigger d) = kConnTransportClass1 then
          if config_instance d \<noteq> None \<and> class_of_path (ConfigPath cp) \<noteq> kCipAssembly
          then Inl kConnMgrStatusInvalidConfigurationApplicationPath
          else if consuming_instance d \<noteq> None \<and> class_of_path (ConsumingPath cp) \<noteq> kCipAssembly
          then Inl kConnMgrStatusInvalidConsumingApplicationPath
          else if producing_instance d \<noteq> None \<and> class_of_path (ProducingPath cp) \<noteq> kCipAssembly
          then Inl kConnMgrStatusInvalidProducingApplicationPath
          else Inr (d\<lparr>trigger := SetServer False (trigger d)\<rparr>)
        else Inr d)"

text \<open>The result is the status and the extended status; \<open>ext\<close> is the extended status at the call. The
  direction bit is cleared for the classes 0 and 1 before their paths are looked at.\<close>

definition ResolveInstances ::
    "registry \<Rightarrow> ConnMgrStatus \<Rightarrow> conn_data \<Rightarrow> CipError \<times> ConnMgrStatus \<times> conn_data" where
  "ResolveInstances reg ext d =
    (let d = d\<lparr>config_instance := None, consuming_instance := None, producing_instance := None\<rparr>
     in case check_path reg (app_path1 d) of
          Inl e \<Rightarrow> (kCipErrorConnectionFailure, e, d)
        | Inr instance1 \<Rightarrow>
            (let d = d\<lparr>mgmnt_class := class_of_path (app_path1 d)\<rparr>
             in case table_3_5_13 reg d instance1 of
                  Inl e \<Rightarrow> (kCipErrorConnectionFailure, e, d)
                | Inr r \<Rightarrow>
                    (let d = assign_roles r d
                     in case transport_check d of
                          Inl e \<Rightarrow>
                            (kCipErrorConnectionFailure, e,
                             if TransportClass (trigger d) = kConnTransportClass3 then d
                             else d\<lparr>trigger := SetServer False (trigger d)\<rparr>)
                        | Inr d \<Rightarrow> (kCipErrorSuccess, ext, d))))"

section \<open>VerifyForwardOpenParams\<close>

definition VerifyForwardOpenParams ::
    "ConnMgrStatus \<Rightarrow> conn_data \<Rightarrow> CipError \<times> ConnMgrStatus \<times> conn_data" where
  "VerifyForwardOpenParams ext d =
    (let ps = port_segs (conn_path d)
     in if Trigger (trigger d) = kConnTriggerTypeChangeOfState \<or>
           Trigger (trigger d) = kConnTriggerTypeApplication
        then
          if \<not> HasPIT ps then
            (kCipErrorSuccess, ext,
             d\<lparr>conn_path := (conn_path d)\<lparr>port_segs := SetPIT_USecs (producing_RPI_usecs d div 4) ps\<rparr>\<rparr>)
          else if GetPIT_USecs ps > producing_RPI_usecs d then
            (kCipErrorConnectionFailure, kConnMgrStatusPITGreaterThanRPI, d)
          else (kCipErrorSuccess, ext, d)
        else (kCipErrorSuccess, ext, d))"

section \<open>CorrectSizes\<close>

text \<open>The bytes of a packet that are not data of the assembly.\<close>

definition size_overhead :: "u8 \<Rightarrow> rt_fmt \<Rightarrow> nat \<Rightarrow> nat" where
  "size_overhead trig fmt attr_size =
     (if TransportClass trig = kConnTransportClass1 then 2 else 0) +
     (if fmt = kRealTimeFmt32BitHeader \<and> attr_size \<noteq> 0 then 4 else 0)"

text \<open>The corrected size, when the requested one is wrong.\<close>

definition wrong_size :: "u8 \<Rightarrow> rt_fmt \<Rightarrow> net_params \<Rightarrow> nat \<Rightarrow> u16 option" where
  "wrong_size trig fmt ncp attr_size =
    (let diff_size = size_overhead trig fmt attr_size; data_size = unat (ConnectionSize ncp)
     in if data_size < diff_size then Some (of_nat (attr_size + diff_size))
        else
          let data_size = data_size - diff_size
          in if IsFixed ncp \<and> data_size \<noteq> attr_size \<or> data_size > attr_size
             then Some (of_nat (attr_size + diff_size)) else None)"

definition set_path_attribute :: "int \<Rightarrow> conn_path \<Rightarrow> conn_path" where
  "set_path_attribute k cp =
     (if k < 0 then cp else cp\<lparr>app_paths := (app_paths cp)[nat k := ap_set ATTRIBUTE 3 (app_paths cp ! nat k)]\<rparr>)"

text \<open>A missing instance is a null pointer that is dereferenced.\<close>

definition correct_producing ::
    "(inst \<Rightarrow> nat) \<Rightarrow> ConnMgrStatus \<Rightarrow> conn_data \<Rightarrow> (CipError \<times> ConnMgrStatus \<times> conn_data) res" where
  "correct_producing SizeBytes ext d =
    (if ConnectionType (producing_ncp d) = kIOConnTypeNull then Inr (kCipErrorSuccess, ext, d)
     else
       case producing_instance d of
         None \<Rightarrow> Inl Undefined
       | Some i \<Rightarrow>
           (let d = d\<lparr>conn_path := set_path_attribute (producing_path (conn_path d)) (conn_path d)\<rparr>
            in case wrong_size (trigger d) (producing_fmt d) (producing_ncp d) (SizeBytes i) of
                 None \<Rightarrow> Inr (kCipErrorSuccess, ext, d)
               | Some n \<Rightarrow> Inr (kCipErrorConnectionFailure, kConnMgrStatusInvalidTToOConnectionSize,
                               d\<lparr>corrected_producing_size := n\<rparr>)))"

definition CorrectSizes ::
    "(inst \<Rightarrow> nat) \<Rightarrow> ConnMgrStatus \<Rightarrow> conn_data \<Rightarrow> (CipError \<times> ConnMgrStatus \<times> conn_data) res" where
  "CorrectSizes SizeBytes ext d =
    (if ConnectionType (consuming_ncp d) = kIOConnTypeNull then correct_producing SizeBytes ext d
     else
       case consuming_instance d of
         None \<Rightarrow> Inl Undefined
       | Some i \<Rightarrow>
           (let d = d\<lparr>conn_path := set_path_attribute (consuming_path (conn_path d)) (conn_path d)\<rparr>
            in case wrong_size (trigger d) (consuming_fmt d) (consuming_ncp d) (SizeBytes i) of
                 None \<Rightarrow> correct_producing SizeBytes ext d
               | Some n \<Rightarrow> Inr (kCipErrorConnectionFailure, kConnMgrStatusInvalidOToTConnectionSize,
                               d\<lparr>corrected_consuming_size := n\<rparr>)))"

section \<open>The table in one rule\<close>

text \<open>The paths of the roles, from the number of paths and whether there is a data segment. With a data
  segment the first path configures; the data paths are those after it, or the only path there is. A third
  path without a data segment makes the first one a configuration path that is ignored. There are no more
  data paths than data directions.\<close>

definition data_paths :: "bool \<Rightarrow> nat \<Rightarrow> nat list" where
  "data_paths data n = (if n = 1 then [0] else if data \<or> n = 3 then [1..<n] else [0..<n])"

definition role_paths :: "bool \<Rightarrow> bool \<Rightarrow> bool \<Rightarrow> nat \<Rightarrow> (nat option \<times> nat option \<times> nat option) option" where
  "role_paths consumes produces data n =
    (let config = (if data then Some 0 else None); dps = data_paths data n
     in if \<not> consumes \<and> \<not> produces then
          if data then Some (config, None, None)
          else if n = 1 then Some (None, Some 0, None) else None
        else if length dps > of_bool consumes + of_bool produces then None
        else Some (config, if consumes then Some (hd dps) else None,
                   if produces then Some (last dps) else None))"

text \<open>The instance of a path, with the status of the role when it has none. The first path has been
  checked.\<close>

definition role_instance ::
    "registry \<Rightarrow> conn_data \<Rightarrow> inst \<Rightarrow> ConnMgrStatus \<Rightarrow> nat option \<Rightarrow> ConnMgrStatus + (int \<times> inst) option" where
  "role_instance reg d instance1 ext k =
    (case k of
       None \<Rightarrow> Inr None
     | Some k \<Rightarrow>
         if k = 0 then Inr (Some (0, instance1))
         else (case check_path reg (app_paths (conn_path d) ! k) of
                 Inl _ \<Rightarrow> Inl ext | Inr i \<Rightarrow> Inr (Some (int k, i))))"

definition reference_roles :: "registry \<Rightarrow> conn_data \<Rightarrow> inst \<Rightarrow> ConnMgrStatus + roles" where
  "reference_roles reg d instance1 =
    (let data = ds_HasAny (data_seg (conn_path d)); n = path_count d;
         consumes = ConnectionType (consuming_ncp d) \<noteq> kIOConnTypeNull;
         produces = ConnectionType (producing_ncp d) \<noteq> kIOConnTypeNull
     in case role_paths consumes produces data n of
          None \<Rightarrow> Inl kConnMgrStatusInvalidSegmentTypeInPath
        | Some (config, consuming, producing) \<Rightarrow>
            bindE (role_instance reg d instance1 kConnMgrStatusSuccess config) (\<lambda>cfg.
            bindE (role_instance reg d instance1 kConnMgrStatusInvalidConsumingApplicationPath consuming) (\<lambda>c.
            bindE (role_instance reg d instance1 kConnMgrStatusInvalidProducingApplicationPath producing) (\<lambda>p.
            Inr \<lparr>role_config = cfg, role_consuming = c, role_producing = p,
                 role_mgmnt = class_of_path (app_paths (conn_path d) !
                   (if n = 3 \<and> \<not> data then 1 else 0))\<rparr>))))"

lemma path_count_cases:
  obtains "path_count d = 1" | "path_count d = 2" | "path_count d = 3"
  by (cases "ap_HasAny (app_path2 d)"; cases "ap_HasAny (app_path3 d)") (auto simp: path_count_def)

lemma data_paths_simps [simp]:
  "data_paths data (Suc 0) = [0]" "data_paths True 2 = [1]" "data_paths False 2 = [0, 1]"
  "data_paths data 3 = [1, 2]"
  by (simp_all add: data_paths_def upt_conv_Cons numeral_eq_Suc)

lemma role_instance_simps [simp]:
  "role_instance reg d i ext None = Inr None"
  "role_instance reg d i ext (Some 0) = Inr (Some (0, i))"
  by (simp_all add: role_instance_def)

lemmas row_defs = null_null_row_def consuming_row_def producing_row_def both_row_def

lemma table_equiv:
  "table_3_5_13 reg d instance1 = reference_roles reg d instance1"
  by (cases d rule: path_count_cases; cases "ds_HasAny (data_seg (conn_path d))";
      cases "ConnectionType (consuming_ncp d) = kIOConnTypeNull";
      cases "ConnectionType (producing_ncp d) = kIOConnTypeNull";
      cases "check_path reg (app_path2 d)"; cases "check_path reg (app_path3 d)")
     (simp_all add: table_3_5_13_def reference_roles_def row_defs role_paths_def Let_def check_later_def
        role_instance_def app_path1_def app_path2_def app_path3_def)

section \<open>What a resolved request guarantees\<close>

definition wf_registry :: "registry \<Rightarrow> bool" where
  "wf_registry reg \<longleftrightarrow> (\<forall>k c. reg k = Some c \<longrightarrow> class_id c = k \<and> wf_class c)"

text \<open>An instance that exists: the class object or an instance of a registered class.\<close>

definition live :: "registry \<Rightarrow> inst \<Rightarrow> bool" where
  "live reg i = (case FindClass (fst i) reg of None \<Rightarrow> False | Some c \<Rightarrow> Instance (snd i) c = Some (snd i))"

lemma RegisterClass_wf: "wf_registry reg \<Longrightarrow> wf_class c \<Longrightarrow> wf_registry (snd (RegisterClass c reg))"
  by (auto simp: wf_registry_def RegisterClass_def split: option.splits)

lemma Instance_same:
  assumes "wf_class c" and "Instance i c = Some j"
  shows "j = i \<and> Instance j c = Some j"
proof -
  have "by_id id (instances c)" using assms(1) by (simp add: wf_class_def)
  from find_by_id_Some [OF this, of i j] assms(2) have "j = i" by (auto simp: Instance_def split: if_splits)
  then show ?thesis using assms(2) by simp
qed

lemma check_path_live:
  assumes "wf_registry reg" and "check_path reg p = Inr i"
  shows "i = (class_of_path p, inst_of_path p)" and "live reg i"
proof -
  obtain c j where c: "reg (class_of_path p) = Some c" "Instance (inst_of_path p) c = Some j"
    and i: "i = (class_id c, j)"
    using assms(2) by (auto simp: check_path_def FindClass_def split: if_splits option.splits)
  then have w: "class_id c = class_of_path p" "wf_class c" using assms(1) by (auto simp: wf_registry_def)
  show "i = (class_of_path p, inst_of_path p)" and "live reg i"
    using Instance_same [OF w(2) c(2)] c i w(1) by (auto simp: live_def FindClass_def)
qed

text \<open>A role of a resolved request: the index is one of a path, the instance the one the path names.\<close>

definition good_role :: "registry \<Rightarrow> conn_data \<Rightarrow> (int \<times> inst) option \<Rightarrow> bool" where
  "good_role reg d r \<longleftrightarrow>
     (case r of None \<Rightarrow> True
      | Some (k, i) \<Rightarrow> 0 \<le> k \<and> k < 3 \<and> check_path reg (app_paths (conn_path d) ! nat k) = Inr i)"

lemma role_instance_good:
  assumes "role_instance reg d instance1 ext k = Inr r" and "check_path reg (app_path1 d) = Inr instance1"
    and "\<And>j. k = Some j \<Longrightarrow> j < 3"
  shows "good_role reg d r \<and> (r = None \<longleftrightarrow> k = None)"
  using assms by (auto simp: role_instance_def good_role_def app_path1_def split: option.splits if_splits sum.splits)

lemma role_paths_good:
  assumes "role_paths consumes produces data (path_count d) = Some (config, consuming, producing)"
  shows "\<And>k. k \<in> {config, consuming, producing} \<Longrightarrow> k = Some j \<Longrightarrow> j < 3"
    and "consumes \<Longrightarrow> consuming \<noteq> None" and "produces \<Longrightarrow> producing \<noteq> None"
  using assms by (cases d rule: path_count_cases; cases data;
    auto simp: role_paths_def Let_def split: if_splits)+

lemma reference_roles_good:
  assumes "reference_roles reg d instance1 = Inr r" and i: "check_path reg (app_path1 d) = Inr instance1"
  shows "good_role reg d (role_config r) \<and> good_role reg d (role_consuming r) \<and> good_role reg d (role_producing r) \<and>
    (ConnectionType (consuming_ncp d) \<noteq> kIOConnTypeNull \<longrightarrow> role_consuming r \<noteq> None) \<and>
    (ConnectionType (producing_ncp d) \<noteq> kIOConnTypeNull \<longrightarrow> role_producing r \<noteq> None)"
proof -
  let ?c = "ConnectionType (consuming_ncp d) \<noteq> kIOConnTypeNull"
  let ?p = "ConnectionType (producing_ncp d) \<noteq> kIOConnTypeNull"
  obtain config consuming producing where
    rp: "role_paths ?c ?p (ds_HasAny (data_seg (conn_path d))) (path_count d) = Some (config, consuming, producing)"
    using assms(1) by (auto simp: reference_roles_def Let_def split: option.splits)
  note g = role_paths_good [OF rp]
  have j: "j < 3" if "config = Some j \<or> consuming = Some j \<or> producing = Some j" for j
    using g(1) [of config j] g(1) [of consuming j] g(1) [of producing j] that by auto
  obtain cfg c p where
      1: "role_instance reg d instance1 kConnMgrStatusSuccess config = Inr cfg"
         "role_instance reg d instance1 kConnMgrStatusInvalidConsumingApplicationPath consuming = Inr c"
         "role_instance reg d instance1 kConnMgrStatusInvalidProducingApplicationPath producing = Inr p"
    and r: "role_config r = cfg" "role_consuming r = c" "role_producing r = p"
    using assms(1) by (auto simp: reference_roles_def rp Let_def bindE_def split: sum.splits)
  show ?thesis
    using role_instance_good [OF 1(1) i] role_instance_good [OF 1(2) i] role_instance_good [OF 1(3) i] j g(2,3)
    by (auto simp: r)
qed

definition resolved_role :: "registry \<Rightarrow> conn_path \<Rightarrow> int \<Rightarrow> inst option \<Rightarrow> bool" where
  "resolved_role reg cp k i \<longleftrightarrow>
     (case i of None \<Rightarrow> k = -1
      | Some i \<Rightarrow> 0 \<le> k \<and> k < 3 \<and> check_path reg (app_paths cp ! nat k) = Inr i)"

definition resolved :: "registry \<Rightarrow> conn_data \<Rightarrow> bool" where
  "resolved reg d \<longleftrightarrow>
     resolved_role reg (conn_path d) (config_path (conn_path d)) (config_instance d) \<and>
     resolved_role reg (conn_path d) (consuming_path (conn_path d)) (consuming_instance d) \<and>
     resolved_role reg (conn_path d) (producing_path (conn_path d)) (producing_instance d) \<and>
     (ConnectionType (consuming_ncp d) \<noteq> kIOConnTypeNull \<longrightarrow> consuming_instance d \<noteq> None) \<and>
     (ConnectionType (producing_ncp d) \<noteq> kIOConnTypeNull \<longrightarrow> producing_instance d \<noteq> None)"

lemma good_role_resolved:
  "good_role reg d r \<Longrightarrow> app_paths cp = app_paths (conn_path d) \<Longrightarrow>
   resolved_role reg cp (path_ndx r) (map_option snd r)"
  by (auto simp: good_role_def resolved_role_def path_ndx_def split: option.splits)

lemma assign_roles_simps [simp]:
  "app_paths (conn_path (assign_roles r d)) = app_paths (conn_path d)"
  "consuming_ncp (assign_roles r d) = consuming_ncp d" "producing_ncp (assign_roles r d) = producing_ncp d"
  "config_path (conn_path (assign_roles r d)) = path_ndx (role_config r)"
  "consuming_path (conn_path (assign_roles r d)) = path_ndx (role_consuming r)"
  "producing_path (conn_path (assign_roles r d)) = path_ndx (role_producing r)"
  "config_instance (assign_roles r d) = map_option snd (role_config r)"
  "consuming_instance (assign_roles r d) = map_option snd (role_consuming r)"
  "producing_instance (assign_roles r d) = map_option snd (role_producing r)"
  "trigger (assign_roles r d) = trigger d"
  by (simp_all add: assign_roles_def AssignAppPaths_def)

lemma assign_roles_resolved:
  assumes "table_3_5_13 reg d instance1 = Inr r" and "check_path reg (app_path1 d) = Inr instance1"
  shows "resolved reg (assign_roles r d)"
  using reference_roles_good [OF assms(1) [unfolded table_equiv] assms(2)]
  by (simp add: resolved_def good_role_resolved [where d = d])

lemma transport_check_cases:
  assumes "transport_check d = Inr d'"
  shows "d' = d \<or> d' = d\<lparr>trigger := SetServer False (trigger d)\<rparr>"
    and "TransportClass (trigger d) = 0 \<or> TransportClass (trigger d) = 1 \<Longrightarrow>
      (config_instance d \<noteq> None \<longrightarrow> class_of_path (ConfigPath (conn_path d)) = kCipAssembly) \<and>
      (consuming_instance d \<noteq> None \<longrightarrow> class_of_path (ConsumingPath (conn_path d)) = kCipAssembly) \<and>
      (producing_instance d \<noteq> None \<longrightarrow> class_of_path (ProducingPath (conn_path d)) = kCipAssembly)"
    and "TransportClass (trigger d) = 3 \<Longrightarrow> class_of_path (ConsumingPath (conn_path d)) = kCipMessageRouterClass \<and>
      inst_of_path (ConsumingPath (conn_path d)) = 1"
  using assms by (auto simp: transport_check_def Let_def split: if_splits)

lemma SetServer_class: "TransportClass (SetServer b t) = TransportClass t"
proof (rule bit_word_eqI)
  fix i assume "i < LENGTH(8)"
  then show "bit (TransportClass (SetServer b t)) i = bit (TransportClass t) i"
    unfolding TransportClass_def SetServer_def bit_and_iff bit_or_iff bit_not_iff bit_u8 bit_push_bit_iff
    by (cases b) auto
qed

lemma ResolveInstances_success:
  assumes "ResolveInstances reg ext d = (kCipErrorSuccess, e, d')"
  obtains d1 where "resolved reg d1" "transport_check d1 = Inr d'" "e = ext" "trigger d1 = trigger d"
  proof -
  let ?d0 = "d\<lparr>config_instance := None, consuming_instance := None, producing_instance := None\<rparr>"
  obtain instance1 where i: "check_path reg (app_path1 ?d0) = Inr instance1"
    using assms by (auto simp: ResolveInstances_def Let_def split: sum.splits)
  let ?d1 = "?d0\<lparr>mgmnt_class := class_of_path (app_path1 ?d0)\<rparr>"
  obtain r where r: "table_3_5_13 reg ?d1 instance1 = Inr r" "transport_check (assign_roles r ?d1) = Inr d'" "e = ext"
    using assms i unfolding ResolveInstances_def Let_def by (auto split: sum.splits)
  have "check_path reg (app_path1 ?d1) = Inr instance1" using i by (simp add: app_path1_def)
  from that [OF assign_roles_resolved [OF r(1) this] r(2) r(3)] show thesis by simp
qed

lemma resolved_trigger: "resolved reg (d\<lparr>trigger := t\<rparr>) = resolved reg d"
  by (simp add: resolved_def)

lemma ResolveInstances_resolved:
  assumes "ResolveInstances reg ext d = (kCipErrorSuccess, e, d')"
  shows "resolved reg d'"
proof -
  obtain d1 where "resolved reg d1" "transport_check d1 = Inr d'"
    by (rule ResolveInstances_success [OF assms])
  then show ?thesis using transport_check_cases(1) resolved_trigger by metis
qed

lemma resolved_path:
  assumes "resolved_role reg cp k (Some i)"
  shows "k = 0 \<or> k = 1 \<or> k = 2" and "check_path reg (path_at k cp) = Inr i"
  using assms by (auto simp: resolved_role_def path_at_def)

text \<open>An instance that a resolved request names exists in the class its path names.\<close>

lemma resolved_role_live:
  assumes "wf_registry reg" and "resolved_role reg cp k (Some i)"
  shows "live reg i" and "i = (class_of_path (path_at k cp), inst_of_path (path_at k cp))"
  using check_path_live [OF assms(1) resolved_path(2) [OF assms(2)]] by simp_all

definition names_instance :: "conn_data \<Rightarrow> inst \<Rightarrow> bool" where
  "names_instance d i \<longleftrightarrow> config_instance d = Some i \<or> consuming_instance d = Some i \<or> producing_instance d = Some i"

lemma resolved_names:
  assumes "resolved reg d" and "names_instance d i"
  obtains k where "k = config_path (conn_path d) \<and> config_instance d = Some i \<or>
      k = consuming_path (conn_path d) \<and> consuming_instance d = Some i \<or>
      k = producing_path (conn_path d) \<and> producing_instance d = Some i"
    and "resolved_role reg (conn_path d) k (Some i)"
  using assms unfolding resolved_def names_instance_def by metis

lemma resolved_live:
  assumes "wf_registry reg" and "resolved reg d" and "names_instance d i"
  shows "live reg i"
  by (rule resolved_names [OF assms(2,3)]) (rule resolved_role_live(1) [OF assms(1)])

lemma resolved_io:
  assumes "wf_registry reg" and "ResolveInstances reg ext d = (kCipErrorSuccess, e, d')"
    and "TransportClass (trigger d) = kConnTransportClass0 \<or> TransportClass (trigger d) = kConnTransportClass1"
    and "names_instance d' i"
  shows "fst i = kCipAssembly \<and> live reg i"
proof -
  obtain d1 where d1: "resolved reg d1" "transport_check d1 = Inr d'" "trigger d1 = trigger d"
    by (rule ResolveInstances_success [OF assms(2)])
  note t = transport_check_cases [OF d1(2)]
  have i: "names_instance d1 i"
    using assms(4) t(1) by (elim disjE) (simp_all add: names_instance_def)
  obtain k where k: "k = config_path (conn_path d1) \<and> config_instance d1 = Some i \<or>
      k = consuming_path (conn_path d1) \<and> consuming_instance d1 = Some i \<or>
      k = producing_path (conn_path d1) \<and> producing_instance d1 = Some i"
    and r: "resolved_role reg (conn_path d1) k (Some i)" by (rule resolved_names [OF d1(1) i])
  have "class_of_path (path_at k (conn_path d1)) = kCipAssembly"
    using k t(2) assms(3) d1(3) by (elim disjE) (simp_all add: ConfigPath_def ConsumingPath_def ProducingPath_def)
  then have "fst i = kCipAssembly" using resolved_role_live(2) [OF assms(1) r] by simp
  then show ?thesis using resolved_live [OF assms(1) d1(1) i] by simp
qed

section \<open>Sizes\<close>

lemma CorrectSizes_defined:
  assumes "resolved reg d"
  shows "\<exists>r. CorrectSizes SizeBytes ext d = Inr r"
proof -
  have p: "\<exists>r. correct_producing SizeBytes ext d' = Inr r"
    if "producing_ncp d' = producing_ncp d" "producing_instance d' = producing_instance d" for d'
    using assms that by (auto simp: correct_producing_def resolved_def Let_def split: option.split)
  show ?thesis
    using assms p by (auto simp: CorrectSizes_def resolved_def Let_def split: option.split)
qed

lemma ConnectionSize_set:
  assumes "n \<le> (if not_large ncp then 0x1ff else 0xffff)"
  shows "unat (ConnectionSize (SetConnectionSize (int n) ncp)) = n" and
    "IsFixed (SetConnectionSize (int n) ncp) = IsFixed ncp"
proof -
  have n: "unat (of_nat n :: u32) = n" "(of_nat n :: u32) < 2 ^ (if not_large ncp then 9 else 16)"
    using assms by (auto simp: unat_of_nat word_less_nat_alt split: if_splits)
  show "unat (ConnectionSize (SetConnectionSize (int n) ncp)) = n"
    using n by (auto simp: size_field ncp_fields get_set_bits split: if_splits)
  show "IsFixed (SetConnectionSize (int n) ncp) = IsFixed ncp"
    using n by (auto simp: ncp_field_defs get_set_other split: if_splits)
qed

lemma wrong_size_None:
  "wrong_size trig fmt ncp attr_size = None \<longleftrightarrow>
     size_overhead trig fmt attr_size \<le> unat (ConnectionSize ncp) \<and>
     unat (ConnectionSize ncp) \<le> size_overhead trig fmt attr_size + attr_size \<and>
     (IsFixed ncp \<longrightarrow> unat (ConnectionSize ncp) = size_overhead trig fmt attr_size + attr_size)"
  by (auto simp: wrong_size_def Let_def)

lemma wrong_size_Some:
  "wrong_size trig fmt ncp attr_size = Some n \<Longrightarrow> n = of_nat (attr_size + size_overhead trig fmt attr_size)"
  by (auto simp: wrong_size_def Let_def split: if_splits)

lemma ConnectionType_set_size:
  assumes "n \<le> (if not_large ncp then 0x1ff else 0xffff)"
  shows "ConnectionType (SetConnectionSize (int n) ncp) = ConnectionType ncp"
proof -
  have n: "(of_nat n :: u32) < 2 ^ (if not_large ncp then 9 else 16)"
    using assms by (auto simp: unat_of_nat word_less_nat_alt split: if_splits)
  then show ?thesis by (auto simp: ncp_field_defs get_set_other split: if_splits)
qed

text \<open>The size a refusal suggests is accepted, when the parameters can hold it.\<close>

lemma corrected_size_accepted:
  assumes "wrong_size trig fmt ncp attr_size = Some n"
    and "attr_size + size_overhead trig fmt attr_size \<le> (if not_large ncp then 0x1ff else 0xffff)"
  shows "wrong_size trig fmt (SetConnectionSize (uint n) ncp) attr_size = None"
proof -
  let ?s = "attr_size + size_overhead trig fmt attr_size"
  have "?s \<le> 0xffff" using assms(2) by (auto split: if_splits)
  then have "unat n = ?s"
    unfolding wrong_size_Some [OF assms(1)] by (simp add: unat_of_nat del: of_nat_add)
  then have u: "uint n = int ?s" by (simp add: uint_nat)
  have a: "unat (ConnectionSize (SetConnectionSize (uint n) ncp)) = ?s"
    unfolding u by (rule ConnectionSize_set(1) [OF assms(2)])
  show ?thesis unfolding wrong_size_None a by simp
qed

text \<open>What a request has to ask for on the two sides.\<close>

definition size_fits :: "u8 \<Rightarrow> rt_fmt \<Rightarrow> net_params \<Rightarrow> nat \<Rightarrow> bool" where
  "size_fits trig fmt ncp attr_size \<longleftrightarrow>
     ConnectionType ncp = kIOConnTypeNull \<or>
     (let n = unat (ConnectionSize ncp); overhead = size_overhead trig fmt attr_size
      in overhead \<le> n \<and> (if IsFixed ncp then n = overhead + attr_size else n \<le> overhead + attr_size))"

lemma size_fits_wrong_size:
  "size_fits trig fmt ncp n \<longleftrightarrow> ConnectionType ncp = kIOConnTypeNull \<or> wrong_size trig fmt ncp n = None"
  by (auto simp: size_fits_def Let_def wrong_size_None)

lemma correct_producing_cases:
  assumes "ConnectionType (producing_ncp d) \<noteq> kIOConnTypeNull \<Longrightarrow> producing_instance d = Some i"
  shows "\<exists>e s d'. correct_producing SizeBytes ext d = Inr (e, s, d') \<and>
     (e = kCipErrorSuccess \<longleftrightarrow> size_fits (trigger d) (producing_fmt d) (producing_ncp d) (SizeBytes i)) \<and>
     (e \<noteq> kCipErrorSuccess \<longrightarrow> s = kConnMgrStatusInvalidTToOConnectionSize) \<and> (e = kCipErrorSuccess \<longrightarrow> s = ext)"
  using assms by (auto simp: correct_producing_def size_fits_wrong_size Let_def split: option.split)

lemma CorrectSizes_iff:
  assumes "ConnectionType (consuming_ncp d) \<noteq> kIOConnTypeNull \<Longrightarrow> consuming_instance d = Some c"
    and "ConnectionType (producing_ncp d) \<noteq> kIOConnTypeNull \<Longrightarrow> producing_instance d = Some p"
  shows "\<exists>e s d'. CorrectSizes SizeBytes ext d = Inr (e, s, d') \<and>
     (e = kCipErrorSuccess \<longleftrightarrow>
        size_fits (trigger d) (consuming_fmt d) (consuming_ncp d) (SizeBytes c) \<and>
        size_fits (trigger d) (producing_fmt d) (producing_ncp d) (SizeBytes p))"
proof (cases "ConnectionType (consuming_ncp d) = kIOConnTypeNull")
  case True
  then have "size_fits (trigger d) (consuming_fmt d) (consuming_ncp d) (SizeBytes c)" by (simp add: size_fits_def)
  with True show ?thesis
    using correct_producing_cases [where d = d and i = p and SizeBytes = SizeBytes and ext = ext] assms(2)
    by (auto simp: CorrectSizes_def)
next
  case False
  then have c: "consuming_instance d = Some c" by (rule assms(1))
  let ?d = "d\<lparr>conn_path := set_path_attribute (consuming_path (conn_path d)) (conn_path d)\<rparr>"
  show ?thesis
  proof (cases "wrong_size (trigger d) (consuming_fmt d) (consuming_ncp d) (SizeBytes c)")
    case None
    then show ?thesis
      using correct_producing_cases [where d = ?d and i = p and SizeBytes = SizeBytes and ext = ext] assms(2) False c
      by (auto simp: CorrectSizes_def size_fits_wrong_size Let_def)
  next
    case (Some n)
    then show ?thesis using False c by (auto simp: CorrectSizes_def size_fits_wrong_size Let_def)
  qed
qed

end
