(* ===== verification/Cip_Conn.thy ===== *)
theory Cip_Conn
  imports Conn_Resolve Sock_Addr
begin

text \<open>
  \<open>CipConn\<close> of \<open>cip/cipconnection.h\<close> and \<open>cip/cipconnection.cc\<close>: a connection object, which is its
  \<open>ConnectionData\<close> and what the running connection needs besides. The record extends \<open>conn_data\<close> as the
  class extends \<open>ConnectionData\<close>; \<open>as_data\<close> is the base part and \<open>assign_data\<close> the assignment of one.

  A \<open>CipConn*\<close> is a number, an index into the store of theory \<open>Conn_Box\<close>, and a \<open>UdpSocket*\<close> an index into the
  store of theory \<open>Udp_Mgr\<close>. \<open>CurrentUSecs32()\<close> is the argument \<open>now\<close>. The timers are differences of 32-bit
  counters that wrap around.
\<close>

section \<open>The object\<close>

datatype ConnState =
    kConnStateNonExistent | kConnStateConfiguring | kConnStateWaitingForConnectionId
  | kConnStateEstablished | kConnStateTimedOut | kConnStateDeferredDelete | kConnStateClosing

datatype ConnInstanceType =
    kConnInstanceTypeExplicit | kConnInstanceTypeIoExclusiveOwner
  | kConnInstanceTypeIoInputOnly | kConnInstanceTypeIoListenOnly

primrec instance_type_code :: "ConnInstanceType \<Rightarrow> u8" where
  "instance_type_code kConnInstanceTypeExplicit = 0x00"
| "instance_type_code kConnInstanceTypeIoExclusiveOwner = 0x01"
| "instance_type_code kConnInstanceTypeIoInputOnly = 0x11"
| "instance_type_code kConnInstanceTypeIoListenOnly = 0x21"

datatype WatchdogTimeoutAction =
    kWatchdogTimeoutActionTransitionToTimedOut | kWatchdogTimeoutActionAutoDelete
  | kWatchdogTimeoutActionAutoReset | kWatchdogTimeoutActionDeferredDelete

record cip_conn = conn_data +
  watchdog_timeout_action :: WatchdogTimeoutAction
  eip_level_sequence_count_producing :: u32
  eip_level_sequence_count_consuming :: u32
  eip_level_sequence_count_consuming_first :: bool
  sequence_count_producing :: u16
  sequence_count_consuming :: u16
  consuming_header :: u32
  send_address :: sock_addr
  recv_address :: sock_addr
  openers_address :: sock_addr
  instance_id :: int
  instance_type :: ConnInstanceType
  state :: ConnState
  expected_packet_rate_usecs :: u32
  inactivity_watchdog_timer_usecs :: u32
  transmission_trigger_timer_usecs :: u32
  production_inhibit_timer_usecs :: u32
  consuming_socket :: "nat option"
  producing_socket :: "nat option"
  encap_session :: u32
  next_conn :: "nat option"
  prev_conn :: "nat option"
  on_list :: bool

abbreviation as_data :: "cip_conn \<Rightarrow> conn_data" where
  "as_data \<equiv> conn_data.truncate"

definition assign_data :: "conn_data \<Rightarrow> cip_conn \<Rightarrow> cip_conn" where
  "assign_data d c = conn_data.extend d (conn_data.more c)"

definition map_data :: "(conn_data \<Rightarrow> conn_data) \<Rightarrow> cip_conn \<Rightarrow> cip_conn" where
  "map_data f c = assign_data (f (as_data c)) c"

definition IsIOConnection :: "cip_conn \<Rightarrow> bool" where
  "IsIOConnection c \<longleftrightarrow> instance_type_code (instance_type c) AND 1 \<noteq> 0"

text \<open>The instance ids of the three paths, as every search of the active connections reads them.\<close>

definition consuming_point :: "conn_data \<Rightarrow> int" where
  "consuming_point d = inst_of_path (ConsumingPath (conn_path d))"

definition producing_point :: "conn_data \<Rightarrow> int" where
  "producing_point d = inst_of_path (ProducingPath (conn_path d))"

definition config_point :: "conn_data \<Rightarrow> int" where
  "config_point d = inst_of_path (ConfigPath (conn_path d))"

section \<open>Timers\<close>

definition adjust_rate :: "u32 \<Rightarrow> u32 \<Rightarrow> u32" where
  "adjust_rate tick rate = (if rate mod tick \<noteq> 0 then (rate div tick) * tick + tick else rate)"

definition SetExpectedPacketRateUSecs :: "user_conf \<Rightarrow> u32 \<Rightarrow> cip_conn \<Rightarrow> cip_conn" where
  "SetExpectedPacketRateUSecs conf rate c =
     c\<lparr>expected_packet_rate_usecs := adjust_rate (timer_tick_usecs conf) rate\<rparr>"

definition RxTimeoutUSecs :: "cip_conn \<Rightarrow> u32" where
  "RxTimeoutUSecs c = expected_packet_rate_usecs c * TimeoutMultiplier (as_data c)"

text \<open>\<open>int32_t ret = timer - CurrentUSecs32()\<close>.\<close>

definition timer_left :: "u32 \<Rightarrow> u32 \<Rightarrow> int" where
  "timer_left timer now = sint (timer - now)"

definition ProductionInhibitTimerUSecs :: "u32 \<Rightarrow> cip_conn \<Rightarrow> int" where
  "ProductionInhibitTimerUSecs now c = timer_left (production_inhibit_timer_usecs c) now"

definition SetProductionInhibitTimerUSecs :: "u32 \<Rightarrow> u32 \<Rightarrow> cip_conn \<Rightarrow> cip_conn" where
  "SetProductionInhibitTimerUSecs now future c = c\<lparr>production_inhibit_timer_usecs := now + future\<rparr>"

definition TransmissionTriggerTimerUSecs :: "u32 \<Rightarrow> cip_conn \<Rightarrow> int" where
  "TransmissionTriggerTimerUSecs now c = timer_left (transmission_trigger_timer_usecs c) now"

definition setTransmissionTriggerTimerUSecs :: "u32 \<Rightarrow> cip_conn \<Rightarrow> cip_conn" where
  "setTransmissionTriggerTimerUSecs usecs c = c\<lparr>transmission_trigger_timer_usecs := usecs\<rparr>"

definition SetTransmissionTriggerTimerUSecs :: "u32 \<Rightarrow> u32 \<Rightarrow> cip_conn \<Rightarrow> cip_conn" where
  "SetTransmissionTriggerTimerUSecs now future = setTransmissionTriggerTimerUSecs (now + future)"

definition BumpTransmissionTriggerTimerUSecs :: "u32 \<Rightarrow> cip_conn \<Rightarrow> cip_conn" where
  "BumpTransmissionTriggerTimerUSecs delta c =
     setTransmissionTriggerTimerUSecs (transmission_trigger_timer_usecs c + delta) c"

definition InactivityWatchDogTimerUSecs :: "u32 \<Rightarrow> cip_conn \<Rightarrow> int" where
  "InactivityWatchDogTimerUSecs now c = timer_left (inactivity_watchdog_timer_usecs c) now"

definition SetInactivityWatchDogTimerUSecs :: "u32 \<Rightarrow> u32 \<Rightarrow> cip_conn \<Rightarrow> cip_conn" where
  "SetInactivityWatchDogTimerUSecs now future c = c\<lparr>inactivity_watchdog_timer_usecs := now + future\<rparr>"

definition HasInactivityWatchDogTimer :: "cip_conn \<Rightarrow> bool" where
  "HasInactivityWatchDogTimer c \<longleftrightarrow>
     expected_packet_rate_usecs c \<noteq> 0 \<and> (consuming_instance c \<noteq> None \<or> IsServer (trigger c))"

definition Conn_GetPIT_USecs :: "cip_conn \<Rightarrow> u32" where
  "Conn_GetPIT_USecs c = GetPIT_USecs (port_segs (conn_path c))"

definition Conn_SetPIT_USecs :: "u32 \<Rightarrow> cip_conn \<Rightarrow> cip_conn" where
  "Conn_SetPIT_USecs usecs c =
     c\<lparr>conn_path := (conn_path c)\<lparr>port_segs := SetPIT_USecs usecs (port_segs (conn_path c))\<rparr>\<rparr>"

section \<open>Clearing and configuring\<close>

definition SockAddr_Clear :: sock_addr where
  "SockAddr_Clear = \<lparr>sin_family = 0, sin_port = 0, s_addr = 0, sin_zero = replicate 8 0\<rparr>"

text \<open>The run/idle header of the consumer is not cleared.\<close>

definition Conn_Clear :: "user_conf \<Rightarrow> u32 \<Rightarrow> bool \<Rightarrow> cip_conn \<Rightarrow> cip_conn" where
  "Conn_Clear conf now do_data c =
    (let c = (if do_data then map_data (ConnData_Clear conf) c else c);
         c = c\<lparr>state := kConnStateNonExistent, instance_type := kConnInstanceTypeExplicit,
               watchdog_timeout_action := kWatchdogTimeoutActionTransitionToTimedOut,
               eip_level_sequence_count_producing := 0, eip_level_sequence_count_consuming := 0,
               eip_level_sequence_count_consuming_first := True,
               sequence_count_producing := 0, sequence_count_consuming := 0\<rparr>;
         c = SetTransmissionTriggerTimerUSecs now 0 c;
         c = SetInactivityWatchDogTimerUSecs now 0 c;
         c = SetProductionInhibitTimerUSecs now 0 c
     in c\<lparr>send_address := SockAddr_Clear, recv_address := SockAddr_Clear, openers_address := SockAddr_Clear,
          consuming_socket := None, producing_socket := None, encap_session := 0,
          next_conn := None, prev_conn := None, on_list := False, expected_packet_rate_usecs := 0\<rparr>)"

text \<open>The static counter of \<open>NewConnectionId\<close> and the incarnation id in the upper half of \<open>s_incarnation_id\<close>.\<close>

record id_gen =
  connection_id :: u16
  s_incarnation_id :: u32

definition initial_ids :: "u16 \<Rightarrow> id_gen" where
  "initial_ids unique_connection_id =
     \<lparr>connection_id = 18,
      s_incarnation_id = push_bit 16 (ucast (if unique_connection_id = 0 then 0xc0de else unique_connection_id))\<rparr>"

definition NewConnectionId :: "id_gen \<Rightarrow> u32 \<times> id_gen" where
  "NewConnectionId g =
    (let g = g\<lparr>connection_id := connection_id g + 1\<rparr>
     in (s_incarnation_id g OR ucast (connection_id g), g))"

text \<open>The connection ids that the target chooses, in the connection and in the parameters it answers with.\<close>

definition choose_ids :: "id_gen \<Rightarrow> conn_data \<Rightarrow> cip_conn \<Rightarrow> id_gen \<times> conn_data \<times> cip_conn" where
  "choose_ids g d c =
    (let (g, d, c) =
           (if ConnectionType (consuming_ncp c) = kIOConnTypePointToPoint
            then let (cid, g) = NewConnectionId g
                 in (g, d\<lparr>consuming_connection_id := cid\<rparr>, c\<lparr>consuming_connection_id := cid\<rparr>)
            else (g, d, c))
     in if ConnectionType (producing_ncp c) = kIOConnTypeMulticast
        then let (pid, g) = NewConnectionId g
             in (g, d\<lparr>producing_connection_id := pid\<rparr>, c\<lparr>producing_connection_id := pid\<rparr>)
        else (g, d, c))"

abbreviation pre_consumption_usecs :: u32 where "pre_consumption_usecs \<equiv> 10000000"

definition GeneralConfiguration ::
    "user_conf \<Rightarrow> u32 \<Rightarrow> ConnInstanceType \<Rightarrow> id_gen \<Rightarrow> conn_data \<Rightarrow> cip_conn \<Rightarrow>
     id_gen \<times> conn_data \<times> cip_conn" where
  "GeneralConfiguration conf now type g d c =
    (let (g, d, c) = choose_ids g d (assign_data d c);
         c = c\<lparr>eip_level_sequence_count_producing := 0, sequence_count_producing := 0,
               eip_level_sequence_count_consuming := 0, eip_level_sequence_count_consuming_first := True,
               sequence_count_consuming := 0,
               watchdog_timeout_action := kWatchdogTimeoutActionAutoDelete\<rparr>;
         c = (if \<not> IsServer (trigger c) then SetTransmissionTriggerTimerUSecs now 0 c else c);
         c = SetExpectedPacketRateUSecs conf (consuming_RPI_usecs c) c;
         c = SetProductionInhibitTimerUSecs now 0 c;
         c = Conn_SetPIT_USecs 0 c;
         c = (if RxTimeoutUSecs c \<noteq> 0
              then SetInactivityWatchDogTimerUSecs now (max (RxTimeoutUSecs c) pre_consumption_usecs) c else c)
     in (g, d, c\<lparr>instance_type := type\<rparr>))"

section \<open>What the operations leave alone\<close>

lemma IsIOConnection_iff: "IsIOConnection c \<longleftrightarrow> instance_type c \<noteq> kConnInstanceTypeExplicit"
  by (cases "instance_type c") (simp_all add: IsIOConnection_def)

lemma as_data_simps [simp]:
  "connection_serial_number (as_data c) = connection_serial_number c"
  "originator_vendor_id (as_data c) = originator_vendor_id c"
  "originator_serial_number (as_data c) = originator_serial_number c"
  "consuming_ncp (as_data c) = consuming_ncp c" "producing_ncp (as_data c) = producing_ncp c"
  "consuming_connection_id (as_data c) = consuming_connection_id c"
  "producing_connection_id (as_data c) = producing_connection_id c"
  "conn_path (as_data c) = conn_path c" "trigger (as_data c) = trigger c"
  "timeout_multiplier_value (as_data c) = timeout_multiplier_value c"
  "consuming_RPI_usecs (as_data c) = consuming_RPI_usecs c"
  "producing_RPI_usecs (as_data c) = producing_RPI_usecs c"
  "consuming_instance (as_data c) = consuming_instance c"
  "producing_instance (as_data c) = producing_instance c"
  "config_instance (as_data c) = config_instance c"
  by (simp_all add: conn_data.defs)

lemma as_data_assign [simp]: "as_data (assign_data d c) = d"
  by (simp add: assign_data_def conn_data.defs)

lemma assign_data_fields [simp]:
  "consuming_ncp (assign_data d c) = consuming_ncp d" "producing_ncp (assign_data d c) = producing_ncp d"
  "trigger (assign_data d c) = trigger d" "conn_path (assign_data d c) = conn_path d"
  "consuming_RPI_usecs (assign_data d c) = consuming_RPI_usecs d"
  "consuming_connection_id (assign_data d c) = consuming_connection_id d"
  "producing_connection_id (assign_data d c) = producing_connection_id d"
  by (simp_all add: assign_data_def conn_data.defs)

end
