(* ===== verification/Conn_Box.thy ===== *)
theory Conn_Box
  imports Cip_Conn
begin

text \<open>
  \<open>CipConnBox\<close> of \<open>cip/cipconnectionmanager.h\<close> and \<open>cip/cipconnectionmanager.cc\<close>: the doubly linked list of
  the active connections, through the \<open>next\<close> and \<open>prev\<close> pointers of the connections themselves.

  \<open>conns\<close> is the store of all connection objects and \<open>head\<close> the list's only member. Every loop over the
  list follows the pointers; it is a \<open>partial_function\<close>, whose \<open>None\<close> means that it does not end.
  \<open>active s xs\<close> is the abstraction: the pointers from \<open>head\<close> on spell out the list \<open>xs\<close>, and
  \<open>on_list\<close> is membership. Under it \<open>Insert\<close> is \<open>Cons\<close>, \<open>Remove\<close> is \<open>remove1\<close>, and a search is \<open>List.find\<close>
  and ends.
\<close>

section \<open>The container\<close>

record box =
  head :: "nat option"
  conns :: "nat \<Rightarrow> cip_conn"

definition conn_upd :: "nat \<Rightarrow> (cip_conn \<Rightarrow> cip_conn) \<Rightarrow> 'a box_scheme \<Rightarrow> 'a box_scheme" where
  "conn_upd c f s = s\<lparr>conns := (conns s)(c := f (conns s c))\<rparr>"

definition Insert :: "nat \<Rightarrow> 'a box_scheme \<Rightarrow> bool \<times> 'a box_scheme" where
  "Insert c s =
    (if on_list (conns s c) then (False, s)
     else
       let s = conn_upd c (\<lambda>x. x\<lparr>prev_conn := None, next_conn := head s\<rparr>) s;
           s = (case head s of None \<Rightarrow> s | Some h \<Rightarrow> conn_upd h (\<lambda>x. x\<lparr>prev_conn := Some c\<rparr>) s);
           s = s\<lparr>head := Some c\<rparr>
       in (True, conn_upd c (\<lambda>x. x\<lparr>on_list := True\<rparr>) s))"

definition Remove :: "nat \<Rightarrow> 'a box_scheme \<Rightarrow> bool \<times> 'a box_scheme" where
  "Remove c s =
    (if \<not> on_list (conns s c) then (False, s)
     else
       let s = (case prev_conn (conns s c) of
                  Some p \<Rightarrow> conn_upd p (\<lambda>x. x\<lparr>next_conn := next_conn (conns s c)\<rparr>) s
                | None \<Rightarrow> s\<lparr>head := next_conn (conns s c)\<rparr>);
           s = (case next_conn (conns s c) of
                  Some n \<Rightarrow> conn_upd n (\<lambda>x. x\<lparr>prev_conn := prev_conn (conns s c)\<rparr>) s
                | None \<Rightarrow> s)
       in (True, conn_upd c (\<lambda>x. x\<lparr>prev_conn := None, next_conn := None, on_list := False\<rparr>) s))"

text \<open>The first connection from \<open>p\<close> on that satisfies a condition: the shape of every search.\<close>

partial_function (option) find_conn ::
    "(cip_conn \<Rightarrow> bool) \<Rightarrow> (nat \<Rightarrow> cip_conn) \<Rightarrow> nat option \<Rightarrow> nat option option" where
  "find_conn P h p =
    (case p of
       None \<Rightarrow> Some None
     | Some c \<Rightarrow> if P (h c) then Some (Some c) else find_conn P h (next_conn (h c)))"

definition find_active :: "(cip_conn \<Rightarrow> bool) \<Rightarrow> 'a box_scheme \<Rightarrow> nat option option" where
  "find_active P s = find_conn P (conns s) (head s)"

text \<open>The connections that the iterator visits, in order.\<close>

partial_function (option) walk :: "(nat \<Rightarrow> cip_conn) \<Rightarrow> nat option \<Rightarrow> nat list option" where
  "walk h p =
    (case p of
       None \<Rightarrow> Some []
     | Some c \<Rightarrow> Option.bind (walk h (next_conn (h c))) (\<lambda>cs. Some (c # cs)))"

section \<open>The abstraction\<close>

text \<open>The pointers from \<open>p\<close> to \<open>q\<close> spell out a list; \<open>b\<close> is what its first node has as predecessor.\<close>

fun dseg :: "(nat \<Rightarrow> cip_conn) \<Rightarrow> nat option \<Rightarrow> nat option \<Rightarrow> nat list \<Rightarrow> nat option \<Rightarrow> bool" where
  "dseg h p b [] q \<longleftrightarrow> p = q"
| "dseg h p b (x # xs) q \<longleftrightarrow>
     p = Some x \<and> prev_conn (h x) = b \<and> dseg h (next_conn (h x)) (Some x) xs q"

definition active :: "'a box_scheme \<Rightarrow> nat list \<Rightarrow> bool" where
  "active s xs \<longleftrightarrow> dseg (conns s) (head s) None xs None \<and> distinct xs \<and>
     (\<forall>c. on_list (conns s c) \<longleftrightarrow> c \<in> set xs) \<and>
     (\<forall>c. c \<notin> set xs \<longrightarrow> next_conn (conns s c) = None \<and> prev_conn (conns s c) = None)"

text \<open>A connection without its links: what the container does not touch.\<close>

definition unlinked :: "cip_conn \<Rightarrow> cip_conn" where
  "unlinked c = c\<lparr>next_conn := None, prev_conn := None, on_list := False\<rparr>"

section \<open>Linked segments\<close>

lemma conn_upd_simps [simp]:
  "head (conn_upd c f s) = head s" "conns (conn_upd c f s) = (conns s)(c := f (conns s c))"
  "box.more (conn_upd c f s) = box.more s"
  by (simp_all add: conn_upd_def)

lemma dseg_append:
  "dseg h p b (xs @ ys) q \<longleftrightarrow>
     (\<exists>r. dseg h p b xs r \<and> dseg h r (if xs = [] then b else Some (last xs)) ys q)"
  by (induction xs arbitrary: p b) auto

lemma dseg_cong:
  assumes "\<And>x. x \<in> set xs \<Longrightarrow> next_conn (h' x) = next_conn (h x) \<and> prev_conn (h' x) = prev_conn (h x)"
  shows "dseg h' p b xs q = dseg h p b xs q"
  using assms by (induction xs arbitrary: p b) auto

lemma dseg_same: "dseg h p b xs q \<Longrightarrow> (\<And>x. x \<in> set xs \<Longrightarrow> h' x = h x) \<Longrightarrow> dseg h' p b xs q"
  by (subst dseg_cong [where h = h]) auto

lemma dseg_unique:
  assumes "dseg h p b xs None" and "dseg h p b' ys None"
  shows "xs = ys"
  using assms by (induction xs arbitrary: p b b' ys) (case_tac ys; auto)+

lemma dseg_next:
  assumes "dseg h p b (ys @ c # zs) q"
  shows "next_conn (h c) = (case zs of [] \<Rightarrow> q | z # _ \<Rightarrow> Some z)"
  using assms by (cases zs) (auto simp: dseg_append)

lemma dseg_prev:
  assumes "dseg h p b (ys @ c # zs) q"
  shows "prev_conn (h c) = (if ys = [] then b else Some (last ys))"
  using assms by (auto simp: dseg_append)

text \<open>The pointer out of a segment, and the one back from it, can be changed.\<close>

lemma dseg_relink_last:
  assumes "dseg h p b xs q" and "distinct xs" and "xs \<noteq> []" and "next_conn c = q'"
    and "prev_conn c = prev_conn (h (last xs))"
  shows "dseg (h(last xs := c)) p b xs q'"
  using assms
proof (induction xs arbitrary: p b)
  case (Cons x xs)
  show ?case
  proof (cases "xs = []")
    case True then show ?thesis using Cons.prems by auto
  next
    case False
    have "last xs \<noteq> x" using Cons.prems(2) False last_in_set by auto
    then show ?thesis using Cons False by auto
  qed
qed simp

lemma dseg_relink_first:
  assumes "dseg h p b (x # xs) q" and "x \<notin> set xs" and "prev_conn c = b'"
    and "next_conn c = next_conn (h x)"
  shows "dseg (h(x := c)) p b' (x # xs) q"
proof -
  have "dseg (h(x := c)) r s xs q = dseg h r s xs q" for r s
    by (rule dseg_cong) (use assms(2) in auto)
  then show ?thesis using assms by auto
qed

section \<open>The operations on the abstraction\<close>

lemma active_unique: "active s xs \<Longrightarrow> active s ys \<Longrightarrow> xs = ys"
  by (auto simp: active_def dest: dseg_unique)

lemma active_on_list: "active s xs \<Longrightarrow> on_list (conns s c) \<longleftrightarrow> c \<in> set xs"
  by (simp add: active_def)

lemma active_head: "active s xs \<Longrightarrow> head s = (case xs of [] \<Rightarrow> None | x # _ \<Rightarrow> Some x)"
  by (cases xs) (auto simp: active_def)

lemma active_next:
  "active s (ys @ c # zs) \<Longrightarrow> next_conn (conns s c) = (case zs of [] \<Rightarrow> None | z # _ \<Rightarrow> Some z)"
  unfolding active_def by (auto dest: dseg_next)

lemma active_off: "active s xs \<Longrightarrow> c \<notin> set xs \<Longrightarrow> next_conn (conns s c) = None"
  by (simp add: active_def)

text \<open>Changes that keep every link keep the list.\<close>

lemma active_cong:
  assumes "head s' = head s"
    and "\<And>c. next_conn (conns s' c) = next_conn (conns s c) \<and> prev_conn (conns s' c) = prev_conn (conns s c) \<and>
      on_list (conns s' c) = on_list (conns s c)"
  shows "active s' xs = active s xs"
proof -
  have "dseg (conns s') p b xs q = dseg (conns s) p b xs q" for p b q
    by (rule dseg_cong) (use assms(2) in blast)
  then show ?thesis using assms by (simp add: active_def)
qed

lemma Insert_active:
  assumes "active s xs" and "c \<notin> set xs"
  shows "\<exists>s'. Insert c s = (True, s') \<and> active s' (c # xs)"
proof -
  have off: "\<not> on_list (conns s c)" using assms by (simp add: active_def)
  obtain s' where s': "Insert c s = (True, s')" using off by (auto simp: Insert_def Let_def)
  have seg: "dseg (conns s) (head s) None xs None" and d: "distinct xs" using assms(1) by (auto simp: active_def)
  have "active s' (c # xs)"
  proof (cases xs)
    case Nil
    then have "head s = None" using seg by simp
    then have "s' = conn_upd c (\<lambda>x. x\<lparr>prev_conn := None, next_conn := None, on_list := True\<rparr>) s\<lparr>head := Some c\<rparr>"
      using s' off by (auto simp: Insert_def Let_def conn_upd_def)
    then show ?thesis using assms Nil by (auto simp: active_def)
  next
    case (Cons x ys)
    then have x: "head s = Some x" "x \<noteq> c" using seg assms(2) by auto
    then have s'_eq: "head s' = Some c" "conns s' =
        (conns s)(c := (conns s c)\<lparr>prev_conn := None, next_conn := Some x, on_list := True\<rparr>,
                  x := (conns s x)\<lparr>prev_conn := Some c\<rparr>)"
      using s' off by (auto simp: Insert_def Let_def fun_eq_iff)
    have "dseg ((conns s)(x := (conns s x)\<lparr>prev_conn := Some c\<rparr>)) (Some x) (Some c) xs None"
      unfolding Cons by (rule dseg_relink_first) (use seg d Cons x in auto)
    then have "dseg (conns s') (Some x) (Some c) xs None"
      by (subst dseg_cong [where h = "(conns s)(x := (conns s x)\<lparr>prev_conn := Some c\<rparr>)"])
        (use assms(2) in \<open>auto simp: s'_eq\<close>)
    then show ?thesis
      using assms d x Cons by (auto simp: active_def s'_eq)
  qed
  then show ?thesis using s' by blast
qed

lemma Insert_again:
  assumes "active s xs" and "c \<in> set xs"
  shows "Insert c s = (False, s)"
  using assms by (simp add: Insert_def active_def)

lemma Remove_absent:
  assumes "active s xs" and "c \<notin> set xs"
  shows "Remove c s = (False, s)"
  using assms by (simp add: Remove_def active_def)

text \<open>What \<open>Remove\<close> writes, for a node between \<open>ys\<close> and \<open>zs\<close>.\<close>

lemma Remove_links:
  assumes a: "active s (ys @ c # zs)" and r: "Remove c s = (b, s')"
  shows "b" and "head s' = (case ys of [] \<Rightarrow> (case zs of [] \<Rightarrow> None | z # _ \<Rightarrow> Some z) | y # _ \<Rightarrow> Some y)"
    and "conns s' c = (conns s c)\<lparr>prev_conn := None, next_conn := None, on_list := False\<rparr>"
    and "ys \<noteq> [] \<Longrightarrow> conns s' (last ys) = (conns s (last ys))
      \<lparr>next_conn := (case zs of [] \<Rightarrow> None | z # _ \<Rightarrow> Some z)\<rparr>"
    and "zs \<noteq> [] \<Longrightarrow> conns s' (hd zs) = (conns s (hd zs))
      \<lparr>prev_conn := (if ys = [] then None else Some (last ys))\<rparr>"
    and "x \<noteq> c \<Longrightarrow> ys = [] \<or> x \<noteq> last ys \<Longrightarrow> zs = [] \<or> x \<noteq> hd zs \<Longrightarrow> conns s' x = conns s x"
proof -
  have seg: "dseg (conns s) (head s) None (ys @ c # zs) None" and d: "distinct (ys @ c # zs)"
    and on: "on_list (conns s c)" using a by (auto simp: active_def)
  note n = dseg_next [OF seg] and p = dseg_prev [OF seg]
  have hd: "head s = Some (hd (ys @ [c]))" using seg by (cases ys) auto
  have l: "ys \<noteq> [] \<Longrightarrow> last ys \<in> set ys" "zs \<noteq> [] \<Longrightarrow> hd zs \<in> set zs" by auto
  have "set ys \<inter> set zs = {}" "c \<notin> set ys" "c \<notin> set zs" using d by auto
  then have dis: "ys \<noteq> [] \<Longrightarrow> last ys \<noteq> c" "zs \<noteq> [] \<Longrightarrow> hd zs \<noteq> c"
      "ys \<noteq> [] \<Longrightarrow> zs \<noteq> [] \<Longrightarrow> last ys \<noteq> hd zs"
    using l by (metis, metis, metis IntI emptyE)
  note defs = Remove_def Let_def n p on
  show "b" "conns s' c = (conns s c)\<lparr>prev_conn := None, next_conn := None, on_list := False\<rparr>"
    using r dis by (cases zs; cases "ys = []"; auto simp: defs)+
  show "head s' = (case ys of [] \<Rightarrow> (case zs of [] \<Rightarrow> None | z # _ \<Rightarrow> Some z) | y # _ \<Rightarrow> Some y)"
    using r hd dis by (cases zs; cases ys; auto simp: defs split: if_splits)
  show "conns s' (last ys) = (conns s (last ys))\<lparr>next_conn := (case zs of [] \<Rightarrow> None | z # _ \<Rightarrow> Some z)\<rparr>"
    if "ys \<noteq> []" using that r dis by (cases zs; auto simp: defs)
  show "conns s' (hd zs) = (conns s (hd zs))\<lparr>prev_conn := (if ys = [] then None else Some (last ys))\<rparr>"
    if "zs \<noteq> []" using that r dis by (cases zs; auto simp: defs)
  show "conns s' x = conns s x"
    if "x \<noteq> c" "ys = [] \<or> x \<noteq> last ys" "zs = [] \<or> x \<noteq> hd zs"
    using that r by (cases zs; cases "ys = []"; auto simp: defs)
qed

lemma unlinked_Insert: "unlinked (conns (snd (Insert c s)) d) = unlinked (conns s d)"
  by (auto simp: Insert_def Let_def unlinked_def split: option.splits)

lemma unlinked_Remove: "unlinked (conns (snd (Remove c s)) d) = unlinked (conns s d)"
  by (auto simp: Remove_def Let_def unlinked_def split: option.splits)

lemma Insert_more [simp]: "box.more (snd (Insert c s)) = box.more s"
  by (auto simp: Insert_def Let_def split: option.splits)

lemma Remove_more [simp]: "box.more (snd (Remove c s)) = box.more s"
  by (auto simp: Remove_def Let_def split: option.splits)

lemma Remove_active_split:
  assumes a: "active s (ys @ c # zs)"
  shows "\<exists>s'. Remove c s = (True, s') \<and> active s' (ys @ zs)"
proof -
  obtain b s' where r: "Remove c s = (b, s')" by fastforce
  note L = Remove_links [OF a r]
  have seg: "dseg (conns s) (head s) None (ys @ c # zs) None" and d: "distinct (ys @ c # zs)"
    using a by (auto simp: active_def)
  let ?zs = "case zs of [] \<Rightarrow> None | z # _ \<Rightarrow> Some z" and ?ys = "if ys = [] then None else Some (last ys)"
  have ys: "dseg (conns s) (head s) None ys (Some c)" and zs: "dseg (conns s) ?zs (Some c) zs None"
    using seg by (cases zs; auto simp: dseg_append)+
  have zs': "dseg (conns s') ?zs ?ys zs None"
  proof (cases zs)
    case (Cons z zt)
    have "dseg ((conns s)(z := conns s' z)) ?zs ?ys (z # zt) None"
      using zs d L(5) Cons by (intro dseg_relink_first [where b = "Some c"]) auto
    moreover have "conns s' x = ((conns s)(z := conns s' z)) x" if "x \<in> set zs" for x
    proof -
      have "ys = [] \<or> x \<noteq> last ys" "x \<noteq> c" using d that last_in_set by fastforce+
      then show ?thesis using L(6) [of x] Cons by (cases "x = z") auto
    qed
    ultimately show ?thesis unfolding Cons by (rule dseg_same)
  qed simp
  have ys': "dseg (conns s') (head s') None ys ?zs"
  proof (cases "ys = []")
    case True then show ?thesis using L(2) by simp
  next
    case False
    have h: "head s' = head s" using L(2) False seg by (cases ys) auto
    have "dseg ((conns s)(last ys := conns s' (last ys))) (head s) None ys ?zs"
      using ys d L(4) False by (intro dseg_relink_last [where q = "Some c"]) auto
    moreover have "conns s' x = ((conns s)(last ys := conns s' (last ys))) x" if "x \<in> set ys" for x
      using L(6) [of x] d that by (cases zs) auto
    ultimately show ?thesis unfolding h by (rule dseg_same)
  qed
  have on: "on_list (conns s' x) \<longleftrightarrow> x \<in> set (ys @ zs)" for x
  proof -
    have "on_list (conns s' x) \<longleftrightarrow> x \<noteq> c \<and> on_list (conns s x)"
    proof -
      consider "x = c" | "x \<noteq> c" "ys \<noteq> []" "x = last ys" | "x \<noteq> c" "zs \<noteq> []" "x = hd zs"
        | "x \<noteq> c" "ys = [] \<or> x \<noteq> last ys" "zs = [] \<or> x \<noteq> hd zs" by blast
      then show ?thesis
      proof cases
        case 1 then show ?thesis using L(3) by simp
      next
        case 2 then show ?thesis using L(4) by simp
      next
        case 3 then show ?thesis using L(5) by simp
      next
        case 4 then show ?thesis using L(6) [of x] by simp
      qed
    qed
    then show ?thesis using a d by (auto simp: active_def)
  qed
  have off: "next_conn (conns s' x) = None \<and> prev_conn (conns s' x) = None" if "x \<notin> set (ys @ zs)" for x
  proof (cases "x = c")
    case True then show ?thesis using L(3) by simp
  next
    case False
    have "ys = [] \<or> x \<noteq> last ys" "zs = [] \<or> x \<noteq> hd zs" using that by auto
    then have "conns s' x = conns s x" using L(6) [of x] False by simp
    then show ?thesis using a that False by (auto simp: active_def)
  qed
  have "active s' (ys @ zs)"
    unfolding active_def dseg_append using ys' zs' d on off by auto
  then show ?thesis using r L(1) by simp
qed

lemma Remove_active:
  assumes "active s xs" and "c \<in> set xs"
  shows "\<exists>s'. Remove c s = (True, s') \<and> active s' (remove1 c xs)"
proof -
  obtain ys zs where xs: "xs = ys @ c # zs" and "c \<notin> set ys" using assms(2) by (meson split_list_first)
  then have "remove1 c xs = ys @ zs" by (simp add: remove1_append)
  then show ?thesis using Remove_active_split [of s ys c zs] assms(1) xs by simp
qed

section \<open>The loops end\<close>

lemma find_conn_dseg:
  assumes "dseg h p b xs None"
  shows "find_conn P h p = Some (List.find (\<lambda>c. P (h c)) xs)"
  using assms
proof (induction xs arbitrary: p b)
  case Nil then show ?case by (simp add: find_conn.simps [of P h None])
next
  case (Cons x xs)
  then show ?case
    using Cons.IH [of "next_conn (h x)" "Some x"] by (simp add: find_conn.simps [of P h "Some x"])
qed

lemma find_active_find:
  "active s xs \<Longrightarrow> find_active P s = Some (List.find (\<lambda>c. P (conns s c)) xs)"
  unfolding active_def find_active_def using find_conn_dseg by blast

lemma walk_dseg:
  assumes "dseg h p b xs None"
  shows "walk h p = Some xs"
  using assms
proof (induction xs arbitrary: p b)
  case Nil then show ?case by (simp add: walk.simps [of h None])
next
  case (Cons x xs)
  then show ?case using Cons.IH [of "next_conn (h x)" "Some x"] by (simp add: walk.simps [of h "Some x"])
qed

lemma walk_active: "active s xs \<Longrightarrow> walk (conns s) (head s) = Some xs"
  unfolding active_def using walk_dseg by blast

text \<open>From a connection that is not on the list, or was just removed, the iterator ends at once.\<close>

lemma walk_off_list: "active s xs \<Longrightarrow> c \<notin> set xs \<Longrightarrow> walk (conns s) (Some c) = Some [c]"
  by (simp add: walk.simps [of _ "Some c"] walk.simps [of _ None] active_off)

section \<open>Refinement\<close>

text \<open>Runs of operations, each with a result.\<close>

fun run_ops :: "('o \<Rightarrow> 's \<Rightarrow> 'r \<times> 's) \<Rightarrow> 'o list \<Rightarrow> 's \<Rightarrow> 'r list \<times> 's" where
  "run_ops step [] s = ([], s)"
| "run_ops step (a # as) s =
     (let (r, s) = step a s; (rs, s) = run_ops step as s in (r # rs, s))"

locale refinement =
  fixes rel :: "'s \<Rightarrow> 'a \<Rightarrow> bool"
    and cstep :: "'o \<Rightarrow> 's \<Rightarrow> 'r \<times> 's"
    and astep :: "'o \<Rightarrow> 'a \<Rightarrow> 'r \<times> 'a"
  assumes step: "rel s a \<Longrightarrow> fst (cstep c s) = fst (astep c a) \<and> rel (snd (cstep c s)) (snd (astep c a))"
begin

lemma run:
  "rel s a \<Longrightarrow> fst (run_ops cstep cs s) = fst (run_ops astep cs a) \<and>
     rel (snd (run_ops cstep cs s)) (snd (run_ops astep cs a))"
proof (induction cs arbitrary: s a)
  case (Cons c cs)
  then show ?case using step [OF Cons.prems, of c]
    by (auto simp: Let_def split_beta)
qed simp

end

datatype box_op = Box_Insert nat | Box_Remove nat

primrec box_exec :: "box_op \<Rightarrow> 'a box_scheme \<Rightarrow> bool \<times> 'a box_scheme" where
  "box_exec (Box_Insert c) s = Insert c s"
| "box_exec (Box_Remove c) s = Remove c s"

primrec list_exec :: "box_op \<Rightarrow> nat list \<Rightarrow> bool \<times> nat list" where
  "list_exec (Box_Insert c) xs = (if c \<in> set xs then (False, xs) else (True, c # xs))"
| "list_exec (Box_Remove c) xs = (if c \<in> set xs then (True, remove1 c xs) else (False, xs))"

lemma box_exec_refines:
  assumes "active s xs"
  shows "fst (box_exec a s) = fst (list_exec a xs) \<and> active (snd (box_exec a s)) (snd (list_exec a xs))"
proof (cases a)
  case (Box_Insert c)
  then show ?thesis
    using Insert_active [OF assms, of c] Insert_again [OF assms, of c] assms by (cases "c \<in> set xs") auto
next
  case (Box_Remove c)
  then show ?thesis
    using Remove_active [OF assms, of c] Remove_absent [OF assms, of c] assms by (cases "c \<in> set xs") auto
qed

interpretation box: refinement active box_exec list_exec
  by unfold_locales (rule box_exec_refines)

end
