(* ===== verification/Udp_Mgr.thy ===== *)
theory Udp_Mgr
  imports Sock_Addr "HOL-Library.Multiset"
begin

text \<open>
  \<open>UdpSocketMgr\<close> of \<open>enet_encap/networkhandler.h\<close> and \<open>enet_encap/networkhandler.cc\<close>: UDP sockets that are
  shared by the connections which use them, with one reference count for each socket and one for each
  multicast group that was joined on it.

  A \<open>UdpSocket*\<close> is a number, an index into \<open>udp_store\<close>; \<open>m_free\<close> holds the objects to use again, and
  \<open>udp_count\<close> is the number of objects that \<open>new\<close> made. What the operating system answers is an argument:
  \<open>createSocket\<close> is the handle of a new bound socket or \<open>kSocketInvalid\<close>, \<open>add_membership\<close> whether
  \<open>IP_ADD_MEMBERSHIP\<close> succeeded.

  \<open>balanced\<close> is the contract with the clients: with \<open>held\<close> the multiset of the pointers they hold, every
  count is the number of holders, a group counting as one use of its socket by each of its holders.
\<close>

section \<open>Sockets\<close>

abbreviation kInvalid :: int where "kInvalid \<equiv> -1"

record udp_socket =
  u_sockaddr :: sock_addr
  u_socket :: int
  u_ref_count :: int
  u_underlying :: "nat option"

definition UdpSocket :: "sock_addr \<Rightarrow> int \<Rightarrow> udp_socket" where
  "UdpSocket a sock = \<lparr>u_sockaddr = a, u_socket = sock, u_ref_count = 1, u_underlying = None\<rparr>"

record udp_mgr =
  udp_store :: "nat \<Rightarrow> udp_socket"
  udp_count :: nat
  m_sockets :: "nat list"
  m_multicast :: "nat list"
  m_free :: "nat list"

record udp_os =
  createSocket :: "udp_mgr \<Rightarrow> sock_addr \<Rightarrow> int"
  add_membership :: "udp_mgr \<Rightarrow> sock_addr \<Rightarrow> bool"

definition udp_upd :: "nat \<Rightarrow> (udp_socket \<Rightarrow> udp_socket) \<Rightarrow> udp_mgr \<Rightarrow> udp_mgr" where
  "udp_upd i f m = m\<lparr>udp_store := (udp_store m)(i := f (udp_store m i))\<rparr>"

definition add_ref :: "int \<Rightarrow> udp_socket \<Rightarrow> udp_socket" where
  "add_ref n u = u\<lparr>u_ref_count := u_ref_count u + n\<rparr>"

section \<open>Grabbing and releasing\<close>

definition udp_find :: "sock_addr \<Rightarrow> nat list \<Rightarrow> udp_mgr \<Rightarrow> nat option" where
  "udp_find a l m = List.find (\<lambda>i. sa_eq (u_sockaddr (udp_store m i)) a) l"

text \<open>\<open>m_free.back()\<close> and \<open>pop_back\<close>, with construction in place, or \<open>new\<close>.\<close>

definition udp_alloc :: "sock_addr \<Rightarrow> int \<Rightarrow> udp_mgr \<Rightarrow> nat \<times> udp_mgr" where
  "udp_alloc a sock m =
    (if m_free m \<noteq> [] then
       (List.last (m_free m),
        udp_upd (List.last (m_free m)) (\<lambda>_. UdpSocket a sock) (m\<lparr>m_free := butlast (m_free m)\<rparr>))
     else
       (udp_count m, udp_upd (udp_count m) (\<lambda>_. UdpSocket a sock) (m\<lparr>udp_count := udp_count m + 1\<rparr>)))"

definition udp_free :: "nat \<Rightarrow> udp_mgr \<Rightarrow> udp_mgr" where
  "udp_free i m = m\<lparr>m_free := m_free m @ [i]\<rparr>"

text \<open>The count of a socket falls but the socket stays open: closing it is disabled in the code.\<close>

definition release_iface :: "nat option \<Rightarrow> udp_mgr \<Rightarrow> bool \<times> udp_mgr" where
  "release_iface iface m =
    (case iface of None \<Rightarrow> (False, m) | Some i \<Rightarrow> (True, udp_upd i (add_ref (-1)) m))"

definition ReleaseSocket :: "nat \<Rightarrow> udp_mgr \<Rightarrow> bool \<times> udp_mgr" where
  "ReleaseSocket s m =
    (if IsMulticast (u_sockaddr (udp_store m s)) \<and> s \<in> set (m_multicast m) then
       let iface = u_underlying (udp_store m s);
           m = udp_upd s (add_ref (-1)) m;
           m = (if u_ref_count (udp_store m s) \<le> 0
                then udp_free s (m\<lparr>m_multicast := remove1 s (m_multicast m)\<rparr>) else m)
       in release_iface iface m
     else release_iface (if s \<in> set (m_sockets m) then Some s else None) m)"

text \<open>The first half of \<open>GrabSocket\<close>: the socket bound to an address, found or made.\<close>

definition grab_iface :: "udp_os \<Rightarrow> sock_addr \<Rightarrow> udp_mgr \<Rightarrow> nat option \<times> udp_mgr" where
  "grab_iface os a m =
    (case udp_find a (m_sockets m) m of
       Some i \<Rightarrow> (Some i, udp_upd i (add_ref 1) m)
     | None \<Rightarrow>
         let sock = createSocket os m a
         in if sock = kInvalid then (None, m)
            else let (i, m) = udp_alloc a sock m in (Some i, m\<lparr>m_sockets := m_sockets m @ [i]\<rparr>))"

text \<open>The second half: the group, found or joined.\<close>

definition grab_group :: "udp_os \<Rightarrow> nat \<Rightarrow> sock_addr \<Rightarrow> udp_mgr \<Rightarrow> nat option \<times> udp_mgr" where
  "grab_group os iface a m =
    (case udp_find a (m_multicast m) m of
       Some g \<Rightarrow> (Some g, udp_upd g (add_ref 1) m)
     | None \<Rightarrow>
         if \<not> add_membership os m a then (None, snd (ReleaseSocket iface m))
         else
           let (g, m) = udp_alloc a (u_socket (udp_store m iface)) m;
               m = udp_upd g (\<lambda>u. u\<lparr>u_underlying := Some iface\<rparr>) m
           in (Some g, m\<lparr>m_multicast := m_multicast m @ [g]\<rparr>))"

definition GrabSocket ::
    "udp_os \<Rightarrow> sock_addr \<Rightarrow> sock_addr option \<Rightarrow> udp_mgr \<Rightarrow> nat option \<times> udp_mgr" where
  "GrabSocket os a multicast m =
    (case grab_iface os a m of
       (None, m) \<Rightarrow> (None, m)
     | (Some i, m) \<Rightarrow> (case multicast of None \<Rightarrow> (Some i, m) | Some g \<Rightarrow> grab_group os i g m))"

definition initial_udp :: udp_mgr where
  "initial_udp = \<lparr>udp_store = (\<lambda>_. UdpSocket (SockAddr 0 0) kInvalid), udp_count = 0,
     m_sockets = [], m_multicast = [], m_free = []\<rparr>"

section \<open>Reference counts\<close>

text \<open>The uses of a socket: its own holders and those of the groups on it.\<close>

definition uses :: "nat multiset \<Rightarrow> udp_mgr \<Rightarrow> nat \<Rightarrow> nat" where
  "uses held m i =
     size {#s \<in># held. s = i \<or> s \<in> set (m_multicast m) \<and> u_underlying (udp_store m s) = Some i#}"

definition udp_wf :: "udp_mgr \<Rightarrow> bool" where
  "udp_wf m \<longleftrightarrow> distinct (m_sockets m @ m_multicast m @ m_free m) \<and>
     (\<forall>i \<in> set (m_sockets m @ m_multicast m @ m_free m). i < udp_count m) \<and>
     (\<forall>i \<in> set (m_sockets m). \<not> IsMulticast (u_sockaddr (udp_store m i))) \<and>
     (\<forall>g \<in> set (m_multicast m). IsMulticast (u_sockaddr (udp_store m g)))"

text \<open>Groups are all joined on the socket bound to \<open>base\<close>.\<close>

definition groups_on :: "sock_addr \<Rightarrow> udp_mgr \<Rightarrow> bool" where
  "groups_on base m \<longleftrightarrow>
     (\<forall>g \<in> set (m_multicast m). \<exists>i. udp_find base (m_sockets m) m = Some i \<and>
        u_underlying (udp_store m g) = Some i)"

definition balanced :: "sock_addr \<Rightarrow> nat multiset \<Rightarrow> udp_mgr \<Rightarrow> bool" where
  "balanced base held m \<longleftrightarrow> udp_wf m \<and> groups_on base m \<and>
     set_mset held \<subseteq> set (m_sockets m) \<union> set (m_multicast m) \<and>
     (\<forall>g \<in> set (m_multicast m). u_ref_count (udp_store m g) = int (count held g) \<and> g \<in># held) \<and>
     (\<forall>i \<in> set (m_sockets m). u_ref_count (udp_store m i) = int (uses held m i))"

lemma udp_upd_simps [simp]:
  "udp_store (udp_upd i f m) = (udp_store m)(i := f (udp_store m i))"
  "udp_count (udp_upd i f m) = udp_count m" "m_sockets (udp_upd i f m) = m_sockets m"
  "m_multicast (udp_upd i f m) = m_multicast m" "m_free (udp_upd i f m) = m_free m"
  by (simp_all add: udp_upd_def)

lemma add_ref_simps [simp]:
  "u_sockaddr (add_ref n u) = u_sockaddr u" "u_socket (add_ref n u) = u_socket u"
  "u_ref_count (add_ref n u) = u_ref_count u + n" "u_underlying (add_ref n u) = u_underlying u"
  by (simp_all add: add_ref_def)

lemma UdpSocket_simps [simp]:
  "u_sockaddr (UdpSocket a sock) = a" "u_socket (UdpSocket a sock) = sock"
  "u_ref_count (UdpSocket a sock) = 1" "u_underlying (UdpSocket a sock) = None"
  by (simp_all add: UdpSocket_def)

lemma udp_find_Some:
  assumes "udp_find a l m = Some i"
  shows "i \<in> set l \<and> sa_eq (u_sockaddr (udp_store m i)) a"
  using assms unfolding udp_find_def by (auto simp: find_Some_iff)

lemma udp_find_cong:
  assumes "\<And>i. i \<in> set l \<Longrightarrow> u_sockaddr (udp_store m' i) = u_sockaddr (udp_store m i)"
  shows "udp_find a l m' = udp_find a l m"
  using assms unfolding udp_find_def by (induction l) auto

lemma udp_find_append:
  "udp_find a l m = Some i \<Longrightarrow> udp_find a (l @ l') m = Some i"
  unfolding udp_find_def by (induction l) (auto split: if_splits)

lemma find_append: "List.find P (xs @ ys) = (case List.find P xs of None \<Rightarrow> List.find P ys | Some x \<Rightarrow> Some x)"
  by (induction xs) auto

lemma sa_eq_multicast: "sa_eq a b \<Longrightarrow> IsMulticast a = IsMulticast b"
  by (simp add: sa_eq_iff IsMulticast_def)

lemma uses_add:
  "uses (add_mset s held) m i =
     uses held m i + of_bool (s = i \<or> s \<in> set (m_multicast m) \<and> u_underlying (udp_store m s) = Some i)"
  by (simp add: uses_def)

lemma uses_cong:
  assumes "m_multicast m' = m_multicast m"
    and "\<And>g. g \<in> set (m_multicast m) \<Longrightarrow> u_underlying (udp_store m' g) = u_underlying (udp_store m g)"
  shows "uses held m' i = uses held m i"
  unfolding uses_def assms(1) by (rule arg_cong [where f = size], rule filter_mset_cong) (auto simp: assms(2))

lemma balanced_wf: "balanced base held m \<Longrightarrow> udp_wf m"
  by (simp add: balanced_def)

text \<open>An object that is on none of the lists.\<close>

definition fresh :: "nat \<Rightarrow> udp_mgr \<Rightarrow> bool" where
  "fresh i m \<longleftrightarrow> i \<notin> set (m_sockets m @ m_multicast m @ m_free m) \<and> i < udp_count m"

lemma udp_alloc_fresh:
  assumes "udp_wf m" and "udp_alloc a sock m = (i, m')"
  shows "fresh i m' \<and> udp_wf m' \<and> i \<notin> set (m_sockets m) \<union> set (m_multicast m) \<and>
     m_sockets m' = m_sockets m \<and> m_multicast m' = m_multicast m \<and>
     udp_store m' = (udp_store m)(i := UdpSocket a sock)"
proof (cases "m_free m = []")
  case True
  have new: "udp_count m \<notin> set (m_sockets m) \<union> set (m_multicast m)"
    using assms(1) unfolding udp_wf_def by auto
  then have eq: "x \<noteq> udp_count m" if "x \<in> set (m_sockets m) \<union> set (m_multicast m)" for x
    using that by blast
  show ?thesis using assms True new
    by (auto simp: udp_alloc_def fresh_def udp_wf_def less_Suc_eq eq)
next
  case False
  then obtain fs f where f: "m_free m = fs @ [f]" by (metis append_butlast_last_id)
  then have new: "f \<notin> set (m_sockets m) \<union> set (m_multicast m)"
    using assms(1) unfolding udp_wf_def by auto
  then have eq: "x \<noteq> f" if "x \<in> set (m_sockets m) \<union> set (m_multicast m)" for x
    using that by blast
  show ?thesis using assms f new
    by (auto simp: udp_alloc_def fresh_def udp_wf_def eq split: if_splits)
qed

text \<open>A socket that gains a reference, or a new one, belongs to its new holder.\<close>

lemma grab_iface_balanced:
  assumes "balanced base held m" and "\<not> IsMulticast a" and "grab_iface os a m = (r, m')"
  shows "case r of None \<Rightarrow> balanced base held m' \<and> createSocket os m a = kInvalid
    | Some i \<Rightarrow> balanced base (add_mset i held) m' \<and> i \<in> set (m_sockets m') \<and>
        sa_eq (u_sockaddr (udp_store m' i)) a \<and> udp_find a (m_sockets m') m' = Some i"
proof (cases "udp_find a (m_sockets m) m")
  case (Some i)
  then have m': "r = Some i" "m' = udp_upd i (add_ref 1) m" using assms(3) by (auto simp: grab_iface_def)
  have i: "i \<in> set (m_sockets m)" "sa_eq (u_sockaddr (udp_store m i)) a" using udp_find_Some [OF Some] by auto
  have find: "udp_find b (m_sockets m) m' = udp_find b (m_sockets m) m" for b
    by (rule udp_find_cong) (simp add: m')
  have ni: "i \<notin> set (m_multicast m)" using assms(1) i by (auto simp: balanced_def udp_wf_def)
  have uses: "uses (add_mset i held) m' k = uses held m k + of_bool (k = i)" for k
  proof -
    have "uses held m' k = uses held m k" by (rule uses_cong) (auto simp: m')
    then show ?thesis using ni by (auto simp: uses_add m')
  qed
  have "balanced base (add_mset i held) m'"
    using assms(1) i ni unfolding balanced_def uses groups_on_def find udp_wf_def
    by (auto simp: m' fun_upd_def find [unfolded m' fun_upd_def])
  then show ?thesis using i find Some by (simp add: m')
next
  case None
  show ?thesis
  proof (cases "createSocket os m a = kInvalid")
    case True then show ?thesis using assms None by (auto simp: grab_iface_def)
  next
    case False
    obtain i m1 where al: "udp_alloc a (createSocket os m a) m = (i, m1)" by fastforce
    have m': "r = Some i" "m' = m1\<lparr>m_sockets := m_sockets m1 @ [i]\<rparr>"
      using assms(3) None False al by (auto simp: grab_iface_def Let_def)
    note f = udp_alloc_fresh [OF balanced_wf [OF assms(1)] al]
    have st: "udp_store m' k = udp_store m k" if "k \<in> set (m_sockets m) \<union> set (m_multicast m)" for k
      using f that by (auto simp: m')
    have lists: "m_sockets m' = m_sockets m @ [i]" "m_multicast m' = m_multicast m" using f by (auto simp: m')
    have wf: "udp_wf m'" using f assms(2) balanced_wf [OF assms(1)] by (auto simp: m' udp_wf_def fresh_def)
    have find: "udp_find b (m_sockets m) m' = udp_find b (m_sockets m) m" for b
      by (rule udp_find_cong) (simp add: st)
    have on: "groups_on base m'"
      using assms(1) st unfolding balanced_def groups_on_def lists
      by (metis UnCI find udp_find_append)
    have ni: "i \<notin> set (m_multicast m)" "i \<notin># held" using f assms(1) by (auto simp: balanced_def)
    have uses: "uses (add_mset i held) m' k = uses held m k + of_bool (k = i)" for k
    proof -
      have "uses held m' k = uses held m k" by (rule uses_cong) (auto simp: lists st)
      then show ?thesis using ni by (auto simp: uses_add lists)
    qed
    have no: "u_underlying (udp_store m g) \<noteq> Some i" if "g \<in> set (m_multicast m)" for g
      using assms(1) that f by (auto simp: balanced_def groups_on_def dest!: bspec udp_find_Some)
    have zero: "uses held m i = 0" using ni no by (auto simp: uses_def)
    have "balanced base (add_mset i held) m'"
      using assms(1) wf on f ni unfolding balanced_def lists uses
      by (auto simp: st zero m')
    moreover have "udp_find a (m_sockets m') m' = Some i"
    proof -
      have "List.find (\<lambda>k. sa_eq (u_sockaddr (udp_store m' k)) a) (m_sockets m) = None"
        using None find [of a] by (simp add: udp_find_def)
      then show ?thesis using f by (simp add: udp_find_def lists find_append) (simp add: m' sa_eq_def)
    qed
    moreover have "i \<in> set (m_sockets m')" "sa_eq (u_sockaddr (udp_store m' i)) a"
      using f by (auto simp: m' sa_eq_def)
    ultimately show ?thesis by (simp add: m'(1))
  qed
qed

lemma release_iface_balanced:
  assumes "balanced base held m" and "i \<in># held" and "i \<in> set (m_sockets m)"
  shows "balanced base (held - {#i#}) (udp_upd i (add_ref (-1)) m)"
proof -
  let ?m = "udp_upd i (add_ref (-1)) m"
  obtain h where h: "held = add_mset i h" using assms(2) by (metis multi_member_split)
  have find: "udp_find b (m_sockets m) ?m = udp_find b (m_sockets m) m" for b
    by (rule udp_find_cong) simp
  have ni: "i \<notin> set (m_multicast m)" using assms(1,3) by (auto simp: balanced_def udp_wf_def)
  have uses: "uses held ?m k = uses held m k" "uses h ?m k = uses h m k" for k
    by (rule uses_cong; simp)+
  have step: "uses held m k = uses h m k + of_bool (k = i)" for k using ni by (auto simp: h uses_add)
  have on: "groups_on base ?m" using assms(1) find by (auto simp: balanced_def groups_on_def)
  have "udp_wf ?m" using assms(1) by (auto simp: balanced_def udp_wf_def)
  moreover have "u_ref_count (udp_store ?m k) = int (uses h ?m k)" if "k \<in> set (m_sockets m)" for k
    using assms(1) that step [of k] unfolding balanced_def uses by auto
  ultimately show ?thesis
    using assms(1) ni on unfolding balanced_def by (auto simp: h)
qed

lemma grab_group_balanced:
  assumes b: "balanced base (add_mset i held) m" and i: "i \<in> set (m_sockets m)"
    and base: "udp_find base (m_sockets m) m = Some i" and a: "IsMulticast a"
    and r: "grab_group os i a m = (r, m')"
  shows "case r of None \<Rightarrow> balanced base held m' \<and> \<not> add_membership os m a
    | Some g \<Rightarrow> balanced base (add_mset g held) m' \<and> g \<in> set (m_multicast m') \<and>
        sa_eq (u_sockaddr (udp_store m' g)) a"
proof (cases "udp_find a (m_multicast m) m")
  case (Some g)
  then have m': "r = Some g" "m' = udp_upd g (add_ref 1) m" using r by (auto simp: grab_group_def)
  have g: "g \<in> set (m_multicast m)" "sa_eq (u_sockaddr (udp_store m g)) a" using udp_find_Some [OF Some] by auto
  have find: "udp_find b (m_sockets m) m' = udp_find b (m_sockets m) m" for b
    by (rule udp_find_cong) (simp add: m')
  have dis: "i \<notin> set (m_multicast m)" "g \<notin> set (m_sockets m)" using b i g by (auto simp: balanced_def udp_wf_def)
  have under: "u_underlying (udp_store m g) = Some i" using b g base by (auto simp: balanced_def groups_on_def)
  have uses: "uses (add_mset g held) m' k = uses (add_mset i held) m k" if "k \<in> set (m_sockets m)" for k
  proof -
    have "uses held m' k = uses held m k" by (rule uses_cong) (auto simp: m')
    then show ?thesis using dis under that g by (auto simp: uses_add m')
  qed
  have on: "groups_on base m'" using b find by (auto simp: balanced_def groups_on_def m')
  have wf: "udp_wf m'" using b by (auto simp: balanced_def udp_wf_def m')
  have "balanced base (add_mset g held) m'"
    using b wf on dis g uses unfolding balanced_def by (auto simp: m')
  then show ?thesis using g by (simp add: m')
next
  case None
  have ni: "\<not> IsMulticast (u_sockaddr (udp_store m i))" "i \<notin> set (m_multicast m)"
    using b i by (auto simp: balanced_def udp_wf_def)
  show ?thesis
  proof (cases "add_membership os m a")
    case False
    have "r = None" "m' = udp_upd i (add_ref (-1)) m"
      using None False r ni i by (auto simp: grab_group_def ReleaseSocket_def release_iface_def)
    then show ?thesis using release_iface_balanced [OF b _ i] False by simp
  next
    case True
    obtain g m1 where al: "udp_alloc a (u_socket (udp_store m i)) m = (g, m1)" by fastforce
    have m': "r = Some g" "m' = (udp_upd g (\<lambda>u. u\<lparr>u_underlying := Some i\<rparr>) m1)\<lparr>m_multicast := m_multicast m1 @ [g]\<rparr>"
      using r None True al by (auto simp: grab_group_def Let_def)
    note f = udp_alloc_fresh [OF balanced_wf [OF b] al]
    have st: "udp_store m' k = udp_store m k" if "k \<in> set (m_sockets m) \<union> set (m_multicast m)" for k
      using f that by (auto simp: m')
    have lists: "m_sockets m' = m_sockets m" "m_multicast m' = m_multicast m @ [g]" using f by (auto simp: m')
    have g: "udp_store m' g = (UdpSocket a (u_socket (udp_store m i)))\<lparr>u_underlying := Some i\<rparr>"
      using f by (simp add: m')
    have new: "g \<notin> set (m_sockets m)" "g \<notin> set (m_multicast m)" "g \<notin># held"
      using f b by (auto simp: balanced_def)
    have wf: "udp_wf m'" using f a balanced_wf [OF b] by (auto simp: m' udp_wf_def fresh_def)
    have find: "udp_find b (m_sockets m) m' = udp_find b (m_sockets m) m" for b
      by (rule udp_find_cong) (simp add: st)
    have on: "groups_on base m'" using b base st unfolding balanced_def groups_on_def lists find
      by (auto simp: g)
    have old: "uses held m' k = uses held m k" for k
      unfolding uses_def lists
      by (rule arg_cong [where f = size], rule filter_mset_cong) (use new st in \<open>auto simp: UnI2\<close>)
    have uses: "uses (add_mset g held) m' k = uses (add_mset i held) m k" if "k \<in> set (m_sockets m)" for k
      using ni new that by (auto simp: uses_add lists g old)
    have "balanced base (add_mset g held) m'"
      using b wf on new ni uses unfolding balanced_def lists by (auto simp: st g not_in_iff)
    then show ?thesis by (simp add: m'(1) lists g sa_eq_def)
  qed
qed

lemma GrabSocket_balanced:
  assumes b: "balanced base held m" and a: "\<not> IsMulticast a"
    and g: "\<And>g. multicast = Some g \<Longrightarrow> IsMulticast g \<and> a = base"
    and r: "GrabSocket os a multicast m = (r, m')"
  shows "case r of None \<Rightarrow> balanced base held m'
    | Some s \<Rightarrow> balanced base (add_mset s held) m' \<and>
        sa_eq (u_sockaddr (udp_store m' s)) (case multicast of None \<Rightarrow> a | Some g \<Rightarrow> g)"
proof -
  obtain ri m1 where gi: "grab_iface os a m = (ri, m1)" by fastforce
  note i = grab_iface_balanced [OF b a gi]
  show ?thesis
  proof (cases ri)
    case None then show ?thesis using i r gi by (auto simp: GrabSocket_def)
  next
    case [simp]: (Some k)
    show ?thesis
    proof (cases multicast)
      case None then show ?thesis using i r gi by (auto simp: GrabSocket_def)
    next
      case [simp]: (Some ga)
      have "grab_group os k ga m1 = (r, m')" using r gi by (auto simp: GrabSocket_def)
      then show ?thesis
        using grab_group_balanced [of base k held m1 ga os r m'] i g [of ga]
        by (auto split: option.splits)
    qed
  qed
qed

lemma release_group_balanced:
  assumes b: "balanced base (add_mset g h) m" and g: "g \<in> set (m_multicast m)"
  shows "fst (ReleaseSocket g m) \<and> balanced base h (snd (ReleaseSocket g m))"
proof -
  obtain i where i: "udp_find base (m_sockets m) m = Some i" "u_underlying (udp_store m g) = Some i"
    using b g by (auto simp: balanced_def groups_on_def)
  have im: "i \<in> set (m_sockets m)" using udp_find_Some [OF i(1)] by simp
  have dis: "i \<noteq> g" "g \<notin> set (m_sockets m)" "i \<notin> set (m_multicast m)"
    using b im g by (auto simp: balanced_def udp_wf_def)
  have mc: "IsMulticast (u_sockaddr (udp_store m g))" using b g by (auto simp: balanced_def udp_wf_def)
  have cnt: "u_ref_count (udp_store m g) = int (count h g) + 1" using b g by (auto simp: balanced_def)
  let ?m1 = "udp_upd i (add_ref (-1)) (udp_upd g (add_ref (-1)) m)"
  let ?gone = "g \<notin># h"
  define m' where "m' = snd (ReleaseSocket g m)"
  have m': "fst (ReleaseSocket g m)" "udp_store m' = udp_store ?m1" "m_sockets m' = m_sockets m"
      "m_multicast m' = (if ?gone then remove1 g (m_multicast m) else m_multicast m)"
      "m_free m' = (if ?gone then m_free m @ [g] else m_free m)" "udp_count m' = udp_count m"
    using mc g i cnt unfolding m'_def ReleaseSocket_def Let_def
    by (simp_all add: release_iface_def udp_free_def count_eq_zero_iff)
  have set_mc: "set (m_multicast m') = (if ?gone then set (m_multicast m) - {g} else set (m_multicast m))"
    using b m'(4) by (auto simp: balanced_def udp_wf_def set_remove1_eq)
  have find: "udp_find b (m_sockets m) m' = udp_find b (m_sockets m) m" for b
    by (rule udp_find_cong) (simp add: m')
  have on: "groups_on base m'"
    using b find by (auto simp: balanced_def groups_on_def set_mc m'(2,3) split: if_splits)
  have wf: "udp_wf m'" using b g dis by (auto simp: balanced_def udp_wf_def m' set_remove1_eq)
  have old: "uses h m' k = uses h m k" for k
    unfolding uses_def
    by (rule arg_cong [where f = size], rule filter_mset_cong) (auto simp: set_mc m'(2) not_in_iff [symmetric] count_eq_zero_iff)
  have uses: "uses (add_mset g h) m k = uses h m' k + of_bool (k = i)" if "k \<in> set (m_sockets m)" for k
    using that dis g i by (auto simp: uses_add old)
  have "u_ref_count (udp_store m' k) = int (uses h m' k)" if "k \<in> set (m_sockets m)" for k
    using b that dis uses [OF that] unfolding balanced_def by (auto simp: m'(2))
  moreover have "u_ref_count (udp_store m' k) = int (count h k) \<and> k \<in># h" if "k \<in> set (m_multicast m')" for k
    using b that dis cnt unfolding balanced_def by (auto simp: m'(2) set_mc not_in_iff split: if_splits)
  moreover have "set_mset h \<subseteq> set (m_sockets m) \<union> set (m_multicast m')"
    using b by (auto simp: balanced_def set_mc count_eq_zero_iff)
  ultimately have "balanced base h m'" using wf on unfolding balanced_def m'(3) by blast
  then show ?thesis using m'(1) unfolding m'_def by simp
qed

lemma ReleaseSocket_balanced:
  assumes b: "balanced base (add_mset s h) m"
  shows "fst (ReleaseSocket s m) \<and> balanced base h (snd (ReleaseSocket s m))"
proof (cases "s \<in> set (m_multicast m)")
  case True then show ?thesis by (rule release_group_balanced [OF b])
next
  case False
  then have s: "s \<in> set (m_sockets m)" using b by (auto simp: balanced_def)
  then show ?thesis
    using release_iface_balanced [OF b _ s] False by (auto simp: ReleaseSocket_def release_iface_def)
qed

section \<open>The contract as an interface\<close>

text \<open>What a client of a counted resource relies on: a handle it holds can be released, once.\<close>

locale counted_resource =
  fixes ok :: "'h multiset \<Rightarrow> 'm \<Rightarrow> bool"
    and release :: "'h \<Rightarrow> 'm \<Rightarrow> bool \<times> 'm"
  assumes release_held: "ok (add_mset s held) m \<Longrightarrow> fst (release s m) \<and> ok held (snd (release s m))"
begin

definition release_opt :: "'h option \<Rightarrow> 'm \<Rightarrow> 'm" where
  "release_opt s m = (case s of None \<Rightarrow> m | Some s \<Rightarrow> snd (release s m))"

lemma release_opt_ok: "ok (held + mset_set (set_option s)) m \<Longrightarrow> ok held (release_opt s m)"
  using release_held [of _ held m] by (cases s) (auto simp: release_opt_def)

lemma release_all: "ok (mset ss + held) m \<Longrightarrow> ok held (fold (\<lambda>s m. snd (release s m)) ss m)"
  using release_held by (induction ss arbitrary: m) auto

end

interpretation udp: counted_resource "balanced base" ReleaseSocket for base
  by unfold_locales (rule ReleaseSocket_balanced)

lemma balanced_initial: "balanced base {#} initial_udp"
  by (simp add: balanced_def initial_udp_def udp_wf_def groups_on_def)

end
