(* ===== verification/Conn_Close.thy ===== *)
theory Conn_Close
  imports Conn_Box Udp_Mgr Encap_Session
begin

text \<open>
  The state of the connection manager, and how connections end: \<open>Close\<close> and \<open>timeOut\<close> of
  \<open>cip/cipconnection.cc\<close>, \<open>CloseAllConnectionsForInputWithSameType\<close> and \<open>CloseAllConnections\<close> of
  \<open>cip/appcontype.cc\<close>, and the searches and \<open>CloseClass3Connections\<close> of \<open>cip/cipconnectionmanager.cc\<close>.

  The state is the list of active connections with the store of connection objects, the UDP sockets, the
  encapsulation sessions and the tables of expected connections. A handler that loops over the active
  connections has type \<open>cm_state \<Rightarrow> cm_state option\<close>, \<open>None\<close> meaning that it does not return. \<open>Close\<close> and
  \<open>CloseAllConnectionsForInputWithSameType\<close> call each other: they are one \<open>partial_function\<close> over the calls.

  \<open>cm_inv\<close> is the invariant. Its parts: a connection is on the list exactly when it is established; the
  reference counts of the sockets are the connections that hold them; and every input assembly with multicast
  producers has exactly one of them in charge of the socket, without which nobody listens.
\<close>

section \<open>State\<close>

datatype IoConnectionEvent =
  kIoConnectionEventOpened | kIoConnectionEventTimedOut | kIoConnectionEventClosed

datatype io_event =
    Notified nat IoConnectionEvent
  | RunIdleChanged u32
  | AssemblyData int OpMode nat
  | Datagram "nat option" sock_addr "byte list"

record assembly =
  byte_array :: "byte list"
  connection_point_roles :: u32

record reservation =
  output_assembly :: int
  input_assembly :: int
  config_assembly :: int
  connection_slots :: "nat list"

record cm_state = box +
  udp :: udp_mgr
  session :: session_mgr
  ids :: id_gen
  g_current_usecs :: u64
  assemblies :: "int \<Rightarrow> assembly"
  s_exclusive_owner :: "reservation list"
  s_input_only :: "reservation list"
  s_listen_only :: "reservation list"
  g_explicit_connections :: "nat list"
  constructed_count :: nat
  g_run_idle_state :: u32
  io_log :: "io_event list"

definition CurrentUSecs32 :: "cm_state \<Rightarrow> u32" where
  "CurrentUSecs32 s = ucast (g_current_usecs s)"

definition log_event :: "io_event \<Rightarrow> cm_state \<Rightarrow> cm_state" where
  "log_event e s = s\<lparr>io_log := io_log s @ [e]\<rparr>"

definition NotifyIoConnectionEvent :: "nat \<Rightarrow> IoConnectionEvent \<Rightarrow> cm_state \<Rightarrow> cm_state" where
  "NotifyIoConnectionEvent c e = log_event (Notified c e)"

section \<open>Searches\<close>

text \<open>Each is the loop of its function, with the condition of the loop's body.\<close>

definition established :: "cip_conn \<Rightarrow> bool" where
  "established x \<longleftrightarrow> state x = kConnStateEstablished"

definition FindExistingMatchingConnection :: "conn_data \<Rightarrow> cm_state \<Rightarrow> nat option option" where
  "FindExistingMatchingConnection params =
     find_active (\<lambda>x. established x \<and> TriadEquals params (as_data x))"

definition GetConnectionByConsumingId :: "u32 \<Rightarrow> cm_state \<Rightarrow> nat option option" where
  "GetConnectionByConsumingId cid = find_active (\<lambda>x. established x \<and> consuming_connection_id x = cid)"

definition GetConnectedOutputAssembly :: "int \<Rightarrow> cm_state \<Rightarrow> nat option option" where
  "GetConnectedOutputAssembly i = find_active (\<lambda>x. established x \<and> consuming_point (as_data x) = i)"

definition IsConnectedInputAssembly :: "int \<Rightarrow> cm_state \<Rightarrow> bool option" where
  "IsConnectedInputAssembly i s =
     map_option (\<lambda>r. r \<noteq> None) (find_active (\<lambda>x. i = producing_point (as_data x)) s)"

definition IsConnectedOutputAssembly :: "int \<Rightarrow> cm_state \<Rightarrow> bool option" where
  "IsConnectedOutputAssembly i s =
     map_option (\<lambda>r. r \<noteq> None) (find_active (\<lambda>x. i = consuming_point (as_data x)) s)"

definition ConnectionWithSameConfigPointExists :: "int \<Rightarrow> cm_state \<Rightarrow> bool option" where
  "ConnectionWithSameConfigPointExists i s =
     map_option (\<lambda>r. r \<noteq> None) (find_active (\<lambda>x. i = config_point (as_data x)) s)"

definition owner_or_input_only :: "cip_conn \<Rightarrow> bool" where
  "owner_or_input_only x \<longleftrightarrow> instance_type x = kConnInstanceTypeIoExclusiveOwner \<or>
     instance_type x = kConnInstanceTypeIoInputOnly"

text \<open>A connection that produces an input assembly for a multicast group.\<close>

definition multicast_producer :: "int \<Rightarrow> cip_conn \<Rightarrow> bool" where
  "multicast_producer point x \<longleftrightarrow> owner_or_input_only x \<and> point = producing_point (as_data x) \<and>
     ConnectionType (producing_ncp x) = kIOConnTypeMulticast"

definition GetExistingProducerMulticastConnection :: "int \<Rightarrow> cm_state \<Rightarrow> nat option option" where
  "GetExistingProducerMulticastConnection point =
     find_active (\<lambda>x. multicast_producer point x \<and> producing_socket x \<noteq> None)"

definition GetNextNonControlMasterConnection :: "int \<Rightarrow> cm_state \<Rightarrow> nat option option" where
  "GetNextNonControlMasterConnection point =
     find_active (\<lambda>x. multicast_producer point x \<and> producing_socket x = None)"

section \<open>Close\<close>

definition release :: "nat \<Rightarrow> cm_state \<Rightarrow> cm_state" where
  "release k s = s\<lparr>udp := snd (ReleaseSocket k (udp s))\<rparr>"

definition drop_consuming :: "nat \<Rightarrow> cm_state \<Rightarrow> cm_state" where
  "drop_consuming c s =
    (case consuming_socket (conns s c) of
       None \<Rightarrow> s | Some k \<Rightarrow> conn_upd c (\<lambda>x. x\<lparr>consuming_socket := None\<rparr>) (release k s))"

definition drop_producing :: "nat \<Rightarrow> cm_state \<Rightarrow> cm_state" where
  "drop_producing c s =
    (case producing_socket (conns s c) of
       None \<Rightarrow> s | Some k \<Rightarrow> conn_upd c (\<lambda>x. x\<lparr>producing_socket := None\<rparr>) (release k s))"

definition close_end :: "nat \<Rightarrow> cm_state \<Rightarrow> cm_state" where
  "close_end c s =
    (let s = drop_producing c (drop_consuming c s);
         s = conn_upd c (\<lambda>x. x\<lparr>encap_session := 0\<rparr>) s
     in conn_upd c (\<lambda>x. x\<lparr>state := kConnStateNonExistent\<rparr>) (snd (Remove c s)))"

text \<open>The next master takes the socket, with the address and the sequence counts.\<close>

definition hand_over :: "nat \<Rightarrow> nat \<Rightarrow> cm_state \<Rightarrow> cm_state" where
  "hand_over c n s =
    (let s = conn_upd n (\<lambda>x. x\<lparr>producing_socket := producing_socket (conns s c),
               send_address := send_address (conns s c),
               eip_level_sequence_count_producing := eip_level_sequence_count_producing (conns s c),
               sequence_count_producing := sequence_count_producing (conns s c)\<rparr>) s;
         s = conn_upd c (\<lambda>x. x\<lparr>producing_socket := None\<rparr>) s
     in conn_upd n (setTransmissionTriggerTimerUSecs (transmission_trigger_timer_usecs (conns s c))) s)"

text \<open>A call, with the iterator of the loop.\<close>

datatype close_call = Call_Close nat | Call_CloseAll int ConnInstanceType "nat option"

text \<open>A connection that is in charge of a multicast socket.\<close>

definition in_charge :: "cip_conn \<Rightarrow> bool" where
  "in_charge x \<longleftrightarrow> owner_or_input_only x \<and>
     ConnectionType (producing_ncp x) = kIOConnTypeMulticast \<and> producing_socket x \<noteq> None"

partial_function (option) close_exec :: "close_call \<Rightarrow> cm_state \<Rightarrow> cm_state option" where
  "close_exec call s =
    (case call of
       Call_Close c \<Rightarrow>
         if state (conns s c) = kConnStateNonExistent then Some s
         else if \<not> IsIOConnection (conns s c) then Some (close_end c s)
         else
           let s = NotifyIoConnectionEvent c kIoConnectionEventClosed s
           in if in_charge (conns s c) then
                Option.bind (GetNextNonControlMasterConnection (producing_point (as_data (conns s c))) s) (\<lambda>n.
                case n of
                  Some n \<Rightarrow> Some (close_end c (hand_over c n s))
                | None \<Rightarrow>
                    Option.bind (close_exec (Call_CloseAll (producing_point (as_data (conns s c)))
                                               kConnInstanceTypeIoListenOnly (head s)) s) (\<lambda>s.
                    Some (close_end c s)))
              else Some (close_end c s)
     | Call_CloseAll point type None \<Rightarrow> Some s
     | Call_CloseAll point type (Some c) \<Rightarrow>
         let next = next_conn (conns s c)
         in if type = instance_type (conns s c) \<and> point = producing_point (as_data (conns s c)) then
              Option.bind (close_exec (Call_Close c) (NotifyIoConnectionEvent c kIoConnectionEventClosed s)) (\<lambda>s.
              close_exec (Call_CloseAll point type next) s)
            else close_exec (Call_CloseAll point type next) s)"

definition Close :: "nat \<Rightarrow> cm_state \<Rightarrow> cm_state option" where
  "Close c = close_exec (Call_Close c)"

definition CloseAllConnectionsForInputWithSameType ::
    "int \<Rightarrow> ConnInstanceType \<Rightarrow> cm_state \<Rightarrow> cm_state option" where
  "CloseAllConnectionsForInputWithSameType point type s = close_exec (Call_CloseAll point type (head s)) s"

partial_function (option) CloseAllConnections :: "cm_state \<Rightarrow> cm_state option" where
  "CloseAllConnections s =
    (case head s of None \<Rightarrow> Some s | Some c \<Rightarrow> Option.bind (Close c s) CloseAllConnections)"

partial_function (option) close_class3 :: "u32 \<Rightarrow> nat option \<Rightarrow> cm_state \<Rightarrow> cm_state option" where
  "close_class3 handle p s =
    (case p of
       None \<Rightarrow> Some s
     | Some c \<Rightarrow>
         let next = next_conn (conns s c)
         in if TransportClass (trigger (conns s c)) = kConnTransportClass3 \<and> encap_session (conns s c) = handle
            then Option.bind (Close c s) (close_class3 handle next)
            else close_class3 handle next s)"

definition CloseClass3Connections :: "u32 \<Rightarrow> cm_state \<Rightarrow> cm_state option" where
  "CloseClass3Connections handle s = close_class3 handle (head s) s"

section \<open>Time-out\<close>

definition CheckForTimedOutConnectionsAndCloseTCPConnections :: "u32 \<Rightarrow> cm_state \<Rightarrow> cm_state option" where
  "CheckForTimedOutConnectionsAndCloseTCPConnections handle s =
     map_option (\<lambda>another.
       if another = None then s\<lparr>session := snd (CloseBySessionHandle handle (session s))\<rparr> else s)
       (find_active (\<lambda>x. encap_session x = handle) s)"

text \<open>The next master gets the socket and the timer, but not the address and the sequence counts.\<close>

definition hand_over_timed_out :: "nat \<Rightarrow> nat \<Rightarrow> cm_state \<Rightarrow> cm_state" where
  "hand_over_timed_out c n s =
    (let s = conn_upd n (\<lambda>x. x\<lparr>producing_socket := producing_socket (conns s c)\<rparr>) s;
         s = conn_upd c (\<lambda>x. x\<lparr>producing_socket := None\<rparr>) s
     in conn_upd n (setTransmissionTriggerTimerUSecs (transmission_trigger_timer_usecs (conns s c))) s)"

definition time_out_dependents :: "nat \<Rightarrow> cm_state \<Rightarrow> cm_state option" where
  "time_out_dependents c s =
    (let x = conns s c; point = producing_point (as_data x)
     in if ConnectionType (producing_ncp x) \<noteq> kIOConnTypeMulticast then Some s
        else
          case instance_type x of
            kConnInstanceTypeIoExclusiveOwner \<Rightarrow>
              Option.bind (CloseAllConnectionsForInputWithSameType point kConnInstanceTypeIoInputOnly s) (\<lambda>s.
              CloseAllConnectionsForInputWithSameType point kConnInstanceTypeIoListenOnly s)
          | kConnInstanceTypeIoInputOnly \<Rightarrow>
              if producing_socket x = None then Some s
              else
                Option.bind (GetNextNonControlMasterConnection point s) (\<lambda>n.
                case n of
                  Some n \<Rightarrow> Some (hand_over_timed_out c n s)
                | None \<Rightarrow> CloseAllConnectionsForInputWithSameType point kConnInstanceTypeIoListenOnly s)
          | _ \<Rightarrow> Some s)"

definition timeOut :: "nat \<Rightarrow> cm_state \<Rightarrow> cm_state option" where
  "timeOut c s =
     Option.bind
       (if IsIOConnection (conns s c)
        then time_out_dependents c (NotifyIoConnectionEvent c kIoConnectionEventTimedOut s) else Some s) (\<lambda>s.
     let session_handle = encap_session (conns s c)
     in Option.bind (Close c s) (\<lambda>s.
        if session_handle \<noteq> 0
        then CheckForTimedOutConnectionsAndCloseTCPConnections session_handle s else Some s))"

section \<open>The invariant\<close>

text \<open>The sockets that connections hold.\<close>

definition opt_held :: "nat option \<Rightarrow> nat multiset" where
  "opt_held k = (case k of None \<Rightarrow> {#} | Some k \<Rightarrow> {#k#})"

definition held_by :: "cip_conn \<Rightarrow> nat multiset" where
  "held_by x = opt_held (consuming_socket x) + opt_held (producing_socket x)"

definition held :: "cm_state \<Rightarrow> nat list \<Rightarrow> nat multiset" where
  "held s xs = (\<Sum>x\<leftarrow>xs. held_by (conns s x))"

text \<open>The address to which multicast consumers bind, \<open>kEIP_IoUdpPort\<close> on any interface.\<close>

abbreviation kEIP_IoUdpPort :: u32 where "kEIP_IoUdpPort \<equiv> 0x08AE"

abbreviation io_base :: sock_addr where "io_base \<equiv> SockAddr kEIP_IoUdpPort 0"

definition core :: "cm_state \<Rightarrow> nat list \<Rightarrow> bool" where
  "core s xs \<longleftrightarrow> active s xs \<and>
     (\<forall>c. state (conns s c) = (if c \<in> set xs then kConnStateEstablished else kConnStateNonExistent)) \<and>
     (\<forall>c. c \<notin> set xs \<longrightarrow> consuming_socket (conns s c) = None \<and> producing_socket (conns s c) = None) \<and>
     balanced io_base (held s xs) (udp s)"

text \<open>What the end of one connection leaves alone in all of them, and in the rest of the state.\<close>

definition fixed_part :: "cip_conn \<Rightarrow> _" where
  "fixed_part x = (as_data x, instance_type x, openers_address x, recv_address x, consuming_header x,
     eip_level_sequence_count_consuming x, eip_level_sequence_count_consuming_first x,
     sequence_count_consuming x, expected_packet_rate_usecs x, inactivity_watchdog_timer_usecs x)"

definition settings :: "cm_state \<Rightarrow> _" where
  "settings s = (ids s, g_current_usecs s, assemblies s, s_exclusive_owner s, s_input_only s, s_listen_only s,
     g_explicit_connections s, constructed_count s, g_run_idle_state s)"

definition frame :: "cm_state \<Rightarrow> cm_state \<Rightarrow> bool" where
  "frame s s' \<longleftrightarrow>
     (\<forall>x. fixed_part (conns s' x) = fixed_part (conns s x) \<and>
        (state (conns s' x) \<noteq> kConnStateNonExistent \<longrightarrow>
           state (conns s x) \<noteq> kConnStateNonExistent \<and> encap_session (conns s' x) = encap_session (conns s x))) \<and>
     settings s' = settings s"

lemma conn_upd_rest [simp]:
  "settings (conn_upd c f s) = settings s" "udp (conn_upd c f s) = udp s"
  "session (conn_upd c f s) = session s" "io_log (conn_upd c f s) = io_log s"
  by (simp_all add: settings_def conn_upd_def)

lemma same_more:
  fixes s t :: cm_state
  assumes "box.more s = box.more t"
  shows "settings s = settings t" "udp s = udp t" "session s = session t" "io_log s = io_log t"
  using assms by (cases s; cases t; simp add: settings_def)+

lemma frame_refl [simp]: "frame s s"
  by (simp add: frame_def)

lemma frame_trans: "frame s t \<Longrightarrow> frame t u \<Longrightarrow> frame s u"
  by (simp add: frame_def)

lemma frameD:
  assumes "frame s s'"
  shows "as_data (conns s' x) = as_data (conns s x)" "instance_type (conns s' x) = instance_type (conns s x)"
  using assms by (auto simp: frame_def fixed_part_def)

lemma state_of_data:
  "as_data x = as_data y \<Longrightarrow> producing_ncp x = producing_ncp y"
  "as_data x = as_data y \<Longrightarrow> consuming_ncp x = consuming_ncp y"
  "as_data x = as_data y \<Longrightarrow> trigger x = trigger y"
  by (metis as_data_simps)+

lemma frame_producer:
  assumes "frame s s'"
  shows "owner_or_input_only (conns s' x) = owner_or_input_only (conns s x)"
    "multicast_producer point (conns s' x) = multicast_producer point (conns s x)"
    "ConnectionType (producing_ncp (conns s' x)) = ConnectionType (producing_ncp (conns s x))"
    "TransportClass (trigger (conns s' x)) = TransportClass (trigger (conns s x))"
  using frameD [OF assms, of x] state_of_data [of "conns s' x" "conns s x"]
  by (simp_all add: owner_or_input_only_def multicast_producer_def)

lemma unlinked_fields:
  assumes "unlinked x = unlinked y"
  shows "fixed_part x = fixed_part y" "held_by x = held_by y" "state x = state y"
    "producing_socket x = producing_socket y" "consuming_socket x = consuming_socket y"
    "encap_session x = encap_session y" "send_address x = send_address y"
proof -
  have "f x = f y" if "\<And>z. f (unlinked z) = f z" for f :: "cip_conn \<Rightarrow> 'b" using that assms by metis
  note this [of fixed_part] this [of held_by] this [of state] this [of producing_socket]
    this [of consuming_socket] this [of encap_session] this [of send_address]
  then show "fixed_part x = fixed_part y" "held_by x = held_by y" "state x = state y"
    "producing_socket x = producing_socket y" "consuming_socket x = consuming_socket y"
    "encap_session x = encap_session y" "send_address x = send_address y"
    by (simp_all add: unlinked_def fixed_part_def held_by_def conn_data.defs)
qed

lemma held_cong: "(\<And>x. x \<in> set xs \<Longrightarrow> held_by (conns s' x) = held_by (conns s x)) \<Longrightarrow> held s' xs = held s xs"
  unfolding held_def by (metis (no_types, lifting) map_eq_conv)

lemma held_remove1: "c \<in> set xs \<Longrightarrow> held s xs = held_by (conns s c) + held s (remove1 c xs)"
  unfolding held_def by (rule sum_list_map_remove1)

lemma fixed_part_upd [simp]:
  "fixed_part (x\<lparr>state := st\<rparr>) = fixed_part x"
  "fixed_part (x\<lparr>consuming_socket := a, producing_socket := b, encap_session := h\<rparr>) = fixed_part x"
  by (simp_all add: fixed_part_def conn_data.defs)

text \<open>Dropping a socket.\<close>

lemma drop_conns:
  "conns (drop_consuming c s) = (conns s)(c := (conns s c)\<lparr>consuming_socket := None\<rparr>)"
  "conns (drop_producing c s) = (conns s)(c := (conns s c)\<lparr>producing_socket := None\<rparr>)"
  "head (drop_consuming c s) = head s" "head (drop_producing c s) = head s"
  "settings (drop_consuming c s) = settings s" "settings (drop_producing c s) = settings s"
  by (auto simp: drop_consuming_def drop_producing_def release_def settings_def conn_upd_def split: option.splits)

lemma drop_balanced:
  assumes d: "distinct xs" and c: "c \<in> set xs" and b: "balanced io_base (held s xs) (udp s)"
  shows "balanced io_base (held (drop_consuming c s) xs) (udp (drop_consuming c s))"
    and "balanced io_base (held (drop_producing c s) xs) (udp (drop_producing c s))"
proof -
  have rest: "held (drop_consuming c s) (remove1 c xs) = held s (remove1 c xs)"
      "held (drop_producing c s) (remove1 c xs) = held s (remove1 c xs)"
    using d by (auto intro!: held_cong simp: drop_conns)
  note h = held_remove1 [OF c, of s] held_remove1 [OF c, of "drop_consuming c s"]
    held_remove1 [OF c, of "drop_producing c s"]
  show "balanced io_base (held (drop_consuming c s) xs) (udp (drop_consuming c s))"
    using b unfolding h rest
    by (cases "consuming_socket (conns s c)")
      (auto simp: held_by_def opt_held_def drop_conns drop_consuming_def release_def conn_upd_def
        intro: udp.release_held [THEN conjunct2])
  show "balanced io_base (held (drop_producing c s) xs) (udp (drop_producing c s))"
    using b unfolding h rest
    by (cases "producing_socket (conns s c)")
      (auto simp: held_by_def opt_held_def drop_conns drop_producing_def release_def conn_upd_def
        intro: udp.release_held [THEN conjunct2])
qed

text \<open>The end of a connection: it leaves the list, and its sockets are given back.\<close>

lemma close_end_core:
  assumes core: "core s xs" and c: "c \<in> set xs"
  shows "core (close_end c s) (remove1 c xs)" and "frame s (close_end c s)"
    and "x \<noteq> c \<Longrightarrow> held_by (conns (close_end c s) x) = held_by (conns s x)"
    and "x \<noteq> c \<Longrightarrow> producing_socket (conns (close_end c s) x) = producing_socket (conns s x)"
    and "x \<noteq> c \<Longrightarrow> encap_session (conns (close_end c s) x) = encap_session (conns s x)"
proof -
  define t where "t = conn_upd c (\<lambda>x. x\<lparr>encap_session := 0\<rparr>) (drop_producing c (drop_consuming c s))"
  define y where "y = (conns s c)\<lparr>consuming_socket := None, producing_socket := None, encap_session := 0\<rparr>"
  have a: "active s xs" and d: "distinct xs" using core by (auto simp: core_def active_def)
  have t: "conns t = (conns s)(c := y)" "head t = head s" "settings t = settings s"
    "udp t = udp (drop_producing c (drop_consuming c s))"
    by (auto simp: t_def y_def drop_conns)
  have at: "active t xs" using a by (subst active_cong [of t s]) (auto simp: t y_def)
  obtain u where r: "Remove c t = (True, u)" and u: "active u (remove1 c xs)"
    using Remove_active [OF at c] by blast
  have un: "unlinked (conns u x) = unlinked (conns t x)" for x using unlinked_Remove [of c t x] r by simp
  note uf = unlinked_fields [OF un]
  have more: "box.more u = box.more t" using Remove_more [of c t] r by simp
  have e: "close_end c s = conn_upd c (\<lambda>x. x\<lparr>state := kConnStateNonExistent\<rparr>) u"
    using r by (simp add: close_end_def Let_def t_def)
  have b1: "balanced io_base (held (drop_consuming c s) xs) (udp (drop_consuming c s))"
    using drop_balanced(1) [OF d c] core by (simp add: core_def)
  have b2: "balanced io_base (held (drop_producing c (drop_consuming c s)) xs) (udp t)"
    unfolding t(4) by (rule drop_balanced(2) [OF d c b1])
  have hd: "held (drop_producing c (drop_consuming c s)) xs = held s (remove1 c xs)"
  proof -
    have "held (drop_producing c (drop_consuming c s)) (remove1 c xs) = held s (remove1 c xs)"
      using d by (auto intro!: held_cong simp: drop_conns)
    then show ?thesis
      using held_remove1 [OF c, of "drop_producing c (drop_consuming c s)"]
      by (simp add: held_by_def opt_held_def drop_conns)
  qed
  have hc: "held (close_end c s) (remove1 c xs) = held s (remove1 c xs)"
    using d by (auto intro!: held_cong simp: e uf(2) t)
  have ud: "udp (close_end c s) = udp t" using same_more [OF more] by (simp add: e)
  have off: "x \<notin> set xs \<or> x = c \<Longrightarrow> consuming_socket (conns (close_end c s) x) = None \<and>
      producing_socket (conns (close_end c s) x) = None" for x
    using core uf(4,5) [of x] by (auto simp: e t y_def core_def)
  have st: "state (conns (close_end c s) x) =
      (if x \<in> set (remove1 c xs) then kConnStateEstablished else kConnStateNonExistent)" for x
    using core uf(3) [of x] d by (auto simp: e t core_def)
  show "core (close_end c s) (remove1 c xs)"
    unfolding core_def hc ud
  proof (intro conjI allI impI)
    show "active (close_end c s) (remove1 c xs)"
      using u by (subst active_cong [where s = u]) (auto simp: e)
    show "balanced io_base (held s (remove1 c xs)) (udp t)" using b2 unfolding hd .
  qed (use off st d in auto)
  have "settings (close_end c s) = settings t" using same_more [OF more] by (simp add: e)
  moreover have "fixed_part (conns (close_end c s) x) = fixed_part (conns s x)" for x
    using uf(1) [of x] by (cases "x = c") (simp_all add: e t y_def)
  moreover have "state (conns (close_end c s) x) \<noteq> kConnStateNonExistent \<longrightarrow>
      state (conns s x) \<noteq> kConnStateNonExistent \<and> encap_session (conns (close_end c s) x) = encap_session (conns s x)"
    for x using uf(3,6) [of x] by (simp add: e t)
  ultimately show "frame s (close_end c s)" by (simp add: frame_def t(3))
  show "held_by (conns (close_end c s) x) = held_by (conns s x)"
    "producing_socket (conns (close_end c s) x) = producing_socket (conns s x)"
    "encap_session (conns (close_end c s) x) = encap_session (conns s x)"
    if "x \<noteq> c" using uf [of x] that by (auto simp: e t)
qed

text \<open>A socket that moves from one connection to another.\<close>

lemma hand_over_conns:
  assumes "n \<noteq> c"
  shows "conns (hand_over c n s) = (conns s)
      (n := (conns s n)\<lparr>producing_socket := producing_socket (conns s c),
         send_address := send_address (conns s c),
         eip_level_sequence_count_producing := eip_level_sequence_count_producing (conns s c),
         sequence_count_producing := sequence_count_producing (conns s c),
         transmission_trigger_timer_usecs := transmission_trigger_timer_usecs (conns s c)\<rparr>,
       c := (conns s c)\<lparr>producing_socket := None\<rparr>)"
    and "conns (hand_over_timed_out c n s) = (conns s)
      (n := (conns s n)\<lparr>producing_socket := producing_socket (conns s c),
         transmission_trigger_timer_usecs := transmission_trigger_timer_usecs (conns s c)\<rparr>,
       c := (conns s c)\<lparr>producing_socket := None\<rparr>)"
  using assms
  by (auto simp: hand_over_def hand_over_timed_out_def Let_def setTransmissionTriggerTimerUSecs_def fun_eq_iff)

lemma hand_over_rest:
  "head (hand_over c n s) = head s" "settings (hand_over c n s) = settings s" "udp (hand_over c n s) = udp s"
  "head (hand_over_timed_out c n s) = head s" "settings (hand_over_timed_out c n s) = settings s"
  "udp (hand_over_timed_out c n s) = udp s"
  by (simp_all add: hand_over_def hand_over_timed_out_def Let_def)

lemma moved_core:
  assumes core: "core s xs" and c: "c \<in> set xs" and n: "n \<in> set xs" "n \<noteq> c" "producing_socket (conns s n) = None"
    and moved: "conns s' = (conns s)(n := yn, c := (conns s c)\<lparr>producing_socket := None\<rparr>)"
      "head s' = head s" "udp s' = udp s"
    and y: "state yn = state (conns s n)" "producing_socket yn = producing_socket (conns s c)"
      "consuming_socket yn = consuming_socket (conns s n)" "next_conn yn = next_conn (conns s n)"
      "prev_conn yn = prev_conn (conns s n)" "on_list yn = on_list (conns s n)"
  shows "core s' xs"
proof -
  have a: "active s' xs" using core n(2) by (subst active_cong [of s' s]) (auto simp: core_def moved y)
  have d: "distinct xs" using core by (auto simp: core_def active_def)
  have rest: "held s' (remove1 n (remove1 c xs)) = held s (remove1 n (remove1 c xs))"
    using d by (auto intro!: held_cong simp: moved)
  have "held s' xs = held s xs"
    using c n d rest
    by (simp add: held_remove1 [of c xs] held_remove1 [of n "remove1 c xs"] moved held_by_def opt_held_def y)
  then show ?thesis using core a y n(2) n(1) c by (auto simp: core_def moved)
qed

lemma hand_over_core:
  assumes core: "core s xs" and c: "c \<in> set xs" and n: "n \<in> set xs" "n \<noteq> c" "producing_socket (conns s n) = None"
  shows "core (hand_over c n s) xs" and "core (hand_over_timed_out c n s) xs"
    and "frame s (hand_over c n s)" and "frame s (hand_over_timed_out c n s)"
proof -
  show "core (hand_over c n s) xs"
    by (rule moved_core [OF core c n hand_over_conns(1) [OF n(2)] hand_over_rest(1,3)]) simp_all
  show "core (hand_over_timed_out c n s) xs"
    by (rule moved_core [OF core c n hand_over_conns(2) [OF n(2)] hand_over_rest(4,6)]) simp_all
  show "frame s (hand_over c n s)" "frame s (hand_over_timed_out c n s)"
    by (auto simp: frame_def hand_over_conns [OF n(2)] hand_over_rest fixed_part_def conn_data.defs)
qed

section \<open>Masters\<close>

text \<open>An input assembly with multicast producers has exactly one in charge of the socket, and a
  listen-only connection has no socket to produce on but a producer to listen to.\<close>

definition masters :: "(nat \<Rightarrow> cip_conn) \<Rightarrow> nat list \<Rightarrow> bool" where
  "masters h xs \<longleftrightarrow>
     (\<forall>x \<in> set xs. \<forall>point. multicast_producer point (h x) \<longrightarrow>
        (\<exists>y \<in> set xs. multicast_producer point (h y) \<and> producing_socket (h y) \<noteq> None)) \<and>
     (\<forall>x \<in> set xs. \<forall>y \<in> set xs. \<forall>point. multicast_producer point (h x) \<longrightarrow> multicast_producer point (h y) \<longrightarrow>
        producing_socket (h x) \<noteq> None \<longrightarrow> producing_socket (h y) \<noteq> None \<longrightarrow> x = y) \<and>
     (\<forall>x \<in> set xs. instance_type (h x) = kConnInstanceTypeIoListenOnly \<longrightarrow> producing_socket (h x) = None) \<and>
     (\<forall>x \<in> set xs. instance_type (h x) = kConnInstanceTypeIoListenOnly \<longrightarrow>
        (\<exists>y \<in> set xs. multicast_producer (producing_point (as_data (h x))) (h y)))"

definition cm_inv :: "cm_state \<Rightarrow> nat list \<Rightarrow> bool" where
  "cm_inv s xs \<longleftrightarrow> core s xs \<and> masters (conns s) xs"

lemma in_charge_iff:
  "in_charge x \<longleftrightarrow> multicast_producer (producing_point (as_data x)) x \<and> producing_socket x \<noteq> None"
  by (auto simp: in_charge_def multicast_producer_def)

lemma producer_point: "multicast_producer point x \<Longrightarrow> point = producing_point (as_data x)"
  by (simp add: multicast_producer_def)

lemma listener_not_producer:
  "instance_type x = kConnInstanceTypeIoListenOnly \<Longrightarrow> \<not> multicast_producer point x"
  by (simp add: multicast_producer_def owner_or_input_only_def)

text \<open>What \<open>masters\<close> reads of a connection.\<close>

definition view :: "cip_conn \<Rightarrow> conn_data \<times> ConnInstanceType \<times> nat option" where
  "view x = (as_data x, instance_type x, producing_socket x)"

lemma view_producer:
  assumes "as_data x = as_data y" and "instance_type x = instance_type y"
  shows "multicast_producer point x = multicast_producer point y"
  using assms state_of_data [of x y] by (simp add: multicast_producer_def owner_or_input_only_def)

lemma mastersI:
  assumes "\<And>x point. x \<in> set xs \<Longrightarrow> multicast_producer point (h x) \<Longrightarrow>
      \<exists>y \<in> set xs. multicast_producer point (h y) \<and> producing_socket (h y) \<noteq> None"
    and "\<And>x y point. x \<in> set xs \<Longrightarrow> y \<in> set xs \<Longrightarrow> multicast_producer point (h x) \<Longrightarrow>
      multicast_producer point (h y) \<Longrightarrow> producing_socket (h x) \<noteq> None \<Longrightarrow> producing_socket (h y) \<noteq> None \<Longrightarrow> x = y"
    and "\<And>x. x \<in> set xs \<Longrightarrow> instance_type (h x) = kConnInstanceTypeIoListenOnly \<Longrightarrow> producing_socket (h x) = None"
    and "\<And>x. x \<in> set xs \<Longrightarrow> instance_type (h x) = kConnInstanceTypeIoListenOnly \<Longrightarrow>
      \<exists>y \<in> set xs. multicast_producer (producing_point (as_data (h x))) (h y)"
  shows "masters h xs"
  unfolding masters_def using assms by blast

lemma mastersD:
  assumes "masters h xs" and "x \<in> set xs"
  shows "multicast_producer point (h x) \<Longrightarrow>
      \<exists>y \<in> set xs. multicast_producer point (h y) \<and> producing_socket (h y) \<noteq> None"
    and "multicast_producer point (h x) \<Longrightarrow> y \<in> set xs \<Longrightarrow> multicast_producer point (h y) \<Longrightarrow>
      producing_socket (h x) \<noteq> None \<Longrightarrow> producing_socket (h y) \<noteq> None \<Longrightarrow> x = y"
    and "instance_type (h x) = kConnInstanceTypeIoListenOnly \<Longrightarrow> producing_socket (h x) = None"
    and "instance_type (h x) = kConnInstanceTypeIoListenOnly \<Longrightarrow>
      \<exists>y \<in> set xs. multicast_producer (producing_point (as_data (h x))) (h y)"
  using assms unfolding masters_def by blast+

lemma masters_cong:
  assumes m: "masters h xs" and "\<And>x. x \<in> set xs \<Longrightarrow> view (h' x) = view (h x)"
  shows "masters h' xs"
proof -
  have v: "as_data (h' x) = as_data (h x)" "instance_type (h' x) = instance_type (h x)"
    "producing_socket (h' x) = producing_socket (h x)" if "x \<in> set xs" for x
    using assms(2) [OF that] by (auto simp: view_def)
  have p: "multicast_producer point (h' x) = multicast_producer point (h x)" if "x \<in> set xs" for x point
    using view_producer v [OF that] by blast
  show ?thesis
  proof (rule mastersI)
    fix x y point assume x: "x \<in> set xs"
    note D = mastersD [OF m x]
    show "\<exists>y \<in> set xs. multicast_producer point (h' y) \<and> producing_socket (h' y) \<noteq> None"
      if "multicast_producer point (h' x)"
    proof -
      have "multicast_producer point (h x)" using that p [OF x] by simp
      from D(1) [OF this] obtain y where y: "y \<in> set xs" "multicast_producer point (h y)"
        "producing_socket (h y) \<noteq> None" by (elim bexE conjE)
      show ?thesis by (rule bexI [OF _ y(1)]) (use p [OF y(1)] v [OF y(1)] y in simp)
    qed
    show "x = y" if "y \<in> set xs" "multicast_producer point (h' x)" "multicast_producer point (h' y)"
      "producing_socket (h' x) \<noteq> None" "producing_socket (h' y) \<noteq> None"
      using D(2) [of point y] that p [OF x] p [OF that(1)] v [OF x] v [OF that(1)] by simp
    assume lo: "instance_type (h' x) = kConnInstanceTypeIoListenOnly"
    show "producing_socket (h' x) = None" using D(3) lo v [OF x] by simp
    obtain y where "y \<in> set xs" "multicast_producer (producing_point (as_data (h x))) (h y)"
      using D(4) lo v [OF x] by auto
    then show "\<exists>y \<in> set xs. multicast_producer (producing_point (as_data (h' x))) (h' y)"
      using p v [OF x] by auto
  qed
qed

lemma masters_remove:
  assumes m: "masters h xs" and d: "distinct xs" and c: "c \<in> set xs" "\<not> in_charge (h c)"
  shows "masters h (remove1 c xs)"
proof -
  have s: "set (remove1 c xs) = set xs - {c}" using d by simp
  have nc: "producing_socket (h c) = None" if "multicast_producer point (h c)" for point
    using c(2) that producer_point [OF that] by (auto simp: in_charge_iff)
  have other: "\<exists>y \<in> set xs - {c}. multicast_producer point (h y) \<and> producing_socket (h y) \<noteq> None"
    if x: "x \<in> set xs" "multicast_producer point (h x)" for x point
  proof -
    from mastersD(1) [OF m x] obtain y where y: "y \<in> set xs" "multicast_producer point (h y)"
      "producing_socket (h y) \<noteq> None" by (elim bexE conjE)
    moreover have "y \<noteq> c" using y nc [of point] by auto
    ultimately show ?thesis by (intro bexI [of _ y] conjI) auto
  qed
  show ?thesis
  proof (rule mastersI; unfold s)
    fix x y point assume x: "x \<in> set xs - {c}"
    then have x': "x \<in> set xs" by simp
    note D = mastersD [OF m x']
    show "\<exists>y \<in> set xs - {c}. multicast_producer point (h y) \<and> producing_socket (h y) \<noteq> None"
      if "multicast_producer point (h x)" using other [OF x' that] .
    show "x = y" if "y \<in> set xs - {c}" "multicast_producer point (h x)" "multicast_producer point (h y)"
      "producing_socket (h x) \<noteq> None" "producing_socket (h y) \<noteq> None"
      using D(2) that by blast
    assume lo: "instance_type (h x) = kConnInstanceTypeIoListenOnly"
    show "producing_socket (h x) = None" using D(3) lo .
    obtain y where "y \<in> set xs" "multicast_producer (producing_point (as_data (h x))) (h y)"
      using D(4) lo by blast
    then show "\<exists>y \<in> set xs - {c}. multicast_producer (producing_point (as_data (h x))) (h y)"
      using other by blast
  qed
qed

lemma masters_remove_last:
  assumes m: "masters h xs" and d: "distinct xs" and c: "c \<in> set xs" "multicast_producer point (h c)"
    and alone: "\<And>x. x \<in> set xs \<Longrightarrow> multicast_producer point (h x) \<Longrightarrow> x = c"
    and nobody: "\<And>x. x \<in> set xs \<Longrightarrow> instance_type (h x) = kConnInstanceTypeIoListenOnly \<Longrightarrow>
      producing_point (as_data (h x)) \<noteq> point"
  shows "masters h (remove1 c xs)"
proof -
  have s: "set (remove1 c xs) = set xs - {c}" using d by simp
  have only: "multicast_producer p (h c) \<Longrightarrow> p = point" for p
    using producer_point [OF c(2)] producer_point [of p "h c"] by simp
  show ?thesis
  proof (rule mastersI; unfold s)
    fix x y p assume x: "x \<in> set xs - {c}"
    then have x': "x \<in> set xs" by simp
    note D = mastersD [OF m x']
    show "\<exists>y \<in> set xs - {c}. multicast_producer p (h y) \<and> producing_socket (h y) \<noteq> None"
      if "multicast_producer p (h x)"
    proof -
      have "p \<noteq> point" using alone [OF x'] that x by auto
      then show ?thesis using D(1) [OF that] only by blast
    qed
    show "x = y" if "y \<in> set xs - {c}" "multicast_producer p (h x)" "multicast_producer p (h y)"
      "producing_socket (h x) \<noteq> None" "producing_socket (h y) \<noteq> None"
      using D(2) that by blast
    assume lo: "instance_type (h x) = kConnInstanceTypeIoListenOnly"
    show "producing_socket (h x) = None" using D(3) lo .
    obtain y where "y \<in> set xs" "multicast_producer (producing_point (as_data (h x))) (h y)"
      using D(4) lo by blast
    then show "\<exists>y \<in> set xs - {c}. multicast_producer (producing_point (as_data (h x))) (h y)"
      using nobody [OF x' lo] only by blast
  qed
qed

lemma masters_move:
  assumes m: "masters h xs" and c: "c \<in> set xs" "multicast_producer point (h c)" "producing_socket (h c) \<noteq> None"
    and n: "n \<in> set xs" "n \<noteq> c" "multicast_producer point (h n)"
    and same: "\<And>x. as_data (h' x) = as_data (h x)" "\<And>x. instance_type (h' x) = instance_type (h x)"
    and moved: "producing_socket (h' n) = producing_socket (h c)" "producing_socket (h' c) = None"
      "\<And>x. x \<noteq> n \<Longrightarrow> x \<noteq> c \<Longrightarrow> producing_socket (h' x) = producing_socket (h x)"
  shows "masters h' xs"
proof -
  have mp: "multicast_producer p (h' x) = multicast_producer p (h x)" for p x using view_producer same by blast
  have pn: "p = point" if "multicast_producer p (h n)" for p using producer_point that n(3) by metis
  have pc: "p = point" if "multicast_producer p (h c)" for p using producer_point that c(2) by metis
  have sole: "x = n" if "x \<in> set xs" "multicast_producer point (h x)" "producing_socket (h' x) \<noteq> None" for x
    using mastersD(2) [OF m that(1,2) c(1,2)] that(3) c(3) moved by metis
  show ?thesis
  proof (rule mastersI; unfold mp same)
    fix x y p assume x: "x \<in> set xs"
    note D = mastersD [OF m x]
    show "\<exists>y \<in> set xs. multicast_producer p (h y) \<and> producing_socket (h' y) \<noteq> None"
      if "multicast_producer p (h x)"
    proof (cases "p = point")
      case True then show ?thesis using n c(3) moved(1) by auto
    next
      case False
      obtain y where y: "y \<in> set xs" "multicast_producer p (h y)" "producing_socket (h y) \<noteq> None"
        using D(1) [OF \<open>multicast_producer p (h x)\<close>] by blast
      then have "y \<noteq> n" "y \<noteq> c" using False pn pc by auto
      then show ?thesis using y moved(3) by auto
    qed
    show "x = y" if "y \<in> set xs" "multicast_producer p (h x)" "multicast_producer p (h y)"
      "producing_socket (h' x) \<noteq> None" "producing_socket (h' y) \<noteq> None"
    proof (cases "p = point")
      case True then show ?thesis using sole x that by blast
    next
      case False
      then have "x \<noteq> n" "x \<noteq> c" "y \<noteq> n" "y \<noteq> c" using that pn pc by auto
      then show ?thesis using D(2) [OF that(2,1,3)] that(4,5) moved(3) by auto
    qed
    assume lo: "instance_type (h x) = kConnInstanceTypeIoListenOnly"
    then have "x \<noteq> n" "x \<noteq> c" using listener_not_producer n(3) c(2) by auto
    then show "producing_socket (h' x) = None" using D(3) lo moved(3) by simp
    show "\<exists>y \<in> set xs. multicast_producer (producing_point (as_data (h x))) (h y)" using D(4) lo .
  qed
qed

section \<open>Closing keeps the invariant and returns\<close>

lemma log_simps [simp]:
  "conns (NotifyIoConnectionEvent c e s) = conns s" "head (NotifyIoConnectionEvent c e s) = head s"
  "udp (NotifyIoConnectionEvent c e s) = udp s" "settings (NotifyIoConnectionEvent c e s) = settings s"
  by (simp_all add: NotifyIoConnectionEvent_def log_event_def settings_def)

lemma core_cong:
  assumes "conns s' = conns s" and "head s' = head s" and "udp s' = udp s"
  shows "core s' xs = core s xs"
proof -
  have "active s' xs = active s xs" by (rule active_cong) (simp_all add: assms)
  moreover have "held s' xs = held s xs" by (simp add: held_def assms)
  ultimately show ?thesis by (simp add: core_def assms)
qed

lemma cm_inv_cong:
  assumes "conns s' = conns s" and "head s' = head s" and "udp s' = udp s"
  shows "cm_inv s' xs = cm_inv s xs"
  using core_cong [OF assms] by (simp add: cm_inv_def assms)

lemma frame_log [simp]: "frame s (NotifyIoConnectionEvent c e s)"
  by (simp add: frame_def)

lemma cm_inv_log [simp]: "cm_inv (NotifyIoConnectionEvent c e s) xs = cm_inv s xs"
  by (rule cm_inv_cong) simp_all

lemma cm_invD:
  assumes "cm_inv s xs"
  shows "core s xs" "masters (conns s) xs" "active s xs" "distinct xs"
    and "state (conns s c) = (if c \<in> set xs then kConnStateEstablished else kConnStateNonExistent)"
  using assms by (auto simp: cm_inv_def core_def active_def)

lemma core_distinct: "core s xs \<Longrightarrow> distinct xs"
  by (simp add: core_def active_def)

lemma Close_eq:
  "Close c s =
    (if state (conns s c) = kConnStateNonExistent then Some s
     else if \<not> IsIOConnection (conns s c) then Some (close_end c s)
     else
       let s = NotifyIoConnectionEvent c kIoConnectionEventClosed s
       in if in_charge (conns s c) then
            Option.bind (GetNextNonControlMasterConnection (producing_point (as_data (conns s c))) s) (\<lambda>n.
            case n of
              Some n \<Rightarrow> Some (close_end c (hand_over c n s))
            | None \<Rightarrow>
                Option.bind (CloseAllConnectionsForInputWithSameType (producing_point (as_data (conns s c)))
                               kConnInstanceTypeIoListenOnly s) (\<lambda>s.
                Some (close_end c s)))
          else Some (close_end c s))"
  unfolding Close_def CloseAllConnectionsForInputWithSameType_def close_exec.simps [of "Call_Close c"]
  by simp

lemma close_end_inv:
  assumes core: "core s xs" and m: "masters (conns s) (remove1 c xs)" and c: "c \<in> set xs"
  shows "cm_inv (close_end c s) (remove1 c xs)"
proof -
  note e = close_end_core [OF core c]
  have "view (conns (close_end c s) x) = view (conns s x)" if "x \<in> set (remove1 c xs)" for x
  proof -
    have "x \<noteq> c" using that core_distinct [OF core] by auto
    then show ?thesis using frameD [OF e(2)] e(4) by (simp add: view_def)
  qed
  then show ?thesis using masters_cong [OF m] e(1) by (simp add: cm_inv_def)
qed

text \<open>A connection that is not the last producer of its assembly: its socket, if it has one, moves on.\<close>

lemma next_master:
  assumes inv: "cm_inv s xs" and c: "c \<in> set xs" "in_charge (conns s c)"
  shows "\<exists>n. GetNextNonControlMasterConnection (producing_point (as_data (conns s c))) s = Some n \<and>
    (case n of
       None \<Rightarrow> (\<forall>x \<in> set xs. multicast_producer (producing_point (as_data (conns s c))) (conns s x) \<longrightarrow> x = c)
     | Some n \<Rightarrow> n \<in> set xs \<and> n \<noteq> c \<and> producing_socket (conns s n) = None \<and>
         multicast_producer (producing_point (as_data (conns s c))) (conns s n))"
proof -
  let ?p = "producing_point (as_data (conns s c))"
  let ?P = "\<lambda>x. multicast_producer ?p x \<and> producing_socket x = None"
  have mp: "multicast_producer ?p (conns s c)" and so: "producing_socket (conns s c) \<noteq> None"
    using c(2) by (simp_all add: in_charge_iff)
  have f: "GetNextNonControlMasterConnection ?p s = Some (List.find (\<lambda>x. ?P (conns s x)) xs)"
    unfolding GetNextNonControlMasterConnection_def by (rule find_active_find [OF cm_invD(3) [OF inv]])
  show ?thesis
  proof (cases "List.find (\<lambda>x. ?P (conns s x)) xs")
    case None
    then have "\<not> ?P (conns s x)" if "x \<in> set xs" for x using that by (auto simp: find_None_iff)
    then have "x = c" if "x \<in> set xs" "multicast_producer ?p (conns s x)" for x
      using mastersD(2) [OF cm_invD(2) [OF inv] c(1) mp that so] that by simp
    then show ?thesis using f None by simp
  next
    case (Some n)
    then have "n \<in> set xs" "?P (conns s n)" by (auto simp: find_Some_iff)
    then show ?thesis using f Some so by auto
  qed
qed

lemma Close_plain:
  assumes inv: "cm_inv s xs" and c: "c \<in> set xs"
    and other: "in_charge (conns s c) \<Longrightarrow> \<exists>n \<in> set xs. n \<noteq> c \<and>
      multicast_producer (producing_point (as_data (conns s c))) (conns s n)"
  shows "\<exists>s'. Close c s = Some s' \<and> cm_inv s' (remove1 c xs) \<and> frame s s'"
proof -
  define t where "t = NotifyIoConnectionEvent c kIoConnectionEventClosed s"
  have t: "cm_inv t xs" "conns t = conns s" "frame s t" using inv by (simp_all add: t_def)
  have st: "state (conns s c) \<noteq> kConnStateNonExistent" using cm_invD(5) [OF inv, of c] c by simp
  show ?thesis
  proof (cases "in_charge (conns s c)")
    case False
    have plain: "cm_inv (close_end c u) (remove1 c xs)" if "cm_inv u xs" "conns u = conns s" for u
      using masters_remove [OF cm_invD(2,4) [OF that(1)] c] False that
      by (intro close_end_inv [OF cm_invD(1) [OF that(1)] _ c]) simp
    have "Close c s = Some (close_end c (if IsIOConnection (conns s c) then t else s))"
      using st False by (simp add: Close_eq t_def)
    then show ?thesis
      using plain [OF inv] plain [OF t(1,2)] close_end_core(2) [OF cm_invD(1) c] inv t frame_trans
      by (auto split: if_splits)
  next
    case True
    then have io: "IsIOConnection (conns s c)"
      by (auto simp: IsIOConnection_iff in_charge_def owner_or_input_only_def)
    let ?p = "producing_point (as_data (conns s c))"
    obtain n where n: "GetNextNonControlMasterConnection ?p t = Some (Some n)" "n \<in> set xs" "n \<noteq> c"
        "producing_socket (conns s n) = None" "multicast_producer ?p (conns s n)"
      using next_master [OF t(1) c] other True unfolding t(2) by (auto split: option.splits)
    define u where "u = hand_over c n t"
    have Cl: "Close c s = Some (close_end c u)" using st io True n(1) by (simp add: Close_eq t_def u_def)
    note h = hand_over_core [OF cm_invD(1) [OF t(1)] c n(2,3), unfolded t(2), OF n(4)]
    have mp: "multicast_producer ?p (conns s c)" "producing_socket (conns s c) \<noteq> None"
      using True by (simp_all add: in_charge_iff)
    have uc: "producing_socket (conns u n) = producing_socket (conns s c)" "producing_socket (conns u c) = None"
      "\<And>x. x \<noteq> n \<Longrightarrow> x \<noteq> c \<Longrightarrow> producing_socket (conns u x) = producing_socket (conns s x)"
      using n(3) by (simp_all add: u_def hand_over_conns(1) t(2))
    have fu: "frame s u" using frame_trans [OF t(3) h(3)] by (simp add: u_def)
    have mu: "masters (conns u) xs"
      by (rule masters_move [OF cm_invD(2) [OF inv] c mp n(2,3,5) frameD [OF fu] uc])
    have "\<not> in_charge (conns u c)" using uc(2) by (simp add: in_charge_def)
    then have "cm_inv (close_end c u) (remove1 c xs)"
      using masters_remove [OF mu core_distinct [OF h(1)] c] h(1) close_end_inv [OF _ _ c] by (simp add: u_def)
    then show ?thesis
      using Cl close_end_core(2) [OF h(1) c] frame_trans [OF fu] by (auto simp: u_def)
  qed
qed

text \<open>The loop over the connections of one type and input assembly. It holds the next connection while it
  closes one, which is right because no connection that it closes is the last producer.\<close>

definition hit :: "int \<Rightarrow> ConnInstanceType \<Rightarrow> cip_conn \<Rightarrow> bool" where
  "hit point type x \<longleftrightarrow> type = instance_type x \<and> point = producing_point (as_data x)"

definition guarded :: "int \<Rightarrow> ConnInstanceType \<Rightarrow> (nat \<Rightarrow> cip_conn) \<Rightarrow> nat list \<Rightarrow> bool" where
  "guarded point type h xs \<longleftrightarrow> type = kConnInstanceTypeIoListenOnly \<or>
     (\<exists>e \<in> set xs. instance_type (h e) \<noteq> type \<and> multicast_producer point (h e))"

lemma guarded_mono:
  assumes "guarded point type h xs" and "frame s s'" and "h = conns s"
    and "\<And>x. x \<in> set xs \<Longrightarrow> \<not> hit point type (h x) \<Longrightarrow> x \<in> set ys"
  shows "guarded point type (conns s') ys"
  using assms frameD(2) [OF assms(2)] frame_producer(2) [OF assms(2)] unfolding guarded_def hit_def by metis

lemma frame_hit: "frame s s' \<Longrightarrow> hit point type (conns s' x) = hit point type (conns s x)"
  by (simp add: hit_def frameD)

abbreviation first_of :: "nat list \<Rightarrow> nat option" where
  "first_of zs \<equiv> (case zs of [] \<Rightarrow> None | z # _ \<Rightarrow> Some z)"

lemma close_all_suffix:
  assumes "cm_inv s (ys @ zs)" and "guarded point type (conns s) (ys @ zs)"
  shows "\<exists>s'. close_exec (Call_CloseAll point type (first_of zs)) s = Some s' \<and> frame s s' \<and>
    cm_inv s' (ys @ filter (\<lambda>z. \<not> hit point type (conns s z)) zs)"
  using assms
proof (induction zs arbitrary: ys s)
  case Nil
  then show ?case by (simp add: close_exec.simps [of "Call_CloseAll point type None"])
next
  case (Cons z zs)
  note inv = Cons.prems(1)
  have nxt: "next_conn (conns s z) = first_of zs" using active_next [OF cm_invD(3) [OF inv]] .
  have z: "z \<in> set (ys @ z # zs)" "z \<notin> set ys" using cm_invD(4) [OF inv] by auto
  show ?case
  proof (cases "hit point type (conns s z)")
    case False
    have "\<exists>s'. close_exec (Call_CloseAll point type (first_of zs)) s = Some s' \<and> frame s s' \<and>
        cm_inv s' ((ys @ [z]) @ filter (\<lambda>z. \<not> hit point type (conns s z)) zs)"
      by (rule Cons.IH) (use Cons.prems in simp_all)
    then show ?thesis using False
      by (simp add: close_exec.simps [of "Call_CloseAll point type (Some z)"] nxt Let_def flip: hit_def)
  next
    case True
    define t where "t = NotifyIoConnectionEvent z kIoConnectionEventClosed s"
    have t: "cm_inv t (ys @ z # zs)" "frame s t" "conns t = conns s" using inv by (simp_all add: t_def)
    have other: "\<exists>n \<in> set (ys @ z # zs). n \<noteq> z \<and>
        multicast_producer (producing_point (as_data (conns t z))) (conns t n)" if "in_charge (conns t z)"
      using that True Cons.prems(2) unfolding t(3) hit_def guarded_def in_charge_def owner_or_input_only_def
      by auto
    obtain u where u: "Close z t = Some u" "cm_inv u (ys @ zs)" "frame t u"
      using Close_plain [OF t(1) z(1) other] z(2) by (auto simp: remove1_append)
    have su: "frame s u" using frame_trans [OF t(2) u(3)] .
    have g: "guarded point type (conns u) (ys @ zs)"
      by (rule guarded_mono [OF Cons.prems(2) su refl]) (use True in auto)
    obtain s' where s': "close_exec (Call_CloseAll point type (first_of zs)) u = Some s'" "frame u s'"
        "cm_inv s' (ys @ filter (\<lambda>z. \<not> hit point type (conns u z)) zs)"
      using Cons.IH [OF u(2) g] by blast
    then show ?thesis
      using True u(1) frame_trans [OF su s'(2)]
      by (simp add: close_exec.simps [of "Call_CloseAll point type (Some z)"] nxt t_def Close_def Let_def
          frame_hit [OF su] flip: hit_def)
  qed
qed

lemma CloseAllForInput_inv:
  assumes inv: "cm_inv s xs" and g: "guarded point type (conns s) xs"
  shows "\<exists>s'. CloseAllConnectionsForInputWithSameType point type s = Some s' \<and> frame s s' \<and>
    cm_inv s' (filter (\<lambda>z. \<not> hit point type (conns s z)) xs)"
  using close_all_suffix [of s "[]" xs point type] assms active_head [OF cm_invD(3) [OF inv]]
  by (simp add: CloseAllConnectionsForInputWithSameType_def)

text \<open>The connections that are left after \<open>Close\<close>: without other producers of its assembly a producer
  takes the listen-only connections with it.\<close>

definition last_producer :: "(nat \<Rightarrow> cip_conn) \<Rightarrow> nat list \<Rightarrow> nat \<Rightarrow> bool" where
  "last_producer h xs c \<longleftrightarrow> in_charge (h c) \<and>
     (\<forall>x \<in> set xs. multicast_producer (producing_point (as_data (h c))) (h x) \<longrightarrow> x = c)"

definition left_after :: "(nat \<Rightarrow> cip_conn) \<Rightarrow> nat list \<Rightarrow> nat \<Rightarrow> nat list" where
  "left_after h xs c = filter (\<lambda>x. x \<noteq> c \<and>
     \<not> (last_producer h xs c \<and>
        hit (producing_point (as_data (h c))) kConnInstanceTypeIoListenOnly (h x))) xs"

lemma Close_inv:
  assumes inv: "cm_inv s xs" and c: "c \<in> set xs"
  shows "\<exists>s'. Close c s = Some s' \<and> frame s s' \<and> cm_inv s' (left_after (conns s) xs c)"
proof (cases "last_producer (conns s) xs c")
  case False
  then have "\<exists>n \<in> set xs. n \<noteq> c \<and> multicast_producer (producing_point (as_data (conns s c))) (conns s n)"
    if "in_charge (conns s c)" using that unfolding last_producer_def by blast
  then show ?thesis
    using Close_plain [OF inv c] False cm_invD(4) [OF inv]
    by (simp add: left_after_def distinct_remove1_removeAll removeAll_filter_not_eq eq_commute [of c]) blast
next
  case True
  let ?p = "producing_point (as_data (conns s c))"
  define t where "t = NotifyIoConnectionEvent c kIoConnectionEventClosed s"
  have t: "cm_inv t xs" "frame s t" "conns t = conns s" using inv by (simp_all add: t_def)
  have ch: "in_charge (conns s c)" using True by (simp add: last_producer_def)
  then have mp: "multicast_producer ?p (conns s c)" by (simp add: in_charge_iff)
  have st: "state (conns s c) \<noteq> kConnStateNonExistent" using cm_invD(5) [OF inv, of c] c by simp
  have io: "IsIOConnection (conns s c)"
    using ch by (auto simp: IsIOConnection_iff in_charge_def owner_or_input_only_def)
  have none: "GetNextNonControlMasterConnection ?p t = Some None"
  proof -
    obtain n where n: "GetNextNonControlMasterConnection ?p t = Some n"
        "case n of None \<Rightarrow> True | Some n \<Rightarrow> n \<in> set xs \<and> n \<noteq> c \<and> multicast_producer ?p (conns s n)"
      using next_master [OF t(1) c] ch unfolding t(3) by (auto split: option.splits)
    then show ?thesis using True by (cases n) (auto simp: last_producer_def)
  qed
  define ys where "ys = filter (\<lambda>z. \<not> hit ?p kConnInstanceTypeIoListenOnly (conns s z)) xs"
  obtain u where u: "CloseAllConnectionsForInputWithSameType ?p kConnInstanceTypeIoListenOnly t = Some u"
      "frame t u" "cm_inv u ys"
    using CloseAllForInput_inv [OF t(1), of ?p kConnInstanceTypeIoListenOnly]
    by (auto simp: guarded_def t(3) ys_def)
  have su: "frame s u" using frame_trans [OF t(2) u(2)] .
  have cy: "c \<in> set ys" using c listener_not_producer mp by (auto simp: ys_def hit_def)
  have "masters (conns u) (remove1 c ys)"
    by (rule masters_remove_last [OF cm_invD(2,4) [OF u(3)] cy, where point = ?p])
      (use True mp frame_producer(2) [OF su] frameD [OF su] in
        \<open>auto simp: ys_def last_producer_def hit_def\<close>)
  then have e: "cm_inv (close_end c u) (remove1 c ys)" by (rule close_end_inv [OF cm_invD(1) [OF u(3)] _ cy])
  have l: "remove1 c ys = left_after (conns s) xs c"
    using True cm_invD(4) [OF u(3)]
    by (simp add: left_after_def ys_def distinct_remove1_removeAll removeAll_filter_not_eq
        eq_commute [of c] conj_commute)
  have "Close c s = Some (close_end c u)" using st io ch none u(1) by (simp add: Close_eq t_def)
  then show ?thesis using e l close_end_core(2) [OF cm_invD(1) [OF u(3)] cy] frame_trans [OF su] by auto
qed

section \<open>Time-outs keep the invariant and return\<close>

text \<open>The connections that are left after a time-out: an owner takes with it all input-only and listen-only
  connections to its input assembly, other connections what \<open>Close\<close> takes with them.\<close>

definition left_after_time_out :: "(nat \<Rightarrow> cip_conn) \<Rightarrow> nat list \<Rightarrow> nat \<Rightarrow> nat list" where
  "left_after_time_out h xs c =
    (let point = producing_point (as_data (h c))
     in if instance_type (h c) = kConnInstanceTypeIoExclusiveOwner \<and>
           ConnectionType (producing_ncp (h c)) = kIOConnTypeMulticast
        then filter (\<lambda>x. x \<noteq> c \<and> \<not> hit point kConnInstanceTypeIoInputOnly (h x) \<and>
               \<not> hit point kConnInstanceTypeIoListenOnly (h x)) xs
        else left_after h xs c)"

lemma frame_in_charge:
  assumes "frame s s'" and "producing_socket (conns s' x) = producing_socket (conns s x)"
  shows "in_charge (conns s' x) = in_charge (conns s x)"
  using frame_producer [OF assms(1)] assms(2) by (simp add: in_charge_def)

lemma hand_over_inv:
  assumes inv: "cm_inv s xs" and c: "c \<in> set xs" "in_charge (conns s c)"
    and n: "n \<in> set xs" "n \<noteq> c" "producing_socket (conns s n) = None"
      "multicast_producer (producing_point (as_data (conns s c))) (conns s n)"
  shows "cm_inv (hand_over_timed_out c n s) xs" and "frame s (hand_over_timed_out c n s)"
    and "producing_socket (conns (hand_over_timed_out c n s) c) = None"
proof -
  note h = hand_over_core [OF cm_invD(1) [OF inv] c(1) n(1-3)]
  have mp: "multicast_producer (producing_point (as_data (conns s c))) (conns s c)"
    "producing_socket (conns s c) \<noteq> None" using c(2) by (simp_all add: in_charge_iff)
  have "masters (conns (hand_over_timed_out c n s)) xs"
    by (rule masters_move [OF cm_invD(2) [OF inv] c(1) mp n(1,2,4) frameD [OF h(4)]])
      (use n(2) in \<open>simp_all add: hand_over_conns(2)\<close>)
  then show "cm_inv (hand_over_timed_out c n s) xs" using h(2) by (simp add: cm_inv_def)
  show "frame s (hand_over_timed_out c n s)" using h(4) .
  show "producing_socket (conns (hand_over_timed_out c n s) c) = None"
    using n(2) by (simp add: hand_over_conns(2))
qed

lemma left_after_frame:
  assumes "frame s s'"
    and "last_producer (conns s) xs c \<Longrightarrow> ys = filter (\<lambda>x. \<not> hit (producing_point (as_data (conns s c)))
      kConnInstanceTypeIoListenOnly (conns s x)) xs"
    and "\<not> last_producer (conns s) xs c \<Longrightarrow> ys = xs \<and> \<not> last_producer (conns s') xs c"
  shows "left_after (conns s') ys c = left_after (conns s) xs c"
proof (cases "last_producer (conns s) xs c")
  case True
  have "x \<in> set xs" if "x \<in> set ys" for x using assms(2) [OF True] that by auto
  then have "left_after (conns s') ys c = filter (\<lambda>x. x \<noteq> c) ys"
    unfolding left_after_def frame_hit [OF assms(1)] frameD [OF assms(1)] assms(2) [OF True]
    by (auto intro: filter_cong)
  also have "\<dots> = left_after (conns s) xs c" using True by (simp add: left_after_def assms(2) conj_commute)
  finally show ?thesis .
next
  case False
  then show ?thesis using assms(3) by (simp add: left_after_def)
qed

lemma time_out_dependents_inv:
  assumes inv: "cm_inv s xs" and c: "c \<in> set xs"
  shows "\<exists>t ys. time_out_dependents c s = Some t \<and> frame s t \<and> cm_inv t ys \<and> c \<in> set ys \<and>
    left_after (conns t) ys c = left_after_time_out (conns s) xs c"
proof -
  let ?p = "producing_point (as_data (conns s c))"
  note defs = time_out_dependents_def Let_def left_after_time_out_def
  show ?thesis
  proof (cases "ConnectionType (producing_ncp (conns s c)) = kIOConnTypeMulticast")
    case False
    then show ?thesis using inv c by (intro exI [of _ s] exI [of _ xs]) (simp add: defs)
  next
    case mc: True
    show ?thesis
    proof (cases "instance_type (conns s c)")
      case kConnInstanceTypeIoExclusiveOwner
      have mp: "multicast_producer ?p (conns s c)"
        using mc kConnInstanceTypeIoExclusiveOwner by (simp add: multicast_producer_def owner_or_input_only_def)
      have g: "guarded ?p kConnInstanceTypeIoInputOnly (conns s) xs"
        using c mp kConnInstanceTypeIoExclusiveOwner unfolding guarded_def
        by (intro disjI2 bexI [of _ c]) simp_all
      obtain t where t: "CloseAllConnectionsForInputWithSameType ?p kConnInstanceTypeIoInputOnly s = Some t"
          "frame s t" "cm_inv t (filter (\<lambda>z. \<not> hit ?p kConnInstanceTypeIoInputOnly (conns s z)) xs)"
        using CloseAllForInput_inv [OF inv g] by blast
      obtain u where u: "CloseAllConnectionsForInputWithSameType ?p kConnInstanceTypeIoListenOnly t = Some u"
          "frame t u" "cm_inv u (filter (\<lambda>z. \<not> hit ?p kConnInstanceTypeIoListenOnly (conns t z))
             (filter (\<lambda>z. \<not> hit ?p kConnInstanceTypeIoInputOnly (conns s z)) xs))"
        using CloseAllForInput_inv [OF t(3), of ?p kConnInstanceTypeIoListenOnly] by (auto simp: guarded_def)
      define ys where "ys = filter (\<lambda>z. \<not> hit ?p kConnInstanceTypeIoInputOnly (conns s z) \<and>
          \<not> hit ?p kConnInstanceTypeIoListenOnly (conns s z)) xs"
      have su: "frame s u" using frame_trans [OF t(2) u(2)] .
      have iu: "cm_inv u ys" using u(3) by (simp add: ys_def frame_hit [OF t(2)] conj_commute)
      have cy: "c \<in> set ys" using c kConnInstanceTypeIoExclusiveOwner by (simp add: ys_def hit_def)
      have "left_after (conns u) ys c = filter (\<lambda>x. x \<noteq> c) ys"
        unfolding left_after_def frame_hit [OF su] frameD [OF su]
        by (rule filter_cong) (auto simp: ys_def)
      also have "\<dots> = left_after_time_out (conns s) xs c"
        using mc kConnInstanceTypeIoExclusiveOwner by (simp add: ys_def defs conj_commute)
      finally have "left_after (conns u) ys c = left_after_time_out (conns s) xs c" .
      then show ?thesis using t(1) u(1) su iu cy mc kConnInstanceTypeIoExclusiveOwner
        by (intro exI [of _ u] exI [of _ ys]) (simp add: time_out_dependents_def Let_def)
    next
      case kConnInstanceTypeIoInputOnly
      have oi: "owner_or_input_only (conns s c)"
        using kConnInstanceTypeIoInputOnly by (simp add: owner_or_input_only_def)
      have lt: "left_after_time_out (conns s) xs c = left_after (conns s) xs c"
        using kConnInstanceTypeIoInputOnly by (simp add: defs)
      show ?thesis
      proof (cases "producing_socket (conns s c) = None")
        case True
        then show ?thesis using inv c lt mc kConnInstanceTypeIoInputOnly
          by (intro exI [of _ s] exI [of _ xs]) (simp add: time_out_dependents_def Let_def)
      next
        case False
        then have ch: "in_charge (conns s c)" using mc oi by (simp add: in_charge_def)
        obtain n where n: "GetNextNonControlMasterConnection ?p s = Some n"
            "case n of None \<Rightarrow> \<forall>x \<in> set xs. multicast_producer ?p (conns s x) \<longrightarrow> x = c
             | Some n \<Rightarrow> n \<in> set xs \<and> n \<noteq> c \<and> producing_socket (conns s n) = None \<and>
                 multicast_producer ?p (conns s n)"
          using next_master [OF inv c ch] by blast
        show ?thesis
        proof (cases n)
          case (Some k)
          then have k: "k \<in> set xs" "k \<noteq> c" "producing_socket (conns s k) = None"
            "multicast_producer ?p (conns s k)" using n(2) by simp_all
          note h = hand_over_inv [OF inv c ch k]
          have "\<not> last_producer (conns s) xs c" using k by (auto simp: last_producer_def)
          moreover have "\<not> last_producer (conns (hand_over_timed_out c k s)) xs c"
            using h(3) by (simp add: last_producer_def in_charge_def)
          ultimately have "left_after (conns (hand_over_timed_out c k s)) xs c = left_after (conns s) xs c"
            by (intro left_after_frame [OF h(2)]) simp_all
          then show ?thesis using h(1,2) c lt mc kConnInstanceTypeIoInputOnly False n(1) Some
            by (intro exI [of _ "hand_over_timed_out c k s"] exI [of _ xs])
              (auto simp: time_out_dependents_def Let_def)
        next
          case None
          obtain t where t: "CloseAllConnectionsForInputWithSameType ?p kConnInstanceTypeIoListenOnly s = Some t"
              "frame s t" "cm_inv t (filter (\<lambda>z. \<not> hit ?p kConnInstanceTypeIoListenOnly (conns s z)) xs)"
            using CloseAllForInput_inv [OF inv, of ?p kConnInstanceTypeIoListenOnly] by (auto simp: guarded_def)
          have lp: "last_producer (conns s) xs c" using ch n(2) None by (simp add: last_producer_def)
          have cy: "c \<in> set (filter (\<lambda>z. \<not> hit ?p kConnInstanceTypeIoListenOnly (conns s z)) xs)"
            using c kConnInstanceTypeIoInputOnly by (simp add: hit_def)
          show ?thesis using t cy lt mc kConnInstanceTypeIoInputOnly False n(1) None left_after_frame [OF t(2)] lp
            by (intro exI [of _ t] exI) (auto simp: time_out_dependents_def Let_def)
        qed
      qed
    qed (use inv c mc in \<open>(intro exI [of _ s] exI [of _ xs], simp add: defs)+\<close>)
  qed
qed

lemma timeOut_inv:
  assumes inv: "cm_inv s xs" and c: "c \<in> set xs"
  shows "\<exists>s'. timeOut c s = Some s' \<and> frame s s' \<and> cm_inv s' (left_after_time_out (conns s) xs c)"
proof -
  define t0 where "t0 = NotifyIoConnectionEvent c kIoConnectionEventTimedOut s"
  have t0: "cm_inv t0 xs" "conns t0 = conns s" "frame s t0" using inv by (simp_all add: t0_def)
  obtain t ys where t: "(if IsIOConnection (conns s c) then time_out_dependents c t0 else Some s) = Some t"
      "frame s t" "cm_inv t ys" "c \<in> set ys" "left_after (conns t) ys c = left_after_time_out (conns s) xs c"
  proof (cases "IsIOConnection (conns s c)")
    case True
    then show ?thesis
      using time_out_dependents_inv [OF t0(1) c] frame_trans [OF t0(3)] that unfolding t0(2) by auto
  next
    case False
    then have "left_after (conns s) xs c = left_after_time_out (conns s) xs c"
      by (simp add: left_after_time_out_def IsIOConnection_iff Let_def)
    then show ?thesis using False that [of s xs] inv c by simp
  qed
  obtain u where u: "Close c t = Some u" "frame t u" "cm_inv u (left_after_time_out (conns s) xs c)"
    using Close_inv [OF t(3,4)] t(5) by auto
  obtain r where r: "find_active (\<lambda>x. encap_session x = encap_session (conns t c)) u = Some r"
    using find_active_find [OF cm_invD(3) [OF u(3)]] by blast
  define v where "v = (if encap_session (conns t c) \<noteq> 0 \<and> r = None
      then u\<lparr>session := snd (CloseBySessionHandle (encap_session (conns t c)) (session u))\<rparr> else u)"
  have "timeOut c s = Some v"
    using t(1) u(1) r unfolding timeOut_def t0_def [symmetric]
    by (simp add: v_def CheckForTimedOutConnectionsAndCloseTCPConnections_def Let_def)
  moreover have "cm_inv v (left_after_time_out (conns s) xs c)"
    using u(3) by (subst cm_inv_cong [of v u]) (simp_all add: v_def)
  moreover have "frame s v"
    using frame_trans [OF t(2) u(2)] by (simp add: frame_def v_def settings_def)
  ultimately show ?thesis by blast
qed

section \<open>Closing many\<close>

lemma left_after_sub: "set (left_after h xs c) \<subseteq> set xs - {c}"
  by (auto simp: left_after_def)

lemma left_after_shorter:
  assumes "c \<in> set xs"
  shows "length (left_after h xs c) < length xs"
  unfolding left_after_def using assms by (intro length_filter_less [of c]) auto

lemma CloseAllConnections_inv:
  assumes "cm_inv s xs"
  shows "\<exists>s'. CloseAllConnections s = Some s' \<and> frame s s' \<and> cm_inv s' []"
  using assms
proof (induction "length xs" arbitrary: s xs rule: less_induct)
  case less
  show ?case
  proof (cases xs)
    case Nil
    then show ?thesis using less.prems active_head [OF cm_invD(3) [OF less.prems]]
      by (simp add: CloseAllConnections.simps [of s])
  next
    case (Cons c cs)
    then have c: "head s = Some c" "c \<in> set xs" using active_head [OF cm_invD(3) [OF less.prems]] by simp_all
    obtain t where t: "Close c s = Some t" "frame s t" "cm_inv t (left_after (conns s) xs c)"
      using Close_inv [OF less.prems c(2)] by blast
    obtain s' where "CloseAllConnections t = Some s'" "frame t s'" "cm_inv s' []"
      using less.hyps [OF left_after_shorter [OF c(2)] t(3)] by blast
    then show ?thesis using t(1) c(1) frame_trans [OF t(2)] by (auto simp: CloseAllConnections.simps [of s])
  qed
qed

text \<open>With nothing open nothing is held: no group is joined and every count is zero.\<close>

lemma all_given_back:
  assumes "cm_inv s []"
  shows "m_multicast (udp s) = []" and "i \<in> set (m_sockets (udp s)) \<Longrightarrow> u_ref_count (udp_store (udp s) i) = 0"
proof -
  have b: "balanced io_base {#} (udp s)" using cm_invD(1) [OF assms] by (simp add: core_def held_def)
  then have "g \<notin> set (m_multicast (udp s))" for g by (auto simp: balanced_def)
  then show "m_multicast (udp s) = []" by (cases "m_multicast (udp s)") auto
  show "u_ref_count (udp_store (udp s) i) = 0" if "i \<in> set (m_sockets (udp s))"
    using b that by (simp add: balanced_def uses_def)
qed

definition class3_of :: "u32 \<Rightarrow> cip_conn \<Rightarrow> bool" where
  "class3_of handle x \<longleftrightarrow> TransportClass (trigger x) = kConnTransportClass3 \<and> encap_session x = handle"

lemma close_class3_step:
  "close_class3 handle (Some c) s =
    (if class3_of handle (conns s c)
     then Option.bind (Close c s) (close_class3 handle (next_conn (conns s c)))
     else close_class3 handle (next_conn (conns s c)) s)"
  by (simp add: close_class3.simps [of _ "Some c"] Let_def class3_of_def)

text \<open>The loop returns wherever its iterator stands; it closes what it should when no connection takes
  others with it.\<close>

lemma close_class3_off:
  assumes "cm_inv s xs" and "c \<notin> set xs"
  shows "close_class3 handle (Some c) s = Some s"
  using active_off [OF cm_invD(3) [OF assms(1)] assms(2)] cm_invD(5) [OF assms(1), of c] assms(2)
  by (simp add: close_class3.simps [of _ "Some c"] close_class3.simps [of _ None] Let_def Close_eq)

lemma close_class3_returns:
  assumes "cm_inv s (ys @ zs)"
  shows "\<exists>s' xs'. close_class3 handle (first_of zs) s = Some s' \<and> frame s s' \<and> cm_inv s' xs' \<and>
    set xs' \<subseteq> set (ys @ zs)"
  using assms
proof (induction "length zs" arbitrary: s ys zs rule: less_induct)
  case less
  note inv = less.prems
  show ?case
  proof (cases zs)
    case Nil
    then show ?thesis using inv by (intro exI [of _ s] exI [of _ ys]) (simp add: close_class3.simps [of _ None])
  next
    case (Cons z zt)
    have nxt: "next_conn (conns s z) = first_of zt" using active_next [of s ys z zt] cm_invD(3) [OF inv] Cons by simp
    have z: "z \<in> set (ys @ zs)" using Cons by simp
    show ?thesis
    proof (cases "class3_of handle (conns s z)")
      case False
      then have "close_class3 handle (first_of zs) s = close_class3 handle (first_of zt) s"
        using nxt Cons by (simp add: close_class3_step)
      then show ?thesis using less.hyps [of zt s "ys @ [z]"] inv Cons by auto
    next
      case True
      obtain t where t: "Close z s = Some t" "frame s t" "cm_inv t (left_after (conns s) (ys @ zs) z)"
        using Close_inv [OF inv z] by blast
      have step: "close_class3 handle (first_of zs) s = close_class3 handle (first_of zt) t"
        using nxt Cons True t(1) by (simp add: close_class3_step)
      define keep where "keep = (\<lambda>x. x \<noteq> z \<and> \<not> (last_producer (conns s) (ys @ zs) z \<and>
          hit (producing_point (as_data (conns s z))) kConnInstanceTypeIoListenOnly (conns s x)))"
      have la: "left_after (conns s) (ys @ zs) z = filter keep ys @ filter keep zt"
        using Cons by (simp add: left_after_def keep_def)
      have sub: "set (filter keep ys @ filter keep zt) \<subseteq> set (ys @ zs)" using Cons by auto
      show ?thesis
      proof (cases "zt = [] \<or> keep (hd zt)")
        case True
        then have "first_of (filter keep zt) = first_of zt" by (cases zt) auto
        moreover have "length (filter keep zt) < length zs" using Cons by (simp add: le_imp_less_Suc)
        ultimately show ?thesis
          using less.hyps [of "filter keep zt" t "filter keep ys"] t la step sub frame_trans [OF t(2)]
          by (smt (verit) subset_trans)
      next
        case False
        then have "first_of zt = Some (hd zt)" "hd zt \<notin> set (filter keep ys @ filter keep zt)" by (cases zt; auto)+
        then have "close_class3 handle (first_of zt) t = Some t"
          using close_class3_off [OF t(3)[unfolded la]] by simp
        then show ?thesis using t step la sub
          by (intro exI [of _ t] exI [of _ "filter keep ys @ filter keep zt"]) simp
      qed
    qed
  qed
qed

lemma CloseClass3Connections_returns:
  assumes "cm_inv s xs"
  shows "\<exists>s' xs'. CloseClass3Connections handle s = Some s' \<and> frame s s' \<and> cm_inv s' xs' \<and> set xs' \<subseteq> set xs"
  using close_class3_returns [of s "[]" xs] assms active_head [OF cm_invD(3) [OF assms]]
  by (simp add: CloseClass3Connections_def)

lemma close_class3_exact:
  assumes "cm_inv s (ys @ zs)" and "\<And>x. x \<in> set zs \<Longrightarrow> class3_of handle (conns s x) \<Longrightarrow>
      \<not> owner_or_input_only (conns s x)"
  shows "\<exists>s'. close_class3 handle (first_of zs) s = Some s' \<and> frame s s' \<and>
    cm_inv s' (ys @ filter (\<lambda>x. \<not> class3_of handle (conns s x)) zs)"
  using assms
proof (induction zs arbitrary: ys s)
  case Nil
  then show ?case by (simp add: close_class3.simps [of _ None])
next
  case (Cons z zs)
  note inv = Cons.prems(1)
  have nxt: "next_conn (conns s z) = first_of zs" using active_next [OF cm_invD(3) [OF inv]] .
  show ?case
  proof (cases "class3_of handle (conns s z)")
    case False
    have "\<exists>s'. close_class3 handle (first_of zs) s = Some s' \<and> frame s s' \<and>
        cm_inv s' ((ys @ [z]) @ filter (\<lambda>x. \<not> class3_of handle (conns s x)) zs)"
      by (rule Cons.IH) (use Cons.prems in auto)
    then show ?thesis using False nxt by (simp add: close_class3_step)
  next
    case True
    have z: "z \<notin> set ys" "z \<notin> set zs" using cm_invD(4) [OF inv] by auto
    have nc: "\<not> in_charge (conns s z)" using Cons.prems(2) True by (simp add: in_charge_def)
    obtain t where t: "Close z s = Some t" "frame s t" "cm_inv t (ys @ zs)"
      using Close_plain [OF inv, of z] nc z by (auto simp: remove1_append)
    have same: "encap_session (conns t x) = encap_session (conns s x)" if "x \<in> set zs" for x
      using t(2) cm_invD(5) [OF t(3), of x] that by (simp add: frame_def)
    then have c3: "class3_of handle (conns t x) = class3_of handle (conns s x)" if "x \<in> set zs" for x
      using frame_producer(4) [OF t(2), of x] that by (simp add: class3_of_def)
    have "\<exists>s'. close_class3 handle (first_of zs) t = Some s' \<and> frame t s' \<and>
        cm_inv s' (ys @ filter (\<lambda>x. \<not> class3_of handle (conns t x)) zs)"
      by (rule Cons.IH [OF t(3)]) (use Cons.prems(2) c3 frame_producer(1) [OF t(2)] in auto)
    moreover have "filter (\<lambda>x. \<not> class3_of handle (conns t x)) zs = filter (\<lambda>x. \<not> class3_of handle (conns s x)) zs"
      using c3 by (auto intro: filter_cong)
    ultimately show ?thesis using True nxt t(1) frame_trans [OF t(2)] by (auto simp: close_class3_step)
  qed
qed

lemma CloseClass3Connections_exact:
  assumes "cm_inv s xs" and "\<And>x. x \<in> set xs \<Longrightarrow> class3_of handle (conns s x) \<Longrightarrow> \<not> owner_or_input_only (conns s x)"
  shows "\<exists>s'. CloseClass3Connections handle s = Some s' \<and> frame s s' \<and>
    cm_inv s' (filter (\<lambda>x. \<not> class3_of handle (conns s x)) xs)"
  using close_class3_exact [of s "[]" xs] assms active_head [OF cm_invD(3) [OF assms(1)]]
  by (simp add: CloseClass3Connections_def)

end
