(* ===== verification/App_Con.thy ===== *)
theory App_Con
  imports Conn_Close
begin

text \<open>
  The application connection types of \<open>cip/appcontype.cc\<close>: the tables of expected connections, and how an
  incoming request finds a connection object in them.

  The objects of a table entry are the numbers in its \<open>connection_slots\<close>, made by the constructor of
  \<open>CipConn\<close> when the entry is added. That a growing \<open>std::vector\<close> moves the objects which it holds is not
  modelled: an entry keeps its numbers.

  What the application and the system set is the record \<open>conn_env\<close>, an argument of everything from here on:
  the configuration header, the registered classes, what sockets the system grants, and the application's two
  functions for assembly data: \<open>AfterAssemblyDataReceived\<close> gets the instance, the mode, the data and the number
  of bytes that arrived and says whether it accepts them, \<open>BeforeAssemblyDataSend\<close> whether it has new data, and the
  data. \<open>foreign_size\<close> is what \<open>AssemblyInstance::SizeBytes\<close> reads from an instance of another class.
\<close>

section \<open>The environment\<close>

record conn_env =
  env_conf :: user_conf
  env_os :: udp_os
  registered :: registry
  this_device :: identity
  NUM_EXCLUSIVE_OWNER_CONNS :: nat
  NUM_INPUT_ONLY_CONNS :: nat
  NUM_INPUT_ONLY_CONNS_PER_CON_PATH :: nat
  NUM_LISTEN_ONLY_CONNS :: nat
  NUM_LISTEN_ONLY_CONNS_PER_CON_PATH :: nat
  g_my_io_udp_port :: u32
  kCIPsterFanucScanner :: bool
  starting_multicast_address :: u32
  AfterAssemblyDataReceived :: "int \<Rightarrow> OpMode \<Rightarrow> byte list \<Rightarrow> nat \<Rightarrow> bool"
  BeforeAssemblyDataSend :: "int \<Rightarrow> byte list \<Rightarrow> bool \<times> byte list"
  foreign_size :: "inst \<Rightarrow> nat"

section \<open>Adding expectations\<close>

definition new_CipConn :: "user_conf \<Rightarrow> u32 list \<Rightarrow> u32 \<Rightarrow> nat \<Rightarrow> cip_conn" where
  "new_CipConn conf garbage now n = Conn_Clear conf now False
     (conn_data.extend (ConnectionData conf garbage)
       \<lparr>watchdog_timeout_action = kWatchdogTimeoutActionTransitionToTimedOut,
        eip_level_sequence_count_producing = 0, eip_level_sequence_count_consuming = 0,
        eip_level_sequence_count_consuming_first = True, sequence_count_producing = 0,
        sequence_count_consuming = 0, consuming_header = 7, send_address = SockAddr_Clear,
        recv_address = SockAddr_Clear, openers_address = SockAddr_Clear, instance_id = int (n + 1),
        instance_type = kConnInstanceTypeExplicit, state = kConnStateNonExistent,
        expected_packet_rate_usecs = 0, inactivity_watchdog_timer_usecs = 0,
        transmission_trigger_timer_usecs = 0, production_inhibit_timer_usecs = 0,
        consuming_socket = None, producing_socket = None, encap_session = 0,
        next_conn = None, prev_conn = None, on_list = False\<rparr>)"

text \<open>\<open>k\<close> constructed objects, and their numbers.\<close>

definition construct :: "conn_env \<Rightarrow> nat \<Rightarrow> cm_state \<Rightarrow> nat list \<times> cm_state" where
  "construct env k s =
    (let n = constructed_count s
     in ([n..<n + k],
         s\<lparr>constructed_count := n + k,
           conns := (\<lambda>c. if n \<le> c \<and> c < n + k
                         then new_CipConn (env_conf env) (replicate 7 0) (CurrentUSecs32 s) c else conns s c)\<rparr>))"

definition expect :: "conn_env \<Rightarrow> int \<Rightarrow> int \<Rightarrow> int \<Rightarrow> nat \<Rightarrow> cm_state \<Rightarrow> reservation \<times> cm_state" where
  "expect env out inp cfg k s =
    (let (slots, s) = construct env k s
     in (\<lparr>output_assembly = out, input_assembly = inp, config_assembly = cfg, connection_slots = slots\<rparr>, s))"

definition AddExpectation_EO :: "conn_env \<Rightarrow> int \<Rightarrow> int \<Rightarrow> int \<Rightarrow> cm_state \<Rightarrow> bool \<times> cm_state" where
  "AddExpectation_EO env out inp cfg s =
    (if length (s_exclusive_owner s) < NUM_EXCLUSIVE_OWNER_CONNS env
     then let (r, s) = expect env out inp cfg 1 s
          in (True, s\<lparr>s_exclusive_owner := s_exclusive_owner s @ [r]\<rparr>)
     else (False, s))"

definition AddExpectation_IO :: "conn_env \<Rightarrow> int \<Rightarrow> int \<Rightarrow> int \<Rightarrow> cm_state \<Rightarrow> bool \<times> cm_state" where
  "AddExpectation_IO env out inp cfg s =
    (if length (s_input_only s) < NUM_INPUT_ONLY_CONNS env
     then let (r, s) = expect env out inp cfg (NUM_INPUT_ONLY_CONNS_PER_CON_PATH env) s
          in (True, s\<lparr>s_input_only := s_input_only s @ [r]\<rparr>)
     else (False, s))"

definition AddExpectation_LO :: "conn_env \<Rightarrow> int \<Rightarrow> int \<Rightarrow> int \<Rightarrow> cm_state \<Rightarrow> bool \<times> cm_state" where
  "AddExpectation_LO env out inp cfg s =
    (if length (s_listen_only s) < NUM_LISTEN_ONLY_CONNS env
     then let (r, s) = expect env out inp cfg (NUM_LISTEN_ONLY_CONNS_PER_CON_PATH env) s
          in (True, s\<lparr>s_listen_only := s_listen_only s @ [r]\<rparr>)
     else (False, s))"

abbreviation kRoleConsumed :: u32 where "kRoleConsumed \<equiv> 1"
abbreviation kRoleProduced :: u32 where "kRoleProduced \<equiv> 2"
abbreviation kRoleConfiguration :: u32 where "kRoleConfiguration \<equiv> 4"

definition AddConnectionPointRole :: "u32 \<Rightarrow> assembly \<Rightarrow> assembly" where
  "AddConnectionPointRole role a = a\<lparr>connection_point_roles := connection_point_roles a OR role\<rparr>"

definition HasConnectionPointRole :: "u32 \<Rightarrow> assembly \<Rightarrow> bool" where
  "HasConnectionPointRole role a \<longleftrightarrow> 0 \<noteq> connection_point_roles a AND role"

definition AddAssemblyConnectionPointRole :: "conn_env \<Rightarrow> int \<Rightarrow> u32 \<Rightarrow> cm_state \<Rightarrow> cm_state" where
  "AddAssemblyConnectionPointRole env i role s =
    (if i < 0 then s
     else
       case FindClass kCipAssembly (registered env) of
         None \<Rightarrow> s
       | Some c \<Rightarrow>
           (case Instance i c of
              None \<Rightarrow> s
            | Some _ \<Rightarrow> s\<lparr>assemblies := (assemblies s)(i := AddConnectionPointRole role (assemblies s i))\<rparr>))"

definition AddAssemblyConnectionPointRoles :: "conn_env \<Rightarrow> int \<Rightarrow> int \<Rightarrow> int \<Rightarrow> cm_state \<Rightarrow> cm_state" where
  "AddAssemblyConnectionPointRoles env out inp cfg s =
     AddAssemblyConnectionPointRole env cfg kRoleConfiguration
       (AddAssemblyConnectionPointRole env inp kRoleProduced
         (AddAssemblyConnectionPointRole env out kRoleConsumed s))"

definition with_roles :: "conn_env \<Rightarrow> int \<Rightarrow> int \<Rightarrow> int \<Rightarrow> bool \<times> cm_state \<Rightarrow> bool \<times> cm_state" where
  "with_roles env out inp cfg added_s =
    (case added_s of (added, s) \<Rightarrow>
       (added, if added then AddAssemblyConnectionPointRoles env out inp cfg s else s))"

definition ConfigureExclusiveOwnerConnectionPoint ::
    "conn_env \<Rightarrow> int \<Rightarrow> int \<Rightarrow> int \<Rightarrow> cm_state \<Rightarrow> bool \<times> cm_state" where
  "ConfigureExclusiveOwnerConnectionPoint env out inp cfg s =
     with_roles env out inp cfg (AddExpectation_EO env out inp cfg s)"

definition ConfigureInputOnlyConnectionPoint ::
    "conn_env \<Rightarrow> int \<Rightarrow> int \<Rightarrow> int \<Rightarrow> cm_state \<Rightarrow> bool \<times> cm_state" where
  "ConfigureInputOnlyConnectionPoint env out inp cfg s =
     with_roles env out inp cfg (AddExpectation_IO env out inp cfg s)"

definition ConfigureListenOnlyConnectionPoint ::
    "conn_env \<Rightarrow> int \<Rightarrow> int \<Rightarrow> int \<Rightarrow> cm_state \<Rightarrow> bool \<times> cm_state" where
  "ConfigureListenOnlyConnectionPoint env out inp cfg s =
     with_roles env out inp cfg (AddExpectation_LO env out inp cfg s)"

section \<open>Finding a connection\<close>

type_synonym found = "nat option \<times> ConnMgrStatus \<times> cm_state"

definition Alloc :: "reservation \<Rightarrow> cm_state \<Rightarrow> nat option \<times> cm_state" where
  "Alloc r s =
    (case List.find (\<lambda>c. kConnStateNonExistent = state (conns s c)) (connection_slots r) of
       None \<Rightarrow> (None, s)
     | Some c \<Rightarrow> (Some c, conn_upd c (\<lambda>x. x\<lparr>state := kConnStateConfiguring\<rparr>) s))"

definition expects :: "conn_data \<Rightarrow> reservation \<Rightarrow> bool" where
  "expects d r \<longleftrightarrow> output_assembly r = consuming_point d \<and> input_assembly r = producing_point d \<and>
     (config_assembly r = config_point d \<or>
      config_assembly r = -1 \<and> \<not> ap_HasAny (ConfigPath (conn_path d)))"

definition GetConnection_EO :: "conn_data \<Rightarrow> ConnMgrStatus \<Rightarrow> cm_state \<Rightarrow> found option" where
  "GetConnection_EO d ext s =
    (case List.find (expects d) (s_exclusive_owner s) of
       None \<Rightarrow> Some (None, ext, s)
     | Some r \<Rightarrow>
         map_option (\<lambda>connected.
           if connected \<noteq> None then (None, kConnMgrStatusOwnershipConflict, s)
           else (Some (hd (connection_slots r)), ext, s))
           (GetConnectedOutputAssembly (consuming_point d) s))"

text \<open>The loop of the other two tables, with \<open>output_matches\<close> and \<open>input_matches\<close>.\<close>

fun scan_sets :: "conn_data \<Rightarrow> bool \<Rightarrow> bool \<Rightarrow> reservation list \<Rightarrow> reservation option \<times> bool \<times> bool" where
  "scan_sets d om im [] = (None, om, im)"
| "scan_sets d om im (r # rs) =
    (if output_assembly r = consuming_point d then
       if input_assembly r \<noteq> producing_point d then scan_sets d True im rs
       else if config_assembly r \<noteq> config_point d then scan_sets d True True rs
       else (Some r, True, True)
     else scan_sets d om im rs)"

definition no_match_status :: "bool \<Rightarrow> bool \<Rightarrow> ConnMgrStatus \<Rightarrow> ConnMgrStatus" where
  "no_match_status om im ext =
    (if im then kConnMgrStatusInconsistentApplicationPathCombo
     else if om then kConnMgrStatusInvalidProducingApplicationPath else ext)"

definition alloc_or_full :: "reservation \<Rightarrow> ConnMgrStatus \<Rightarrow> cm_state \<Rightarrow> found" where
  "alloc_or_full r ext s =
    (case Alloc r s of
       (Some c, s) \<Rightarrow> (Some c, ext, s)
     | (None, s) \<Rightarrow> (None, kConnMgrStatusTargetObjectOutOfConnections, s))"

definition GetConnection_IO :: "conn_data \<Rightarrow> ConnMgrStatus \<Rightarrow> cm_state \<Rightarrow> found option" where
  "GetConnection_IO d ext s =
    (case scan_sets d False False (s_input_only s) of
       (Some r, _) \<Rightarrow> Some (alloc_or_full r ext s)
     | (None, om, im) \<Rightarrow> Some (None, no_match_status om im ext, s))"

definition GetConnection_LO :: "conn_data \<Rightarrow> ConnMgrStatus \<Rightarrow> cm_state \<Rightarrow> found option" where
  "GetConnection_LO d ext s =
    (if ConnectionType (producing_ncp d) \<noteq> kIOConnTypeMulticast
     then Some (None, kConnMgrStatusNonListenOnlyConnectionNotOpened, s)
     else
       case scan_sets d False False (s_listen_only s) of
         (Some r, _) \<Rightarrow>
           map_option (\<lambda>producer.
             if producer = None then (None, kConnMgrStatusNonListenOnlyConnectionNotOpened, s)
             else alloc_or_full r ext s)
             (GetExistingProducerMulticastConnection (producing_point d) s)
       | (None, om, im) \<Rightarrow> Some (None, no_match_status om im ext, s))"

definition with_type :: "ConnInstanceType \<Rightarrow> nat \<Rightarrow> ConnMgrStatus \<Rightarrow> cm_state \<Rightarrow> found" where
  "with_type type c ext s = (Some c, ext, conn_upd c (\<lambda>x. x\<lparr>instance_type := type\<rparr>) s)"

definition GetIoConnectionForConnectionData :: "conn_data \<Rightarrow> cm_state \<Rightarrow> found option" where
  "GetIoConnectionForConnectionData d s =
     Option.bind (GetConnection_EO d kConnMgrStatusSuccess s) (\<lambda>(c, ext, s).
     case c of
       Some c \<Rightarrow> Some (with_type kConnInstanceTypeIoExclusiveOwner c ext s)
     | None \<Rightarrow>
         if ext \<noteq> kConnMgrStatusSuccess then Some (None, ext, s)
         else
           Option.bind (GetConnection_IO d ext s) (\<lambda>(c, ext, s).
           case c of
             Some c \<Rightarrow> Some (with_type kConnInstanceTypeIoInputOnly c ext s)
           | None \<Rightarrow>
               if ext \<noteq> kConnMgrStatusSuccess then Some (None, ext, s)
               else
                 Option.bind (GetConnection_LO d ext s) (\<lambda>(c, ext, s).
                 case c of
                   Some c \<Rightarrow> Some (with_type kConnInstanceTypeIoListenOnly c ext s)
                 | None \<Rightarrow>
                     Some (None, if ext = kConnMgrStatusSuccess
                                 then kConnMgrStatusInconsistentApplicationPathCombo else ext, s))))"

text \<open>The pool of explicit connections, in \<open>cip/cipmessagerouter.cc\<close>.\<close>

definition getFreeExplicitConnection :: "cm_state \<Rightarrow> nat option" where
  "getFreeExplicitConnection s =
     List.find (\<lambda>c. state (conns s c) = kConnStateNonExistent) (g_explicit_connections s)"

section \<open>The tables\<close>

definition table_slots :: "reservation list \<Rightarrow> nat list" where
  "table_slots rs = concat (map connection_slots rs)"

definition all_slots :: "cm_state \<Rightarrow> nat list" where
  "all_slots s = table_slots (s_exclusive_owner s) @ table_slots (s_input_only s) @
     table_slots (s_listen_only s) @ g_explicit_connections s"

text \<open>Every object belongs to one entry; the active ones are among them; and the owner connection of an entry
  consumes the output assembly of the entry.\<close>

definition pools_ok :: "cm_state \<Rightarrow> nat list \<Rightarrow> bool" where
  "pools_ok s xs \<longleftrightarrow> distinct (all_slots s) \<and> set xs \<subseteq> set (all_slots s) \<and>
     (\<forall>c \<in> set (all_slots s). c < constructed_count s) \<and>
     (\<forall>r \<in> set (s_exclusive_owner s). \<exists>c. connection_slots r = [c] \<and>
        (c \<in> set xs \<longrightarrow> consuming_point (as_data (conns s c)) = output_assembly r))"

lemma all_slots_settings: "settings s' = settings s \<Longrightarrow> all_slots s' = all_slots s"
  by (simp add: settings_def all_slots_def)

lemma slot_in_table: "r \<in> set rs \<Longrightarrow> c \<in> set (connection_slots r) \<Longrightarrow> c \<in> set (table_slots rs)"
  by (auto simp: table_slots_def)

text \<open>Closing keeps the tables.\<close>

lemma pools_ok_frame:
  assumes "pools_ok s xs" and "frame s s'" and "set xs' \<subseteq> set xs"
  shows "pools_ok s' xs'"
proof -
  have st: "settings s' = settings s" using assms(2) by (simp add: frame_def)
  then have "s_exclusive_owner s' = s_exclusive_owner s" "constructed_count s' = constructed_count s"
    by (simp_all add: settings_def)
  then show ?thesis
    using assms unfolding pools_ok_def all_slots_settings [OF st] frameD [OF assms(2)] by (metis subset_iff)
qed

lemma find_SomeD: "List.find P xs = Some x \<Longrightarrow> x \<in> set xs \<and> P x"
  by (auto simp: find_Some_iff)

lemma scan_sets_Some:
  assumes "scan_sets d om im rs = (Some r, f)"
  shows "r \<in> set rs \<and> output_assembly r = consuming_point d \<and> input_assembly r = producing_point d \<and>
    config_assembly r = config_point d"
  using assms by (induction d om im rs rule: scan_sets.induct) (auto split: if_splits)

lemma scan_sets_None:
  assumes "scan_sets d om im rs = (None, f)" and "r \<in> set rs"
  shows "\<not> (output_assembly r = consuming_point d \<and> input_assembly r = producing_point d \<and>
    config_assembly r = config_point d)"
  using assms by (induction d om im rs rule: scan_sets.induct) (auto split: if_splits)

text \<open>A connection that is handed out, and the change to it.\<close>

definition chosen :: "ConnInstanceType \<Rightarrow> nat \<Rightarrow> cm_state \<Rightarrow> cm_state \<Rightarrow> bool" where
  "chosen type c s s' \<longleftrightarrow> (\<exists>st. st \<noteq> kConnStateEstablished \<and>
     s' = conn_upd c (\<lambda>x. x\<lparr>state := st, instance_type := type\<rparr>) s)"

lemma alloc_or_full_cases:
  assumes inv: "cm_inv s xs" and a: "alloc_or_full r ext s = (c, ext', s')"
  shows "case c of
      None \<Rightarrow> s' = s \<and> ext' = kConnMgrStatusTargetObjectOutOfConnections \<and> set (connection_slots r) \<subseteq> set xs
    | Some k \<Rightarrow> k \<in> set (connection_slots r) \<and> k \<notin> set xs \<and> ext' = ext \<and>
        s' = conn_upd k (\<lambda>x. x\<lparr>state := kConnStateConfiguring\<rparr>) s"
proof (cases "List.find (\<lambda>c. kConnStateNonExistent = state (conns s c)) (connection_slots r)")
  case None
  then have "\<And>c. c \<in> set (connection_slots r) \<Longrightarrow> state (conns s c) \<noteq> kConnStateNonExistent"
    by (auto simp: find_None_iff)
  then have "set (connection_slots r) \<subseteq> set xs" using cm_invD(5) [OF inv] by (metis subsetI)
  then show ?thesis using a None by (auto simp: alloc_or_full_def Alloc_def)
next
  case (Some k)
  then have k: "k \<in> set (connection_slots r)" "state (conns s k) = kConnStateNonExistent"
    using find_SomeD by fastforce+
  then have "k \<notin> set xs" using cm_invD(5) [OF inv, of k] by auto
  moreover have "alloc_or_full r ext s = (Some k, ext, conn_upd k (\<lambda>x. x\<lparr>state := kConnStateConfiguring\<rparr>) s)"
    by (simp add: alloc_or_full_def Alloc_def Some)
  ultimately show ?thesis using a k by auto
qed

text \<open>The connection of an owner's entry is free unless somebody is connected to the output assembly.\<close>

lemma GetConnection_EO_cases:
  assumes inv: "cm_inv s xs" and pools: "pools_ok s xs"
  shows "\<exists>c ext'. GetConnection_EO d ext s = Some (c, ext', s) \<and>
    (case c of
       None \<Rightarrow> (ext' = ext \<and> (\<forall>r \<in> set (s_exclusive_owner s). \<not> expects d r)) \<or>
               (ext' = kConnMgrStatusOwnershipConflict \<and>
                (\<exists>x \<in> set xs. consuming_point (as_data (conns s x)) = consuming_point d))
     | Some k \<Rightarrow> ext' = ext \<and> k \<notin> set xs \<and>
         (\<exists>r \<in> set (s_exclusive_owner s). expects d r \<and> connection_slots r = [k]) \<and>
         (\<forall>x \<in> set xs. consuming_point (as_data (conns s x)) \<noteq> consuming_point d))"
proof (cases "List.find (expects d) (s_exclusive_owner s)")
  case None
  then have "\<forall>r \<in> set (s_exclusive_owner s). \<not> expects d r" by (auto simp: find_None_iff)
  then show ?thesis using None by (simp add: GetConnection_EO_def)
next
  case (Some r)
  then have r: "r \<in> set (s_exclusive_owner s)" "expects d r" using find_SomeD by fastforce+
  obtain k where k: "connection_slots r = [k]"
      "k \<in> set xs \<Longrightarrow> consuming_point (as_data (conns s k)) = output_assembly r"
    using pools r(1) unfolding pools_ok_def by blast
  have out: "output_assembly r = consuming_point d" using r(2) by (simp add: expects_def)
  have est: "established (conns s x) \<longleftrightarrow> x \<in> set xs" for x
    using cm_invD(5) [OF inv, of x] by (auto simp: established_def)
  have f: "GetConnectedOutputAssembly (consuming_point d) s =
      Some (List.find (\<lambda>x. established (conns s x) \<and> consuming_point (as_data (conns s x)) = consuming_point d) xs)"
    unfolding GetConnectedOutputAssembly_def by (rule find_active_find [OF cm_invD(3) [OF inv]])
  show ?thesis
  proof (cases "List.find (\<lambda>x. established (conns s x) \<and>
      consuming_point (as_data (conns s x)) = consuming_point d) xs")
    case None
    then have "consuming_point (as_data (conns s x)) \<noteq> consuming_point d" if "x \<in> set xs" for x
      using that est by (auto simp: find_None_iff)
    then show ?thesis using Some f None k out r by (auto simp: GetConnection_EO_def)
  next
    case (Some y)
    then show ?thesis using \<open>List.find (expects d) (s_exclusive_owner s) = Some r\<close> f find_SomeD [OF Some]
      by (auto simp: GetConnection_EO_def)
  qed
qed

lemma producer_exists:
  assumes inv: "cm_inv s xs"
  shows "GetExistingProducerMulticastConnection point s =
    Some (List.find (\<lambda>x. multicast_producer point (conns s x) \<and> producing_socket (conns s x) \<noteq> None) xs)"
  unfolding GetExistingProducerMulticastConnection_def by (rule find_active_find [OF cm_invD(3) [OF inv]])

text \<open>What a request is answered with: a connection that is not in use, or a reason.\<close>

definition granted :: "conn_data \<Rightarrow> cm_state \<Rightarrow> nat list \<Rightarrow> ConnInstanceType \<Rightarrow> nat \<Rightarrow> bool" where
  "granted d s xs type k \<longleftrightarrow>
    (case type of
       kConnInstanceTypeExplicit \<Rightarrow> False
     | kConnInstanceTypeIoExclusiveOwner \<Rightarrow>
         (\<exists>r \<in> set (s_exclusive_owner s). expects d r \<and> connection_slots r = [k]) \<and>
         (\<forall>x \<in> set xs. consuming_point (as_data (conns s x)) \<noteq> consuming_point d)
     | kConnInstanceTypeIoInputOnly \<Rightarrow> k \<in> set (table_slots (s_input_only s))
     | kConnInstanceTypeIoListenOnly \<Rightarrow> k \<in> set (table_slots (s_listen_only s)) \<and>
         ConnectionType (producing_ncp d) = kIOConnTypeMulticast \<and>
         (\<exists>e \<in> set xs. multicast_producer (producing_point d) (conns s e)))"

definition found_ok :: "conn_data \<Rightarrow> cm_state \<Rightarrow> nat list \<Rightarrow> ConnInstanceType \<Rightarrow> found \<Rightarrow> bool" where
  "found_ok d s xs type f \<longleftrightarrow>
    (case f of
       (None, ext, s') \<Rightarrow> s' = s
     | (Some k, ext, s') \<Rightarrow> ext = kConnMgrStatusSuccess \<and> k \<notin> set xs \<and> granted d s xs type k \<and>
         (\<exists>st. st \<noteq> kConnStateEstablished \<and> s' = conn_upd k (\<lambda>x. x\<lparr>state := st\<rparr>) s))"

lemma conn_upd_same: "conn_upd k (\<lambda>x. x\<lparr>state := state (conns s k)\<rparr>) s = s"
  by (simp add: conn_upd_def)

lemma conn_upd_id: "s = conn_upd k (\<lambda>x. x\<lparr>state := state (conns s k)\<rparr>) (s :: cm_state)"
  by (simp add: conn_upd_def)

lemma GetConnection_EO_ok:
  assumes inv: "cm_inv s xs" and pools: "pools_ok s xs"
  shows "\<exists>f. GetConnection_EO d kConnMgrStatusSuccess s = Some f \<and>
    found_ok d s xs kConnInstanceTypeIoExclusiveOwner f"
proof -
  obtain c ext' where f: "GetConnection_EO d kConnMgrStatusSuccess s = Some (c, ext', s)"
    "case c of None \<Rightarrow> True | Some k \<Rightarrow> ext' = kConnMgrStatusSuccess \<and> k \<notin> set xs \<and>
         (\<exists>r \<in> set (s_exclusive_owner s). expects d r \<and> connection_slots r = [k]) \<and>
         (\<forall>x \<in> set xs. consuming_point (as_data (conns s x)) \<noteq> consuming_point d)"
    using GetConnection_EO_cases [OF assms, of d kConnMgrStatusSuccess] by (auto split: option.splits)
  have "state (conns s k) \<noteq> kConnStateEstablished" if "k \<notin> set xs" for k
    using cm_invD(5) [OF inv, of k] that by simp
  then show ?thesis using f conn_upd_id by (fastforce simp: found_ok_def granted_def split: option.splits)
qed

lemma alloc_found_ok:
  assumes inv: "cm_inv s xs" and g: "\<And>k. k \<in> set (connection_slots r) \<Longrightarrow> granted d s xs type k"
  shows "found_ok d s xs type (alloc_or_full r kConnMgrStatusSuccess s)"
proof -
  obtain c ext s' where f: "alloc_or_full r kConnMgrStatusSuccess s = (c, ext, s')" using prod_cases3 by blast
  show ?thesis using alloc_or_full_cases [OF inv f] g unfolding f found_ok_def by (auto split: option.splits)
qed

lemma GetConnection_IO_ok:
  assumes inv: "cm_inv s xs"
  shows "\<exists>f. GetConnection_IO d kConnMgrStatusSuccess s = Some f \<and> found_ok d s xs kConnInstanceTypeIoInputOnly f"
proof -
  obtain ro om im where sc: "scan_sets d False False (s_input_only s) = (ro, om, im)" using prod_cases3 by blast
  show ?thesis
  proof (cases ro)
    case None then show ?thesis using sc by (simp add: GetConnection_IO_def found_ok_def)
  next
    case (Some r)
    have "found_ok d s xs kConnInstanceTypeIoInputOnly (alloc_or_full r kConnMgrStatusSuccess s)"
      by (rule alloc_found_ok [OF inv])
        (use scan_sets_Some [OF sc [unfolded Some]] slot_in_table in \<open>auto simp: granted_def\<close>)
    then show ?thesis using sc Some by (simp add: GetConnection_IO_def)
  qed
qed

lemma GetConnection_LO_ok:
  assumes inv: "cm_inv s xs"
  shows "\<exists>f. GetConnection_LO d kConnMgrStatusSuccess s = Some f \<and> found_ok d s xs kConnInstanceTypeIoListenOnly f"
proof (cases "ConnectionType (producing_ncp d) = kIOConnTypeMulticast")
  case False then show ?thesis by (simp add: GetConnection_LO_def found_ok_def)
next
  case mc: True
  obtain ro om im where sc: "scan_sets d False False (s_listen_only s) = (ro, om, im)" using prod_cases3 by blast
  show ?thesis
  proof (cases ro)
    case None then show ?thesis using sc mc by (simp add: GetConnection_LO_def found_ok_def)
  next
    case (Some r)
    obtain p where p: "GetExistingProducerMulticastConnection (producing_point d) s = Some p"
      "\<And>e. p = Some e \<Longrightarrow> e \<in> set xs \<and> multicast_producer (producing_point d) (conns s e)"
      using producer_exists [OF inv, of "producing_point d"] find_SomeD by fastforce
    show ?thesis
    proof (cases p)
      case None then show ?thesis using sc mc Some p by (simp add: GetConnection_LO_def found_ok_def)
    next
      case (Some e)
      have "found_ok d s xs kConnInstanceTypeIoListenOnly (alloc_or_full r kConnMgrStatusSuccess s)"
        by (rule alloc_found_ok [OF inv])
          (use scan_sets_Some [OF sc [unfolded \<open>ro = Some r\<close>]] slot_in_table mc p(2) [OF Some] in
            \<open>auto simp: granted_def\<close>)
      then show ?thesis using sc mc \<open>ro = Some r\<close> p Some by (simp add: GetConnection_LO_def)
    qed
  qed
qed

text \<open>What a request is answered with: a connection that is not in use, or a reason.\<close>

lemma found_ok_with_type:
  assumes "found_ok d s xs type (Some k, ext, s')"
  shows "\<exists>s''. with_type type k ext s' = (Some k, kConnMgrStatusSuccess, s'') \<and> chosen type k s s'' \<and>
    k \<notin> set xs \<and> granted d s xs type k"
proof -
  obtain st where "st \<noteq> kConnStateEstablished" "s' = conn_upd k (\<lambda>x. x\<lparr>state := st\<rparr>) s"
    "ext = kConnMgrStatusSuccess" "k \<notin> set xs" "granted d s xs type k"
    using assms by (auto simp: found_ok_def)
  then show ?thesis by (auto simp: with_type_def chosen_def conn_upd_def)
qed

lemma GetIoConnection_ok:
  assumes inv: "cm_inv s xs" and pools: "pools_ok s xs"
  shows "\<exists>c ext s'. GetIoConnectionForConnectionData d s = Some (c, ext, s') \<and>
    (case c of
       None \<Rightarrow> s' = s \<and> ext \<noteq> kConnMgrStatusSuccess
     | Some k \<Rightarrow> ext = kConnMgrStatusSuccess \<and> k \<notin> set xs \<and>
         (\<exists>type. chosen type k s s' \<and> granted d s xs type k))"
proof -
  obtain c1 e1 s1 where 1: "GetConnection_EO d kConnMgrStatusSuccess s = Some (c1, e1, s1)"
    "found_ok d s xs kConnInstanceTypeIoExclusiveOwner (c1, e1, s1)"
    using GetConnection_EO_ok [OF assms] by (metis prod_cases3)
  obtain c2 e2 s2 where 2: "GetConnection_IO d kConnMgrStatusSuccess s = Some (c2, e2, s2)"
    "found_ok d s xs kConnInstanceTypeIoInputOnly (c2, e2, s2)"
    using GetConnection_IO_ok [OF inv] by (metis prod_cases3)
  obtain c3 e3 s3 where 3: "GetConnection_LO d kConnMgrStatusSuccess s = Some (c3, e3, s3)"
    "found_ok d s xs kConnInstanceTypeIoListenOnly (c3, e3, s3)"
    using GetConnection_LO_ok [OF inv] by (metis prod_cases3)
  note defs = GetIoConnectionForConnectionData_def 1(1)
  show ?thesis
  proof (cases c1)
    case (Some k)
    then show ?thesis using found_ok_with_type 1(2) by (fastforce simp: defs)
  next
    case n1: None
    then have s1: "s1 = s" using 1(2) by (simp add: found_ok_def)
    show ?thesis
    proof (cases "e1 = kConnMgrStatusSuccess")
      case False then show ?thesis using n1 s1 by (simp add: defs)
    next
      case e1: True
      show ?thesis
      proof (cases c2)
        case (Some k)
        then show ?thesis using found_ok_with_type 2 n1 e1 s1 by (fastforce simp: defs)
      next
        case n2: None
        then have s2: "s2 = s" using 2(2) by (simp add: found_ok_def)
        show ?thesis
        proof (cases "e2 = kConnMgrStatusSuccess")
          case False then show ?thesis using n1 s1 e1 n2 s2 2(1) by (simp add: defs)
        next
          case e2: True
          show ?thesis
          proof (cases c3)
            case (Some k)
            then show ?thesis using found_ok_with_type 3 2(1) n1 e1 s1 n2 e2 s2 by (fastforce simp: defs)
          next
            case None
            then show ?thesis using 3 2(1) n1 e1 s1 n2 e2 s2 by (simp add: defs found_ok_def)
          qed
        qed
      qed
    qed
  qed
qed

end
