(* ===== verification/Conn_Open.thy ===== *)
theory Conn_Open
  imports App_Con Cpf
begin

text \<open>
  How connections begin: \<open>AssemblyInstance::RecvData\<close> of \<open>cip/cipassembly.cc\<close>, \<open>handleConfigData\<close>, the opening of
  sockets, \<open>Activate\<close> and \<open>OpenIO\<close> of \<open>cip/cipconnection.cc\<close>, the \<open>OpenConnection\<close> of the message router in
  \<open>cip/cipmessagerouter.cc\<close>, and the services \<open>forward_open\<close> and \<open>forward_close\<close> of
  \<open>cip/cipconnectionmanager.cc\<close>.

  \<open>None\<close> is the outcome of a call that does not return or that leaves the language: a null pointer that is
  dereferenced, or an instance of another class that is written to as an assembly.
\<close>

section \<open>Assembly data\<close>

definition assembly_of :: "inst option \<Rightarrow> int option" where
  "assembly_of i = (case i of Some (cls, k) \<Rightarrow> if cls = kCipAssembly then Some k else None | None \<Rightarrow> None)"

definition SizeBytes :: "conn_env \<Rightarrow> cm_state \<Rightarrow> inst \<Rightarrow> nat" where
  "SizeBytes env s i =
     (case assembly_of (Some i) of Some k \<Rightarrow> length (byte_array (assemblies s k)) | None \<Rightarrow> foreign_size env i)"

definition set_bytes :: "int \<Rightarrow> byte list \<Rightarrow> cm_state \<Rightarrow> cm_state" where
  "set_bytes k bs s = s\<lparr>assemblies := (assemblies s)(k := (assemblies s k)\<lparr>byte_array := bs\<rparr>)\<rparr>"

text \<open>\<open>True\<close> is \<open>kEipStatusOk\<close>.\<close>

definition RecvData :: "conn_env \<Rightarrow> cip_conn \<Rightarrow> int \<Rightarrow> byte list \<Rightarrow> cm_state \<Rightarrow> bool \<times> cm_state" where
  "RecvData env conn k data s =
    (let old = byte_array (assemblies s k); fixed = IsFixed (consuming_ncp conn)
     in if fixed \<and> length old \<noteq> length data \<or> \<not> fixed \<and> length old < length data then (False, s)
        else
          let s = set_bytes k (data @ drop (length data) old) s;
              mode = Mode (consuming_header conn)
          in (AfterAssemblyDataReceived env k mode (byte_array (assemblies s k)) (length data),
              log_event (AssemblyData k mode (length data)) s))"

text \<open>The words of the data segment as they lie in memory.\<close>

definition config_bytes :: "cip_conn \<Rightarrow> byte list" where
  "config_bytes conn = concat (map le16 (ds_words (data_seg (conn_path conn))))"

definition handleConfigData :: "conn_env \<Rightarrow> nat \<Rightarrow> cm_state \<Rightarrow> (ConnMgrStatus \<times> cm_state) option" where
  "handleConfigData env c s =
    (let conn = conns s c
     in Option.bind (assembly_of (config_instance conn)) (\<lambda>k.
        Option.bind (ConnectionWithSameConfigPointExists (config_point (as_data conn)) s) (\<lambda>exists.
        if exists then
          Some (if byte_array (assemblies s k) \<noteq> config_bytes conn then kConnMgrStatusOwnershipConflict
                else kConnMgrStatusSuccess, s)
        else
          let (ok, s) = RecvData env conn k (config_bytes conn) s
          in Some (if ok then kConnMgrStatusSuccess else kConnMgrStatusInvalidConfigurationApplicationPath, s))))"

section \<open>Communication channels\<close>

type_synonym opened = "CipError \<times> ConnMgrStatus \<times> cpf \<times> cm_state"

definition any_address :: "u32 \<Rightarrow> sock_addr" where
  "any_address port = SockAddr port 0"

definition grab :: "conn_env \<Rightarrow> sock_addr \<Rightarrow> sock_addr option \<Rightarrow> cm_state \<Rightarrow> nat option \<times> cm_state" where
  "grab env a multicast s =
    (let (k, m) = GrabSocket (env_os env) a multicast (udp s) in (k, s\<lparr>udp := m\<rparr>))"

definition no_socket :: "cpf \<Rightarrow> cm_state \<Rightarrow> opened" where
  "no_socket cpf s = (kCipErrorConnectionFailure, kConnMgrStatusTargetObjectOutOfConnections, cpf, s)"

definition openConsumingPointToPointConnection ::
    "conn_env \<Rightarrow> nat \<Rightarrow> cpf \<Rightarrow> ConnMgrStatus \<Rightarrow> cm_state \<Rightarrow> opened" where
  "openConsumingPointToPointConnection env c cpf ext s =
    (let peers_destination = any_address (g_my_io_udp_port env)
     in case grab env peers_destination None s of
          (None, s) \<Rightarrow> no_socket cpf s
        | (Some k, s) \<Rightarrow>
            let cpf = (if g_my_io_udp_port env \<noteq> kEIP_IoUdpPort \<or> kCIPsterFanucScanner env
                       then AddTx kCpfIdSockAddrInfo_O_T peers_destination cpf else cpf)
            in (kCipErrorSuccess, ext, cpf,
                conn_upd c (\<lambda>x. x\<lparr>consuming_socket := Some k,
                  recv_address := SockAddr (g_my_io_udp_port env) (Addr (tcp_peer cpf))\<rparr>) s))"

definition openProducingPointToPointConnection ::
    "conn_env \<Rightarrow> nat \<Rightarrow> cpf \<Rightarrow> ConnMgrStatus \<Rightarrow> cm_state \<Rightarrow> opened" where
  "openProducingPointToPointConnection env c cpf ext s =
    (let destination_port = (case SaiiRx kCpfIdSockAddrInfo_T_O cpf of
                               Some saii \<Rightarrow> Port saii | None \<Rightarrow> kEIP_IoUdpPort);
         destination = SockAddr destination_port (Addr (tcp_peer cpf))
     in case grab env (any_address (g_my_io_udp_port env)) None s of
          (None, s) \<Rightarrow> no_socket cpf s
        | (Some k, s) \<Rightarrow>
            (kCipErrorSuccess, ext, cpf,
             conn_upd c (\<lambda>x. x\<lparr>producing_socket := Some k, send_address := destination\<rparr>) s))"

definition bad_saii :: "cpf \<Rightarrow> cm_state \<Rightarrow> opened" where
  "bad_saii cpf s =
     (kCipErrorConnectionFailure, kConnMgrStatusParameterErrorInUnconnectedSendService, cpf, s)"

text \<open>\<open>openMulticastConnection\<close> in its two directions.\<close>

definition open_consuming_multicast ::
    "conn_env \<Rightarrow> nat \<Rightarrow> cpf \<Rightarrow> ConnMgrStatus \<Rightarrow> cm_state \<Rightarrow> opened" where
  "open_consuming_multicast env c cpf ext s =
    (case SaiiRx kCpfIdSockAddrInfo_T_O cpf of
       None \<Rightarrow> bad_saii cpf s
     | Some remotes_destination \<Rightarrow>
         if Family remotes_destination \<noteq> ucast AF_INET then bad_saii cpf s
         else if \<not> IsMulticast remotes_destination then bad_saii cpf s
         else
           case grab env (any_address kEIP_IoUdpPort) (Some (SetPort kEIP_IoUdpPort remotes_destination)) s of
             (None, s) \<Rightarrow> no_socket cpf s
           | (Some k, s) \<Rightarrow>
               (kCipErrorSuccess, ext, cpf,
                conn_upd c (\<lambda>x. x\<lparr>consuming_socket := Some k,
                  recv_address := SockAddr kEIP_IoUdpPort (Addr (tcp_peer cpf))\<rparr>) s))"

definition multicast_destination :: "conn_env \<Rightarrow> sock_addr" where
  "multicast_destination env = SockAddr kEIP_IoUdpPort (starting_multicast_address env)"

definition open_producing_multicast ::
    "conn_env \<Rightarrow> nat \<Rightarrow> cpf \<Rightarrow> ConnMgrStatus \<Rightarrow> cm_state \<Rightarrow> opened" where
  "open_producing_multicast env c cpf ext s =
    (case grab env (any_address (g_my_io_udp_port env)) None s of
       (None, s) \<Rightarrow> no_socket cpf s
     | (Some k, s) \<Rightarrow>
         (kCipErrorSuccess, ext, AddTx kCpfIdSockAddrInfo_T_O (multicast_destination env) cpf,
          conn_upd c (\<lambda>x. x\<lparr>producing_socket := Some k, send_address := multicast_destination env\<rparr>) s))"

text \<open>The second and later producers of an input assembly share the socket; an owner takes it.\<close>

definition share_producer :: "conn_env \<Rightarrow> nat \<Rightarrow> nat \<Rightarrow> cm_state \<Rightarrow> cm_state" where
  "share_producer env c existing s =
    (let s = conn_upd c (\<lambda>x. x\<lparr>producing_connection_id := producing_connection_id (conns s existing)\<rparr>) s;
         s = (if kConnInstanceTypeIoExclusiveOwner = instance_type (conns s c)
              then conn_upd existing (\<lambda>x. x\<lparr>producing_socket := None\<rparr>)
                     (conn_upd c (\<lambda>x. x\<lparr>producing_socket := producing_socket (conns s existing)\<rparr>) s)
              else conn_upd c (\<lambda>x. x\<lparr>producing_socket := None\<rparr>) s)
     in conn_upd c (\<lambda>x. x\<lparr>send_address := multicast_destination env\<rparr>) s)"

definition openProducingMulticastConnection ::
    "conn_env \<Rightarrow> nat \<Rightarrow> cpf \<Rightarrow> ConnMgrStatus \<Rightarrow> cm_state \<Rightarrow> opened option" where
  "openProducingMulticastConnection env c cpf ext s =
     map_option (\<lambda>existing.
       case existing of
         None \<Rightarrow> open_producing_multicast env c cpf ext s
       | Some e \<Rightarrow>
           (kCipErrorSuccess, ext, AddTx kCpfIdSockAddrInfo_T_O (multicast_destination env) cpf,
            share_producer env c e s))
       (GetExistingProducerMulticastConnection (producing_point (as_data (conns s c))) s)"

definition open_consuming_end :: "conn_env \<Rightarrow> nat \<Rightarrow> cpf \<Rightarrow> ConnMgrStatus \<Rightarrow> cm_state \<Rightarrow> opened" where
  "open_consuming_end env c cpf ext s =
    (let type = ConnectionType (consuming_ncp (conns s c))
     in if type = kIOConnTypeMulticast then open_consuming_multicast env c cpf ext s
        else if type = kIOConnTypePointToPoint then openConsumingPointToPointConnection env c cpf ext s
        else (kCipErrorSuccess, ext, cpf, s))"

definition open_producing_end :: "conn_env \<Rightarrow> nat \<Rightarrow> cpf \<Rightarrow> ConnMgrStatus \<Rightarrow> cm_state \<Rightarrow> opened option" where
  "open_producing_end env c cpf ext s =
    (let type = ConnectionType (producing_ncp (conns s c))
     in if type = kIOConnTypeMulticast then openProducingMulticastConnection env c cpf ext s
        else if type = kIOConnTypePointToPoint then Some (openProducingPointToPointConnection env c cpf ext s)
        else Some (kCipErrorSuccess, ext, cpf, s))"

definition openCommunicationChannels ::
    "conn_env \<Rightarrow> nat \<Rightarrow> cpf \<Rightarrow> ConnMgrStatus \<Rightarrow> cm_state \<Rightarrow> opened option" where
  "openCommunicationChannels env c cpf ext s =
    (case open_consuming_end env c cpf ext s of
       (result, ext, cpf, s) \<Rightarrow>
         if result \<noteq> kCipErrorSuccess then Some (result, ext, cpf, s)
         else open_producing_end env c cpf ext s)"

section \<open>Activation\<close>

definition clear_conn :: "conn_env \<Rightarrow> nat \<Rightarrow> cm_state \<Rightarrow> cm_state" where
  "clear_conn env c s = conn_upd c (Conn_Clear (env_conf env) (CurrentUSecs32 s) False) s"

text \<open>After a failure the sockets that were opened are released; \<open>Clear\<close> forgets them.\<close>

definition release_both :: "nat \<Rightarrow> cm_state \<Rightarrow> cm_state" where
  "release_both c s =
    (let s = (case consuming_socket (conns s c) of None \<Rightarrow> s | Some k \<Rightarrow> release k s)
     in case producing_socket (conns s c) of None \<Rightarrow> s | Some k \<Rightarrow> release k s)"

definition activate_channels ::
    "conn_env \<Rightarrow> nat \<Rightarrow> cpf \<Rightarrow> ConnMgrStatus \<Rightarrow> cm_state \<Rightarrow> opened option" where
  "activate_channels env c cpf ext s =
    (let s = conn_upd c (\<lambda>x. x\<lparr>encap_session := session_handle cpf\<rparr>) s
     in map_option (\<lambda>(result, ext, cpf, s).
          if result \<noteq> kCipErrorSuccess then (result, ext, cpf, clear_conn env c (release_both c s))
          else
            let s = snd (Insert c s);
                s = conn_upd c (\<lambda>x. x\<lparr>state := kConnStateEstablished\<rparr>) s
            in (result, ext, cpf, NotifyIoConnectionEvent c kIoConnectionEventOpened s))
          (openCommunicationChannels env c cpf ext s))"

definition Activate :: "conn_env \<Rightarrow> nat \<Rightarrow> cpf \<Rightarrow> ConnMgrStatus \<Rightarrow> cm_state \<Rightarrow> opened option" where
  "Activate env c cpf ext s =
    (let cp = conn_path (conns s c)
     in if ap_HasAny (ConfigPath cp) \<and> ds_HasAny (data_seg cp) then
          Option.bind (handleConfigData env c s) (\<lambda>(ext, s).
          if kConnMgrStatusSuccess \<noteq> ext
          then Some (kCipErrorConnectionFailure, ext, cpf, clear_conn env c s)
          else activate_channels env c cpf ext s)
        else activate_channels env c cpf ext s)"

section \<open>Opening\<close>

type_synonym open_result = "CipError \<times> ConnMgrStatus \<times> conn_data \<times> cpf \<times> cm_state"

text \<open>\<open>c->GeneralConfiguration( aConnData, type )\<close>.\<close>

definition configure :: "conn_env \<Rightarrow> ConnInstanceType \<Rightarrow> conn_data \<Rightarrow> nat \<Rightarrow> cm_state \<Rightarrow> conn_data \<times> cm_state" where
  "configure env type d c s =
    (let (g, d, x) = GeneralConfiguration (env_conf env) (CurrentUSecs32 s) type (ids s) d (conns s c)
     in (d, conn_upd c (\<lambda>_. x) (s\<lparr>ids := g\<rparr>)))"

definition OpenIO :: "conn_env \<Rightarrow> conn_data \<Rightarrow> cpf \<Rightarrow> ConnMgrStatus \<Rightarrow> cm_state \<Rightarrow> open_result option" where
  "OpenIO env d cpf ext s =
    (case VerifyForwardOpenParams ext d of
       (gen, ext, d) \<Rightarrow>
         if gen \<noteq> kCipErrorSuccess then Some (gen, ext, d, cpf, s)
         else
           case CorrectSizes (SizeBytes env s) ext d of
             Inl _ \<Rightarrow> None
           | Inr (gen, ext, d) \<Rightarrow>
               if gen \<noteq> kCipErrorSuccess then Some (gen, ext, d, cpf, s)
               else
                 Option.bind (GetIoConnectionForConnectionData d s) (\<lambda>(c, ext, s).
                 case c of
                   None \<Rightarrow> Some (kCipErrorConnectionFailure, ext, d, cpf, s)
                 | Some c \<Rightarrow>
                     let (d, s) = configure env (instance_type (conns s c)) d c s
                     in map_option (\<lambda>(gen, ext, cpf, s).
                          (gen, ext, d, cpf,
                           if gen = kCipErrorSuccess
                           then conn_upd c (\<lambda>x. x\<lparr>openers_address := tcp_peer cpf\<rparr>) s else s))
                          (Activate env c cpf ext s)))"

text \<open>\<open>CipMessageRouterClass::OpenConnection\<close>.\<close>

definition open_explicit :: "conn_env \<Rightarrow> conn_data \<Rightarrow> cpf \<Rightarrow> ConnMgrStatus \<Rightarrow> cm_state \<Rightarrow> open_result" where
  "open_explicit env d cpf ext s =
    (case getFreeExplicitConnection s of
       None \<Rightarrow> (kCipErrorConnectionFailure, kConnMgrStatusNoMoreConnectionsAvailable, d, cpf, s)
     | Some c \<Rightarrow>
         let (d, s) = configure env kConnInstanceTypeExplicit d c s;
             s = conn_upd c (\<lambda>x. x\<lparr>openers_address := tcp_peer cpf, encap_session := session_handle cpf\<rparr>) s;
             s = snd (Insert c s)
         in (kCipErrorSuccess, ext, d, cpf, conn_upd c (\<lambda>x. x\<lparr>state := kConnStateEstablished\<rparr>) s))"

text \<open>The virtual \<open>OpenConnection\<close> of the class that manages the connection.\<close>

definition OpenConnection :: "conn_env \<Rightarrow> conn_data \<Rightarrow> cpf \<Rightarrow> ConnMgrStatus \<Rightarrow> cm_state \<Rightarrow> open_result option" where
  "OpenConnection env d cpf ext s =
    (case FindClass (mgmnt_class d) (registered env) of
       None \<Rightarrow> None
     | Some cls \<Rightarrow>
         if class_id cls = kCipAssembly then OpenIO env d cpf ext s
         else if class_id cls = kCipMessageRouterClass then Some (open_explicit env d cpf ext s)
         else Some (kCipErrorConnectionFailure, kConnMgrStatusInconsistentApplicationPathCombo, d, cpf, s))"

end
