(* ===== verification/Fwd_Open.thy ===== *)
theory Fwd_Open
  imports Conn_Open
begin

text \<open>
  The services of the connection manager object, \<open>forward_open_service\<close>, \<open>large_forward_open_service\<close> and
  \<open>forward_close_service\<close> of \<open>cip/cipconnectionmanager.cc\<close>: the checks of a request in the order of the code, the
  opening or closing of a connection, and the reply.

  The outcome of a service is the status it returns, or the exception that leaves it when the reply does not
  fit, with the response, the common packet and the state. \<open>vet_open\<close> is the part of \<open>forward_open\<close> between the parsed
  parameters and the connection path.
\<close>

section \<open>Forward open\<close>

type_synonym serviced = "EipStatus res \<times> mr_response \<times> cpf \<times> cm_state"

text \<open>The next faster multiple of the timer tick; \<open>None\<close> when that is zero.\<close>

definition faster_multiple :: "u32 \<Rightarrow> u32 \<Rightarrow> u32 option" where
  "faster_multiple tick rpi =
    (if rpi mod tick \<noteq> 0 then let api = (rpi div tick) * tick in if api = 0 then None else Some api
     else Some rpi)"

text \<open>The checks before the path: the status of the reply, or the parameters with the adjusted intervals.\<close>

definition vet_open ::
    "conn_env \<Rightarrow> nat option \<Rightarrow> nat \<Rightarrow> byte list \<Rightarrow> conn_data \<Rightarrow> (CipError \<times> ConnMgrStatus) + conn_data" where
  "vet_open env existing conn_path_byte_count inp d =
    (let fail = (\<lambda>ext. Inl (kCipErrorConnectionFailure, ext)); tick = timer_tick_usecs (env_conf env)
     in if existing \<noteq> None then fail kConnMgrStatusConnectionInUse
        else if timeout_multiplier_value d > 7 then fail kConnMgrStatusConnectionTimeoutMultiplierNotAcceptable
        else if ConnectionType (consuming_ncp d) = kIOConnTypeInvalid
        then fail kConnMgrStatusInvalidOToTConnectionType
        else if ConnectionType (producing_ncp d) = kIOConnTypeInvalid
        then fail kConnMgrStatusInvalidTToOConnectionType
        else if 0x4c AND trigger d \<noteq> 0 then fail kConnMgrStatusTransportTriggerNotSupported
        else
          case faster_multiple tick (consuming_RPI_usecs d) of
            None \<Rightarrow> fail kConnMgrStatusRPINotSupported
          | Some consuming_API \<Rightarrow>
              case faster_multiple tick (producing_RPI_usecs d) of
                None \<Rightarrow> fail kConnMgrStatusRPINotSupported
              | Some producing_API \<Rightarrow>
                  if conn_path_byte_count < length inp then Inl (kCipErrorTooMuchData, kConnMgrStatusSuccess)
                  else if conn_path_byte_count > length inp
                  then Inl (kCipErrorNotEnoughData, kConnMgrStatusSuccess)
                  else Inr (d\<lparr>consuming_RPI_usecs := consuming_API, producing_RPI_usecs := producing_API\<rparr>))"

definition put_open_reply ::
    "CipError \<Rightarrow> u32 \<Rightarrow> u32 \<Rightarrow> conn_data \<Rightarrow> writer \<Rightarrow> writer res" where
  "put_open_reply gen consuming_API producing_API d out =
     bindE (if gen = kCipErrorSuccess
            then bindE (put32 out (consuming_connection_id d)) (\<lambda>w. put32 w (producing_connection_id d))
            else Inr out) (\<lambda>w.
     bindE (put16 w (connection_serial_number d)) (\<lambda>w.
     bindE (put16 w (originator_vendor_id d)) (\<lambda>w.
     bindE (put32 w (originator_serial_number d)) (\<lambda>w.
     bindE (if gen = kCipErrorSuccess
            then bindE (put32 w consuming_API) (\<lambda>w. bindE (put32 w producing_API) (\<lambda>w. put8 w 0))
            else put8 w 0) (\<lambda>w.
     put8 w 0)))))"

definition open_status :: "CipError \<Rightarrow> ConnMgrStatus \<Rightarrow> conn_data \<Rightarrow> mr_response \<Rightarrow> mr_response" where
  "open_status gen ext d r =
    (if gen = kCipErrorSuccess then r
     else
       let r = SetGenStatus gen r
       in if gen = kCipErrorNotEnoughData \<or> gen = kCipErrorTooMuchData then r
          else if ext = kConnMgrStatusInvalidOToTConnectionSize
          then AddAdditionalSts (corrected_consuming_size d) (AddAdditionalSts (conn_status_code ext) r)
          else if ext = kConnMgrStatusInvalidTToOConnectionSize
          then AddAdditionalSts (corrected_producing_size d) (AddAdditionalSts (conn_status_code ext) r)
          else AddAdditionalSts (conn_status_code ext) r)"

text \<open>What the writer wrote is announced by \<open>SetWrittenSize\<close>.\<close>

definition finish_reply :: "(writer \<Rightarrow> writer res) \<Rightarrow> mr_response \<Rightarrow> cpf \<Rightarrow> cm_state \<Rightarrow> serviced" where
  "finish_reply put r cpf s =
    (case put (mr_writer r) of
       Inl e \<Rightarrow> (Inl e, r, cpf, s)
     | Inr w \<Rightarrow> (Inr kEipStatusOkSend, (wrote w r)\<lparr>written_size := w_count (mr_writer r) w\<rparr>, cpf, s))"

text \<open>The intervals in the reply are those of the parameters when the path was reached.\<close>

definition open_reply ::
    "CipError \<Rightarrow> ConnMgrStatus \<Rightarrow> conn_data \<Rightarrow> mr_response \<Rightarrow> cpf \<Rightarrow> cm_state \<Rightarrow> serviced" where
  "open_reply gen ext d r cpf s =
     finish_reply (put_open_reply gen (consuming_RPI_usecs d) (producing_RPI_usecs d) d)
       (open_status gen ext d r) cpf s"

definition check_open_key :: "conn_env \<Rightarrow> conn_data \<Rightarrow> ConnMgrStatus" where
  "check_open_key env d =
    (let ps = port_segs (conn_path d)
     in if pg_has KEY ps then Key_Check (this_device env) (pg_key ps) else kConnMgrStatusSuccess)"

text \<open>From the connection path on.\<close>

definition open_at_path ::
    "conn_env \<Rightarrow> byte list \<Rightarrow> conn_data \<Rightarrow> mr_response \<Rightarrow> cpf \<Rightarrow> cm_state \<Rightarrow> serviced option" where
  "open_at_path env inp d r cpf s =
    (case DeserializeConnectionPath d inp of
       Inl e \<Rightarrow> if e = Undefined then None
                else Some (open_reply kCipErrorConnectionFailure kConnMgrStatusSuccess d r cpf s)
     | Inr d \<Rightarrow>
         if check_open_key env d \<noteq> kConnMgrStatusSuccess
         then Some (open_reply kCipErrorConnectionFailure (check_open_key env d) d r cpf s)
         else
           case ResolveInstances (registered env) kConnMgrStatusSuccess d of
             (gen, ext, d) \<Rightarrow>
               if gen \<noteq> kCipErrorSuccess then Some (open_reply gen ext d r cpf s)
               else
                 map_option (\<lambda>(gen, ext, d, cpf, s). open_reply gen ext d r cpf s)
                   (OpenConnection env d cpf ext s))"

definition forward_open ::
    "conn_env \<Rightarrow> bool \<Rightarrow> byte list \<Rightarrow> mr_response \<Rightarrow> cpf \<Rightarrow> cm_state \<Rightarrow> serviced option" where
  "forward_open env is_large data r cpf s =
    (case bindE (DeserializeForwardOpenRequest is_large (ConnectionData (env_conf env) (replicate 7 0)) data)
            (\<lambda>(d, inp). bindE (get8 inp) (\<lambda>(words, inp). Inr (d, unat words * 2, inp))) of
       Inl e \<Rightarrow> Some (if is_runtime_error e then Inr kEipStatusError else Inl e, r, cpf, s)
     | Inr (d, conn_path_byte_count, inp) \<Rightarrow>
         Option.bind (FindExistingMatchingConnection d s) (\<lambda>existing.
         case vet_open env existing conn_path_byte_count inp d of
           Inl (gen, ext) \<Rightarrow> Some (open_reply gen ext d r cpf s)
         | Inr d \<Rightarrow> open_at_path env inp d r cpf s))"

definition forward_open_service ::
    "conn_env \<Rightarrow> byte list \<Rightarrow> mr_response \<Rightarrow> cpf \<Rightarrow> cm_state \<Rightarrow> serviced option" where
  "forward_open_service env = forward_open env False"

definition large_forward_open_service ::
    "conn_env \<Rightarrow> byte list \<Rightarrow> mr_response \<Rightarrow> cpf \<Rightarrow> cm_state \<Rightarrow> serviced option" where
  "large_forward_open_service env = forward_open env True"

section \<open>Forward close\<close>

definition put_close_reply :: "conn_data \<Rightarrow> writer \<Rightarrow> writer res" where
  "put_close_reply d out =
     bindE (put16 out (connection_serial_number d)) (\<lambda>w.
     bindE (put16 w (originator_vendor_id d)) (\<lambda>w.
     bindE (put32 w (originator_serial_number d)) (\<lambda>w.
     bindE (put8 w 0) (\<lambda>w. put8 w 0))))"

definition close_reply ::
    "CipError \<Rightarrow> ConnMgrStatus \<Rightarrow> conn_data \<Rightarrow> mr_response \<Rightarrow> cpf \<Rightarrow> cm_state \<Rightarrow> serviced" where
  "close_reply gen ext d r cpf s =
    (let r = (if gen = kCipErrorSuccess then r
              else let r = SetGenStatus gen r
                   in if ext \<noteq> kConnMgrStatusSuccess then AddAdditionalSts (conn_status_code ext) r else r)
     in finish_reply (put_close_reply d) r cpf s)"

definition forward_close_service ::
    "conn_env \<Rightarrow> byte list \<Rightarrow> mr_response \<Rightarrow> cpf \<Rightarrow> cm_state \<Rightarrow> serviced option" where
  "forward_close_service env data r cpf s =
    (case bindE (DeserializeForwardCloseRequest (ConnectionData (env_conf env) (replicate 7 0)) data)
            (\<lambda>(d, inp). bindE (get8 inp) (\<lambda>(words, inp).
             bindE (r_advance inp 1) (\<lambda>inp. Inr (d, unat words * 2, inp)))) of
       Inl e \<Rightarrow> Some (if e = Undefined then Inl e else Inr kEipStatusError, r, cpf, s)
     | Inr (d, conn_path_byte_count, inp) \<Rightarrow>
         if conn_path_byte_count < length inp
         then Some (close_reply kCipErrorTooMuchData kConnMgrStatusSuccess d r cpf s)
         else if conn_path_byte_count > length inp
         then Some (close_reply kCipErrorNotEnoughData kConnMgrStatusSuccess d r cpf s)
         else
           Option.bind (FindExistingMatchingConnection d s) (\<lambda>match.
           case match of
             None \<Rightarrow>
               Some (close_reply kCipErrorConnectionFailure kConnMgrStatusConnectionNotFoundAtTargetApplication
                       d r cpf s)
           | Some c \<Rightarrow>
               if Addr (tcp_peer cpf) \<noteq> Addr (openers_address (conns s c))
               then Some (close_reply kCipErrorPrivilegeViolation kConnMgrStatusSuccess d r cpf s)
               else map_option (close_reply kCipErrorSuccess kConnMgrStatusSuccess d r cpf) (Close c s)))"

end
