(* ===== verification/Open_Inv.thy ===== *)
theory Open_Inv
  imports Fwd_Open
begin

text \<open>
  Opening a connection keeps the invariant of theory \<open>Conn_Close\<close> and the tables of theory \<open>App_Con\<close>; when it
  fails, nothing is open that was not open before, every object is free again and every socket is given back.

  While a connection is being opened it is not on the list but may hold sockets: \<open>half_open s xs k\<close> is what holds
  then.
\<close>

section \<open>While a connection is being opened\<close>

definition half_open :: "cm_state \<Rightarrow> nat list \<Rightarrow> nat \<Rightarrow> bool" where
  "half_open s xs k \<longleftrightarrow> k \<notin> set xs \<and> active s xs \<and>
     (\<forall>c. c \<noteq> k \<longrightarrow> state (conns s c) = (if c \<in> set xs then kConnStateEstablished else kConnStateNonExistent)) \<and>
     (\<forall>c. c \<noteq> k \<longrightarrow> c \<notin> set xs \<longrightarrow> consuming_socket (conns s c) = None \<and> producing_socket (conns s c) = None) \<and>
     balanced io_base (held_by (conns s k) + held s xs) (udp s)"

text \<open>What links a connection that is not on the list has.\<close>

definition off_links :: "cip_conn \<Rightarrow> bool" where
  "off_links x \<longleftrightarrow> next_conn x = None \<and> prev_conn x = None \<and> \<not> on_list x"

lemma active_off_links: "active s xs \<Longrightarrow> k \<notin> set xs \<Longrightarrow> off_links (conns s k)"
  by (simp add: off_links_def active_def)

lemma half_openD:
  assumes "half_open s xs k"
  shows "k \<notin> set xs" "active s xs" "off_links (conns s k)"
    "balanced io_base (held_by (conns s k) + held s xs) (udp s)"
  using assms active_off_links by (auto simp: half_open_def)

lemma active_upd_off:
  assumes "active s xs" and "k \<notin> set xs" and "off_links y" and "conns s' = (conns s)(k := y)" and "head s' = head s"
  shows "active s' xs"
proof -
  have "next_conn (conns s k) = None" "prev_conn (conns s k) = None" "\<not> on_list (conns s k)"
    using active_off_links [OF assms(1,2)] by (auto simp: off_links_def)
  then show ?thesis using assms by (subst active_cong [of s' s]) (auto simp: off_links_def)
qed

lemma held_off:
  assumes "k \<notin> set xs" and "conns s' = (conns s)(k := y)"
  shows "held s' xs = held s xs"
  using assms by (auto intro!: held_cong)

text \<open>A change of the object alone.\<close>

lemma half_open_upd:
  assumes o: "half_open s xs k" and y: "off_links y" and upd: "conns s' = (conns s)(k := y)" "head s' = head s"
    and b: "balanced io_base (held_by y + held s xs) (udp s')"
  shows "half_open s' xs k"
proof -
  note k = half_openD(1,2) [OF o]
  show ?thesis
    using o b active_upd_off [OF k(2,1) y upd] held_off [OF k(1) upd(1)] by (simp add: half_open_def upd)
qed

lemma half_open_start:
  assumes inv: "cm_inv s xs" and k: "k \<notin> set xs" and y: "off_links y" "held_by y = {#}"
    and upd: "conns s' = (conns s)(k := y)" "head s' = head s" "udp s' = udp s"
  shows "half_open s' xs k"
proof -
  have core: "core s xs" using cm_invD(1) [OF inv] .
  then show ?thesis
    using k y active_upd_off [OF cm_invD(3) [OF inv] k y(1) upd(1,2)] held_off [OF k upd(1)]
    by (simp add: half_open_def core_def upd)
qed

text \<open>The end of a failure: the object is cleared, its sockets are given back.\<close>

lemma half_open_abort:
  assumes o: "half_open s xs k" and m: "masters (conns s) xs" and b: "balanced io_base (held s xs) (udp s')"
    and y: "off_links y" "state y = kConnStateNonExistent" "consuming_socket y = None" "producing_socket y = None"
    and upd: "conns s' = (conns s)(k := y)" "head s' = head s"
  shows "cm_inv s' xs"
proof -
  have k: "k \<notin> set xs" using o by (simp add: half_open_def)
  have a: "active s' xs" using o active_upd_off [OF _ k y(1) upd(1,2)] by (simp add: half_open_def)
  have h: "held s' xs = held s xs" by (rule held_off [OF k upd(1)])
  have "view (conns s' x) = view (conns s x)" if "x \<in> set xs" for x using that k by (auto simp: upd)
  then have "masters (conns s') xs" using masters_cong [OF m] by blast
  then show ?thesis using o a h b k y upd by (auto simp: cm_inv_def core_def half_open_def)
qed

text \<open>The end of a success: the object is inserted and established.\<close>

abbreviation establish :: "nat \<Rightarrow> cm_state \<Rightarrow> cm_state" where
  "establish k s \<equiv> conn_upd k (\<lambda>x. x\<lparr>state := kConnStateEstablished\<rparr>) (snd (Insert k s))"

lemma half_open_commit:
  assumes o: "half_open s xs k" and m: "masters (conns s) (k # xs)"
  shows "cm_inv (establish k s) (k # xs)"
    and "fixed_part (conns (establish k s) x) = fixed_part (conns s x)"
    and "settings (establish k s) = settings s"
proof -
  note k = half_openD(1,2) [OF o]
  obtain t where t: "Insert k s = (True, t)" "active t (k # xs)" using Insert_active [OF k(2,1)] by blast
  have un: "unlinked (conns t x) = unlinked (conns s x)" for x using unlinked_Insert [of k s x] t by simp
  note uf = unlinked_fields [OF un]
  have more: "box.more t = box.more s" using Insert_more [of k s] t by simp
  note sm = same_more [OF more]
  define u where "u = conn_upd k (\<lambda>x. x\<lparr>state := kConnStateEstablished\<rparr>) t"
  have hb: "held_by (conns u x) = held_by (conns s x)" for x
    using uf(4,5) [of x] by (auto simp: u_def held_by_def)
  have a: "active u (k # xs)" using t(2) by (subst active_cong [of u t]) (auto simp: u_def)
  have h: "held u (k # xs) = held_by (conns s k) + held s xs" by (simp add: held_def hb)
  have ud: "udp u = udp s" using sm by (simp add: u_def)
  have fp: "fixed_part (conns u x) = fixed_part (conns s x)" for x using uf(1) by (simp add: u_def)
  then have v: "view (conns u x) = view (conns s x)" for x
    using uf(4) [of x] by (auto simp: u_def view_def fixed_part_def)
  have st: "state (conns u c) = (if c \<in> set (k # xs) then kConnStateEstablished else kConnStateNonExistent)" for c
    using o uf(3) [of c] by (auto simp: u_def half_open_def)
  have so: "consuming_socket (conns u c) = None \<and> producing_socket (conns u c) = None" if "c \<notin> set (k # xs)" for c
    using o uf(4,5) [of c] that by (auto simp: u_def half_open_def)
  have "core u (k # xs)" using a h ud st so half_openD(4) [OF o] by (simp add: core_def)
  then have "cm_inv u (k # xs)" using masters_cong [OF m, of "conns u"] v by (simp add: cm_inv_def)
  then show "cm_inv (establish k s) (k # xs)" using t by (simp add: u_def)
  show "fixed_part (conns (establish k s) x) = fixed_part (conns s x)" using fp t by (simp add: u_def)
  show "settings (establish k s) = settings s" using sm(1) t by (simp add: u_def)
qed

section \<open>A new producer\<close>

text \<open>What the masters read of the new connection.\<close>

lemma masters_cons:
  assumes m: "masters h xs" and k: "k \<notin> set xs" and same: "\<And>x. x \<in> set xs \<Longrightarrow> view (h' x) = view (h x)"
    and p: "\<And>point. multicast_producer point (h' k) \<Longrightarrow>
      (producing_socket (h' k) = None) = (\<exists>e \<in> set xs. multicast_producer point (h e))"
    and l: "instance_type (h' k) = kConnInstanceTypeIoListenOnly \<Longrightarrow> producing_socket (h' k) = None \<and>
      (\<exists>e \<in> set xs. multicast_producer (producing_point (as_data (h' k))) (h e))"
  shows "masters h' (k # xs)"
proof -
  have m': "masters h' xs" using masters_cong [OF m] same by blast
  have mp: "multicast_producer point (h' x) = multicast_producer point (h x)" if "x \<in> set xs" for x point
    using same [OF that] by (intro view_producer) (auto simp: view_def)
  show ?thesis
  proof (rule mastersI)
    fix x point assume x: "x \<in> set (k # xs)" and prod: "multicast_producer point (h' x)"
    show "\<exists>y \<in> set (k # xs). multicast_producer point (h' y) \<and> producing_socket (h' y) \<noteq> None"
    proof (cases "\<exists>e \<in> set xs. multicast_producer point (h' e)")
      case True
      then show ?thesis using mastersD(1) [OF m'] by fastforce
    next
      case False
      then have "x = k" using x prod by auto
      then show ?thesis using p [of point] prod False mp by auto
    qed
  next
    fix x y point
    assume x: "x \<in> set (k # xs)" and y: "y \<in> set (k # xs)"
      and px: "multicast_producer point (h' x)" and py: "multicast_producer point (h' y)"
      and sx: "producing_socket (h' x) \<noteq> None" and sy: "producing_socket (h' y) \<noteq> None"
    show "x = y"
    proof (cases "x = k \<or> y = k")
      case True
      then show ?thesis using p [of point] x y px py sx sy mp by auto
    next
      case False
      then show ?thesis using mastersD(2) [OF m', of x point y] x y px py sx sy by auto
    qed
  next
    fix x assume "x \<in> set (k # xs)" and "instance_type (h' x) = kConnInstanceTypeIoListenOnly"
    then show "producing_socket (h' x) = None" using l mastersD(3) [OF m', of x] by auto
  next
    fix x assume "x \<in> set (k # xs)" and "instance_type (h' x) = kConnInstanceTypeIoListenOnly"
    then show "\<exists>y \<in> set (k # xs). multicast_producer (producing_point (as_data (h' x))) (h' y)"
      using l mastersD(4) [OF m', of x] mp by fastforce
  qed
qed

section \<open>Opening the channels\<close>

text \<open>What the masters and the tables read of a connection besides its sockets.\<close>

definition triad :: "'a conn_data_scheme \<Rightarrow> u16 \<times> u16 \<times> u32" where
  "triad d = (connection_serial_number d, originator_vendor_id d, originator_serial_number d)"

definition key :: "cip_conn \<Rightarrow> _" where
  "key x = (instance_type x, ConnectionType (producing_ncp x), consuming_point (as_data x),
     producing_point (as_data x), triad x)"

lemma key_simps [simp]:
  "key (x\<lparr>consuming_socket := a\<rparr>) = key x" "key (x\<lparr>producing_socket := a\<rparr>) = key x"
  "key (x\<lparr>recv_address := ra\<rparr>) = key x" "key (x\<lparr>send_address := ra\<rparr>) = key x"
  "key (x\<lparr>producing_connection_id := i\<rparr>) = key x" "key (x\<lparr>encap_session := h\<rparr>) = key x"
  "key (x\<lparr>openers_address := ra\<rparr>) = key x" "key (x\<lparr>state := st\<rparr>) = key x"
  by (simp_all add: key_def triad_def consuming_point_def producing_point_def)

lemma triad_of_data: "as_data x = as_data y \<Longrightarrow> triad x = triad y"
  by (metis as_data_simps(1-3) triad_def)

lemma key_producer:
  assumes "key x = key y"
  shows "multicast_producer point x = multicast_producer point y"
  using assms by (auto simp: key_def multicast_producer_def owner_or_input_only_def)

lemma masters_same:
  assumes "masters (conns s) xs" and "\<And>x. x \<in> set xs \<Longrightarrow> conns t x = conns s x"
  shows "masters (conns t) xs"
  by (rule masters_cong [OF assms(1)]) (simp add: assms(2))

text \<open>Steps that change one connection and the sockets only.\<close>

definition own_change :: "nat \<Rightarrow> cm_state \<Rightarrow> cm_state \<Rightarrow> bool" where
  "own_change k s s' \<longleftrightarrow> (\<forall>x. x \<noteq> k \<longrightarrow> conns s' x = conns s x) \<and> key (conns s' k) = key (conns s k) \<and>
     head s' = head s \<and> settings s' = settings s \<and> session s' = session s"

lemma own_change_refl [simp]: "own_change k s s"
  by (simp add: own_change_def)

lemma own_change_trans: "own_change k s t \<Longrightarrow> own_change k t u \<Longrightarrow> own_change k s u"
  by (simp add: own_change_def)

lemma own_change_upd:
  assumes "conns t = conns s" and "head t = head s" and "settings t = settings s" and "session t = session s"
    and "key (f (conns s k)) = key (conns s k)"
  shows "own_change k s (conn_upd k f t)"
  using assms by (simp add: own_change_def)

lemma own_change_conns: "own_change k s s' \<Longrightarrow> conns s' = (conns s)(k := conns s' k)"
  by (auto simp: own_change_def)

text \<open>A socket is taken from the pool of sockets, or not.\<close>

lemma grab_cases:
  assumes o: "half_open s xs k" and g: "grab env a mc s = (r, t)" and a: "\<not> IsMulticast a"
    and mc: "\<And>g. mc = Some g \<Longrightarrow> IsMulticast g \<and> a = io_base"
  shows "conns t = conns s" "head t = head s" "settings t = settings s" "session t = session s"
    and "case r of None \<Rightarrow> balanced io_base (held_by (conns s k) + held s xs) (udp t)
      | Some i \<Rightarrow> balanced io_base (add_mset i (held_by (conns s k) + held s xs)) (udp t)"
proof -
  obtain m where m: "GrabSocket (env_os env) a mc (udp s) = (r, m)" "t = s\<lparr>udp := m\<rparr>"
    using g by (auto simp: grab_def split: prod.splits)
  show "conns t = conns s" "head t = head s" "settings t = settings s" "session t = session s"
    by (simp_all add: m(2) settings_def)
  show "case r of None \<Rightarrow> balanced io_base (held_by (conns s k) + held s xs) (udp t)
      | Some i \<Rightarrow> balanced io_base (add_mset i (held_by (conns s k) + held s xs)) (udp t)"
    using GrabSocket_balanced [OF half_openD(4) [OF o] a mc m(1)] by (auto simp: m(2) split: option.splits)
qed

lemma grab_none:
  assumes o: "half_open s xs k" and g: "grab env a mc s = (None, t)" and a: "\<not> IsMulticast a"
    and mc: "\<And>g. mc = Some g \<Longrightarrow> IsMulticast g \<and> a = io_base"
  shows "half_open t xs k" "own_change k s t" "conns t = conns s"
proof -
  note c = grab_cases [OF o g a mc]
  show "conns t = conns s" using c(1) .
  show "own_change k s t" using c(1-4) by (simp add: own_change_def)
  have "conns t = (conns s)(k := conns s k)" using c(1) by simp
  then show "half_open t xs k" using half_open_upd [OF o half_openD(3) [OF o]] c(2,5) by simp
qed

lemma take_consuming:
  assumes o: "half_open s xs k" and g: "grab env a mc s = (Some i, t)" and a: "\<not> IsMulticast a"
    and mc: "\<And>g. mc = Some g \<Longrightarrow> IsMulticast g \<and> a = io_base" and n: "consuming_socket (conns s k) = None"
    and u: "u = conn_upd k (\<lambda>x. x\<lparr>consuming_socket := Some i, recv_address := ra\<rparr>) t"
  shows "half_open u xs k" "own_change k s u"
    "producing_socket (conns u k) = producing_socket (conns s k)"
proof -
  note c = grab_cases [OF o g a mc]
  define y where "y = (conns s k)\<lparr>consuming_socket := Some i, recv_address := ra\<rparr>"
  have "off_links y" using half_openD(3) [OF o] by (simp add: y_def off_links_def)
  moreover have "held_by y = add_mset i (held_by (conns s k))" using n by (simp add: y_def held_by_def opt_held_def)
  moreover have "conns u = (conns s)(k := y)" "head u = head s" "udp u = udp t" using c(1,2) by (simp_all add: u y_def)
  ultimately show "half_open u xs k" using half_open_upd [OF o] c(5) by simp
  show "own_change k s u" unfolding u using c(1-4) by (intro own_change_upd) simp_all
  show "producing_socket (conns u k) = producing_socket (conns s k)" using c(1) by (simp add: u)
qed

lemma take_producing:
  assumes o: "half_open s xs k" and g: "grab env a mc s = (Some i, t)" and a: "\<not> IsMulticast a"
    and mc: "\<And>g. mc = Some g \<Longrightarrow> IsMulticast g \<and> a = io_base" and n: "producing_socket (conns s k) = None"
    and u: "u = conn_upd k (\<lambda>x. x\<lparr>producing_socket := Some i, send_address := ra\<rparr>) t"
  shows "half_open u xs k" "own_change k s u" "producing_socket (conns u k) \<noteq> None"
proof -
  note c = grab_cases [OF o g a mc]
  define y where "y = (conns s k)\<lparr>producing_socket := Some i, send_address := ra\<rparr>"
  have "off_links y" using half_openD(3) [OF o] by (simp add: y_def off_links_def)
  moreover have "held_by y = add_mset i (held_by (conns s k))" using n by (simp add: y_def held_by_def opt_held_def)
  moreover have "conns u = (conns s)(k := y)" "head u = head s" "udp u = udp t" using c(1,2) by (simp_all add: u y_def)
  ultimately show "half_open u xs k" using half_open_upd [OF o] c(5) by simp
  show "own_change k s u" unfolding u using c(1-4) by (intro own_change_upd) simp_all
  show "producing_socket (conns u k) \<noteq> None" by (simp add: u)
qed

lemma any_not_multicast [simp]: "\<not> IsMulticast (any_address p)" "\<not> IsMulticast (SockAddr p 0)"
  by (simp_all add: any_address_def IsMulticast_def)

lemma open_consuming_end_ok:
  assumes o: "half_open s xs k" and n: "consuming_socket (conns s k) = None"
    and e: "open_consuming_end env k cpf ext s = (r, ext', cpf', s')"
  shows "half_open s' xs k" "own_change k s s'" "producing_socket (conns s' k) = producing_socket (conns s k)"
proof -
  have p2p: "half_open t xs k \<and> own_change k s t \<and> producing_socket (conns t k) = producing_socket (conns s k)"
    if "openConsumingPointToPointConnection env k cpf ext s = (q, e, f, t)" for q e f t
    using that grab_none [OF o, of env "any_address (g_my_io_udp_port env)" None]
      take_consuming [OF o, of env "any_address (g_my_io_udp_port env)" None, OF _ _ _ n]
    by (auto simp: openConsumingPointToPointConnection_def no_socket_def Let_def split: prod.splits option.splits)
  have mc: "half_open t xs k \<and> own_change k s t \<and> producing_socket (conns t k) = producing_socket (conns s k)"
    if q: "open_consuming_multicast env k cpf ext s = (q, e, f, t)" for q e f t
  proof (cases "\<exists>a. SaiiRx kCpfIdSockAddrInfo_T_O cpf = Some a \<and> Family a = ucast AF_INET \<and> IsMulticast a")
    case False
    then have "t = s" using q by (auto simp: open_consuming_multicast_def bad_saii_def split: option.splits if_splits)
    then show ?thesis using o by simp
  next
    case True
    then obtain a where a: "SaiiRx kCpfIdSockAddrInfo_T_O cpf = Some a" "Family a = ucast AF_INET" "IsMulticast a"
      by blast
    have g: "IsMulticast (SetPort kEIP_IoUdpPort a)" using a(3) by (simp add: IsMulticast_def)
    have b: "any_address kEIP_IoUdpPort = io_base" by (simp add: any_address_def)
    show ?thesis
      using q a g b grab_none [OF o, of env "any_address kEIP_IoUdpPort" "Some (SetPort kEIP_IoUdpPort a)"]
        take_consuming [OF o, of env "any_address kEIP_IoUdpPort" "Some (SetPort kEIP_IoUdpPort a)", OF _ _ _ n]
      by (auto simp: open_consuming_multicast_def no_socket_def split: prod.splits option.splits)
  qed
  have "half_open s' xs k \<and> own_change k s s' \<and> producing_socket (conns s' k) = producing_socket (conns s k)"
    using e o p2p mc by (auto simp: open_consuming_end_def Let_def split: if_splits)
  then show "half_open s' xs k" "own_change k s s'" "producing_socket (conns s' k) = producing_socket (conns s k)"
    by auto
qed

text \<open>An owner that joins the producers of an input assembly takes the socket over; the others share it.\<close>

lemma existing_producer:
  assumes a: "active s xs" and m: "masters (conns s) xs"
  shows "case GetExistingProducerMulticastConnection point s of
      None \<Rightarrow> False
    | Some None \<Rightarrow> \<not> (\<exists>e \<in> set xs. multicast_producer point (conns s e))
    | Some (Some e) \<Rightarrow> e \<in> set xs \<and> multicast_producer point (conns s e) \<and> producing_socket (conns s e) \<noteq> None"
proof -
  have f: "GetExistingProducerMulticastConnection point s =
      Some (List.find (\<lambda>x. multicast_producer point (conns s x) \<and> producing_socket (conns s x) \<noteq> None) xs)"
    unfolding GetExistingProducerMulticastConnection_def by (rule find_active_find [OF a])
  show ?thesis
  proof (cases "List.find (\<lambda>x. multicast_producer point (conns s x) \<and> producing_socket (conns s x) \<noteq> None) xs")
    case None
    then have "\<not> (\<exists>x \<in> set xs. multicast_producer point (conns s x) \<and> producing_socket (conns s x) \<noteq> None)"
      unfolding find_None_iff by blast
    then have "\<not> (\<exists>e \<in> set xs. multicast_producer point (conns s e))" using mastersD(1) [OF m] by blast
    then show ?thesis using f None by simp
  next
    case (Some e)
    then show ?thesis using f find_SomeD [OF Some] by simp
  qed
qed

lemma share_conns:
  assumes "e \<noteq> k"
  shows "instance_type (conns s k) = kConnInstanceTypeIoExclusiveOwner \<Longrightarrow> conns (share_producer env k e s) =
      (conns s)(k := (conns s k)\<lparr>producing_connection_id := producing_connection_id (conns s e),
          producing_socket := producing_socket (conns s e), send_address := multicast_destination env\<rparr>,
        e := (conns s e)\<lparr>producing_socket := None\<rparr>)"
    and "instance_type (conns s k) \<noteq> kConnInstanceTypeIoExclusiveOwner \<Longrightarrow> conns (share_producer env k e s) =
      (conns s)(k := (conns s k)\<lparr>producing_connection_id := producing_connection_id (conns s e),
          producing_socket := None, send_address := multicast_destination env\<rparr>)"
  using assms by (auto simp: share_producer_def Let_def fun_eq_iff)

lemma share_rest [simp]:
  "head (share_producer env k e s) = head s" "settings (share_producer env k e s) = settings s"
  "session (share_producer env k e s) = session s" "udp (share_producer env k e s) = udp s"
  by (simp_all add: share_producer_def Let_def)

lemma take_over_half_open:
  assumes o: "half_open s xs k" and e: "e \<in> set xs" and n: "producing_socket (conns s k) = None"
    and c: "conns s' = (conns s)(k := y, e := (conns s e)\<lparr>producing_socket := None\<rparr>)"
    and y: "off_links y" "producing_socket y = producing_socket (conns s e)"
      "consuming_socket y = consuming_socket (conns s k)"
    and rest: "head s' = head s" "udp s' = udp s"
  shows "half_open s' xs k"
proof -
  have k: "k \<notin> set xs" and a: "active s xs" and d: "distinct xs" and ek: "e \<noteq> k"
    using half_openD(1,2) [OF o] e by (auto simp: active_def)
  define t where "t = s'\<lparr>conns := (conns s)(k := y)\<rparr>"
  have "active t xs" by (rule active_upd_off [OF a k y(1)]) (simp_all add: t_def rest)
  then have a': "active s' xs" using ek by (subst active_cong [of s' t]) (auto simp: c t_def rest)
  have h: "held s' (remove1 e xs) = held s (remove1 e xs)"
    using d k by (auto intro!: held_cong simp: c dest: notin_set_remove1)
  have "held_by (conns s' k) + held s' xs = held_by (conns s k) + held s xs"
    using n y ek unfolding held_remove1 [OF e] h by (simp add: c held_by_def opt_held_def)
  then show ?thesis
    using o a' ek e by (auto simp: half_open_def c rest)
qed

lemma share_producer_ok:
  assumes o: "half_open s xs k" and m: "masters (conns s) xs" and e: "e \<in> set xs"
    and p: "multicast_producer (producing_point (as_data (conns s k))) (conns s e)"
    and t: "ConnectionType (producing_ncp (conns s k)) = kIOConnTypeMulticast"
    and so: "producing_socket (conns s e) \<noteq> None" and n: "producing_socket (conns s k) = None"
    and s': "s' = share_producer env k e s"
  shows "half_open s' xs k" "masters (conns s') (k # xs)" "key (conns s' x) = key (conns s x)"
    "x \<noteq> k \<Longrightarrow> fixed_part (conns s' x) = fixed_part (conns s x)"
proof -
  have k: "k \<notin> set xs" and ek: "e \<noteq> k" using half_openD(1) [OF o] e by auto
  note off = half_openD(3) [OF o]
  define y where "y = (conns s k)\<lparr>producing_connection_id := producing_connection_id (conns s e),
      send_address := multicast_destination env\<rparr>"
  define h where "h = (conns s)(k := y\<lparr>producing_socket := None\<rparr>)"
  have key: "key (h x) = key (conns s x)" for x by (simp add: h_def y_def)
  have mp: "multicast_producer point (h x) = multicast_producer point (conns s x)" for point x
    by (rule key_producer [OF key])
  have "producing_point (as_data (h k)) = producing_point (as_data (conns s k))"
    using key [of k] by (simp add: key_def)
  then have m': "masters h (k # xs)"
    using k e p producer_point [OF p] producer_point [of _ "h k"]
    by (intro masters_cons [OF m k]) (auto simp: h_def view_def)
  have "half_open s' xs k \<and> masters (conns s') (k # xs) \<and> key (conns s' x) = key (conns s x) \<and>
      (x \<noteq> k \<longrightarrow> fixed_part (conns s' x) = fixed_part (conns s x))"
  proof (cases "instance_type (conns s k) = kConnInstanceTypeIoExclusiveOwner")
    case True
    have c: "conns s' = (conns s)(k := y\<lparr>producing_socket := producing_socket (conns s e)\<rparr>,
        e := (conns s e)\<lparr>producing_socket := None\<rparr>)"
      using share_conns(1) [OF ek True, of env] unfolding s' y_def by (simp add: fun_eq_iff)
    have kp: "multicast_producer (producing_point (as_data (conns s k))) (h k)"
      using True t mp by (simp add: multicast_producer_def owner_or_input_only_def)
    have "masters (conns s') (k # xs)"
      using e ek so kp p mp
      by (intro masters_move [OF m', of e "producing_point (as_data (conns s k))" k])
        (auto simp: c h_def conn_data.defs)
    moreover have "half_open s' xs k"
      using off by (intro take_over_half_open [OF o e n c]) (simp_all add: s' y_def off_links_def)
    ultimately show ?thesis by (simp add: c y_def fixed_part_def conn_data.defs)
  next
    case False
    have c: "conns s' = (conns s)(k := y\<lparr>producing_socket := None\<rparr>)"
      using share_conns(2) [OF ek False, of env] unfolding s' y_def by (simp add: fun_eq_iff)
    have "half_open s' xs k"
      using off n half_openD(4) [OF o]
      by (intro half_open_upd [OF o _ c]) (simp_all add: s' y_def off_links_def held_by_def)
    moreover have "x \<noteq> k \<longrightarrow> fixed_part (h x) = fixed_part (conns s x)" by (simp add: h_def)
    ultimately show ?thesis using m' by (simp add: c h_def [symmetric] key)
  qed
  then show "half_open s' xs k" "masters (conns s') (k # xs)" "key (conns s' x) = key (conns s x)"
    "x \<noteq> k \<Longrightarrow> fixed_part (conns s' x) = fixed_part (conns s x)" by auto
qed

text \<open>What holds after the producing end is open, or when it could not be opened.\<close>

definition produced_ok :: "cm_state \<Rightarrow> nat list \<Rightarrow> nat \<Rightarrow> CipError \<Rightarrow> cm_state \<Rightarrow> bool" where
  "produced_ok s xs k r s' \<longleftrightarrow> half_open s' xs k \<and> (\<forall>x. key (conns s' x) = key (conns s x)) \<and>
     (\<forall>x. x \<noteq> k \<longrightarrow> fixed_part (conns s' x) = fixed_part (conns s x)) \<and>
     head s' = head s \<and> settings s' = settings s \<and> session s' = session s \<and>
     (if r = kCipErrorSuccess then masters (conns s') (k # xs) else own_change k s s')"

lemma own_change_keys: "own_change k s u \<Longrightarrow> key (conns u x) = key (conns s x)"
  by (cases "x = k") (auto simp: own_change_def)

lemma produced_own:
  assumes "half_open u xs k" and "own_change k s u" and "r = kCipErrorSuccess \<Longrightarrow> masters (conns u) (k # xs)"
  shows "produced_ok s xs k r u"
  using assms own_change_keys [OF assms(2)] by (simp add: produced_ok_def own_change_def)

lemma masters_own:
  assumes m: "masters (conns s) xs" and k: "k \<notin> set xs" and u: "own_change k s u"
    and p: "\<And>point. multicast_producer point (conns s k) \<Longrightarrow>
      producing_socket (conns u k) \<noteq> None \<and> \<not> (\<exists>e \<in> set xs. multicast_producer point (conns s e))"
    and nl: "instance_type (conns s k) \<noteq> kConnInstanceTypeIoListenOnly"
  shows "masters (conns u) (k # xs)"
proof (rule masters_cons [OF m k])
  note ku = own_change_keys [OF u, of k]
  show "view (conns u x) = view (conns s x)" if "x \<in> set xs" for x using u that k by (auto simp: own_change_def)
  show "(producing_socket (conns u k) = None) = (\<exists>e\<in>set xs. multicast_producer q (conns s e))"
    if "multicast_producer q (conns u k)" for q
    using p [of q] that key_producer [OF ku] by simp
  show "producing_socket (conns u k) = None \<and>
      (\<exists>e\<in>set xs. multicast_producer (producing_point (as_data (conns u k))) (conns s e))"
    if "instance_type (conns u k) = kConnInstanceTypeIoListenOnly"
    using that nl ku by (simp add: key_def)
qed

text \<open>A listen-only connection is granted only where there is a producer.\<close>

definition has_master :: "cm_state \<Rightarrow> nat list \<Rightarrow> nat \<Rightarrow> bool" where
  "has_master s xs k \<longleftrightarrow> (instance_type (conns s k) = kConnInstanceTypeIoListenOnly \<longrightarrow>
      ConnectionType (producing_ncp (conns s k)) = kIOConnTypeMulticast \<and>
      (\<exists>e \<in> set xs. multicast_producer (producing_point (as_data (conns s k))) (conns s e)))"

lemma has_master_same:
  assumes "has_master s xs k" and "key (conns t k) = key (conns s k)" and "\<And>x. x \<in> set xs \<Longrightarrow> conns t x = conns s x"
  shows "has_master t xs k"
  using assms by (auto simp: has_master_def key_def)

lemma open_first_producer:
  assumes o: "half_open s xs k" and m: "masters (conns s) xs" and n: "producing_socket (conns s k) = None"
    and l: "has_master s xs k"
    and none: "\<not> (\<exists>e \<in> set xs. multicast_producer (producing_point (as_data (conns s k))) (conns s e))"
    and r: "open_producing_multicast env k cpf ext s = (r, ext', cpf', s')"
  shows "produced_ok s xs k r s'"
proof -
  obtain q t where g: "grab env (any_address (g_my_io_udp_port env)) None s = (q, t)" by fastforce
  show ?thesis
  proof (cases q)
    case None
    note gn = grab_none [OF o g [unfolded None]]
    have "r = kCipErrorConnectionFailure" "s' = t"
      using r by (auto simp: open_producing_multicast_def g None no_socket_def)
    then show ?thesis using gn(1,2) by (intro produced_own) simp_all
  next
    case (Some i)
    note tp = take_producing [OF o g [unfolded Some] _ _ n refl, of "multicast_destination env"]
    have "masters (conns s') (k # xs)"
      if "s' = conn_upd k (\<lambda>x. x\<lparr>producing_socket := Some i, send_address := multicast_destination env\<rparr>) t"
      unfolding that using l none tp producer_point [of _ "conns s k"]
      by (intro masters_own [OF m half_openD(1) [OF o]]) (auto simp: has_master_def)
    then show ?thesis
      using r tp by (intro produced_own) (auto simp: open_producing_multicast_def g Some)
  qed
qed

lemma openProducingMulticastConnection_ok:
  assumes o: "half_open s xs k" and m: "masters (conns s) xs" and n: "producing_socket (conns s k) = None"
    and l: "has_master s xs k" and mc: "ConnectionType (producing_ncp (conns s k)) = kIOConnTypeMulticast"
  shows "\<exists>r ext' cpf' s'. openProducingMulticastConnection env k cpf ext s = Some (r, ext', cpf', s') \<and>
    produced_ok s xs k r s'"
proof -
  define point where "point = producing_point (as_data (conns s k))"
  note e = existing_producer [OF half_openD(2) [OF o] m, of point]
  then obtain f where f: "GetExistingProducerMulticastConnection point s = Some f" by (auto split: option.splits)
  note eq = openProducingMulticastConnection_def f [unfolded point_def]
  show ?thesis
  proof (cases f)
    case (Some x)
    then have x: "x \<in> set xs" "multicast_producer point (conns s x)" "producing_socket (conns s x) \<noteq> None"
      using e f by auto
    note sh = share_producer_ok [OF o m x(1) x(2) [unfolded point_def] mc x(3) n refl, where env = env]
    then show ?thesis by (auto simp: eq Some produced_ok_def)
  next
    case None
    then have none: "\<not> (\<exists>y \<in> set xs. multicast_producer point (conns s y))" using e f by auto
    obtain r ext' cpf' s' where r: "open_producing_multicast env k cpf ext s = (r, ext', cpf', s')"
      by (metis prod_cases4)
    show ?thesis using open_first_producer [OF o m n l none [unfolded point_def] r] by (auto simp: eq None r)
  qed
qed

lemma openProducingPointToPointConnection_ok:
  assumes o: "half_open s xs k" and m: "masters (conns s) xs" and n: "producing_socket (conns s k) = None"
    and l: "has_master s xs k" and mc: "ConnectionType (producing_ncp (conns s k)) \<noteq> kIOConnTypeMulticast"
    and r: "openProducingPointToPointConnection env k cpf ext s = (r, ext', cpf', s')"
  shows "produced_ok s xs k r s'"
proof -
  have plain: "masters (conns u) (k # xs)" if "own_change k s u" for u
    using l mc by (intro masters_own [OF m half_openD(1) [OF o] that]) (auto simp: has_master_def multicast_producer_def)
  obtain q t where g: "grab env (any_address (g_my_io_udp_port env)) None s = (q, t)" by fastforce
  show ?thesis
  proof (cases q)
    case None
    note gn = grab_none [OF o g [unfolded None]]
    have "s' = t" using r by (auto simp: openProducingPointToPointConnection_def g None no_socket_def)
    then show ?thesis using gn(1,2) plain by (intro produced_own) simp_all
  next
    case (Some i)
    note tp = take_producing [OF o g [unfolded Some] _ _ n refl]
    show ?thesis
      using r tp plain by (intro produced_own) (auto simp: openProducingPointToPointConnection_def g Some)
  qed
qed

lemma open_producing_end_ok:
  assumes o: "half_open s xs k" and m: "masters (conns s) xs" and n: "producing_socket (conns s k) = None"
    and l: "has_master s xs k"
  shows "\<exists>r ext' cpf' s'. open_producing_end env k cpf ext s = Some (r, ext', cpf', s') \<and> produced_ok s xs k r s'"
proof (cases "ConnectionType (producing_ncp (conns s k)) = kIOConnTypeMulticast")
  case True
  then show ?thesis
    using openProducingMulticastConnection_ok [OF o m n l] by (simp add: open_producing_end_def)
next
  case mc: False
  show ?thesis
  proof (cases "ConnectionType (producing_ncp (conns s k)) = kIOConnTypePointToPoint")
    case True
    obtain r ext' cpf' s' where r: "openProducingPointToPointConnection env k cpf ext s = (r, ext', cpf', s')"
      by (metis prod_cases4)
    show ?thesis
      using openProducingPointToPointConnection_ok [OF o m n l mc r] True r by (auto simp: open_producing_end_def)
  next
    case False
    have "masters (conns s) (k # xs)"
      using l mc by (intro masters_own [OF m half_openD(1) [OF o]]) (auto simp: has_master_def multicast_producer_def)
    then have "produced_ok s xs k kCipErrorSuccess s" using o by (intro produced_own) simp_all
    then show ?thesis using mc False by (auto simp: open_producing_end_def)
  qed
qed

lemma openCommunicationChannels_ok:
  assumes o: "half_open s xs k" and m: "masters (conns s) xs" and l: "has_master s xs k"
    and n: "consuming_socket (conns s k) = None" "producing_socket (conns s k) = None"
  shows "\<exists>r ext' cpf' s'. openCommunicationChannels env k cpf ext s = Some (r, ext', cpf', s') \<and>
    produced_ok s xs k r s'"
proof -
  obtain r e c t where t: "open_consuming_end env k cpf ext s = (r, e, c, t)" by (metis prod_cases4)
  note ce = open_consuming_end_ok [OF o n(1) t]
  show ?thesis
  proof (cases "r = kCipErrorSuccess")
    case False
    then show ?thesis using produced_own [OF ce(1,2)] by (auto simp: openCommunicationChannels_def t)
  next
    case True
    have k: "k \<notin> set xs" using half_openD(1) [OF o] .
    have same: "conns t x = conns s x" if "x \<in> set xs" for x using ce(2) that k by (auto simp: own_change_def)
    have keys: "key (conns t x) = key (conns s x)" for x by (rule own_change_keys [OF ce(2)])
    have m': "masters (conns t) xs" by (rule masters_same [OF m same])
    have l': "has_master t xs k" by (rule has_master_same [OF l keys same])
    have n': "producing_socket (conns t k) = None" using ce(3) n(2) by simp
    obtain r' e' c' u where u: "open_producing_end env k c e t = Some (r', e', c', u)" "produced_ok t xs k r' u"
      using open_producing_end_ok [OF ce(1) m' n' l'] by blast
    have "produced_ok s xs k r' u"
      using u(2) ce(2) keys own_change_trans [OF ce(2)] by (auto simp: produced_ok_def own_change_def)
    then show ?thesis using u(1) True by (simp add: openCommunicationChannels_def t)
  qed
qed

section \<open>Activation\<close>

definition tables :: "cm_state \<Rightarrow> _" where
  "tables s = (s_exclusive_owner s, s_input_only s, s_listen_only s, g_explicit_connections s, constructed_count s)"

lemma tables_settings: "settings s' = settings s \<Longrightarrow> tables s' = tables s"
  by (simp add: settings_def tables_def)

lemma tables_upd [simp]: "tables (conn_upd c f s) = tables s"
  by (rule tables_settings) simp

text \<open>The outcome of an opening: the connection is active, or nothing has changed but the object, which is free.\<close>

definition opened_ok :: "cm_state \<Rightarrow> nat list \<Rightarrow> nat \<Rightarrow> CipError \<Rightarrow> cm_state \<Rightarrow> bool" where
  "opened_ok s xs k r s' \<longleftrightarrow> tables s' = tables s \<and> session s' = session s \<and>
     (if r = kCipErrorSuccess
      then cm_inv s' (k # xs) \<and> key (conns s' k) = key (conns s k) \<and>
        (\<forall>x. x \<noteq> k \<longrightarrow> fixed_part (conns s' x) = fixed_part (conns s x))
      else cm_inv s' xs \<and> (\<forall>x. x \<noteq> k \<longrightarrow> conns s' x = conns s x))"

lemma release_both_balanced:
  assumes "balanced io_base (held_by (conns s k) + h) (udp s)"
  shows "balanced io_base h (udp (release_both k s))"
proof -
  have r: "balanced io_base (opt_held a + h') (udp t) \<Longrightarrow>
      balanced io_base h' (udp (case a of None \<Rightarrow> t | Some i \<Rightarrow> release i t))" for a h' and t :: cm_state
    using udp.release_held by (cases a) (auto simp: opt_held_def release_def)
  have c: "conns (case a of None \<Rightarrow> t | Some i \<Rightarrow> release i t) = conns t" for a and t :: cm_state
    by (cases a) (auto simp: release_def)
  show ?thesis
    using assms unfolding release_both_def Let_def c
    by (intro r) (simp add: held_by_def add.assoc)
qed

lemma release_both_rest:
  "conns (release_both k s) = conns s" "head (release_both k s) = head s"
  "settings (release_both k s) = settings s" "session (release_both k s) = session s"
  by (auto simp: release_both_def release_def settings_def Let_def split: option.splits)

lemma Conn_Clear_fields:
  "off_links (Conn_Clear conf now False x)" "state (Conn_Clear conf now False x) = kConnStateNonExistent"
  "consuming_socket (Conn_Clear conf now False x) = None" "producing_socket (Conn_Clear conf now False x) = None"
  by (simp_all add: Conn_Clear_def off_links_def Let_def SetTransmissionTriggerTimerUSecs_def
      setTransmissionTriggerTimerUSecs_def SetInactivityWatchDogTimerUSecs_def SetProductionInhibitTimerUSecs_def)

text \<open>A failure gives the sockets back and clears the object.\<close>

lemma give_up_ok:
  assumes o: "half_open s xs k" and m: "masters (conns s) xs" and b: "balanced io_base (held s xs) (udp s')"
    and same: "conns s' = conns s" "head s' = head s" "tables s' = tables s" "session s' = session s"
    and r: "r \<noteq> kCipErrorSuccess"
  shows "opened_ok s xs k r (clear_conn env k s')"
proof -
  let ?u = "clear_conn env k s'"
  have c: "conns ?u = (conns s)(k := Conn_Clear (env_conf env) (CurrentUSecs32 s') False (conns s k))"
    by (simp add: clear_conn_def same)
  have "cm_inv ?u xs"
    using half_open_abort [OF o m _ _ _ _ _ c] b Conn_Clear_fields by (simp add: clear_conn_def same)
  then show ?thesis
    using r by (simp add: opened_ok_def c same clear_conn_def)
qed

lemma activate_channels_ok:
  assumes o: "half_open s xs k" and m: "masters (conns s) xs" and l: "has_master s xs k"
    and n: "consuming_socket (conns s k) = None" "producing_socket (conns s k) = None"
  shows "\<exists>r ext' cpf' s'. activate_channels env k cpf ext s = Some (r, ext', cpf', s') \<and> opened_ok s xs k r s'"
proof -
  define t where "t = conn_upd k (\<lambda>x. x\<lparr>encap_session := session_handle cpf\<rparr>) s"
  have k: "k \<notin> set xs" using half_openD(1) [OF o] .
  have ot: "half_open t xs k"
    using half_openD(3,4) [OF o]
    by (intro half_open_upd [OF o, of "(conns s k)\<lparr>encap_session := session_handle cpf\<rparr>"])
      (auto simp: t_def off_links_def held_by_def)
  have same: "conns t x = conns s x" if "x \<noteq> k" for x using that by (simp add: t_def)
  have ks: "key (conns t k) = key (conns s k)" by (simp add: t_def)
  have sx: "conns t x = conns s x" if "x \<in> set xs" for x using that same k by metis
  have lt: "has_master t xs k" by (rule has_master_same [OF l ks sx])
  have mt: "masters (conns t) xs" by (rule masters_same [OF m sx])
  have nt: "consuming_socket (conns t k) = None" "producing_socket (conns t k) = None" using n by (simp_all add: t_def)
  have rest: "settings t = settings s" "session t = session s" "key (conns t x) = key (conns s x)" for x
    by (simp_all add: t_def)
  obtain r e c u where u: "openCommunicationChannels env k cpf ext t = Some (r, e, c, u)" "produced_ok t xs k r u"
    using openCommunicationChannels_ok [OF ot mt lt nt] by blast
  note pu = u(2) [unfolded produced_ok_def]
  show ?thesis
  proof (cases "r = kCipErrorSuccess")
    case True
    define v where "v = NotifyIoConnectionEvent k kIoConnectionEventOpened (establish k u)"
    have com: "cm_inv (establish k u) (k # xs)" "settings (establish k u) = settings u"
      "fixed_part (conns (establish k u) x) = fixed_part (conns u x)" for x
      using half_open_commit [of u xs k] pu True by auto
    have fx: "fixed_part (conns v x) = fixed_part (conns u x)" for x using com(3) [of x] by (simp add: v_def)
    have v: "cm_inv v (k # xs)" "settings v = settings u" using com by (simp_all add: v_def)
    have sv: "session v = session u"
      using same_more(3) [OF Insert_more [of k u]] by (simp add: v_def NotifyIoConnectionEvent_def log_event_def)
    have "key (conns v k) = key (conns u k)"
      using fx [of k] state_of_data [of "conns v k" "conns u k"] triad_of_data [of "conns v k" "conns u k"]
      by (simp add: key_def fixed_part_def)
    then have "opened_ok s xs k r v"
      using True v sv fx pu rest same tables_settings [of v s] by (simp add: opened_ok_def)
    then show ?thesis using u(1) True by (simp add: activate_channels_def t_def [symmetric] v_def)
  next
    case False
    have own: "own_change k t u" using pu False by simp
    have mu: "masters (conns u) xs" using own k by (intro masters_same [OF mt]) (auto simp: own_change_def)
    have hu: "half_open u xs k" using pu by simp
    have "opened_ok u xs k r (clear_conn env k (release_both k u))"
      using release_both_rest [of k u] False
      by (intro give_up_ok [OF hu mu release_both_balanced [OF half_openD(4) [OF hu]]])
        (simp_all add: tables_settings [of "release_both k u" u])
    then have "opened_ok s xs k r (clear_conn env k (release_both k u))"
      using own same rest False tables_settings [of u s] by (auto simp: opened_ok_def own_change_def)
    then show ?thesis using u(1) False by (simp add: activate_channels_def t_def [symmetric])
  qed
qed

text \<open>The configuration data of a request goes to an assembly; the instance must be one.\<close>

definition config_safe :: "'a conn_data_scheme \<Rightarrow> bool" where
  "config_safe x \<longleftrightarrow> (ds_HasAny (data_seg (conn_path x)) \<longrightarrow> assembly_of (config_instance x) \<noteq> None)"

lemma handleConfigData_rest:
  assumes a: "active s xs" and c: "assembly_of (config_instance (conns s k)) \<noteq> None"
  shows "\<exists>e s'. handleConfigData env k s = Some (e, s') \<and> conns s' = conns s \<and> head s' = head s \<and> udp s' = udp s \<and>
    session s' = session s \<and> tables s' = tables s"
proof -
  obtain i where i: "assembly_of (config_instance (conns s k)) = Some i" using c by auto
  obtain b where b: "ConnectionWithSameConfigPointExists (config_point (as_data (conns s k))) s = Some b"
    using find_active_find [OF a] by (auto simp: ConnectionWithSameConfigPointExists_def)
  show ?thesis
    by (auto simp: handleConfigData_def i b RecvData_def set_bytes_def log_event_def tables_def Let_def
        split: prod.splits)
qed

lemma Activate_ok:
  assumes o: "half_open s xs k" and m: "masters (conns s) xs" and l: "has_master s xs k"
    and n: "consuming_socket (conns s k) = None" "producing_socket (conns s k) = None"
    and c: "config_safe (conns s k)"
  shows "\<exists>r ext' cpf' s'. Activate env k cpf ext s = Some (r, ext', cpf', s') \<and> opened_ok s xs k r s'"
proof (cases "ap_HasAny (ConfigPath (conn_path (conns s k))) \<and> ds_HasAny (data_seg (conn_path (conns s k)))")
  case False
  then show ?thesis using activate_channels_ok [OF o m l n] by (auto simp: Activate_def Let_def)
next
  case True
  then have "assembly_of (config_instance (conns s k)) \<noteq> None" using c by (simp add: config_safe_def)
  then obtain e t where t: "handleConfigData env k s = Some (e, t)" "conns t = conns s" "head t = head s"
      "udp t = udp s" "session t = session s" "tables t = tables s"
    using handleConfigData_rest [OF half_openD(2) [OF o]] by blast
  show ?thesis
  proof (cases "e = kConnMgrStatusSuccess")
    case False
    have "balanced io_base (held s xs) (udp t)" using half_openD(4) [OF o] n by (simp add: held_by_def opt_held_def t)
    then have "opened_ok s xs k kCipErrorConnectionFailure (clear_conn env k t)"
      by (intro give_up_ok [OF o m]) (simp_all add: t)
    then show ?thesis using True False t(1) by (simp add: Activate_def Let_def)
  next
    case s: True
    have ot: "half_open t xs k"
      using half_openD(3,4) [OF o] by (intro half_open_upd [OF o, of "conns s k"]) (simp_all add: t)
    have "\<exists>r ext' cpf' u. activate_channels env k cpf e t = Some (r, ext', cpf', u) \<and> opened_ok t xs k r u"
      using activate_channels_ok [OF ot] m l n by (simp add: t has_master_def)
    moreover have "opened_ok t xs k r u = opened_ok s xs k r u" for r u by (simp add: opened_ok_def t)
    moreover have "Activate env k cpf ext s = activate_channels env k cpf e t"
      using True s t(1) by (simp add: Activate_def Let_def)
    ultimately show ?thesis by simp
  qed
qed

section \<open>Opening\<close>

text \<open>What configuring keeps of the object and takes from the parameters.\<close>

definition settled :: "cip_conn \<Rightarrow> _" where
  "settled x = (off_links x, consuming_socket x, producing_socket x, state x, ConnectionType (producing_ncp x),
     ConsumingPath (conn_path x), ProducingPath (conn_path x), ConfigPath (conn_path x), data_seg (conn_path x),
     config_instance x, triad x)"

lemma settled_simps:
  "settled (x\<lparr>instance_type := type\<rparr>) = settled x" "settled (x\<lparr>expected_packet_rate_usecs := u\<rparr>) = settled x"
  "settled (x\<lparr>transmission_trigger_timer_usecs := u\<rparr>) = settled x"
  "settled (x\<lparr>production_inhibit_timer_usecs := u\<rparr>) = settled x"
  "settled (x\<lparr>inactivity_watchdog_timer_usecs := u\<rparr>) = settled x"
  "settled (x\<lparr>consuming_connection_id := u\<rparr>) = settled x" "settled (x\<lparr>producing_connection_id := u\<rparr>) = settled x"
  "settled (Conn_SetPIT_USecs u x) = settled x"
  "settled (x\<lparr>eip_level_sequence_count_producing := a, sequence_count_producing := b,
     eip_level_sequence_count_consuming := c, eip_level_sequence_count_consuming_first := e,
     sequence_count_consuming := f, watchdog_timeout_action := g\<rparr>) = settled x"
  by (simp_all add: settled_def off_links_def triad_def Conn_SetPIT_USecs_def ConsumingPath_def ProducingPath_def
      ConfigPath_def path_at_def)

lemma choose_ids_settled:
  "choose_ids g d x = (g', d', y) \<Longrightarrow> settled y = settled x"
  by (auto simp: choose_ids_def settled_simps Let_def split: prod.splits if_splits)

lemma GeneralConfiguration_settled:
  assumes "GeneralConfiguration conf now type g d x = (g', d', y)"
  shows "settled y = settled (assign_data d x)" and "instance_type y = type"
proof -
  obtain g1 d1 x1 where c: "choose_ids g d (assign_data d x) = (g1, d1, x1)" by (metis prod_cases3)
  show "settled y = settled (assign_data d x)"
    unfolding choose_ids_settled [OF c, symmetric]
    using assms by (auto simp: GeneralConfiguration_def c Let_def settled_simps SetExpectedPacketRateUSecs_def
        SetTransmissionTriggerTimerUSecs_def setTransmissionTriggerTimerUSecs_def
        SetProductionInhibitTimerUSecs_def SetInactivityWatchDogTimerUSecs_def split: if_splits)
  show "instance_type y = type" using assms by (auto simp: GeneralConfiguration_def c Let_def)
qed

lemma settled_assign:
  "settled (assign_data d x) = (off_links x, consuming_socket x, producing_socket x, state x,
     ConnectionType (producing_ncp d), ConsumingPath (conn_path d), ProducingPath (conn_path d),
     ConfigPath (conn_path d), data_seg (conn_path d), config_instance d, triad d)"
  by (cases x) (simp add: settled_def assign_data_def off_links_def triad_def conn_data.defs)

text \<open>A free object that is configured is half open.\<close>

lemma configure_ok:
  assumes inv: "cm_inv s xs" and k: "k \<notin> set xs"
    and s1: "conns s1 = (conns s)(k := z)" "head s1 = head s" "udp s1 = udp s"
    and z: "off_links z" "consuming_socket z = None" "producing_socket z = None"
    and c: "configure env type d k s1 = (d', t)"
  shows "half_open t xs k" "masters (conns t) xs"
    "consuming_socket (conns t k) = None" "producing_socket (conns t k) = None"
    "key (conns t k) = (type, ConnectionType (producing_ncp d), consuming_point d, producing_point d, triad d)"
    "config_safe (conns t k) = config_safe d"
    "tables t = tables s1" "session t = session s1" "x \<noteq> k \<Longrightarrow> conns t x = conns s x"
proof -
  obtain g y where y: "GeneralConfiguration (env_conf env) (CurrentUSecs32 s1) type (ids s1) d z = (g, d', y)"
      "t = conn_upd k (\<lambda>_. y) (s1\<lparr>ids := g\<rparr>)"
    using c by (auto simp: configure_def s1 split: prod.splits)
  note st = GeneralConfiguration_settled [OF y(1), unfolded settled_assign]
  have f: "off_links y" "consuming_socket y = None" "producing_socket y = None"
    using st(1) z by (simp_all add: settled_def)
  have ct: "conns t = (conns s)(k := y)" "head t = head s" "udp t = udp s" by (simp_all add: y(2) s1)
  show "half_open t xs k"
    using f by (intro half_open_start [OF inv k _ _ ct]) (simp_all add: held_by_def opt_held_def)
  show same: "conns t x = conns s x" if "x \<noteq> k" for x using that by (simp add: ct)
  show "masters (conns t) xs" by (rule masters_same [OF cm_invD(2) [OF inv]]) (use same k in metis)
  show "consuming_socket (conns t k) = None" "producing_socket (conns t k) = None" using f by (simp_all add: ct)
  show "key (conns t k) = (type, ConnectionType (producing_ncp d), consuming_point d, producing_point d, triad d)"
    using st by (simp add: ct key_def settled_def consuming_point_def producing_point_def)
  show "config_safe (conns t k) = config_safe d" using st(1) by (simp add: ct config_safe_def settled_def)
  show "tables t = tables s1" "session t = session s1" by (simp_all add: y(2) tables_def conn_upd_def)
qed

text \<open>The address of the opener is not part of the invariant.\<close>

lemma cm_inv_openers: "cm_inv (conn_upd k (\<lambda>x. x\<lparr>openers_address := a\<rparr>) s) xs = cm_inv s xs"
proof -
  let ?s = "conn_upd k (\<lambda>x. x\<lparr>openers_address := a\<rparr>) s"
  have "active ?s xs = active s xs" by (rule active_cong) auto
  moreover have "held ?s xs = held s xs" by (rule held_cong) (simp add: held_by_def)
  moreover have "masters (conns ?s) xs = masters (conns s) xs"
  proof
    have v: "view (conns ?s x) = view (conns s x)" for x by (simp add: view_def conn_data.defs)
    show "masters (conns ?s) xs \<Longrightarrow> masters (conns s) xs" by (erule masters_cong) (rule v [symmetric])
    show "masters (conns s) xs \<Longrightarrow> masters (conns ?s) xs" by (erule masters_cong) (rule v)
  qed
  moreover have "state (conns ?s x) = state (conns s x)" "consuming_socket (conns ?s x) = consuming_socket (conns s x)"
    "producing_socket (conns ?s x) = producing_socket (conns s x)" for x by simp_all
  ultimately show ?thesis by (simp add: cm_inv_def core_def del: conn_upd_simps)
qed

text \<open>The outcome for the tables: one more active connection, or the same ones as before.\<close>

definition opening_outcome :: "cm_state \<Rightarrow> nat list \<Rightarrow> sock_addr \<Rightarrow> conn_data \<Rightarrow> CipError \<Rightarrow> cm_state \<Rightarrow> bool" where
  "opening_outcome s xs opener d r s' \<longleftrightarrow> tables s' = tables s \<and> session s' = session s \<and>
     (if r = kCipErrorSuccess
      then \<exists>k. k \<notin> set xs \<and> cm_inv s' (k # xs) \<and> pools_ok s' (k # xs) \<and> triad (conns s' k) = triad d \<and>
        openers_address (conns s' k) = opener \<and>
        (instance_type (conns s' k) = kConnInstanceTypeIoExclusiveOwner \<longrightarrow> (\<forall>x \<in> set xs.
           consuming_point (as_data (conns s x)) \<noteq> consuming_point (as_data (conns s' k)))) \<and>
        (\<forall>x \<in> set xs. fixed_part (conns s' x) = fixed_part (conns s x))
      else cm_inv s' xs \<and> pools_ok s' xs \<and> (\<forall>x \<in> set xs. conns s' x = conns s x))"

lemma tables_slots: "tables s' = tables s \<Longrightarrow> all_slots s' = all_slots s"
  by (simp add: tables_def all_slots_def)

lemma pools_same:
  assumes p: "pools_ok s xs" and t: "tables s' = tables s"
    and same: "\<And>x. x \<in> set xs \<Longrightarrow> as_data (conns s' x) = as_data (conns s x)"
  shows "pools_ok s' xs"
proof -
  have "s_exclusive_owner s' = s_exclusive_owner s" "constructed_count s' = constructed_count s"
    using t by (simp_all add: tables_def)
  then show ?thesis using p same unfolding pools_ok_def tables_slots [OF t] by metis
qed

lemma pools_cons:
  assumes p: "pools_ok s xs" and k: "k \<in> set (all_slots s)"
    and r: "\<And>r. r \<in> set (s_exclusive_owner s) \<Longrightarrow> k \<in> set (connection_slots r) \<Longrightarrow>
      consuming_point (as_data (conns s k)) = output_assembly r"
  shows "pools_ok s (k # xs)"
proof -
  have "\<exists>c. connection_slots q = [c] \<and> (c \<in> set (k # xs) \<longrightarrow> consuming_point (as_data (conns s c)) = output_assembly q)"
    if q: "q \<in> set (s_exclusive_owner s)" for q
  proof -
    obtain c where "connection_slots q = [c]" "c \<in> set xs \<Longrightarrow> consuming_point (as_data (conns s c)) = output_assembly q"
      using p q unfolding pools_ok_def by blast
    then show ?thesis using r [OF q] by auto
  qed
  then show ?thesis using p k by (simp add: pools_ok_def)
qed

lemma owner_unique:
  assumes "distinct (table_slots rs)" and "q \<in> set rs" and "r \<in> set rs"
    and "k \<in> set (connection_slots q)" and "k \<in> set (connection_slots r)"
  shows "q = r"
  using assms
proof (induction rs)
  case (Cons x rs)
  then have "set (connection_slots x) \<inter> set (table_slots rs) = {}" "distinct (table_slots rs)"
    by (auto simp: table_slots_def)
  then show ?case using Cons slot_in_table [of q rs k] slot_in_table [of r rs k] by auto
qed simp

text \<open>Where a granted connection lies in the tables.\<close>

lemma granted_slot:
  assumes p: "pools_ok s xs" and g: "granted d s xs type k"
  shows "k \<in> set (all_slots s)"
    and "r \<in> set (s_exclusive_owner s) \<Longrightarrow> k \<in> set (connection_slots r) \<Longrightarrow> consuming_point d = output_assembly r"
proof -
  have d: "distinct (all_slots s)" using p by (simp add: pools_ok_def)
  show "k \<in> set (all_slots s)"
    using g slot_in_table [of _ "s_exclusive_owner s" k]
    by (fastforce simp: granted_def all_slots_def split: ConnInstanceType.splits)
  assume r: "r \<in> set (s_exclusive_owner s)" "k \<in> set (connection_slots r)"
  then have eo: "k \<in> set (table_slots (s_exclusive_owner s))" by (rule slot_in_table)
  show "consuming_point d = output_assembly r"
  proof (cases "type = kConnInstanceTypeIoExclusiveOwner")
    case True
    then obtain q where q: "q \<in> set (s_exclusive_owner s)" "expects d q" "connection_slots q = [k]"
      using g by (auto simp: granted_def)
    have "distinct (table_slots (s_exclusive_owner s))" using d by (simp add: all_slots_def)
    then have "q = r" using owner_unique [OF _ q(1) r(1), of k] q(3) r(2) by simp
    then show ?thesis using q(2) by (simp add: expects_def)
  next
    case False
    then show ?thesis using g eo d by (cases type) (auto simp: granted_def all_slots_def)
  qed
qed

lemma granted_master:
  assumes g: "granted d s xs type k"
    and key: "key (conns t k) = (type, ConnectionType (producing_ncp d), consuming_point d, producing_point d, triad d)"
    and same: "\<And>x. x \<in> set xs \<Longrightarrow> conns t x = conns s x"
  shows "has_master t xs k"
  using assms by (auto simp: has_master_def granted_def key_def)

text \<open>\<open>OpenIO\<close> from the connection that is granted on.\<close>

lemma open_granted:
  assumes inv: "cm_inv s xs" and p: "pools_ok s xs" and k: "k \<notin> set xs" and g: "granted d s xs type k"
    and ch: "chosen type k s s1" and safe: "config_safe d"
    and c: "configure env (instance_type (conns s1 k)) d k s1 = (d', t)"
  shows "\<exists>r e cpf' s'. Activate env k cpf ext t = Some (r, e, cpf', s') \<and>
    opening_outcome s xs a d r
      (if r = kCipErrorSuccess then conn_upd k (\<lambda>x. x\<lparr>openers_address := a\<rparr>) s' else s')"
proof -
  obtain st where s1: "s1 = conn_upd k (\<lambda>x. x\<lparr>state := st, instance_type := type\<rparr>) s"
    using ch by (auto simp: chosen_def)
  define z where "z = (conns s k)\<lparr>state := st, instance_type := type\<rparr>"
  have z: "off_links z" "consuming_socket z = None" "producing_socket z = None"
    using active_off_links [OF cm_invD(3) [OF inv] k] cm_invD(1) [OF inv] k
    by (simp_all add: z_def off_links_def core_def)
  have c': "configure env type d k s1 = (d', t)" using c by (simp add: s1)
  have cs: "conns s1 = (conns s)(k := z)" "head s1 = head s" "udp s1 = udp s" by (simp_all add: s1 z_def)
  note cf = configure_ok [OF inv k cs z c']
  have rest: "tables t = tables s" "session t = session s" using cf(7,8) by (simp_all add: s1)
  have same: "conns t x = conns s x" if "x \<in> set xs" for x using cf(9) that k by metis
  have "has_master t xs k" by (rule granted_master [OF g cf(5) same])
  then obtain r e cpf' s' where a: "Activate env k cpf ext t = Some (r, e, cpf', s')" "opened_ok t xs k r s'"
    using Activate_ok [OF cf(1,2) _ cf(3,4)] cf(6) safe by blast
  have tb: "tables s' = tables s" "session s' = session s" using a(2) rest by (simp_all add: opened_ok_def)
  have "opening_outcome s xs a d r
      (if r = kCipErrorSuccess then conn_upd k (\<lambda>x. x\<lparr>openers_address := a\<rparr>) s' else s')"
  proof (cases "r = kCipErrorSuccess")
    case True
    define u where "u = conn_upd k (\<lambda>x. x\<lparr>openers_address := a\<rparr>) s'"
    have u: "cm_inv u (k # xs)" using a(2) True by (simp add: u_def cm_inv_openers opened_ok_def)
    have ku: "key (conns u k) = key (conns t k)" using a(2) True by (simp add: u_def opened_ok_def)
    have fx: "fixed_part (conns u x) = fixed_part (conns s x)" if "x \<in> set xs" for x
      using a(2) True same [OF that] that k by (auto simp: u_def opened_ok_def)
    have tu: "tables u = tables s" "session u = session s" using tb by (simp_all add: u_def)
    have eo: "s_exclusive_owner u = s_exclusive_owner s" using tu(1) by (simp add: tables_def)
    have "pools_ok u xs"
      using fx by (intro pools_same [OF p tu(1)]) (auto simp: fixed_part_def)
    then have "pools_ok u (k # xs)"
      using granted_slot [OF p g] ku cf(5)
      by (intro pools_cons) (simp_all add: tables_slots [OF tu(1)] eo key_def)
    moreover have "triad (conns u k) = triad d" "openers_address (conns u k) = a"
      using ku cf(5) by (simp_all add: key_def) (simp add: u_def)
    moreover have "instance_type (conns u k) = type" "consuming_point (as_data (conns u k)) = consuming_point d"
      using ku cf(5) by (simp_all add: key_def)
    moreover have "consuming_point (as_data (conns s x)) \<noteq> consuming_point d"
      if "type = kConnInstanceTypeIoExclusiveOwner" "x \<in> set xs" for x
      using g that by (simp add: granted_def)
    ultimately show ?thesis using True u fx tu k by (auto simp: opening_outcome_def u_def [symmetric])
  next
    case False
    have sm: "conns s' x = conns s x" if "x \<in> set xs" for x
      using a(2) False same [OF that] that k by (auto simp: opened_ok_def)
    then have "pools_ok s' xs" by (intro pools_same [OF p tb(1)]) simp
    then show ?thesis using False a(2) tb sm by (simp add: opening_outcome_def opened_ok_def)
  qed
  then show ?thesis using a(1) by blast
qed

text \<open>The checks before keep who asks and whether the configuration is safe.\<close>

definition asks :: "conn_data \<Rightarrow> _" where
  "asks d = (triad d, config_safe d)"

lemma port_segs_upd:
  "asks (d\<lparr>conn_path := (conn_path d)\<lparr>port_segs := ps\<rparr>\<rparr>) = asks d"
  "resolved reg (d\<lparr>conn_path := (conn_path d)\<lparr>port_segs := ps\<rparr>\<rparr>) = resolved reg d"
  by (simp_all add: asks_def triad_def config_safe_def resolved_def resolved_role_def cong: option.case_cong)

lemma Verify_keeps:
  assumes "VerifyForwardOpenParams ext d = (g, e, d')"
  shows "triad d' = triad d" "config_safe d' = config_safe d" "resolved reg d' = resolved reg d"
proof -
  have "asks d' = asks d \<and> resolved reg d' = resolved reg d"
    using assms unfolding VerifyForwardOpenParams_def Let_def by (auto simp: port_segs_upd split: if_splits)
  then show "triad d' = triad d" "config_safe d' = config_safe d" "resolved reg d' = resolved reg d"
    by (simp_all add: asks_def)
qed

lemma asks_upd [simp]:
  "asks (d\<lparr>corrected_consuming_size := n\<rparr>) = asks d" "asks (d\<lparr>corrected_producing_size := n\<rparr>) = asks d"
  "asks (d\<lparr>conn_path := set_path_attribute i (conn_path d)\<rparr>) = asks d"
  by (simp_all add: asks_def triad_def config_safe_def set_path_attribute_def)

lemma correct_producing_keeps:
  "correct_producing sz ext d = Inr (g, e, d') \<Longrightarrow> asks d' = asks d"
  unfolding correct_producing_def Let_def by (auto split: if_splits option.splits)

lemma CorrectSizes_keeps:
  assumes "CorrectSizes sz ext d = Inr (g, e, d')"
  shows "triad d' = triad d" "config_safe d' = config_safe d"
proof -
  have "asks d' = asks d"
    using assms correct_producing_keeps
    unfolding CorrectSizes_def Let_def by (fastforce split: if_splits option.splits)
  then show "triad d' = triad d" "config_safe d' = config_safe d" by (simp_all add: asks_def)
qed

lemma nothing_opened:
  assumes "cm_inv s xs" and "pools_ok s xs" and "r \<noteq> kCipErrorSuccess"
  shows "opening_outcome s xs a d r s"
  using assms by (simp add: opening_outcome_def)

lemma opening_outcome_triad: "triad d' = triad d \<Longrightarrow> opening_outcome s xs a d' r s' = opening_outcome s xs a d r s'"
  by (simp add: opening_outcome_def)

text \<open>The peer of the request stays.\<close>

lemma AddTx_peer [simp]: "tcp_peer (AddTx t a cpf) = tcp_peer cpf"
  by (simp add: AddTx_def)

lemma consuming_end_peer:
  "open_consuming_end env k cpf ext s = (r, e, cpf', s') \<Longrightarrow> tcp_peer cpf' = tcp_peer cpf"
  by (auto simp: open_consuming_end_def open_consuming_multicast_def openConsumingPointToPointConnection_def
      bad_saii_def no_socket_def Let_def split: if_splits option.splits prod.splits)

lemma producing_end_peer:
  "open_producing_end env k cpf ext s = Some (r, e, cpf', s') \<Longrightarrow> tcp_peer cpf' = tcp_peer cpf"
  by (auto simp: open_producing_end_def openProducingMulticastConnection_def open_producing_multicast_def
      openProducingPointToPointConnection_def no_socket_def Let_def split: if_splits option.splits prod.splits)

lemma Activate_peer:
  assumes "Activate env k cpf ext s = Some (r, e, cpf', s')"
  shows "tcp_peer cpf' = tcp_peer cpf"
proof -
  have "activate_channels env k cpf x t = Some (r, e, cpf', s') \<Longrightarrow> tcp_peer cpf' = tcp_peer cpf" for x t
    by (auto simp: activate_channels_def openCommunicationChannels_def Let_def split: if_splits prod.splits
        dest!: producing_end_peer dest: consuming_end_peer)
  then show ?thesis
    using assms by (auto simp: Activate_def Let_def split: if_splits dest: bind_eq_Some_conv [THEN iffD1])
qed

lemma OpenIO_ok:
  assumes inv: "cm_inv s xs" and p: "pools_ok s xs" and res: "resolved reg d" and safe: "config_safe d"
  shows "\<exists>r e d' cpf' s'. OpenIO env d cpf ext s = Some (r, e, d', cpf', s') \<and>
    opening_outcome s xs (tcp_peer cpf) d r s'"
proof -
  obtain g1 e1 d1 where v: "VerifyForwardOpenParams ext d = (g1, e1, d1)" by (metis prod_cases3)
  note k1 = Verify_keeps [OF v]
  show ?thesis
  proof (cases "g1 = kCipErrorSuccess")
    case False
    then show ?thesis using nothing_opened [OF inv p] by (simp add: OpenIO_def v)
  next
    case g1: True
    obtain g2 e2 d2 where c: "CorrectSizes (SizeBytes env s) e1 d1 = Inr (g2, e2, d2)"
      using CorrectSizes_defined [of reg d1 "SizeBytes env s" e1] k1(3) res by auto
    note k2 = CorrectSizes_keeps [OF c]
    have tr: "triad d2 = triad d" and sf: "config_safe d2" using k1 k2 safe by simp_all
    obtain f e3 s1 where f: "GetIoConnectionForConnectionData d2 s = Some (f, e3, s1)"
      "case f of None \<Rightarrow> s1 = s \<and> e3 \<noteq> kConnMgrStatusSuccess
       | Some k \<Rightarrow> e3 = kConnMgrStatusSuccess \<and> k \<notin> set xs \<and> (\<exists>type. chosen type k s s1 \<and> granted d2 s xs type k)"
      using GetIoConnection_ok [OF inv p] by blast
    note eq = OpenIO_def v c f(1)
    show ?thesis
    proof (cases "g2 = kCipErrorSuccess")
      case False
      then show ?thesis using g1 nothing_opened [OF inv p] by (simp add: eq)
    next
      case g2: True
      show ?thesis
      proof (cases f)
        case None
        then show ?thesis using g1 g2 f(2) nothing_opened [OF inv p] by (simp add: eq)
      next
        case (Some k)
        then obtain type where t: "k \<notin> set xs" "chosen type k s s1" "granted d2 s xs type k" using f(2) by auto
        obtain d3 u where u: "configure env (instance_type (conns s1 k)) d2 k s1 = (d3, u)" by fastforce
        obtain r e cpf' s' where a: "Activate env k cpf e3 u = Some (r, e, cpf', s')"
            "opening_outcome s xs (tcp_peer cpf) d2 r
              (if r = kCipErrorSuccess then conn_upd k (\<lambda>x. x\<lparr>openers_address := tcp_peer cpf\<rparr>) s' else s')"
          using open_granted [OF inv p t(1,3,2) sf u] by blast
        have "OpenIO env d cpf ext s = Some (r, e, d3, cpf',
            if r = kCipErrorSuccess then conn_upd k (\<lambda>x. x\<lparr>openers_address := tcp_peer cpf\<rparr>) s' else s')"
          using g1 g2 Activate_peer [OF a(1)] by (simp add: eq Some u a(1))
        then show ?thesis using a(2) unfolding opening_outcome_triad [OF tr] by blast
      qed
    qed
  qed
qed

text \<open>An explicit connection is taken from the pool of the message router.\<close>

lemma open_explicit_ok:
  assumes inv: "cm_inv s xs" and p: "pools_ok s xs" and r: "open_explicit env d cpf ext s = (r, e, d', cpf', s')"
  shows "opening_outcome s xs (tcp_peer cpf) d r s'"
proof (cases "getFreeExplicitConnection s")
  case None
  then show ?thesis using r nothing_opened [OF inv p] by (simp add: open_explicit_def)
next
  case (Some k)
  then have free: "k \<in> set (g_explicit_connections s)" "state (conns s k) = kConnStateNonExistent"
    using find_SomeD unfolding getFreeExplicitConnection_def by fastforce+
  have k: "k \<notin> set xs" using cm_invD(5) [OF inv, of k] free(2) by auto
  have z: "off_links (conns s k)" "consuming_socket (conns s k) = None" "producing_socket (conns s k) = None"
    using active_off_links [OF cm_invD(3) [OF inv] k] cm_invD(1) [OF inv] k by (simp_all add: core_def)
  obtain d1 t where c: "configure env kConnInstanceTypeExplicit d k s = (d1, t)" by fastforce
  have "conns s = (conns s)(k := conns s k)" by simp
  note cf = configure_ok [OF inv k this refl refl z c]
  define f :: "cip_conn \<Rightarrow> cip_conn"
    where "f = (\<lambda>x. x\<lparr>openers_address := tcp_peer cpf, encap_session := session_handle cpf\<rparr>)"
  define u where "u = conn_upd k f t"
  have ex: "instance_type (conns t k) = kConnInstanceTypeExplicit" using cf(5) by (simp add: key_def)
  have fk: "key (f x) = key x" "off_links (f x) = off_links x" "held_by (f x) = held_by x" for x
    by (simp_all add: f_def key_def triad_def off_links_def held_by_def consuming_point_def producing_point_def)
  have hu: "half_open u xs k"
    using half_openD(3,4) [OF cf(1)]
    by (intro half_open_upd [OF cf(1), of "f (conns t k)"]) (simp_all add: u_def fk)
  have own: "own_change k t u" unfolding u_def by (intro own_change_upd) (simp_all add: fk)
  have mu: "masters (conns u) (k # xs)"
    using ex by (intro masters_own [OF cf(2) k own]) (simp_all add: multicast_producer_def owner_or_input_only_def)
  define v where "v = establish k u"
  note com = half_open_commit [OF hu mu, folded v_def]
  have s': "s' = v" "r = kCipErrorSuccess"
    using r by (auto simp: open_explicit_def Some c u_def v_def f_def Let_def)
  have fx: "fixed_part (conns v x) = fixed_part (conns s x)" if "x \<in> set xs" for x
    using com(2) [of x] cf(9) [of x] that k by (auto simp: u_def)
  have tu: "tables v = tables s" using tables_settings [OF com(3)] cf(7) by (simp add: u_def)
  have sv: "session v = session s"
    using same_more(3) [OF Insert_more [of k u]] cf(8) by (simp add: v_def u_def)
  have eo: "s_exclusive_owner v = s_exclusive_owner s" using tu by (simp add: tables_def)
  have "pools_ok v xs" using fx by (intro pools_same [OF p tu]) (auto simp: fixed_part_def)
  moreover have "k \<in> set (all_slots s)" "k \<notin> set (table_slots (s_exclusive_owner s))"
    using free(1) p by (auto simp: all_slots_def pools_ok_def)
  ultimately have "pools_ok v (k # xs)"
    using slot_in_table [of _ "s_exclusive_owner s" k]
    by (intro pools_cons) (auto simp: tables_slots [OF tu] eo)
  moreover have "triad (conns v k) = triad d" "openers_address (conns v k) = tcp_peer cpf"
    using com(2) [of k] cf(5) triad_of_data [of "conns v k" "conns u k"]
    by (auto simp: fixed_part_def u_def fk key_def f_def triad_def)
  moreover have "instance_type (conns v k) = kConnInstanceTypeExplicit"
    using com(2) [of k] ex fk(1) [of "conns t k"] by (simp add: fixed_part_def u_def key_def)
  ultimately show ?thesis using com(1) fx tu sv k by (auto simp: s' opening_outcome_def)
qed

text \<open>The configuration instance of a request with a data segment is one of the class that manages it.\<close>

lemma table_config:
  assumes "table_3_5_13 reg d instance1 = Inr r" and "ds_HasAny (data_seg (conn_path d))"
  shows "role_config r = Some (0, instance1)" "role_mgmnt r = class_of_path (app_path1 d)"
  using assms unfolding table_equiv
  by (auto simp: reference_roles_def role_paths_def app_path1_def Let_def bindE_def
      split: option.splits sum.splits if_splits)

lemma table_mgmnt:
  assumes "table_3_5_13 reg d instance1 = Inr r" and "check_path reg (app_path1 d) = Inr instance1"
  shows "\<exists>p i. check_path reg p = Inr i \<and> role_mgmnt r = class_of_path p"
proof (cases "path_count d = 3 \<and> \<not> ds_HasAny (data_seg (conn_path d))")
  case True
  then obtain i where "check_path reg (app_paths (conn_path d) ! 1) = Inr i"
    using assms(1) unfolding table_equiv
    by (auto simp: reference_roles_def role_paths_def role_instance_def Let_def bindE_def
        split: option.splits sum.splits if_splits)
  then show ?thesis
    using True assms(1) unfolding table_equiv
    by (fastforce simp: reference_roles_def Let_def bindE_def split: option.splits sum.splits)
next
  case False
  then show ?thesis
    using assms unfolding table_equiv
    by (fastforce simp: reference_roles_def app_path1_def Let_def bindE_def split: option.splits sum.splits)
qed

text \<open>The class that manages a resolved request is registered.\<close>

lemma resolved_mgmnt:
  assumes wf: "wf_registry reg" and r: "ResolveInstances reg ext d = (kCipErrorSuccess, e, d')"
  shows "\<exists>c. FindClass (mgmnt_class d') reg = Some c \<and> class_id c = mgmnt_class d'"
    and "ds_HasAny (data_seg (conn_path d')) \<Longrightarrow> \<exists>i. config_instance d' = Some (mgmnt_class d', i)"
    and "triad d' = triad d"
proof -
  let ?d0 = "d\<lparr>config_instance := None, consuming_instance := None, producing_instance := None\<rparr>"
  obtain instance1 where i: "check_path reg (app_path1 ?d0) = Inr instance1"
    using r by (auto simp: ResolveInstances_def Let_def split: sum.splits)
  let ?d1 = "?d0\<lparr>mgmnt_class := class_of_path (app_path1 ?d0)\<rparr>"
  obtain q where q: "table_3_5_13 reg ?d1 instance1 = Inr q" "transport_check (assign_roles q ?d1) = Inr d'"
    using r i unfolding ResolveInstances_def Let_def by (auto split: sum.splits)
  have d': "config_instance d' = map_option snd (role_config q)" "mgmnt_class d' = role_mgmnt q"
      "data_seg (conn_path d') = data_seg (conn_path d)"
    using transport_check_cases(1) [OF q(2)] by (auto simp: assign_roles_def AssignAppPaths_def)
  have i1: "check_path reg (app_path1 ?d1) = Inr instance1" using i by (simp add: app_path1_def)
  obtain p j where "check_path reg p = Inr j" "role_mgmnt q = class_of_path p"
    using table_mgmnt [OF q(1) i1] by blast
  then have "live reg j" "fst j = mgmnt_class d'" using check_path_live [OF wf, of p j] d'(2) by simp_all
  then show "\<exists>c. FindClass (mgmnt_class d') reg = Some c \<and> class_id c = mgmnt_class d'"
    using wf by (auto simp: live_def FindClass_def wf_registry_def split: option.splits)
  show "\<exists>i. config_instance d' = Some (mgmnt_class d', i)" if "ds_HasAny (data_seg (conn_path d'))"
  proof -
    have "ds_HasAny (data_seg (conn_path ?d1))" using that d' by simp
    note tc = table_config [OF q(1) this]
    show ?thesis using d' tc check_path_live(1) [OF wf i1] by (simp add: app_path1_def)
  qed
  show "triad d' = triad d"
    using transport_check_cases(1) [OF q(2)] by (auto simp: assign_roles_def triad_def)
qed

lemma OpenConnection_ok:
  assumes inv: "cm_inv s xs" and p: "pools_ok s xs" and wf: "wf_registry (registered env)"
    and r: "ResolveInstances (registered env) x d0 = (kCipErrorSuccess, y, d)"
  shows "\<exists>r e d' cpf' s'. OpenConnection env d cpf ext s = Some (r, e, d', cpf', s') \<and>
    opening_outcome s xs (tcp_peer cpf) d r s'"
proof -
  note m = resolved_mgmnt [OF wf r]
  obtain c where c: "FindClass (mgmnt_class d) (registered env) = Some c" "class_id c = mgmnt_class d"
    using m(1) by blast
  consider "class_id c = kCipAssembly" | "class_id c \<noteq> kCipAssembly" "class_id c = kCipMessageRouterClass"
    | "class_id c \<noteq> kCipAssembly" "class_id c \<noteq> kCipMessageRouterClass" by blast
  then show ?thesis
  proof cases
    case 1
    have "config_safe d" using m(2) 1 c(2) by (auto simp: config_safe_def assembly_of_def)
    then show ?thesis
      using OpenIO_ok [OF inv p ResolveInstances_resolved [OF r]] 1 c(1) by (simp add: OpenConnection_def)
  next
    case 2
    obtain r e d' cpf' s' where o: "open_explicit env d cpf ext s = (r, e, d', cpf', s')" by (metis prod_cases5)
    show ?thesis using open_explicit_ok [OF inv p o] 2 c(1) o by (simp add: OpenConnection_def)
  next
    case 3
    then show ?thesis using c(1) nothing_opened [OF inv p] by (simp add: OpenConnection_def)
  qed
qed

section \<open>The services\<close>

text \<open>The identity of the connection that a request names.\<close>

definition open_triad :: "conn_env \<Rightarrow> bool \<Rightarrow> byte list \<Rightarrow> (u16 \<times> u16 \<times> u32) option" where
  "open_triad env is_large data =
    (case DeserializeForwardOpenRequest is_large (ConnectionData (env_conf env) (replicate 7 0)) data of
       Inl _ \<Rightarrow> None | Inr (d, _) \<Rightarrow> Some (triad d))"

definition close_triad :: "conn_env \<Rightarrow> byte list \<Rightarrow> (u16 \<times> u16 \<times> u32) option" where
  "close_triad env data =
    (case DeserializeForwardCloseRequest (ConnectionData (env_conf env) (replicate 7 0)) data of
       Inl _ \<Rightarrow> None | Inr (d, _) \<Rightarrow> Some (triad d))"

lemma TriadEquals_triad: "TriadEquals a b \<longleftrightarrow> triad a = triad b"
  by (simp add: TriadEquals_def triad_def)

lemma triad_as_data [simp]: "triad (as_data x) = triad x"
  by (simp add: triad_def)

lemma existing_match:
  assumes "cm_inv s xs"
  shows "FindExistingMatchingConnection d s = Some (List.find (\<lambda>x. triad d = triad (conns s x)) xs)"
proof -
  have e: "established (conns s x)" if "x \<in> set xs" for x
    using cm_invD(5) [OF assms, of x] that by (simp add: established_def)
  have "List.find (\<lambda>x. established (conns s x) \<and> TriadEquals d (as_data (conns s x))) xs =
      List.find (\<lambda>x. triad d = triad (conns s x)) xs"
    by (rule find_cong) (use e in \<open>auto simp: TriadEquals_triad\<close>)
  then show ?thesis
    using find_active_find [OF cm_invD(3) [OF assms]] by (simp add: FindExistingMatchingConnection_def)
qed

text \<open>What an opening service did: the status of the reply says whether there is a new connection.\<close>

definition open_effect ::
    "conn_env \<Rightarrow> bool \<Rightarrow> byte list \<Rightarrow> mr_response \<Rightarrow> cpf \<Rightarrow> cm_state \<Rightarrow> nat list \<Rightarrow> serviced \<Rightarrow> bool" where
  "open_effect env is_large data r cpf s xs out \<longleftrightarrow>
    (case out of (res, r', cpf', s') \<Rightarrow>
       \<exists>gen d. opening_outcome s xs (tcp_peer cpf) d gen s' \<and>
         (res = Inr kEipStatusOkSend \<longrightarrow>
            general_status r' = (if gen = kCipErrorSuccess then general_status r else error_code gen)) \<and>
         (gen = kCipErrorSuccess \<longrightarrow> open_triad env is_large data = Some (triad d) \<and>
            (\<forall>x \<in> set xs. triad (conns s x) \<noteq> triad d)))"

lemma open_status_general:
  "general_status (open_status gen ext d r) = (if gen = kCipErrorSuccess then general_status r else error_code gen)"
  by (simp add: open_status_def SetGenStatus_def AddAdditionalSts_def Let_def)

lemma open_reply_state:
  obtains res r' where "open_reply gen ext d r cpf s = (res, r', cpf, s)"
    and "general_status r' = (if gen = kCipErrorSuccess then general_status r else error_code gen)"
proof -
  have "\<exists>res r'. open_reply gen ext d r cpf s = (res, r', cpf, s) \<and>
      general_status r' = (if gen = kCipErrorSuccess then general_status r else error_code gen)"
    by (auto simp: open_reply_def finish_reply_def wrote_def open_status_general split: sum.splits)
  then show thesis using that by blast
qed

lemma reply_effect:
  assumes "opening_outcome s xs (tcp_peer cpf) d gen s'"
    and "gen = kCipErrorSuccess \<Longrightarrow> open_triad env is_large data = Some (triad d) \<and>
      (\<forall>x \<in> set xs. triad (conns s x) \<noteq> triad d)"
  shows "open_effect env is_large data r cpf s xs (open_reply gen ext d' r cpf' s')"
proof -
  obtain res r' where "open_reply gen ext d' r cpf' s' = (res, r', cpf', s')"
    "general_status r' = (if gen = kCipErrorSuccess then general_status r else error_code gen)"
    by (rule open_reply_state)
  then show ?thesis using assms unfolding open_effect_def by auto
qed

lemma refused_effect:
  assumes "cm_inv s xs" and "pools_ok s xs" and "gen \<noteq> kCipErrorSuccess"
  shows "open_effect env is_large data r cpf s xs (open_reply gen ext d r cpf s)"
  by (rule reply_effect [OF nothing_opened]) (use assms in auto)

lemma open_at_path_ok:
  assumes inv: "cm_inv s xs" and p: "pools_ok s xs" and wf: "wf_registry (registered env)"
    and tr: "open_triad env is_large data = Some (triad d)" "\<forall>x \<in> set xs. triad (conns s x) \<noteq> triad d"
  shows "case open_at_path env inp d r cpf s of
      None \<Rightarrow> DeserializeConnectionPath d inp = Inl Undefined
    | Some out \<Rightarrow> open_effect env is_large data r cpf s xs out"
proof -
  note refused = refused_effect [OF inv p]
  show ?thesis
  proof (cases "DeserializeConnectionPath d inp")
    case (Inl e)
    then show ?thesis using refused by (simp add: open_at_path_def)
  next
    case d1: (Inr d1)
    have t1: "triad d1 = triad d"
      using d1 by (auto simp: DeserializeConnectionPath_def triad_def bindE_def split: sum.splits)
    obtain gen ext d2 where g: "ResolveInstances (registered env) kConnMgrStatusSuccess d1 = (gen, ext, d2)"
      by (metis prod_cases3)
    show ?thesis
    proof (cases "check_open_key env d1 = kConnMgrStatusSuccess \<and> gen = kCipErrorSuccess")
      case False
      then show ?thesis using refused by (auto simp: open_at_path_def d1 g)
    next
      case True
      then have g': "ResolveInstances (registered env) kConnMgrStatusSuccess d1 = (kCipErrorSuccess, ext, d2)"
        using g by simp
      have t2: "triad d2 = triad d" using resolved_mgmnt(3) [OF wf g'] t1 by simp
      obtain q e d3 cpf' s' where o: "OpenConnection env d2 cpf ext s = Some (q, e, d3, cpf', s')"
          "opening_outcome s xs (tcp_peer cpf) d2 q s'"
        using OpenConnection_ok [OF inv p wf g'] by blast
      have "open_effect env is_large data r cpf s xs (open_reply q e d3 r cpf' s')"
        by (rule reply_effect [OF o(2)]) (simp add: tr t2)
      then show ?thesis using True by (simp add: open_at_path_def d1 g o(1))
    qed
  qed
qed

lemma vet_open_cases:
  "case vet_open env existing n inp d of
     Inl (gen, ext) \<Rightarrow> gen \<noteq> kCipErrorSuccess
   | Inr d' \<Rightarrow> triad d' = triad d \<and> existing = None"
  by (auto simp: vet_open_def triad_def Let_def split: sum.splits option.splits if_splits)

lemma parse_triad:
  assumes "bindE (DeserializeForwardOpenRequest is_large (ConnectionData (env_conf env) (replicate 7 0)) data)
      (\<lambda>(d, inp). bindE (get8 inp) (\<lambda>(words, inp). Inr (d, unat words * 2, inp))) = Inr (d, n, inp)"
  shows "open_triad env is_large data = Some (triad d)"
  using assms by (auto simp: open_triad_def bindE_def split: sum.splits)

lemma forward_open_ok:
  assumes inv: "cm_inv s xs" and p: "pools_ok s xs" and wf: "wf_registry (registered env)"
  shows "case forward_open env is_large data r cpf s of
      None \<Rightarrow> \<exists>d inp. DeserializeConnectionPath d inp = Inl Undefined
    | Some out \<Rightarrow> open_effect env is_large data r cpf s xs out"
proof -
  let ?parse = "bindE (DeserializeForwardOpenRequest is_large (ConnectionData (env_conf env) (replicate 7 0)) data)
      (\<lambda>(d, inp). bindE (get8 inp) (\<lambda>(words, inp). Inr (d, unat words * 2, inp)))"
  show ?thesis
  proof (cases ?parse)
    case (Inl e)
    have "opening_outcome s xs (tcp_peer cpf) d kCipErrorConnectionFailure s" for d
      by (rule nothing_opened [OF inv p]) simp
    then show ?thesis using Inl by (auto simp: forward_open_def open_effect_def)
  next
    case (Inr x)
    then obtain d n inp where q: "?parse = Inr (d, n, inp)" by (metis prod_cases3)
    note m = existing_match [OF inv, of d]
    define ex where "ex = List.find (\<lambda>x. triad d = triad (conns s x)) xs"
    have eq: "forward_open env is_large data r cpf s =
        (case vet_open env ex n inp d of
           Inl (gen, ext) \<Rightarrow> Some (open_reply gen ext d r cpf s) | Inr d \<Rightarrow> open_at_path env inp d r cpf s)"
      unfolding forward_open_def q by (simp add: m ex_def)
    note v = vet_open_cases [where env = env and existing = ex and n = n and inp = inp and d = d]
    show ?thesis
    proof (cases "vet_open env ex n inp d")
      case (Inl f)
      then show ?thesis using refused_effect [OF inv p] v by (cases f) (simp add: eq)
    next
      case (Inr d')
      then have t: "triad d' = triad d" "ex = None" using v by auto
      then have "\<forall>x \<in> set xs. triad (conns s x) \<noteq> triad d'"
        by (auto simp: ex_def find_None_iff)
      moreover have "open_triad env is_large data = Some (triad d')" using parse_triad [OF q] t by simp
      ultimately show ?thesis
        using open_at_path_ok [OF inv p wf, of is_large data d' inp r cpf] Inr
        by (auto simp: eq split: option.splits)
    qed
  qed
qed

text \<open>What a closing service did.\<close>

definition close_effect ::
    "conn_env \<Rightarrow> byte list \<Rightarrow> cpf \<Rightarrow> cm_state \<Rightarrow> nat list \<Rightarrow> cm_state \<Rightarrow> bool" where
  "close_effect env data cpf s xs s' \<longleftrightarrow> s' = s \<or>
     (\<exists>c \<in> set xs. close_triad env data = Some (triad (conns s c)) \<and>
        Addr (tcp_peer cpf) = Addr (openers_address (conns s c)) \<and>
        frame s s' \<and> cm_inv s' (left_after (conns s) xs c))"

lemma close_reply_state: "\<exists>res r'. close_reply gen ext d r cpf s = (res, r', cpf, s)"
  by (auto simp: close_reply_def finish_reply_def Let_def split: sum.splits)

lemma forward_close_ok:
  assumes inv: "cm_inv s xs"
  shows "\<exists>res r' s'. forward_close_service env data r cpf s = Some (res, r', cpf, s') \<and>
    close_effect env data cpf s xs s'"
proof -
  let ?parse = "bindE (DeserializeForwardCloseRequest (ConnectionData (env_conf env) (replicate 7 0)) data)
      (\<lambda>(d, inp). bindE (get8 inp) (\<lambda>(words, inp).
       bindE (r_advance inp 1) (\<lambda>inp. Inr (d, unat words * 2, inp))))"
  have same: "\<exists>res r' s'. Some (close_reply gen ext d r cpf s) = Some (res, r', cpf, s') \<and>
      close_effect env data cpf s xs s'" for gen ext d
    using close_reply_state [of gen ext d r cpf s] by (auto simp: close_effect_def)
  show ?thesis
  proof (cases ?parse)
    case (Inl e)
    then show ?thesis by (simp add: forward_close_service_def close_effect_def)
  next
    case (Inr x)
    then obtain d n inp where q: "?parse = Inr (d, n, inp)" by (metis prod_cases3)
    have tr: "close_triad env data = Some (triad d)"
      using q by (auto simp: close_triad_def bindE_def split: sum.splits)
    note m = existing_match [OF inv, of d]
    have eq: "forward_close_service env data r cpf s =
        (if n < length inp then Some (close_reply kCipErrorTooMuchData kConnMgrStatusSuccess d r cpf s)
         else if n > length inp then Some (close_reply kCipErrorNotEnoughData kConnMgrStatusSuccess d r cpf s)
         else
           case List.find (\<lambda>x. triad d = triad (conns s x)) xs of
             None \<Rightarrow> Some (close_reply kCipErrorConnectionFailure
                       kConnMgrStatusConnectionNotFoundAtTargetApplication d r cpf s)
           | Some c \<Rightarrow>
               if Addr (tcp_peer cpf) \<noteq> Addr (openers_address (conns s c))
               then Some (close_reply kCipErrorPrivilegeViolation kConnMgrStatusSuccess d r cpf s)
               else map_option (close_reply kCipErrorSuccess kConnMgrStatusSuccess d r cpf) (Close c s))"
      unfolding forward_close_service_def q by (simp add: m)
    show ?thesis
    proof (cases "n = length inp \<and> List.find (\<lambda>x. triad d = triad (conns s x)) xs \<noteq> None")
      case False
      then show ?thesis using same by (auto simp: eq)
    next
      case True
      then obtain c where c: "List.find (\<lambda>x. triad d = triad (conns s x)) xs = Some c" "n = length inp" by auto
      then have cx: "c \<in> set xs" "triad d = triad (conns s c)" using find_SomeD by fastforce+
      show ?thesis
      proof (cases "Addr (tcp_peer cpf) = Addr (openers_address (conns s c))")
        case False
        then show ?thesis using same c by (simp add: eq)
      next
        case a: True
        obtain s' where s': "Close c s = Some s'" "frame s s'" "cm_inv s' (left_after (conns s) xs c)"
          using Close_inv [OF inv cx(1)] by blast
        have "close_effect env data cpf s xs s'" using cx a s' tr by (auto simp: close_effect_def)
        moreover have "forward_close_service env data r cpf s =
            Some (close_reply kCipErrorSuccess kConnMgrStatusSuccess d r cpf s')"
          using c a s'(1) by (simp add: eq)
        ultimately show ?thesis
          using close_reply_state [of kCipErrorSuccess kConnMgrStatusSuccess d r cpf s'] by auto
      qed
    qed
  qed
qed

end
