(* ===== verification/Conn_Traffic.thy ===== *)
theory Conn_Traffic
  imports Open_Inv
begin

unbundle bit_operations_syntax

text \<open>
  The data that flows on open connections: \<open>RecvConnectedData\<close>, \<open>ManageConnections\<close> and \<open>TriggerConnections\<close> of
  \<open>cip/cipconnectionmanager.cc\<close>, \<open>SendConnectedData\<close> and \<open>HandleReceivedIoConnectionData\<close> of
  \<open>cip/cipconnection.cc\<close>, and the data attribute of \<open>cip/cipassembly.cc\<close>.

  A handler answers with a status or with the exception that leaves it. \<open>None\<close> is the outcome of a handler that
  does not return or leaves the language: an instance of another class that is used as an assembly, or a null
  socket.
\<close>

section \<open>The environment\<close>

text \<open>\<open>sendto\<close> says whether the system takes a datagram.\<close>

record io_env =
  io_conn :: conn_env
  sendto :: "nat \<Rightarrow> sock_addr \<Rightarrow> byte list \<Rightarrow> bool"
  g_message_data_reply_buffer :: "byte list"

definition SEQ_GT32 :: "u32 \<Rightarrow> u32 \<Rightarrow> bool" where
  "SEQ_GT32 a b \<longleftrightarrow> 0 < sint (a - b)"

definition SEQ_LEQ16 :: "u16 \<Rightarrow> u16 \<Rightarrow> bool" where
  "SEQ_LEQ16 a b \<longleftrightarrow> sint (a - b) \<le> 0"

type_synonym handled = "EipStatus res \<times> cm_state"

section \<open>Receiving\<close>

definition take_header :: "nat \<Rightarrow> u32 \<Rightarrow> cm_state \<Rightarrow> cm_state" where
  "take_header c new_run_idle s =
    (let s = conn_upd c (\<lambda>x. x\<lparr>consuming_header := new_run_idle\<rparr>) s;
         s = (if g_run_idle_state s \<noteq> new_run_idle then log_event (RunIdleChanged new_run_idle) s else s)
     in s\<lparr>g_run_idle_state := new_run_idle\<rparr>)"

definition receive_payload :: "conn_env \<Rightarrow> nat \<Rightarrow> byte list \<Rightarrow> cm_state \<Rightarrow> handled option" where
  "receive_payload env c inp s =
    (if inp = [] then Some (Inr kEipStatusOk, s)
     else
       case (if consuming_fmt (conns s c) = kRealTimeFmt32BitHeader
             then bindE (get32 inp) (\<lambda>(h, inp). Inr (inp, take_header c h s)) else Inr (inp, s)) of
         Inl e \<Rightarrow> Some (Inl e, s)
       | Inr (inp, s) \<Rightarrow>
           map_option (\<lambda>k.
             let (ok, s) = RecvData env (conns s c) k inp s
             in (Inr (if ok then kEipStatusOk else kEipStatusError), s))
             (assembly_of (consuming_instance (conns s c))))"

definition HandleReceivedIoConnectionData :: "conn_env \<Rightarrow> nat \<Rightarrow> byte list \<Rightarrow> cm_state \<Rightarrow> handled option" where
  "HandleReceivedIoConnectionData env c inp s =
    (if TransportClass (trigger (conns s c)) = kConnTransportClass1 then
       case get16 inp of
         Inl e \<Rightarrow> Some (Inl e, s)
       | Inr (sequence, inp) \<Rightarrow>
           if SEQ_LEQ16 sequence (sequence_count_consuming (conns s c)) then Some (Inr kEipStatusOk, s)
           else receive_payload env c inp (conn_upd c (\<lambda>x. x\<lparr>sequence_count_consuming := sequence\<rparr>) s)
     else receive_payload env c inp s)"

text \<open>A frame for a connection that is there, from the right address.\<close>

definition receive_frame :: "conn_env \<Rightarrow> nat \<Rightarrow> cpf \<Rightarrow> cm_state \<Rightarrow> handled option" where
  "receive_frame env c cpfd s =
    (let seq = encap_sequence_number (address_item cpfd);
         s = (if eip_level_sequence_count_consuming_first (conns s c)
              then conn_upd c (\<lambda>x. x\<lparr>eip_level_sequence_count_consuming := seq - 1,
                                    eip_level_sequence_count_consuming_first := False\<rparr>) s
              else s)
     in if SEQ_GT32 seq (eip_level_sequence_count_consuming (conns s c)) then
          let s = conn_upd c (\<lambda>x. SetInactivityWatchDogTimerUSecs (CurrentUSecs32 s) (RxTimeoutUSecs x) x) s;
              s = conn_upd c (\<lambda>x. x\<lparr>eip_level_sequence_count_consuming := seq\<rparr>) s
          in HandleReceivedIoConnectionData env c (di_data (data_item cpfd)) s
        else Some (Inr kEipStatusOk, s))"

definition RecvConnectedData :: "conn_env \<Rightarrow> sock_addr \<Rightarrow> byte list \<Rightarrow> cm_state \<Rightarrow> handled option" where
  "RecvConnectedData env from command s =
    (case DeserializeCpf (Cpf_for_peer from 0) command of
       (result, cpfd) \<Rightarrow>
         if result \<le> 0 then Some (Inr kEipStatusError, s)
         else if ai_type_id (address_item cpfd) \<in> {kCpfIdConnectedAddress, kCpfIdSequencedAddress} \<and>
                 di_type_id (data_item cpfd) = kCpfIdConnectedDataItem
         then
           Option.bind (GetConnectionByConsumingId (connection_identifier (address_item cpfd)) s) (\<lambda>conn.
           case conn of
             None \<Rightarrow> Some (Inr kEipStatusError, s)
           | Some c \<Rightarrow>
               if Addr from \<noteq> Addr (recv_address (conns s c)) then Some (Inr kEipStatusError, s)
               else receive_frame env c cpfd s)
         else Some (Inr kEipStatusOk, s))"

section \<open>Sending\<close>

text \<open>The bytes that are sent, from the buffer: the packet up to the length of its data item, then the data.\<close>

definition put_io_data :: "cip_conn \<Rightarrow> u32 \<Rightarrow> byte list \<Rightarrow> writer \<Rightarrow> writer res" where
  "put_io_data x run_idle attr3 out =
    (let data_len = length attr3;
         data_len = (if producing_fmt x = kRealTimeFmt32BitHeader \<and> data_len \<noteq> 0 then data_len + 4 else data_len);
         class1 = (TransportClass (trigger x) = kConnTransportClass1);
         data_len = (if class1 then data_len + 2 else data_len)
     in bindE (put16 out (of_nat data_len)) (\<lambda>w.
        bindE (if class1 then put16 w (sequence_count_producing x) else Inr w) (\<lambda>w.
        bindE (if producing_fmt x = kRealTimeFmt32BitHeader \<and> data_len \<noteq> 0 then put32 w run_idle else Inr w) (\<lambda>w.
        append_bytes w attr3))))"

definition io_data_len :: "cip_conn \<Rightarrow> byte list \<Rightarrow> nat" where
  "io_data_len x attr3 =
     length attr3 + (if producing_fmt x = kRealTimeFmt32BitHeader \<and> attr3 \<noteq> [] then 4 else 0) +
     (if TransportClass (trigger x) = kConnTransportClass1 then 2 else 0)"

definition io_datagram :: "byte list \<Rightarrow> cip_conn \<Rightarrow> cpf \<Rightarrow> u32 \<Rightarrow> byte list \<Rightarrow> byte list res" where
  "io_datagram buffer x cpfd run_idle attr3 =
    (let out = writer_on buffer
     in bindE (Cpf_Serialize out cpfd) (\<lambda>w.
        let n = w_count out w
        in bindE (w_advance (out\<lparr>w_mem := w_mem w\<rparr>) (n - 2)) (\<lambda>w.
           bindE (put_io_data x run_idle attr3 w) (\<lambda>w.
           Inr (take (n + io_data_len x attr3) (w_mem w))))))"

definition io_packet :: "cip_conn \<Rightarrow> cpf" where
  "io_packet x =
     Cpf_address (AddressItem (if TransportClass (trigger x) = kConnTransportClass0
                               then kCpfIdConnectedAddress else kCpfIdSequencedAddress)
                    (producing_connection_id x) (eip_level_sequence_count_producing x))
       kCpfIdConnectedDataItem"

definition SendConnectedData :: "io_env \<Rightarrow> nat \<Rightarrow> cm_state \<Rightarrow> handled option" where
  "SendConnectedData env c s =
    Option.bind (assembly_of (producing_instance (conns s c))) (\<lambda>k.
    Option.bind (producing_socket (conns s c)) (\<lambda>sock.
    let s = conn_upd c (\<lambda>x. x\<lparr>eip_level_sequence_count_producing := eip_level_sequence_count_producing x + 1\<rparr>) s;
        cpfd = io_packet (conns s c);
        (changed, bytes) = BeforeAssemblyDataSend (io_conn env) k (byte_array (assemblies s k));
        s = set_bytes k bytes s;
        s = (if changed then conn_upd c (\<lambda>x. x\<lparr>sequence_count_producing := sequence_count_producing x + 1\<rparr>) s else s)
    in Some
         (case io_datagram (g_message_data_reply_buffer env) (conns s c) cpfd (g_run_idle_state s)
                 (byte_array (assemblies s k)) of
            Inl e \<Rightarrow> (Inl e, s)
          | Inr datagram \<Rightarrow>
              (Inr (if sendto env sock (send_address (conns s c)) datagram then kEipStatusOk else kEipStatusError),
               log_event (Datagram (Some sock) (send_address (conns s c)) datagram) s))))"

section \<open>The periodic work\<close>

definition watchdog :: "nat \<Rightarrow> cm_state \<Rightarrow> cm_state option" where
  "watchdog c s =
    (if HasInactivityWatchDogTimer (conns s c) \<and> InactivityWatchDogTimerUSecs (CurrentUSecs32 s) (conns s c) \<le> 0
     then timeOut c s else Some s)"

definition due :: "u32 \<Rightarrow> cip_conn \<Rightarrow> bool" where
  "due now x \<longleftrightarrow> \<not> IsServer (trigger x) \<and> expected_packet_rate_usecs x \<noteq> 0 \<and> producing_socket x \<noteq> None \<and>
     TransmissionTriggerTimerUSecs now x \<le> 0"

definition produce :: "io_env \<Rightarrow> nat \<Rightarrow> cm_state \<Rightarrow> handled option" where
  "produce env c s =
     map_option (\<lambda>(r, s).
       case r of
         Inl e \<Rightarrow> (Inl e, s)
       | Inr _ \<Rightarrow>
           let s = conn_upd c (\<lambda>x. BumpTransmissionTriggerTimerUSecs (producing_RPI_usecs x) x) s;
               s = (if Trigger (trigger (conns s c)) \<noteq> kConnTriggerTypeCyclic
                    then conn_upd c (\<lambda>x. SetProductionInhibitTimerUSecs (CurrentUSecs32 s) (Conn_GetPIT_USecs x) x) s
                    else s)
           in (Inr kEipStatusOk, s))
       (SendConnectedData env c s)"

definition service_connection :: "io_env \<Rightarrow> nat \<Rightarrow> cm_state \<Rightarrow> handled option" where
  "service_connection env c s =
    (if state (conns s c) = kConnStateEstablished then
       Option.bind (watchdog c s) (\<lambda>s.
       if state (conns s c) = kConnStateEstablished \<and> due (CurrentUSecs32 s) (conns s c) then produce env c s
       else Some (Inr kEipStatusOk, s))
     else Some (Inr kEipStatusOk, s))"

partial_function (option) manage_active :: "io_env \<Rightarrow> nat option \<Rightarrow> cm_state \<Rightarrow> handled option" where
  "manage_active env p s =
    (case p of
       None \<Rightarrow> Some (Inr kEipStatusOk, s)
     | Some c \<Rightarrow>
         Option.bind (service_connection env c s) (\<lambda>(r, s).
         case r of
           Inl e \<Rightarrow> Some (Inl e, s)
         | Inr _ \<Rightarrow> manage_active env (next_conn (conns s c)) s))"

text \<open>\<open>HandleApplication\<close> is the application's; \<open>ManageEncapsulationMessages\<close> is in theory \<open>Encap\<close>, on a state of its
  own.\<close>

definition ManageConnections :: "io_env \<Rightarrow> (cm_state \<Rightarrow> cm_state) \<Rightarrow> cm_state \<Rightarrow> handled option" where
  "ManageConnections env HandleApplication s = (let s = HandleApplication s in manage_active env (head s) s)"

definition TriggerConnections :: "int \<Rightarrow> int \<Rightarrow> cm_state \<Rightarrow> (EipStatus \<times> cm_state) option" where
  "TriggerConnections out inp s =
     map_option (\<lambda>conn.
       case conn of
         None \<Rightarrow> (kEipStatusError, s)
       | Some c \<Rightarrow>
           if Trigger (trigger (conns s c)) = kConnTriggerTypeApplication
           then (kEipStatusOk,
                 conn_upd c (\<lambda>x. SetTransmissionTriggerTimerUSecs (CurrentUSecs32 s)
                   (word_of_int (ProductionInhibitTimerUSecs (CurrentUSecs32 s) x)) x) s)
           else (kEipStatusError, s))
       (find_active (\<lambda>x. out = consuming_point (as_data x) \<and> inp = producing_point (as_data x)) s)"

section \<open>The data attribute\<close>

text \<open>\<open>set_assembly_data_attr\<close>, whose status is always \<open>kEipStatusOkSend\<close>.\<close>

definition set_assembly_data_attr ::
    "conn_env \<Rightarrow> int \<Rightarrow> byte list \<Rightarrow> mr_response \<Rightarrow> cm_state \<Rightarrow> (mr_response \<times> cm_state) option" where
  "set_assembly_data_attr env k data r s =
    (let a = assemblies s k; n = length (byte_array a)
     in if HasConnectionPointRole kRoleProduced a then Some (SetGenStatus kCipErrorAttributeNotSetable r, s)
        else
          map_option (\<lambda>connected.
            if connected then (SetGenStatus kCipErrorAttributeNotSetable r, s)
            else if length data < n then (SetGenStatus kCipErrorNotEnoughData r, s)
            else if length data > n then (SetGenStatus kCipErrorTooMuchData r, s)
            else if n = 0 then (r, s)
            else
              let s = log_event (AssemblyData k kOpModeUnknown (length data)) (set_bytes k data s)
              in (if AfterAssemblyDataReceived env k kOpModeUnknown data (length data) then r
                  else SetGenStatus kCipErrorInvalidAttributeValue r, s))
            (if HasConnectionPointRole kRoleConsumed a then IsConnectedOutputAssembly k s else Some False))"

end
