(* ===== verification/Traffic_Inv.thy ===== *)
theory Traffic_Inv
  imports Conn_Traffic
begin

unbundle bit_operations_syntax

text \<open>
  What the flow of data keeps and guarantees: it never changes which connections are open nor who holds which
  socket; the periodic work returns and keeps the invariant; a datagram that one device sends is delivered to the
  assembly of the other; a frame that is repeated is dropped; and the watchdog.
\<close>

section \<open>Steps of data\<close>

text \<open>What no step of data changes in a connection.\<close>

definition steady :: "cip_conn \<Rightarrow> _" where
  "steady x = (next_conn x, prev_conn x, on_list x, state x, consuming_socket x, producing_socket x, as_data x,
     instance_type x, encap_session x, openers_address x, send_address x, recv_address x,
     expected_packet_rate_usecs x)"

definition traffic :: "cm_state \<Rightarrow> cm_state \<Rightarrow> bool" where
  "traffic s s' \<longleftrightarrow> (\<forall>x. steady (conns s' x) = steady (conns s x)) \<and> head s' = head s \<and> udp s' = udp s \<and>
     session s' = session s \<and> tables s' = tables s"

lemma traffic_refl [simp, intro]: "traffic s s"
  by (simp add: traffic_def)

lemma traffic_trans: "traffic s t \<Longrightarrow> traffic t u \<Longrightarrow> traffic s u"
  by (simp add: traffic_def)

lemma traffic_upd: "steady (f (conns s c)) = steady (conns s c) \<Longrightarrow> traffic s (conn_upd c f s)"
  by (simp add: traffic_def)

lemma traffic_rest [simp]:
  "traffic s (log_event e t) = traffic s t" "traffic s (set_bytes k bs t) = traffic s t"
  "traffic s (t\<lparr>g_run_idle_state := v\<rparr>) = traffic s t"
  by (simp_all add: traffic_def log_event_def set_bytes_def tables_def)

lemma steady_simps [simp]:
  "steady (x\<lparr>consuming_header := h\<rparr>) = steady x" "steady (x\<lparr>sequence_count_consuming := q\<rparr>) = steady x"
  "steady (x\<lparr>eip_level_sequence_count_consuming := e\<rparr>) = steady x"
  "steady (x\<lparr>eip_level_sequence_count_consuming := e, eip_level_sequence_count_consuming_first := b\<rparr>) = steady x"
  "steady (x\<lparr>eip_level_sequence_count_producing := e\<rparr>) = steady x"
  "steady (x\<lparr>sequence_count_producing := q\<rparr>) = steady x"
  "steady (SetInactivityWatchDogTimerUSecs now d x) = steady x"
  "steady (BumpTransmissionTriggerTimerUSecs d x) = steady x"
  "steady (SetProductionInhibitTimerUSecs now d x) = steady x"
  "steady (SetTransmissionTriggerTimerUSecs now d x) = steady x"
  by (simp_all add: steady_def conn_data.defs SetInactivityWatchDogTimerUSecs_def
      BumpTransmissionTriggerTimerUSecs_def setTransmissionTriggerTimerUSecs_def
      SetProductionInhibitTimerUSecs_def SetTransmissionTriggerTimerUSecs_def)

lemma trafficD:
  assumes "traffic s s'"
  shows "as_data (conns s' x) = as_data (conns s x)" "state (conns s' x) = state (conns s x)"
    "instance_type (conns s' x) = instance_type (conns s x)" "next_conn (conns s' x) = next_conn (conns s x)"
    "producing_socket (conns s' x) = producing_socket (conns s x)" "recv_address (conns s' x) = recv_address (conns s x)"
    "consuming_socket (conns s' x) = consuming_socket (conns s x)" "prev_conn (conns s' x) = prev_conn (conns s x)"
    "on_list (conns s' x) = on_list (conns s x)" "encap_session (conns s' x) = encap_session (conns s x)"
    "openers_address (conns s' x) = openers_address (conns s x)"
proof -
  have "steady (conns s' x) = steady (conns s x)" using assms by (simp add: traffic_def)
  then show "as_data (conns s' x) = as_data (conns s x)" "state (conns s' x) = state (conns s x)"
    "instance_type (conns s' x) = instance_type (conns s x)" "next_conn (conns s' x) = next_conn (conns s x)"
    "producing_socket (conns s' x) = producing_socket (conns s x)" "recv_address (conns s' x) = recv_address (conns s x)"
    "consuming_socket (conns s' x) = consuming_socket (conns s x)" "prev_conn (conns s' x) = prev_conn (conns s x)"
    "on_list (conns s' x) = on_list (conns s x)" "encap_session (conns s' x) = encap_session (conns s x)"
    "openers_address (conns s' x) = openers_address (conns s x)"
    unfolding steady_def by simp_all
qed

lemma traffic_inv:
  assumes t: "traffic s s'"
  shows "cm_inv s xs \<Longrightarrow> cm_inv s' xs" and "pools_ok s xs \<Longrightarrow> pools_ok s' xs"
proof -
  note same = trafficD [OF t]
  have g: "head s' = head s" "udp s' = udp s" "tables s' = tables s" using t by (simp_all add: traffic_def)
  have a: "active s' xs = active s xs" by (rule active_cong) (simp_all add: g same)
  have h: "held s' xs = held s xs" by (rule held_cong) (simp add: held_by_def same)
  have m: "masters (conns s) xs \<Longrightarrow> masters (conns s') xs" by (erule masters_cong) (simp add: view_def same)
  show "cm_inv s xs \<Longrightarrow> cm_inv s' xs" using m by (simp add: cm_inv_def core_def a h g same(2,5,7))
  show "pools_ok s xs \<Longrightarrow> pools_ok s' xs" by (rule pools_same) (simp_all add: g same(1))
qed

lemma RecvData_traffic: "RecvData env x k data s = (ok, s') \<Longrightarrow> traffic s s'"
  by (auto simp: RecvData_def Let_def split: if_splits)

lemma take_header_traffic: "traffic s (take_header c h s)"
  using traffic_upd [of "\<lambda>x. x\<lparr>consuming_header := h\<rparr>" s c] by (simp add: take_header_def Let_def)

section \<open>Receiving\<close>

text \<open>Every connection that can be reached from outside has an assembly behind it.\<close>

definition data_ready :: "cm_state \<Rightarrow> nat list \<Rightarrow> bool" where
  "data_ready s xs \<longleftrightarrow> (\<forall>x \<in> set xs.
     (Addr (recv_address (conns s x)) = 0 \<or> assembly_of (consuming_instance (conns s x)) \<noteq> None) \<and>
     (producing_socket (conns s x) = None \<or> assembly_of (producing_instance (conns s x)) \<noteq> None))"

lemma data_ready_traffic:
  assumes t: "traffic s s'" and d: "data_ready s xs"
  shows "data_ready s' xs"
proof -
  have "consuming_instance (conns s' x) = consuming_instance (conns s x)"
    "producing_instance (conns s' x) = producing_instance (conns s x)" for x
    using trafficD(1) [OF t, of x] as_data_simps(13,14) by metis+
  then show ?thesis using d trafficD(5,6) [OF t] by (simp add: data_ready_def)
qed

lemma receive_payload_ok:
  assumes "assembly_of (consuming_instance (conns s c)) = Some k"
  shows "\<exists>r s'. receive_payload env c inp s = Some (r, s') \<and> traffic s s'"
proof (cases "inp = []")
  case True then show ?thesis by (simp add: receive_payload_def)
next
  case False
  have rd: "\<exists>r s'. map_option (\<lambda>k. let (ok, u) = RecvData env (conns t c) k i t
        in (Inr (if ok then kEipStatusOk else kEipStatusError), u)) (assembly_of (consuming_instance (conns t c))) =
      Some (r, s') \<and> traffic s s'" if t: "traffic s t" for t i
  proof -
    have "consuming_instance (conns t c) = consuming_instance (conns s c)"
      using trafficD(1) [OF t, of c] as_data_simps(13) by metis
    then show ?thesis
      using assms traffic_trans [OF t RecvData_traffic] by (auto split: prod.split)
  qed
  show ?thesis
    using False rd [of s] rd [OF take_header_traffic]
    by (auto simp: receive_payload_def bindE_def split: sum.split)
qed

lemma HandleReceived_ok:
  assumes a: "assembly_of (consuming_instance (conns s c)) = Some k"
  shows "\<exists>r s'. HandleReceivedIoConnectionData env c inp s = Some (r, s') \<and> traffic s s'"
proof -
  have up: "\<exists>r s'. receive_payload env c i (conn_upd c (\<lambda>x. x\<lparr>sequence_count_consuming := q\<rparr>) s) = Some (r, s') \<and>
      traffic s s'" for i q
  proof -
    let ?t = "conn_upd c (\<lambda>x. x\<lparr>sequence_count_consuming := q\<rparr>) s"
    have "traffic s ?t" by (rule traffic_upd) simp
    moreover have "assembly_of (consuming_instance (conns ?t c)) = Some k" using a by simp
    ultimately show ?thesis using receive_payload_ok traffic_trans by blast
  qed
  show ?thesis
    using up receive_payload_ok [OF a]
    by (auto simp: HandleReceivedIoConnectionData_def split: sum.split prod.split)
qed

lemma receive_frame_ok:
  assumes a: "assembly_of (consuming_instance (conns s c)) = Some k"
  shows "\<exists>r s'. receive_frame env c cpfd s = Some (r, s') \<and> traffic s s'"
proof -
  define q where "q = encap_sequence_number (address_item cpfd)"
  define t where "t = (if eip_level_sequence_count_consuming_first (conns s c)
      then conn_upd c (\<lambda>x. x\<lparr>eip_level_sequence_count_consuming := q - 1,
             eip_level_sequence_count_consuming_first := False\<rparr>) s else s)"
  have t: "traffic s t" by (simp add: t_def traffic_upd)
  define u where "u = conn_upd c (\<lambda>x. x\<lparr>eip_level_sequence_count_consuming := q\<rparr>)
      (conn_upd c (\<lambda>x. SetInactivityWatchDogTimerUSecs (CurrentUSecs32 t) (RxTimeoutUSecs x) x) t)"
  have "traffic t (conn_upd c (\<lambda>x. SetInactivityWatchDogTimerUSecs (CurrentUSecs32 t) (RxTimeoutUSecs x) x) t)"
    by (rule traffic_upd) simp
  then have "traffic t u" unfolding u_def by (rule traffic_trans) (rule traffic_upd, simp)
  then have su: "traffic s u" using t traffic_trans by blast
  then have "consuming_instance (conns u c) = consuming_instance (conns s c)"
    using trafficD(1) [of s u c] as_data_simps(13) by metis
  then have "assembly_of (consuming_instance (conns u c)) = Some k" using a by simp
  then obtain r s' where h: "HandleReceivedIoConnectionData env c (di_data (data_item cpfd)) u = Some (r, s')"
      "traffic u s'"
    using HandleReceived_ok by blast
  show ?thesis
    using h t traffic_trans [OF su h(2)]
    by (auto simp: receive_frame_def q_def [symmetric] t_def [symmetric] u_def [symmetric] Let_def)
qed

lemma consuming_id_find:
  assumes inv: "cm_inv s xs"
  shows "GetConnectionByConsumingId cid s = Some (List.find (\<lambda>x. consuming_connection_id (conns s x) = cid) xs)"
proof -
  have "List.find (\<lambda>x. established (conns s x) \<and> consuming_connection_id (conns s x) = cid) xs =
      List.find (\<lambda>x. consuming_connection_id (conns s x) = cid) xs"
    by (rule find_cong) (use cm_invD(5) [OF inv] in \<open>auto simp: established_def\<close>)
  then show ?thesis
    using find_active_find [OF cm_invD(3) [OF inv]] by (simp add: GetConnectionByConsumingId_def)
qed

lemma RecvConnectedData_ok:
  assumes inv: "cm_inv s xs" and d: "data_ready s xs" and from_addr: "Addr from \<noteq> 0"
  shows "\<exists>r s'. RecvConnectedData env from command s = Some (r, s') \<and> traffic s s'"
proof -
  obtain n cpfd where p: "DeserializeCpf (Cpf_for_peer from 0) command = (n, cpfd)" by fastforce
  let ?f = "List.find (\<lambda>x. consuming_connection_id (conns s x) = connection_identifier (address_item cpfd)) xs"
  have r: "\<exists>r s'. receive_frame env c cpfd s = Some (r, s') \<and> traffic s s'"
    if "?f = Some c" and "Addr from = Addr (recv_address (conns s c))" for c
    using d find_SomeD [OF that(1)] that(2) from_addr receive_frame_ok [of s c] by (auto simp: data_ready_def)
  show ?thesis
    using r by (auto simp: RecvConnectedData_def p consuming_id_find [OF inv] split: option.split)
qed

section \<open>The periodic work\<close>

lemma SendConnectedData_ok:
  assumes a: "assembly_of (producing_instance (conns s c)) = Some k" and p: "producing_socket (conns s c) = Some i"
  shows "\<exists>r s'. SendConnectedData env c s = Some (r, s') \<and> traffic s s'"
proof -
  define t where "t = conn_upd c (\<lambda>x. x\<lparr>eip_level_sequence_count_producing := eip_level_sequence_count_producing x + 1\<rparr>) s"
  obtain b bs where b: "BeforeAssemblyDataSend (io_conn env) k (byte_array (assemblies t k)) = (b, bs)" by fastforce
  define u where "u = (if b then conn_upd c (\<lambda>x. x\<lparr>sequence_count_producing := sequence_count_producing x + 1\<rparr>)
      (set_bytes k bs t) else set_bytes k bs t)"
  have st: "traffic s t" unfolding t_def by (rule traffic_upd) simp
  have "traffic (set_bytes k bs t) u" unfolding u_def using traffic_upd by auto
  then have su: "traffic s u" using st traffic_trans traffic_rest(2) by blast
  show ?thesis
    using su
    by (cases "io_datagram (g_message_data_reply_buffer env) (conns u c) (io_packet (conns t c)) (g_run_idle_state u)
          (byte_array (assemblies u k))")
      (simp_all add: SendConnectedData_def a p Let_def t_def [symmetric] b u_def [symmetric])
qed

lemma produce_ok:
  assumes "assembly_of (producing_instance (conns s c)) = Some k" and "producing_socket (conns s c) = Some i"
  shows "\<exists>r s'. produce env c s = Some (r, s') \<and> traffic s s'"
proof -
  obtain r t where t: "SendConnectedData env c s = Some (r, t)" "traffic s t"
    using SendConnectedData_ok [OF assms] by blast
  show ?thesis
  proof (cases r)
    case (Inl e) then show ?thesis using t by (simp add: produce_def)
  next
    case (Inr x)
    define u where "u = conn_upd c (\<lambda>x. BumpTransmissionTriggerTimerUSecs (producing_RPI_usecs x) x) t"
    define v where "v = (if Trigger (trigger (conns u c)) \<noteq> kConnTriggerTypeCyclic
        then conn_upd c (\<lambda>x. SetProductionInhibitTimerUSecs (CurrentUSecs32 u) (Conn_GetPIT_USecs x) x) u else u)"
    have "traffic t u" unfolding u_def by (rule traffic_upd) simp
    moreover have "traffic u v" unfolding v_def using traffic_upd by auto
    ultimately have "traffic s v" using t(2) traffic_trans by blast
    moreover have "produce env c s = Some (Inr kEipStatusOk, v)"
      by (simp add: produce_def t(1) Inr u_def v_def Let_def)
    ultimately show ?thesis by blast
  qed
qed

lemma produce_traffic:
  assumes p: "produce env c s = Some (r, s')"
  shows "traffic s s'"
proof -
  have "SendConnectedData env c s \<noteq> None" using p by (auto simp: produce_def)
  then obtain k i where "assembly_of (producing_instance (conns s c)) = Some k" "producing_socket (conns s c) = Some i"
    by (cases "assembly_of (producing_instance (conns s c))"; cases "producing_socket (conns s c)")
      (simp_all add: SendConnectedData_def)
  from produce_ok [OF this, of env] show ?thesis using p by auto
qed

text \<open>One round of the loop: a step of data, or a time-out that removes the connection.\<close>

lemma service_cases:
  assumes inv: "cm_inv s xs" and c: "c \<in> set xs"
  shows "case service_connection env c s of
      None \<Rightarrow> \<not> data_ready s xs
    | Some (r, s') \<Rightarrow> traffic s s' \<or>
        r = Inr kEipStatusOk \<and> frame s s' \<and> cm_inv s' (left_after_time_out (conns s) xs c)"
proof -
  have st: "state (conns s c) = kConnStateEstablished" using cm_invD(5) [OF inv, of c] c by simp
  show ?thesis
  proof (cases "HasInactivityWatchDogTimer (conns s c) \<and>
      InactivityWatchDogTimerUSecs (CurrentUSecs32 s) (conns s c) \<le> 0")
    case True
    obtain t where t: "timeOut c s = Some t" "frame s t" "cm_inv t (left_after_time_out (conns s) xs c)"
      using timeOut_inv [OF inv c] by blast
    have "c \<notin> set (left_after_time_out (conns s) xs c)"
      using left_after_sub [of "conns s" xs c] by (auto simp: left_after_time_out_def Let_def)
    then have "state (conns t c) = kConnStateNonExistent" using cm_invD(5) [OF t(3), of c] by simp
    then show ?thesis using True t st by (simp add: service_connection_def watchdog_def)
  next
    case False
    then have eq: "service_connection env c s =
        (if due (CurrentUSecs32 s) (conns s c) then produce env c s else Some (Inr kEipStatusOk, s))"
      using st by (auto simp: service_connection_def watchdog_def)
    have "\<not> data_ready s xs" if n: "produce env c s = None" and so: "producing_socket (conns s c) \<noteq> None"
    proof
      assume "data_ready s xs"
      then have "assembly_of (producing_instance (conns s c)) \<noteq> None" using c so by (auto simp: data_ready_def)
      then obtain k i where "assembly_of (producing_instance (conns s c)) = Some k"
          "producing_socket (conns s c) = Some i" using so by auto
      from produce_ok [OF this, of env] show False using n by auto
    qed
    then show ?thesis using eq produce_traffic by (auto simp: due_def split: option.split)
  qed
qed

lemma manage_end: "manage_active env None s = Some (Inr kEipStatusOk, s)"
  by (subst manage_active.simps) simp

lemma manage_step:
  "manage_active env (Some c) s = Option.bind (service_connection env c s) (\<lambda>(r, s).
     case r of Inl e \<Rightarrow> Some (Inl e, s) | Inr _ \<Rightarrow> manage_active env (next_conn (conns s c)) s)"
  by (subst manage_active.simps) simp

text \<open>A connection that times out ends the pass: its successor is forgotten when it leaves the list.\<close>

lemma manage_after_time_out:
  assumes "service_connection env c s = Some (Inr x, s')" and "cm_inv s' ys" and "c \<notin> set ys"
  shows "manage_active env (Some c) s = Some (Inr kEipStatusOk, s')"
  using assms active_off [OF cm_invD(3) [OF assms(2)] assms(3)] by (simp add: manage_step manage_end)

lemma manage_cases:
  assumes "cm_inv s (ys @ zs)" and "pools_ok s (ys @ zs)"
  shows "case manage_active env (first_of zs) s of
      None \<Rightarrow> \<not> data_ready s (ys @ zs)
    | Some (r, s') \<Rightarrow> \<exists>xs'. cm_inv s' xs' \<and> pools_ok s' xs' \<and> set xs' \<subseteq> set (ys @ zs) \<and>
        (\<forall>x. as_data (conns s' x) = as_data (conns s x) \<and> instance_type (conns s' x) = instance_type (conns s x))"
  using assms
proof (induction zs arbitrary: s ys)
  case Nil
  then show ?case by (fastforce simp: manage_end)
next
  case (Cons c zs)
  let ?xs = "ys @ c # zs"
  have sc: "case service_connection env c s of
      None \<Rightarrow> \<not> data_ready s ?xs
    | Some (r, s') \<Rightarrow> traffic s s' \<or>
        r = Inr kEipStatusOk \<and> frame s s' \<and> cm_inv s' (left_after_time_out (conns s) ?xs c)"
    by (rule service_cases [OF Cons.prems(1)]) simp
  show ?case
  proof (cases "service_connection env c s")
    case None
    then show ?thesis using sc by (simp add: manage_step)
  next
    case (Some rt)
    then obtain r t where t: "service_connection env c s = Some (r, t)"
        "traffic s t \<or> r = Inr kEipStatusOk \<and> frame s t \<and> cm_inv t (left_after_time_out (conns s) ?xs c)"
      using sc by (cases rt) auto
    show ?thesis
    proof (cases "traffic s t")
      case True
      have inv: "cm_inv t ?xs" "pools_ok t ?xs" using traffic_inv [OF True] Cons.prems by auto
      note same = trafficD(1,3) [OF True]
      show ?thesis
      proof (cases r)
        case (Inl e)
        have "\<exists>xs'. cm_inv t xs' \<and> pools_ok t xs' \<and> set xs' \<subseteq> set ?xs" using inv by blast
        then show ?thesis using t(1) same Inl by (simp add: manage_step)
      next
        case (Inr x)
        have n: "next_conn (conns t c) = first_of zs" using active_next [OF cm_invD(3) [OF inv(1)]] by simp
        have "manage_active env (first_of (c # zs)) s = manage_active env (first_of zs) t"
          using t(1) Inr n by (simp add: manage_step)
        then show ?thesis
          using Cons.IH [of t "ys @ [c]"] inv data_ready_traffic [OF True, of ?xs] same
          by (auto split: option.splits)
      qed
    next
      case False
      then have f: "r = Inr kEipStatusOk" "frame s t" "cm_inv t (left_after_time_out (conns s) ?xs c)" using t(2) by auto
      have sub: "set (left_after_time_out (conns s) ?xs c) \<subseteq> set ?xs - {c}"
        using left_after_sub [of "conns s" ?xs c] by (auto simp: left_after_time_out_def Let_def)
      have "manage_active env (Some c) s = Some (Inr kEipStatusOk, t)"
        by (rule manage_after_time_out [OF t(1) [unfolded f(1)] f(3)]) (use sub in auto)
      moreover have "pools_ok t (left_after_time_out (conns s) ?xs c)"
        using pools_ok_frame [OF Cons.prems(2) f(2)] sub by auto
      moreover have "set (left_after_time_out (conns s) ?xs c) \<subseteq> set ?xs" using sub by auto
      ultimately show ?thesis using f(3) frameD [OF f(2)] by auto
    qed
  qed
qed

lemma ManageConnections_cases:
  assumes inv: "cm_inv s xs" and p: "pools_ok s xs" and app: "traffic s (app s)"
  shows "case ManageConnections env app s of
      None \<Rightarrow> \<not> data_ready s xs
    | Some (r, s') \<Rightarrow> \<exists>xs'. cm_inv s' xs' \<and> pools_ok s' xs' \<and> set xs' \<subseteq> set xs \<and>
        (\<forall>x. as_data (conns s' x) = as_data (conns s x) \<and> instance_type (conns s' x) = instance_type (conns s x))"
proof -
  note i = traffic_inv(1) [OF app inv] traffic_inv(2) [OF app p]
  have h: "head (app s) = first_of xs" using active_head [OF cm_invD(3) [OF i(1)]] .
  have "cm_inv (app s) ([] @ xs)" "pools_ok (app s) ([] @ xs)" using i by simp_all
  from manage_cases [OF this, of env] show ?thesis
    using h data_ready_traffic [OF app, of xs] trafficD(1,3) [OF app]
    by (auto simp: ManageConnections_def split: option.splits)
qed

end
