(* ===== verification/Io_Exchange.thy ===== *)
theory Io_Exchange
  imports Traffic_Inv
begin

unbundle bit_operations_syntax

text \<open>
  What an I/O datagram looks like on the wire, and what the device that receives it does with it: the data that
  one device sends is the data that the other's assembly gets; a frame that is repeated, late or from another
  address changes no assembly; and when the watchdog of the receiver fires.
\<close>

section \<open>The wire format\<close>

text \<open>What the data item holds: the sequence count of class 1, the run/idle header, the data.\<close>

definition io_payload :: "cip_conn \<Rightarrow> u32 \<Rightarrow> byte list \<Rightarrow> byte list" where
  "io_payload x run_idle attr3 =
     (if TransportClass (trigger x) = kConnTransportClass1 then le16 (sequence_count_producing x) else []) @
     (if producing_fmt x = kRealTimeFmt32BitHeader \<and> attr3 \<noteq> [] then le32 run_idle else []) @ attr3"

lemma length_io_payload: "length (io_payload x run_idle attr3) = io_data_len x attr3"
  by (simp add: io_payload_def io_data_len_def)

definition with_data :: "byte list \<Rightarrow> cpf \<Rightarrow> cpf" where
  "with_data bs c = c\<lparr>data_item := \<lparr>di_type_id = kCpfIdConnectedDataItem, di_data = bs\<rparr>\<rparr>"

definition io_head :: "cip_conn \<Rightarrow> byte list" where
  "io_head y = le16 2 @ address_wire (address_item (io_packet y)) @ le16 0xB1"

lemma io_packet_wire:
  "cpf_wire (io_packet y) = io_head y @ le16 0"
  "cpf_wire (with_data bs (io_packet y)) = io_head y @ le16 (of_nat (length bs)) @ bs"
  by (simp_all add: cpf_wire_def io_head_def io_packet_def Cpf_address_def with_data_def cpf_item_count_def HasAddr_def
      HasData_def AddressItem_def DataItem_def data_item_wire_def data_sent_def saii_wire_def Let_def)

text \<open>A run/idle header without data is written behind the end of the datagram.\<close>

lemma put_io_data_wire:
  "put_io_data x run_idle attr3 w = append_bytes w (le16 (of_nat (io_data_len x attr3)) @ io_payload x run_idle attr3 @
     (if producing_fmt x = kRealTimeFmt32BitHeader \<and> attr3 = [] \<and> TransportClass (trigger x) = kConnTransportClass1
      then le32 run_idle else []))"
  by (cases "attr3 = []")
    (auto simp: put_io_data_def io_payload_def io_data_len_def Let_def ser_simps append_nil add.commute cong: if_cong)

lemma io_datagram_wire:
  assumes fits: "length (io_head y) + io_data_len x attr3 + 6 \<le> length buffer"
  shows "io_datagram buffer x (io_packet y) run_idle attr3 =
    Inr (cpf_wire (with_data (io_payload x run_idle attr3) (io_packet y)))"
proof -
  define W where "W = cpf_wire (io_packet y)"
  have W: "W = io_head y @ le16 0" "length W = length (io_head y) + 2" by (simp_all add: W_def io_packet_wire)
  have wf: "wf_writer (writer_on buffer)" by (simp add: wf_writer_def writer_on_def)
  have fitsW: "length W \<le> length buffer" using fits W(2) by simp
  define m where "m = W @ drop (length W) buffer"
  have lm: "length m = length buffer" using fitsW by (simp add: m_def)
  have 1: "Cpf_Serialize (writer_on buffer) (io_packet y) =
      Inr \<lparr>w_mem = m, w_pos = length W, w_lim = length buffer\<rparr>"
    unfolding Cpf_Serialize_wire [OF wf] W_def [symmetric]
    using fitsW by (simp add: append_bytes_def writer_on_def poke_eq m_def)
  define extra where "extra = (if producing_fmt x = kRealTimeFmt32BitHeader \<and> attr3 = [] \<and>
      TransportClass (trigger x) = kConnTransportClass1 then le32 run_idle else [])"
  define bs where "bs = le16 (of_nat (io_data_len x attr3)) @ io_payload x run_idle attr3"
  have lb: "length bs = 2 + io_data_len x attr3" by (simp add: bs_def length_io_payload)
  have le: "length extra \<le> 4" by (simp add: extra_def)
  let ?w = "\<lparr>w_mem = m, w_pos = length (io_head y), w_lim = length buffer\<rparr>"
  have 2: "w_advance (writer_on buffer\<lparr>w_mem := m\<rparr>) (length W - 2) = Inr ?w"
    using fits by (simp add: w_advance_def writer_on_def W(2))
  have 3: "put_io_data x run_idle attr3 ?w =
      Inr \<lparr>w_mem = poke m (length (io_head y)) (bs @ extra), w_pos = length (io_head y) + length (bs @ extra),
           w_lim = length buffer\<rparr>"
    using fits lb le unfolding put_io_data_wire by (simp add: append_bytes_def bs_def extra_def)
  have p: "poke m (length (io_head y)) (bs @ extra) =
      io_head y @ bs @ extra @ drop (length (io_head y) + length (bs @ extra)) m"
    using fits lb le lm by (subst poke_eq) (simp_all add: m_def W(1))
  have "take (length W + io_data_len x attr3) (poke m (length (io_head y)) (bs @ extra)) = io_head y @ bs"
    unfolding p using lb by (simp add: W(2))
  moreover have "w_count (writer_on buffer) \<lparr>w_mem = m, w_pos = length W, w_lim = length buffer\<rparr> = length W"
    by (simp add: w_count_def writer_on_def)
  ultimately show ?thesis
    unfolding io_datagram_def Let_def 1 bindE_simps
    by (simp only: writer.simps 2 3 bindE_simps) (simp add: io_packet_wire bs_def length_io_payload)
qed

section \<open>Frames that arrive\<close>

text \<open>The sequence number the receiver reads: a class 0 datagram carries none.\<close>

definition frame_number :: "cip_conn \<Rightarrow> u32" where
  "frame_number y = (if TransportClass (trigger y) = kConnTransportClass0 then 0
                     else eip_level_sequence_count_producing y)"

lemma io_packet_received:
  assumes "length bs < 65536"
  shows "\<exists>cpfd. DeserializeCpf (Cpf_for_peer from 0) (cpf_wire (with_data bs (io_packet y))) =
      (int (length (cpf_wire (with_data bs (io_packet y)))), cpfd) \<and>
    ai_type_id (address_item cpfd) \<in> {kCpfIdConnectedAddress, kCpfIdSequencedAddress} \<and>
    connection_identifier (address_item cpfd) = producing_connection_id y \<and>
    encap_sequence_number (address_item cpfd) = frame_number y \<and>
    data_item cpfd = \<lparr>di_type_id = kCpfIdConnectedDataItem, di_data = bs\<rparr>"
proof -
  let ?c = "with_data bs (io_packet y)"
  have ok: "ok_cpf ?c"
    using assms by (simp add: ok_cpf_def with_data_def io_packet_def Cpf_address_def AddressItem_def addr_types_def
        data_types_def data_sent_def)
  show ?thesis
    using DeserializeCpf_wire [OF ok, of "Cpf_for_peer from 0" "[]"]
    by (simp add: received_def parsed_address_def with_data_def io_packet_def Cpf_address_def AddressItem_def
        HasAddr_def HasData_def data_sent_def Cpf_for_peer_def Cpf_Clear_def frame_number_def Let_def)
qed

lemma RecvConnectedData_wire:
  assumes inv: "cm_inv t xs" and bs: "length bs < 65536"
    and d: "List.find (\<lambda>x. consuming_connection_id (conns t x) = producing_connection_id y) xs = Some d"
    and from_addr: "Addr from = Addr (recv_address (conns t d))"
  shows "\<exists>cpfd. RecvConnectedData env from (cpf_wire (with_data bs (io_packet y))) t = receive_frame env d cpfd t \<and>
    encap_sequence_number (address_item cpfd) = frame_number y \<and> di_data (data_item cpfd) = bs"
proof -
  obtain cpfd where c: "DeserializeCpf (Cpf_for_peer from 0) (cpf_wire (with_data bs (io_packet y))) =
      (int (length (cpf_wire (with_data bs (io_packet y)))), cpfd)"
    "ai_type_id (address_item cpfd) \<in> {kCpfIdConnectedAddress, kCpfIdSequencedAddress}"
    "connection_identifier (address_item cpfd) = producing_connection_id y"
    "encap_sequence_number (address_item cpfd) = frame_number y"
    "data_item cpfd = \<lparr>di_type_id = kCpfIdConnectedDataItem, di_data = bs\<rparr>"
    using io_packet_received [OF bs] by blast
  have "length (cpf_wire (with_data bs (io_packet y))) > 0"
    by (simp add: io_packet_wire io_head_def)
  then have "RecvConnectedData env from (cpf_wire (with_data bs (io_packet y))) t = receive_frame env d cpfd t"
    using c d from_addr by (simp add: RecvConnectedData_def consuming_id_find [OF inv])
  then show ?thesis using c by auto
qed

text \<open>A frame is accepted when it is the first or its number is ahead.\<close>

definition accepts :: "cip_conn \<Rightarrow> u32 \<Rightarrow> bool" where
  "accepts x q \<longleftrightarrow> eip_level_sequence_count_consuming_first x \<or> SEQ_GT32 q (eip_level_sequence_count_consuming x)"

definition accept :: "u32 \<Rightarrow> u32 \<Rightarrow> cip_conn \<Rightarrow> cip_conn" where
  "accept now q x = (SetInactivityWatchDogTimerUSecs now (RxTimeoutUSecs x) x)
     \<lparr>eip_level_sequence_count_consuming := q, eip_level_sequence_count_consuming_first := False\<rparr>"

lemma SEQ_GT32_pred: "SEQ_GT32 q (q - 1)"
  by (simp add: SEQ_GT32_def)

lemma SEQ_GT32_irrefl [simp]: "\<not> SEQ_GT32 q q"
  by (simp add: SEQ_GT32_def)

lemma receive_frame_cases:
  "receive_frame env c cpfd s =
    (let q = encap_sequence_number (address_item cpfd) in
     if accepts (conns s c) q
     then HandleReceivedIoConnectionData env c (di_data (data_item cpfd)) (conn_upd c (accept (CurrentUSecs32 s) q) s)
     else Some (Inr kEipStatusOk, s))"
proof -
  define q where "q = encap_sequence_number (address_item cpfd)"
  have cur: "CurrentUSecs32 (conn_upd c f s) = CurrentUSecs32 s" for f
    by (simp add: CurrentUSecs32_def conn_upd_def)
  have up: "conn_upd c (\<lambda>x. x\<lparr>eip_level_sequence_count_consuming := q\<rparr>)
      (conn_upd c (\<lambda>x. SetInactivityWatchDogTimerUSecs n (RxTimeoutUSecs x) x)
        (conn_upd c (\<lambda>x. x\<lparr>eip_level_sequence_count_consuming := q - 1,
           eip_level_sequence_count_consuming_first := False\<rparr>) s)) = conn_upd c (accept n q) s" for n
    by (cases "conns s c")
      (simp add: conn_upd_def accept_def SetInactivityWatchDogTimerUSecs_def RxTimeoutUSecs_def conn_data.defs)
  have up2: "conn_upd c (\<lambda>x. x\<lparr>eip_level_sequence_count_consuming := q\<rparr>)
      (conn_upd c (\<lambda>x. SetInactivityWatchDogTimerUSecs n (RxTimeoutUSecs x) x) s) = conn_upd c (accept n q) s"
    if "\<not> eip_level_sequence_count_consuming_first (conns s c)" for n
    using that by (cases "conns s c") (simp add: conn_upd_def accept_def SetInactivityWatchDogTimerUSecs_def)
  show ?thesis
    unfolding receive_frame_def Let_def q_def [symmetric]
    by (cases "eip_level_sequence_count_consuming_first (conns s c)")
      (simp_all add: accepts_def SEQ_GT32_pred cur up up2)
qed

section \<open>The data that was sent is the data that arrives\<close>

text \<open>Two ends that agree on the transport class and the format; \<open>y\<close> sends and \<open>x\<close> consumes.\<close>

definition agree :: "cip_conn \<Rightarrow> cip_conn \<Rightarrow> bool" where
  "agree y x \<longleftrightarrow> TransportClass (trigger y) = TransportClass (trigger x) \<and>
     (producing_fmt y = kRealTimeFmt32BitHeader \<longleftrightarrow> consuming_fmt x = kRealTimeFmt32BitHeader)"

text \<open>The sequence count of class 1 is new to the consumer.\<close>

definition fresh_data :: "cip_conn \<Rightarrow> cip_conn \<Rightarrow> bool" where
  "fresh_data y x \<longleftrightarrow> (TransportClass (trigger y) = kConnTransportClass1 \<longrightarrow>
     \<not> SEQ_LEQ16 (sequence_count_producing y) (sequence_count_consuming x))"

lemma RecvData_exact:
  assumes "length (byte_array (assemblies s k)) = length data"
  shows "RecvData env x k data s =
    (AfterAssemblyDataReceived env k (Mode (consuming_header x)) data (length data),
     log_event (AssemblyData k (Mode (consuming_header x)) (length data)) (set_bytes k data s))"
  using assms by (simp add: RecvData_def set_bytes_def Let_def)

lemma take_header_assemblies [simp]: "assemblies (take_header c h s) = assemblies s"
  by (simp add: take_header_def log_event_def conn_upd_def Let_def)

lemma assemblies_upd [simp]: "assemblies (conn_upd c f s) = assemblies s"
  by (simp add: conn_upd_def)

lemma receive_payload_delivers:
  assumes a: "assembly_of (consuming_instance (conns s c)) = Some k" and d: "data \<noteq> []"
    and len: "length (byte_array (assemblies s k)) = length data"
    and inp: "inp = (if consuming_fmt (conns s c) = kRealTimeFmt32BitHeader then le32 h else []) @ data"
  shows "\<exists>r s'. receive_payload env c inp s = Some (Inr r, s') \<and>
    assemblies s' = (assemblies s)(k := (assemblies s k)\<lparr>byte_array := data\<rparr>)"
proof -
  have ne: "inp \<noteq> []" using d inp by auto
  define t where "t = (if consuming_fmt (conns s c) = kRealTimeFmt32BitHeader then take_header c h s else s)"
  have as: "assemblies t = assemblies s" by (simp add: t_def)
  have "traffic s t" by (simp add: t_def take_header_traffic)
  then have ci: "consuming_instance (conns t c) = consuming_instance (conns s c)"
    using trafficD(1) [of s t c] as_data_simps(13) by metis
  have "(if consuming_fmt (conns s c) = kRealTimeFmt32BitHeader
         then bindE (get32 inp) (\<lambda>(h, inp). Inr (inp, take_header c h s)) else Inr (inp, s)) = Inr (data, t)"
    by (simp add: inp t_def des_simps)
  then show ?thesis
    using ne a RecvData_exact [of t k data env "conns t c"] len
    by (simp add: receive_payload_def ci as Let_def log_event_def set_bytes_def)
qed

lemma HandleReceived_delivers:
  assumes a: "assembly_of (consuming_instance (conns s c)) = Some k" and d: "data \<noteq> []"
    and len: "length (byte_array (assemblies s k)) = length data"
    and ag: "agree y (conns s c)" and fr: "fresh_data y (conns s c)"
  shows "\<exists>r s'. HandleReceivedIoConnectionData env c (io_payload y h data) s = Some (Inr r, s') \<and>
    assemblies s' = (assemblies s)(k := (assemblies s k)\<lparr>byte_array := data\<rparr>)"
proof (cases "TransportClass (trigger y) = kConnTransportClass1")
  case True
  let ?t = "conn_upd c (\<lambda>x. x\<lparr>sequence_count_consuming := sequence_count_producing y\<rparr>) s"
  let ?inp = "(if consuming_fmt (conns s c) = kRealTimeFmt32BitHeader then le32 h else []) @ data"
  have "io_payload y h data = le16 (sequence_count_producing y) @ ?inp"
    using True ag d by (simp add: io_payload_def agree_def)
  moreover have "TransportClass (trigger (conns s c)) = kConnTransportClass1" using True ag by (simp add: agree_def)
  moreover have "\<not> SEQ_LEQ16 (sequence_count_producing y) (sequence_count_consuming (conns s c))"
    using True fr by (simp add: fresh_data_def)
  ultimately have "HandleReceivedIoConnectionData env c (io_payload y h data) s = receive_payload env c ?inp ?t"
    by (simp add: HandleReceivedIoConnectionData_def des_simps)
  moreover have "\<exists>r s'. receive_payload env c ?inp ?t = Some (Inr r, s') \<and>
      assemblies s' = (assemblies ?t)(k := (assemblies ?t k)\<lparr>byte_array := data\<rparr>)"
    using a len by (intro receive_payload_delivers [OF _ d]) simp_all
  ultimately show ?thesis by simp
next
  case False
  then have "HandleReceivedIoConnectionData env c (io_payload y h data) s =
      receive_payload env c ((if consuming_fmt (conns s c) = kRealTimeFmt32BitHeader then le32 h else []) @ data) s"
    using ag d by (auto simp: HandleReceivedIoConnectionData_def io_payload_def agree_def)
  then show ?thesis using receive_payload_delivers [OF a d len refl] by simp
qed

lemma accepted_fields [simp]:
  "consuming_instance (accept n q x) = consuming_instance x" "trigger (accept n q x) = trigger x"
  "consuming_fmt (accept n q x) = consuming_fmt x" "sequence_count_consuming (accept n q x) = sequence_count_consuming x"
  by (simp_all add: accept_def SetInactivityWatchDogTimerUSecs_def)

text \<open>What \<open>SendConnectedData\<close> puts on the wire.\<close>

definition next_frame :: "cip_conn \<Rightarrow> cip_conn" where
  "next_frame x = x\<lparr>eip_level_sequence_count_producing := eip_level_sequence_count_producing x + 1\<rparr>"

definition sent_frame :: "bool \<Rightarrow> cip_conn \<Rightarrow> cip_conn" where
  "sent_frame changed x = (if changed then (next_frame x)\<lparr>sequence_count_producing := sequence_count_producing x + 1\<rparr>
                           else next_frame x)"

lemma io_head_sent: "io_packet (sent_frame b x) = io_packet (next_frame x)"
  by (simp add: io_packet_def sent_frame_def)

lemma SendConnectedData_wire:
  assumes a: "assembly_of (producing_instance (conns s c)) = Some k" and p: "producing_socket (conns s c) = Some i"
    and b: "BeforeAssemblyDataSend (io_conn env) k (byte_array (assemblies s k)) = (changed, bs)"
    and fits: "length bs + 40 \<le> length (g_message_data_reply_buffer env)"
  shows "\<exists>r s'. SendConnectedData env c s = Some (Inr r, s') \<and> assemblies s' = (assemblies s)(k := (assemblies s k)\<lparr>byte_array := bs\<rparr>) \<and>
    io_log s' = io_log s @ [Datagram (Some i) (send_address (conns s c))
      (cpf_wire (with_data (io_payload (sent_frame changed (conns s c)) (g_run_idle_state s) bs)
        (io_packet (sent_frame changed (conns s c)))))]"
proof -
  let ?x = "sent_frame changed (conns s c)"
  define t where "t = conn_upd c (\<lambda>x. x\<lparr>eip_level_sequence_count_producing := eip_level_sequence_count_producing x + 1\<rparr>) s"
  define u where "u = (if changed then conn_upd c (\<lambda>x. x\<lparr>sequence_count_producing := sequence_count_producing x + 1\<rparr>)
      (set_bytes k bs t) else set_bytes k bs t)"
  have t: "conns t c = next_frame (conns s c)" by (simp add: t_def next_frame_def)
  have u: "conns u c = ?x" "g_run_idle_state u = g_run_idle_state s" "byte_array (assemblies u k) = bs"
      "io_log u = io_log s" "assemblies u = (assemblies s)(k := (assemblies s k)\<lparr>byte_array := bs\<rparr>)"
    by (auto simp: u_def t_def sent_frame_def next_frame_def set_bytes_def conn_upd_def)
  have at: "assemblies t = assemblies s" by (simp add: t_def)
  have sa: "send_address ?x = send_address (conns s c)" by (simp add: sent_frame_def next_frame_def)
  have "length (io_head (next_frame (conns s c))) \<le> 16"
    by (simp add: io_head_def io_packet_def Cpf_address_def address_wire_def AddressItem_def Let_def)
  then have "length (io_head (next_frame (conns s c))) + io_data_len ?x bs + 6 \<le>
      length (g_message_data_reply_buffer env)"
    using fits by (simp add: io_data_len_def)
  note w = io_datagram_wire [OF this, of "g_run_idle_state s"]
  have "io_datagram (g_message_data_reply_buffer env) (conns u c) (io_packet (conns t c)) (g_run_idle_state u)
      (byte_array (assemblies u k)) =
    Inr (cpf_wire (with_data (io_payload ?x (g_run_idle_state s) bs) (io_packet ?x)))"
    unfolding t u(1-3) w io_head_sent ..
  then show ?thesis
    using b u sa by (simp add: SendConnectedData_def a p Let_def t_def [symmetric] at u_def [symmetric] log_event_def)
qed

text \<open>A datagram that this end sends and the other accepts fills the assembly of the other.\<close>

definition io_frame :: "cip_conn \<Rightarrow> u32 \<Rightarrow> byte list \<Rightarrow> byte list" where
  "io_frame y run_idle bs = cpf_wire (with_data (io_payload y run_idle bs) (io_packet y))"

text \<open>A connection that is there for the frames of \<open>y\<close> from an address.\<close>

definition listens :: "cm_state \<Rightarrow> nat list \<Rightarrow> nat \<Rightarrow> sock_addr \<Rightarrow> cip_conn \<Rightarrow> bool" where
  "listens t xs d from y \<longleftrightarrow>
     List.find (\<lambda>x. consuming_connection_id (conns t x) = producing_connection_id y) xs = Some d \<and>
     Addr from = Addr (recv_address (conns t d)) \<and> accepts (conns t d) (frame_number y) \<and>
     agree y (conns t d) \<and> fresh_data y (conns t d)"

lemma io_frame_received:
  assumes inv: "cm_inv t xs" and len: "length bs < 65000"
    and d: "List.find (\<lambda>x. consuming_connection_id (conns t x) = producing_connection_id y) xs = Some d"
    and fa: "Addr from = Addr (recv_address (conns t d))"
  shows "RecvConnectedData env from (io_frame y h bs) t =
    (if accepts (conns t d) (frame_number y)
     then HandleReceivedIoConnectionData env d (io_payload y h bs)
            (conn_upd d (accept (CurrentUSecs32 t) (frame_number y)) t)
     else Some (Inr kEipStatusOk, t))"
proof -
  have "length (io_payload y h bs) < 65536" using len by (simp add: length_io_payload io_data_len_def)
  then obtain cpfd where "RecvConnectedData env from (io_frame y h bs) t = receive_frame env d cpfd t"
      "encap_sequence_number (address_item cpfd) = frame_number y" "di_data (data_item cpfd) = io_payload y h bs"
    using RecvConnectedData_wire [OF inv _ d fa] unfolding io_frame_def by blast
  then show ?thesis by (simp add: receive_frame_cases)
qed

lemma frame_delivers:
  assumes inv: "cm_inv t xs" and l: "listens t xs d from y" and bs: "bs \<noteq> []" "length bs < 65000"
    and j: "assembly_of (consuming_instance (conns t d)) = Some j" "length (byte_array (assemblies t j)) = length bs"
  shows "\<exists>r t'. RecvConnectedData env from (io_frame y h bs) t = Some (Inr r, t') \<and>
    assemblies t' = (assemblies t)(j := (assemblies t j)\<lparr>byte_array := bs\<rparr>)"
proof -
  let ?u = "conn_upd d (accept (CurrentUSecs32 t) (frame_number y)) t"
  have "\<exists>r t'. HandleReceivedIoConnectionData env d (io_payload y h bs) ?u = Some (Inr r, t') \<and>
      assemblies t' = (assemblies ?u)(j := (assemblies ?u j)\<lparr>byte_array := bs\<rparr>)"
    using l j bs(1) by (intro HandleReceived_delivers) (simp_all add: listens_def agree_def fresh_data_def)
  then show ?thesis
    using io_frame_received [OF inv bs(2), of y d "from" env h] l by (simp add: listens_def)
qed

section \<open>Frames that are repeated\<close>

definition eip_seq :: "cip_conn \<Rightarrow> u32 \<times> bool" where
  "eip_seq x = (eip_level_sequence_count_consuming x, eip_level_sequence_count_consuming_first x)"

lemma eip_seq_simps [simp]:
  "eip_seq (x\<lparr>consuming_header := h\<rparr>) = eip_seq x" "eip_seq (x\<lparr>sequence_count_consuming := q\<rparr>) = eip_seq x"
  by (simp_all add: eip_seq_def)

lemma conns_log [simp]: "conns (log_event e s) = conns s"
  by (simp add: log_event_def)

lemma RecvData_conns: "RecvData env x k data s = (ok, s') \<Longrightarrow> conns s' = conns s"
  by (auto simp: RecvData_def set_bytes_def Let_def split: if_splits)

lemma take_header_seq: "eip_seq (conns (take_header c h s) x) = eip_seq (conns s x)"
  by (simp add: take_header_def Let_def)

lemma receive_payload_cases:
  assumes "receive_payload env c inp s = Some (r, s')"
  shows "s' = s \<or> (\<exists>t x i k ok. (t = s \<or> (\<exists>h. t = take_header c h s)) \<and> RecvData env x k i t = (ok, s'))"
proof -
  have rd: "\<exists>x k ok. RecvData env x k i t = (ok, s')"
    if m: "map_option (\<lambda>k. let (ok, u) = RecvData env (conns t c) k i t
        in (Inr (if ok then kEipStatusOk else kEipStatusError), u)) (assembly_of (consuming_instance (conns t c))) =
      Some (r, s')" for t i
  proof -
    obtain k where k: "assembly_of (consuming_instance (conns t c)) = Some k" using m by auto
    obtain ok u where "RecvData env (conns t c) k i t = (ok, u)" by fastforce
    then show ?thesis using m k by auto
  qed
  show ?thesis
  proof (cases "inp = [] \<or> consuming_fmt (conns s c) \<noteq> kRealTimeFmt32BitHeader")
    case True
    then show ?thesis using assms rd [of s inp] by (fastforce simp: receive_payload_def split: if_splits)
  next
    case False
    show ?thesis
    proof (cases "get32 inp")
      case (Inl e)
      then show ?thesis using assms False by (simp add: receive_payload_def)
    next
      case (Inr hi)
      obtain h i where "hi = (h, i)" by fastforce
      then show ?thesis
        using assms False Inr rd [of "take_header c h s" i] by (simp add: receive_payload_def) metis
    qed
  qed
qed

lemma receive_payload_seq:
  assumes "receive_payload env c inp s = Some (r, s')"
  shows "eip_seq (conns s' x) = eip_seq (conns s x)"
  using receive_payload_cases [OF assms] RecvData_conns take_header_seq by metis

lemma HandleReceived_seq:
  assumes "HandleReceivedIoConnectionData env c inp s = Some (r, s')"
  shows "eip_seq (conns s' x) = eip_seq (conns s x)"
  using assms receive_payload_seq [where x = x]
  by (fastforce simp: HandleReceivedIoConnectionData_def split: if_splits sum.splits prod.splits)

text \<open>A datagram that arrives again changes nothing.\<close>

lemma repeated_frame:
  assumes inv: "cm_inv s xs" and d: "data_ready s xs" and fa: "Addr from \<noteq> 0"
    and first: "RecvConnectedData env from command s = Some (r, s')"
  shows "\<exists>r'. RecvConnectedData env from command s' = Some (r', s')"
proof (cases "s' = s")
  case True then show ?thesis using first by auto
next
  case False
  have tr: "traffic s s'" using RecvConnectedData_ok [OF inv d fa] first by (metis option.inject prod.inject)
  obtain n cpfd where p: "DeserializeCpf (Cpf_for_peer from 0) command = (n, cpfd)" by fastforce
  let ?id = "connection_identifier (address_item cpfd)" and ?q = "encap_sequence_number (address_item cpfd)"
  have ids: "consuming_connection_id (conns s' x) = consuming_connection_id (conns s x)" for x
    using trafficD(1) [OF tr, of x] as_data_simps(6) by metis
  have find: "List.find (\<lambda>x. consuming_connection_id (conns s' x) = i) xs =
      List.find (\<lambda>x. consuming_connection_id (conns s x) = i) xs" for i by (simp add: ids)
  note known = RecvConnectedData_def p consuming_id_find [OF inv]
  obtain c where c: "List.find (\<lambda>x. consuming_connection_id (conns s x) = ?id) xs = Some c"
      "Addr from = Addr (recv_address (conns s c))" "receive_frame env c cpfd s = Some (r, s')"
    using first False by (auto simp: known split: if_splits option.splits)
  have acc: "accepts (conns s c) ?q" using c(3) False by (auto simp: receive_frame_cases Let_def split: if_splits)
  then have "HandleReceivedIoConnectionData env c (di_data (data_item cpfd))
      (conn_upd c (accept (CurrentUSecs32 s) ?q) s) = Some (r, s')"
    using c(3) by (simp add: receive_frame_cases Let_def)
  then have "eip_seq (conns s' c) = (?q, False)" using HandleReceived_seq by (fastforce simp: eip_seq_def accept_def)
  then have "\<not> accepts (conns s' c) ?q" by (simp add: accepts_def eip_seq_def)
  then have "receive_frame env c cpfd s' = Some (Inr kEipStatusOk, s')" by (simp add: receive_frame_cases Let_def)
  moreover have "Addr from = Addr (recv_address (conns s' c))" using c(2) trafficD(6) [OF tr] by simp
  ultimately show ?thesis
    using c(1) first
    by (auto simp: RecvConnectedData_def p consuming_id_find [OF inv] consuming_id_find [OF traffic_inv(1) [OF tr inv]]
        find split: if_splits)
qed

text \<open>Class 0: the producer sends no number, the consumer reads zero, and only the first frame counts.\<close>

lemma class0_second_frame:
  assumes inv: "cm_inv t xs" and len: "length bs < 65000" "length bs' < 65000"
    and d: "List.find (\<lambda>x. consuming_connection_id (conns t x) = producing_connection_id y) xs = Some d"
    and fa: "Addr from = Addr (recv_address (conns t d))"
    and c0: "TransportClass (trigger y) = kConnTransportClass0" "TransportClass (trigger y') = kConnTransportClass0"
    and id: "producing_connection_id y' = producing_connection_id y"
    and j: "assembly_of (consuming_instance (conns t d)) = Some j"
    and fst: "eip_level_sequence_count_consuming_first (conns t d)"
    and r: "RecvConnectedData env from (io_frame y h bs) t = Some (r, t')"
  shows "RecvConnectedData env from (io_frame y' h' bs') t' = Some (Inr kEipStatusOk, t')"
proof -
  have q: "frame_number y = 0" "frame_number y' = 0" using c0 by (simp_all add: frame_number_def)
  have acc: "accepts (conns t d) 0" using fst by (simp add: accepts_def)
  let ?u = "conn_upd d (accept (CurrentUSecs32 t) 0) t"
  have h: "HandleReceivedIoConnectionData env d (io_payload y h bs) ?u = Some (r, t')"
    using r acc io_frame_received [OF inv len(1) d fa] by (simp add: q)
  have tu: "traffic t ?u" by (rule traffic_upd) (simp add: accept_def)
  have "assembly_of (consuming_instance (conns ?u d)) = Some j" using j by simp
  then have tr: "traffic t t'" using traffic_trans [OF tu] HandleReceived_ok h by (metis option.inject prod.inject)
  have "eip_seq (conns t' d) = (0, False)" using HandleReceived_seq [OF h, of d] by (simp add: eip_seq_def accept_def)
  then have na: "\<not> accepts (conns t' d) 0" by (simp add: accepts_def eip_seq_def)
  have "consuming_connection_id (conns t' x) = consuming_connection_id (conns t x)" for x
    using trafficD(1) [OF tr, of x] as_data_simps(6) by metis
  then have d': "List.find (\<lambda>x. consuming_connection_id (conns t' x) = producing_connection_id y') xs = Some d"
    using d id by simp
  have fa': "Addr from = Addr (recv_address (conns t' d))" using fa trafficD(6) [OF tr] by simp
  show ?thesis using io_frame_received [OF traffic_inv(1) [OF tr inv] len(2) d' fa'] na by (simp add: q)
qed

section \<open>The watchdog\<close>

lemma accepted_timer:
  "InactivityWatchDogTimerUSecs (now + later) (accept now q x) = sint (RxTimeoutUSecs x - later)"
  by (simp add: InactivityWatchDogTimerUSecs_def timer_left_def accept_def SetInactivityWatchDogTimerUSecs_def)

lemma sint_diff_pos:
  assumes "unat (r :: u32) < 2 ^ 31" and "unat l < unat r"
  shows "0 < sint (r - l)"
proof -
  have lr: "l \<le> r" using assms(2) by (simp add: word_le_nat_alt)
  have "unat (r - l) < 2 ^ 31" "0 < unat (r - l)" using assms unat_sub [OF lr] by simp_all
  then have "unat (r - l) < 2147483648" "0 < unat (r - l)" by simp_all
  then have "int (unat (r - l)) < 2147483648" "0 < int (unat (r - l))" by linarith+
  then have "uint (r - l) < 2 ^ 31" "0 < uint (r - l)" by simp_all
  then show ?thesis by (simp add: sint_uint signed_take_bit_int_eq_self)
qed

lemma sint_negative:
  assumes "\<not> unat (w :: u32) < 2 ^ 31"
  shows "sint w < 0"
proof -
  have i: "int (unat w) = uint w" by simp
  have "2147483648 \<le> unat w" using assms by simp
  then have "2147483648 \<le> uint w" using i by linarith
  moreover have "uint w < 4294967296" using uint_lt2p [of w] by simp
  ultimately have "uint w div 2147483648 = 1" by linarith
  then have "bit (uint w) 31" by (simp add: bit_iff_odd)
  then have "signed_take_bit 31 (uint w) < 0" by (simp add: signed_take_bit_negative_iff)
  then show ?thesis by (simp add: sint_uint)
qed

lemma sint_nonpos: "sint (w :: u32) \<le> 0 \<longleftrightarrow> w = 0 \<or> 2 ^ 31 \<le> unat w"
proof (cases "unat w < 2 ^ 31")
  case True
  have p: "0 < sint w" if "w \<noteq> 0" using sint_diff_pos [of w 0] True that by (simp add: unat_gt_0)
  show ?thesis
  proof (cases "w = 0")
    case False then show ?thesis using True p by force
  qed simp
next
  case False
  then show ?thesis using sint_negative [of w] by force
qed

end
