(* ===== verification/Conn_System.thy ===== *)
theory Conn_System
  imports Io_Exchange
begin

text \<open>
  The connection manager as a state machine: a step is a request of a client, a datagram, a tick of the periodic
  work, or a call of the application. Reachable states start from a device that has no connection.

  The invariant of theory \<open>Conn_Close\<close> and that of the tables hold in every reachable state, and with them: no two
  connections have the same identity, and no output assembly has two exclusive owners.
\<close>

section \<open>Data in any state\<close>

lemma receive_payload_traffic:
  assumes "receive_payload env c inp s = Some (r, s')"
  shows "traffic s s'"
  using receive_payload_cases [OF assms] RecvData_traffic traffic_trans [OF take_header_traffic] traffic_refl by metis

lemma HandleReceived_traffic:
  assumes "HandleReceivedIoConnectionData env c inp s = Some (r, s')"
  shows "traffic s s'"
proof -
  have up: "traffic s (conn_upd c (\<lambda>x. x\<lparr>sequence_count_consuming := q\<rparr>) s)" for q by (rule traffic_upd) simp
  show ?thesis
    using assms receive_payload_traffic traffic_trans [OF up]
    by (fastforce simp: HandleReceivedIoConnectionData_def split: if_splits sum.splits prod.splits)
qed

lemma RecvConnectedData_traffic:
  assumes inv: "cm_inv s xs" and r: "RecvConnectedData env from command s = Some (r, s')"
  shows "traffic s s'"
proof -
  obtain n cpfd where p: "DeserializeCpf (Cpf_for_peer from 0) command = (n, cpfd)" by fastforce
  have fr: "traffic s s'" if "receive_frame env c cpfd s = Some (r, s')" for c
  proof -
    have "traffic s (conn_upd c (accept n q) s)" for n q by (rule traffic_upd) (simp add: accept_def)
    then have "HandleReceivedIoConnectionData env c i (conn_upd c (accept n q) s) = Some (r, s') \<Longrightarrow> traffic s s'"
      for i n q using HandleReceived_traffic traffic_trans by blast
    then show ?thesis using that by (auto simp: receive_frame_cases Let_def split: if_splits)
  qed
  show ?thesis
    using r fr by (auto simp: RecvConnectedData_def p consuming_id_find [OF inv] split: if_splits option.splits)
qed

lemma TriggerConnections_traffic:
  assumes "TriggerConnections out inp s = Some (r, s')"
  shows "traffic s s'"
proof -
  have up: "traffic s (conn_upd c (\<lambda>x. SetTransmissionTriggerTimerUSecs n (f x) x) s)" for c n f
    by (rule traffic_upd) simp
  obtain conn where "find_active (\<lambda>x. out = consuming_point (as_data x) \<and> inp = producing_point (as_data x)) s = Some conn"
    using assms by (auto simp: TriggerConnections_def)
  then show ?thesis
    using assms up by (cases conn) (auto simp: TriggerConnections_def split: if_splits)
qed

lemma set_assembly_traffic:
  "set_assembly_data_attr env k data r s = Some (r', s') \<Longrightarrow> traffic s s'"
  by (auto simp: set_assembly_data_attr_def Let_def split: if_splits)

section \<open>Configuration\<close>

text \<open>A new entry gets new objects.\<close>

lemma new_CipConn_fields:
  "off_links (new_CipConn conf g now n)" "state (new_CipConn conf g now n) = kConnStateNonExistent"
  "consuming_socket (new_CipConn conf g now n) = None" "producing_socket (new_CipConn conf g now n) = None"
  by (simp_all add: new_CipConn_def Conn_Clear_fields)

definition same_on :: "nat list \<Rightarrow> cm_state \<Rightarrow> cm_state \<Rightarrow> bool" where
  "same_on xs s s' \<longleftrightarrow> (\<forall>x \<in> set xs. conns s' x = conns s x) \<and>
     (\<forall>x. x \<notin> set xs \<longrightarrow> off_links (conns s' x) \<and> state (conns s' x) = kConnStateNonExistent \<and>
        consuming_socket (conns s' x) = None \<and> producing_socket (conns s' x) = None) \<and>
     head s' = head s \<and> udp s' = udp s"

lemma same_on_inv:
  assumes inv: "cm_inv s xs" and so: "same_on xs s s'"
  shows "cm_inv s' xs"
proof -
  have off: "off_links (conns s x)" if "x \<notin> set xs" for x using active_off_links [OF cm_invD(3) [OF inv] that] .
  have links: "next_conn (conns s' x) = next_conn (conns s x) \<and> prev_conn (conns s' x) = prev_conn (conns s x) \<and>
      on_list (conns s' x) = on_list (conns s x)" for x
    using so off by (cases "x \<in> set xs") (auto simp: same_on_def off_links_def)
  have "active s' xs = active s xs" using so links by (intro active_cong) (auto simp: same_on_def)
  moreover have "held s' xs = held s xs" using so by (intro held_cong) (simp add: same_on_def)
  moreover have "masters (conns s') xs" using so by (intro masters_same [OF cm_invD(2) [OF inv]]) (simp add: same_on_def)
  moreover have "state (conns s' c) = (if c \<in> set xs then kConnStateEstablished else kConnStateNonExistent)" for c
    using so cm_invD(5) [OF inv, of c] by (auto simp: same_on_def)
  ultimately show ?thesis using inv so by (auto simp: cm_inv_def core_def same_on_def)
qed

lemma construct_slots:
  assumes inv: "cm_inv s xs" and p: "pools_ok s xs" and c: "construct env k s = (new, s')"
  shows "same_on xs s s'" "new = [constructed_count s ..< constructed_count s + k]"
    "constructed_count s' = constructed_count s + k" "tables s' = (s_exclusive_owner s, s_input_only s,
       s_listen_only s, g_explicit_connections s, constructed_count s + k)"
proof -
  have old: "x < constructed_count s" if "x \<in> set xs" for x using p that by (auto simp: pools_ok_def)
  have free: "off_links (conns s x) \<and> state (conns s x) = kConnStateNonExistent \<and>
      consuming_socket (conns s x) = None \<and> producing_socket (conns s x) = None" if "x \<notin> set xs" for x
    using active_off_links [OF cm_invD(3) [OF inv] that] cm_invD(1) [OF inv] that by (simp add: core_def)
  show "same_on xs s s'"
    using c old free new_CipConn_fields by (auto simp: construct_def same_on_def Let_def) (meson leD old)+
  show "new = [constructed_count s ..< constructed_count s + k]" "constructed_count s' = constructed_count s + k"
    "tables s' = (s_exclusive_owner s, s_input_only s, s_listen_only s, g_explicit_connections s, constructed_count s + k)"
    using c by (auto simp: construct_def tables_def Let_def)
qed

lemma pools_add:
  assumes p: "pools_ok s xs" and so: "same_on xs s s'" and new: "distinct new"
    "\<And>c. c \<in> set new \<Longrightarrow> constructed_count s \<le> c \<and> c < constructed_count s'"
    and cnt: "constructed_count s \<le> constructed_count s'"
    and slots: "mset (all_slots s') = mset (all_slots s) + mset new"
    and eo: "s_exclusive_owner s' = s_exclusive_owner s \<or>
      (\<exists>r c. s_exclusive_owner s' = s_exclusive_owner s @ [r] \<and> connection_slots r = [c] \<and> c \<in> set new)"
  shows "pools_ok s' xs"
proof -
  have old: "c < constructed_count s" if "c \<in> set (all_slots s)" for c using p that by (auto simp: pools_ok_def)
  have st: "set (all_slots s') = set (all_slots s) \<union> set new" using slots by (metis set_mset_mset set_mset_union)
  have xs: "set xs \<subseteq> set (all_slots s)" using p by (simp add: pools_ok_def)
  have "distinct (all_slots s @ new)" using p new old by (fastforce simp: pools_ok_def)
  then have "distinct (all_slots s')" using slots by (metis mset_append mset_eq_imp_distinct_iff)
  moreover have "\<exists>c. connection_slots r = [c] \<and> (c \<in> set xs \<longrightarrow> consuming_point (as_data (conns s' c)) = output_assembly r)"
    if r: "r \<in> set (s_exclusive_owner s')" for r
  proof (cases "r \<in> set (s_exclusive_owner s)")
    case True
    then obtain c where "connection_slots r = [c]"
        "c \<in> set xs \<Longrightarrow> consuming_point (as_data (conns s c)) = output_assembly r"
      using p unfolding pools_ok_def by blast
    then show ?thesis using so by (auto simp: same_on_def)
  next
    case False
    then obtain c where c: "connection_slots r = [c]" "c \<in> set new" using eo r by auto
    then have "c \<notin> set xs" using xs old new(2) by fastforce
    then show ?thesis using c by auto
  qed
  moreover have "c < constructed_count s'" if "c \<in> set (all_slots s')" for c
    using that st old new(2) cnt by fastforce
  ultimately show ?thesis using st xs by (auto simp: pools_ok_def)
qed

definition inv_pools :: "nat list \<Rightarrow> cm_state \<Rightarrow> bool" where
  "inv_pools xs s \<longleftrightarrow> cm_inv s xs \<and> pools_ok s xs"

text \<open>Assembly roles are data.\<close>

lemma roles_traffic: "traffic s (snd (with_roles env out inp cfg (b, s)))"
  by (auto simp: with_roles_def AddAssemblyConnectionPointRoles_def AddAssemblyConnectionPointRole_def traffic_def
      tables_def split: option.splits)

lemma table_append: "table_slots (rs @ [r]) = table_slots rs @ connection_slots r"
  by (simp add: table_slots_def)

lemma expect_adds:
  assumes ip: "inv_pools xs s" and e: "expect env out inp cfg k s = (r, t)"
    and ad: "conns s' = conns t" "head s' = head t" "udp s' = udp t" "constructed_count s' = constructed_count t"
    and tab: "mset (all_slots s') = mset (all_slots t) + mset (connection_slots r)"
    and eo: "s_exclusive_owner s' = s_exclusive_owner t \<or>
      s_exclusive_owner s' = s_exclusive_owner t @ [r] \<and> k = 1"
  shows "inv_pools xs s'"
proof -
  have inv: "cm_inv s xs" and p: "pools_ok s xs" using ip by (simp_all add: inv_pools_def)
  obtain new where c: "construct env k s = (new, t)" "connection_slots r = new"
    using e by (auto simp: expect_def split: prod.splits)
  note cs = construct_slots [OF inv p c(1)]
  have so: "same_on xs s s'" using cs(1) ad by (simp add: same_on_def)
  have al: "all_slots t = all_slots s" "s_exclusive_owner t = s_exclusive_owner s"
    using cs(4) by (simp_all add: tables_def all_slots_def)
  have "pools_ok s' xs"
  proof (rule pools_add [OF p so, of new])
    show "s_exclusive_owner s' = s_exclusive_owner s \<or>
        (\<exists>r c. s_exclusive_owner s' = s_exclusive_owner s @ [r] \<and> connection_slots r = [c] \<and> c \<in> set new)"
      using eo al c(2) cs(2) by auto
  qed (use cs(2,3) ad(4) tab al c(2) in auto)
  then show ?thesis using same_on_inv [OF inv so] by (simp add: inv_pools_def)
qed

lemma AddExpectation_adds:
  assumes ip: "inv_pools xs s"
  shows "inv_pools xs (snd (AddExpectation_EO env out inp cfg s))"
    and "inv_pools xs (snd (AddExpectation_IO env out inp cfg s))"
    and "inv_pools xs (snd (AddExpectation_LO env out inp cfg s))"
proof -
  obtain r t where e: "expect env out inp cfg 1 s = (r, t)" by fastforce
  show "inv_pools xs (snd (AddExpectation_EO env out inp cfg s))"
    unfolding AddExpectation_EO_def e using ip
    by (auto simp: all_slots_def table_append intro!: expect_adds [OF ip e])
  obtain r t where e: "expect env out inp cfg (NUM_INPUT_ONLY_CONNS_PER_CON_PATH env) s = (r, t)" by fastforce
  show "inv_pools xs (snd (AddExpectation_IO env out inp cfg s))"
    using ip by (auto simp: AddExpectation_IO_def e all_slots_def table_append intro!: expect_adds [OF ip e])
  obtain r t where e: "expect env out inp cfg (NUM_LISTEN_ONLY_CONNS_PER_CON_PATH env) s = (r, t)" by fastforce
  show "inv_pools xs (snd (AddExpectation_LO env out inp cfg s))"
    using ip by (auto simp: AddExpectation_LO_def e all_slots_def table_append intro!: expect_adds [OF ip e])
qed

lemma Configure_inv:
  assumes ip: "inv_pools xs s"
  shows "inv_pools xs (snd (ConfigureExclusiveOwnerConnectionPoint env out inp cfg s))"
    and "inv_pools xs (snd (ConfigureInputOnlyConnectionPoint env out inp cfg s))"
    and "inv_pools xs (snd (ConfigureListenOnlyConnectionPoint env out inp cfg s))"
proof -
  have r: "inv_pools xs (snd bs) \<Longrightarrow> inv_pools xs (snd (with_roles env out inp cfg bs))" for bs
    using traffic_inv [OF roles_traffic] by (cases bs) (simp add: inv_pools_def)
  show "inv_pools xs (snd (ConfigureExclusiveOwnerConnectionPoint env out inp cfg s))"
    "inv_pools xs (snd (ConfigureInputOnlyConnectionPoint env out inp cfg s))"
    "inv_pools xs (snd (ConfigureListenOnlyConnectionPoint env out inp cfg s))"
    unfolding ConfigureExclusiveOwnerConnectionPoint_def ConfigureInputOnlyConnectionPoint_def
      ConfigureListenOnlyConnectionPoint_def
    by (rule r, rule AddExpectation_adds [OF ip])+
qed

section \<open>The invariant of the device\<close>

text \<open>Identities are unique, and so are the owners of an output assembly.\<close>

definition one_owner :: "(nat \<Rightarrow> cip_conn) \<Rightarrow> nat list \<Rightarrow> bool" where
  "one_owner h xs \<longleftrightarrow> (\<forall>x \<in> set xs. \<forall>y \<in> set xs.
     instance_type (h x) = kConnInstanceTypeIoExclusiveOwner \<longrightarrow>
     instance_type (h y) = kConnInstanceTypeIoExclusiveOwner \<longrightarrow>
     consuming_point (as_data (h x)) = consuming_point (as_data (h y)) \<longrightarrow> x = y)"

definition own_triads :: "(nat \<Rightarrow> cip_conn) \<Rightarrow> nat list \<Rightarrow> bool" where
  "own_triads h xs \<longleftrightarrow> inj_on (\<lambda>x. triad (h x)) (set xs)"

definition device_inv :: "nat list \<Rightarrow> cm_state \<Rightarrow> bool" where
  "device_inv xs s \<longleftrightarrow> inv_pools xs s \<and> own_triads (conns s) xs \<and> one_owner (conns s) xs"

lemma fewer:
  assumes "own_triads (conns s) xs" and "one_owner (conns s) xs" and "set ys \<subseteq> set xs"
    and "\<And>x. x \<in> set ys \<Longrightarrow> as_data (conns s' x) = as_data (conns s x) \<and> instance_type (conns s' x) = instance_type (conns s x)"
  shows "own_triads (conns s') ys" and "one_owner (conns s') ys"
proof -
  have tr: "triad (conns s' x) = triad (conns s x)" if "x \<in> set ys" for x using assms(4) [OF that] triad_of_data by blast
  show "own_triads (conns s') ys"
    using inj_on_subset [OF assms(1) [unfolded own_triads_def] assms(3)] tr by (simp add: own_triads_def inj_on_def)
  show "one_owner (conns s') ys" using assms(2,3,4) unfolding one_owner_def by (metis subsetD)
qed

lemma device_fewer:
  assumes d: "device_inv xs s" and i: "cm_inv s' ys" "pools_ok s' ys" "set ys \<subseteq> set xs"
    and same: "\<And>x. as_data (conns s' x) = as_data (conns s x) \<and> instance_type (conns s' x) = instance_type (conns s x)"
  shows "device_inv ys s'"
  using d i fewer [of s xs ys s'] same by (simp add: device_inv_def inv_pools_def)

lemma device_traffic: "device_inv xs s \<Longrightarrow> traffic s s' \<Longrightarrow> device_inv xs s'"
  by (rule device_fewer [of xs s]) (auto simp: device_inv_def inv_pools_def traffic_inv trafficD)

lemma device_frame:
  assumes d: "device_inv xs s" and f: "frame s s'" and i: "cm_inv s' ys" and sub: "set ys \<subseteq> set xs"
  shows "device_inv ys s'"
proof (rule device_fewer [OF d i _ sub])
  show "pools_ok s' ys" using d pools_ok_frame [OF _ f sub] by (simp add: device_inv_def inv_pools_def)
qed (use frameD [OF f] in auto)

text \<open>One more connection.\<close>

lemma device_open:
  assumes d: "device_inv xs s" and e: "open_effect env is_large data r cpf s xs (res, r', cpf', s')"
  shows "\<exists>ys. device_inv ys s'"
proof -
  obtain gen p where g: "opening_outcome s xs (tcp_peer cpf) p gen s'"
      "gen = kCipErrorSuccess \<Longrightarrow> \<forall>x \<in> set xs. triad (conns s x) \<noteq> triad p"
    using e by (auto simp: open_effect_def)
  show ?thesis
  proof (cases "gen = kCipErrorSuccess")
    case False
    then have "cm_inv s' xs" "pools_ok s' xs" "\<And>x. x \<in> set xs \<Longrightarrow> conns s' x = conns s x"
      using g(1) by (simp_all add: opening_outcome_def)
    then have "device_inv xs s'" using d fewer [of s xs xs s'] by (simp add: device_inv_def inv_pools_def)
    then show ?thesis by blast
  next
    case True
    then obtain k where k: "k \<notin> set xs" "cm_inv s' (k # xs)" "pools_ok s' (k # xs)" "triad (conns s' k) = triad p"
        "instance_type (conns s' k) = kConnInstanceTypeIoExclusiveOwner \<Longrightarrow> \<forall>x \<in> set xs.
           consuming_point (as_data (conns s x)) \<noteq> consuming_point (as_data (conns s' k))"
        "\<forall>x \<in> set xs. fixed_part (conns s' x) = fixed_part (conns s x)"
      using g(1) by (auto simp: opening_outcome_def)
    have same: "as_data (conns s' x) = as_data (conns s x)" "instance_type (conns s' x) = instance_type (conns s x)"
      if "x \<in> set xs" for x using k(6) that by (auto simp: fixed_part_def)
    have old: "own_triads (conns s') xs" "one_owner (conns s') xs"
      using fewer [of s xs xs s'] d same by (simp_all add: device_inv_def)
    have tr: "triad (conns s' x) = triad (conns s x)" if "x \<in> set xs" for x
      using same(1) [OF that] triad_of_data by blast
    have "own_triads (conns s') (k # xs)"
      using old(1) k(1,4) g(2) [OF True] tr by (force simp: own_triads_def)
    moreover have "one_owner (conns s') (k # xs)"
      using old(2) k(5) same(1) unfolding one_owner_def by (metis (no_types, lifting) set_ConsD)
    ultimately show ?thesis using k(2,3) by (auto simp: device_inv_def inv_pools_def)
  qed
qed

section \<open>Steps and reachable states\<close>

inductive device_step :: "io_env \<Rightarrow> cm_state \<Rightarrow> cm_state \<Rightarrow> bool" for env where
  open_step: "forward_open (io_conn env) is_large data r cpf s = Some (res, r', cpf', s') \<Longrightarrow> device_step env s s'"
| close_step: "forward_close_service (io_conn env) data r cpf s = Some (res, r', cpf', s') \<Longrightarrow> device_step env s s'"
| class3_step: "CloseClass3Connections handle s = Some s' \<Longrightarrow> device_step env s s'"
| shutdown_step: "CloseAllConnections s = Some s' \<Longrightarrow> device_step env s s'"
| datagram_step: "RecvConnectedData (io_conn env) addr data s = Some (res', s') \<Longrightarrow> device_step env s s'"
| tick_step: "traffic s (app s) \<Longrightarrow> ManageConnections env app s = Some (res', s') \<Longrightarrow> device_step env s s'"
| trigger_step: "TriggerConnections out inp s = Some (st, s') \<Longrightarrow> device_step env s s'"
| attribute_step: "set_assembly_data_attr (io_conn env) i data r s = Some (r', s') \<Longrightarrow> device_step env s s'"
| owner_step: "device_step env s (snd (ConfigureExclusiveOwnerConnectionPoint (io_conn env) out inp cfg s))"
| input_step: "device_step env s (snd (ConfigureInputOnlyConnectionPoint (io_conn env) out inp cfg s))"
| listen_step: "device_step env s (snd (ConfigureListenOnlyConnectionPoint (io_conn env) out inp cfg s))"
| clock_step: "device_step env s (s\<lparr>g_current_usecs := t\<rparr>)"
| session_step: "device_step env s (s\<lparr>session := m\<rparr>)"

text \<open>A device at the start: the objects are cleared, the pool of explicit connections is there.\<close>

definition initial_device :: "user_conf \<Rightarrow> nat \<Rightarrow> u16 \<Rightarrow> (int \<Rightarrow> assembly) \<Rightarrow> session_mgr \<Rightarrow> cm_state" where
  "initial_device conf n unique_id asm m =
     \<lparr>head = None, conns = new_CipConn conf (replicate 7 0) 0, udp = initial_udp, session = m,
      ids = initial_ids unique_id, g_current_usecs = 0, assemblies = asm, s_exclusive_owner = [], s_input_only = [],
      s_listen_only = [], g_explicit_connections = [0..<n], constructed_count = n, g_run_idle_state = 0, io_log = []\<rparr>"

inductive reachable :: "io_env \<Rightarrow> cm_state \<Rightarrow> cm_state \<Rightarrow> bool" for env s0 where
  start: "reachable env s0 s0"
| step: "reachable env s0 s \<Longrightarrow> device_step env s s' \<Longrightarrow> reachable env s0 s'"

inductive_cases device_stepE: "device_step env s s'"

lemma initial_device_inv: "device_inv [] (initial_device conf n unique_id asm m)"
proof -
  have "cm_inv (initial_device conf n unique_id asm m) []"
    using new_CipConn_fields [of conf "replicate 7 0" 0]
    by (simp add: cm_inv_def core_def active_def off_links_def masters_def initial_device_def held_def balanced_initial)
  moreover have "pools_ok (initial_device conf n unique_id asm m) []"
    by (simp add: pools_ok_def all_slots_def table_slots_def initial_device_def)
  ultimately show ?thesis by (simp add: device_inv_def inv_pools_def own_triads_def one_owner_def)
qed

lemma left_after_subset: "set (left_after h xs c) \<subseteq> set xs"
  using left_after_sub [of h xs c] by auto

lemma device_configure:
  assumes d: "device_inv xs s" and ip: "inv_pools xs s'" and so: "\<And>x. x \<in> set xs \<Longrightarrow> conns s' x = conns s x"
  shows "device_inv xs s'"
  using d ip fewer [of s xs xs s'] so by (simp add: device_inv_def)

lemma configure_conns:
  assumes ip: "inv_pools xs s" and x: "x \<in> set xs"
  shows "conns (snd (ConfigureExclusiveOwnerConnectionPoint env out inp cfg s)) x = conns s x"
    and "conns (snd (ConfigureInputOnlyConnectionPoint env out inp cfg s)) x = conns s x"
    and "conns (snd (ConfigureListenOnlyConnectionPoint env out inp cfg s)) x = conns s x"
proof -
  have "x < constructed_count s" using ip x by (auto simp: inv_pools_def pools_ok_def)
  then have e: "conns (snd (expect env out inp cfg k s)) x = conns s x" for k
    by (simp add: expect_def construct_def Let_def)
  have r: "conns (snd (with_roles env out inp cfg bs)) = conns (snd bs)" for bs
    by (auto simp: with_roles_def AddAssemblyConnectionPointRoles_def AddAssemblyConnectionPointRole_def
        split: prod.split option.splits)
  show "conns (snd (ConfigureExclusiveOwnerConnectionPoint env out inp cfg s)) x = conns s x"
    "conns (snd (ConfigureInputOnlyConnectionPoint env out inp cfg s)) x = conns s x"
    "conns (snd (ConfigureListenOnlyConnectionPoint env out inp cfg s)) x = conns s x"
    using e by (auto simp: ConfigureExclusiveOwnerConnectionPoint_def ConfigureInputOnlyConnectionPoint_def
        ConfigureListenOnlyConnectionPoint_def r AddExpectation_EO_def AddExpectation_IO_def AddExpectation_LO_def
        split: prod.split) (metis snd_conv)+
qed

lemma cm_inv_other [simp]:
  "cm_inv (s\<lparr>g_current_usecs := t\<rparr>) xs = cm_inv s xs" "cm_inv (s\<lparr>session := m\<rparr>) xs = cm_inv s xs"
  by (rule cm_inv_cong; simp)+

lemma device_other:
  "device_inv xs s \<Longrightarrow> device_inv xs (s\<lparr>g_current_usecs := t\<rparr>)" "device_inv xs s \<Longrightarrow> device_inv xs (s\<lparr>session := m\<rparr>)"
  by (simp_all add: device_inv_def inv_pools_def pools_ok_def all_slots_def)

lemma device_step_inv:
  assumes wf: "wf_registry (registered (io_conn env))" and d: "device_inv xs s" and st: "device_step env s s'"
  shows "\<exists>ys. device_inv ys s'"
proof -
  have ip: "inv_pools xs s" and inv: "cm_inv s xs" and p: "pools_ok s xs"
    using d by (auto simp: device_inv_def inv_pools_def)
  show ?thesis
    using st
  proof cases
    case (open_step is_large data r cpf res r' cpf')
    then show ?thesis using forward_open_ok [OF inv p wf, of is_large data r cpf] device_open [OF d] by fastforce
  next
    case (close_step data r cpf res r' cpf')
    then have "close_effect (io_conn env) data cpf s xs s'" using forward_close_ok [OF inv, of "io_conn env" data r cpf] by auto
    then show ?thesis using d device_frame [OF d _ _ left_after_subset] by (auto simp: close_effect_def)
  next
    case (class3_step handle)
    then show ?thesis using CloseClass3Connections_returns [OF inv, of handle] device_frame [OF d] by fastforce
  next
    case shutdown_step
    then show ?thesis using CloseAllConnections_inv [OF inv] device_frame [OF d, of s' "[]"] by auto
  next
    case (datagram_step addr data res')
    then show ?thesis using RecvConnectedData_traffic [OF inv] device_traffic [OF d] by blast
  next
    case (tick_step app res')
    note m = ManageConnections_cases [where app = app, OF inv p tick_step(1), of env]
    show ?thesis using m tick_step(2) device_fewer [OF d] by auto
  next
    case (trigger_step out inp st)
    then show ?thesis using TriggerConnections_traffic device_traffic [OF d] by blast
  next
    case (attribute_step i data r r')
    then show ?thesis using set_assembly_traffic device_traffic [OF d] by blast
  next
    case (owner_step out inp cfg)
    then show ?thesis
      using device_configure [OF d Configure_inv(1) [OF ip]] configure_conns(1) [OF ip] by blast
  next
    case (input_step out inp cfg)
    then show ?thesis
      using device_configure [OF d Configure_inv(2) [OF ip]] configure_conns(2) [OF ip] by blast
  next
    case (listen_step out inp cfg)
    then show ?thesis
      using device_configure [OF d Configure_inv(3) [OF ip]] configure_conns(3) [OF ip] by blast
  next
    case (clock_step t)
    then show ?thesis using device_other(1) [OF d] by blast
  next
    case (session_step m)
    then show ?thesis using device_other(2) [OF d] by blast
  qed
qed

lemma reachable_inv:
  assumes wf: "wf_registry (registered (io_conn env))" and d: "device_inv [] s0" and r: "reachable env s0 s"
  shows "\<exists>xs. device_inv xs s"
  using r
proof induction
  case start then show ?case using d by blast
next
  case (step s s') then show ?case using device_step_inv [OF wf] by blast
qed

end
