(* ===== verification/Example_Device.thy ===== *)
theory Example_Device
  imports Conn_System
begin

unbundle bit_operations_syntax

text \<open>
  A small device for the examples: an input assembly 100 and an output assembly 150 of four bytes each, a configuration
  assembly 151 of two bytes, the empty assemblies 152 and 153 for heartbeats, one exclusive owner, two input only and two listen only connections, and two class 3
  connections. Its network takes every socket and every datagram, and its application accepts all data.
\<close>

declare find_conn.simps [code] walk.simps [code] close_exec.simps [code] CloseAllConnections.simps [code]
  close_class3.simps [code] manage_active.simps [code]

definition demo_conf :: user_conf where
  "demo_conf = \<lparr>produced_run_idle = False, consumed_run_idle = True, timer_tick_usecs = 1000,
     conf_vendor_id = 1, conf_serial_number = 123\<rparr>"

definition demo_assembly_class :: cip_class where
  "demo_assembly_class = \<lparr>class_id = 4, class_name = ''Assembly'', revision = 2, clss_getable_all_mask = 0,
     inst_getable_all_mask = 0, instances = [100, 150, 151, 152, 153], services_I = [], services_C = [],
     attributes_I = [], attributes_C = []\<rparr>"

definition demo_env :: io_env where
  "demo_env = \<lparr>
     io_conn = \<lparr>env_conf = demo_conf,
       env_os = \<lparr>createSocket = (\<lambda>m a. 50 + int (length (m_sockets m))), add_membership = (\<lambda>m a. True)\<rparr>,
       registered = [4 \<mapsto> demo_assembly_class],
       this_device = \<lparr>id_vendor_id = 1, id_device_type = 12, id_product_code = 65, id_major = 2, id_minor = 1\<rparr>,
       NUM_EXCLUSIVE_OWNER_CONNS = 1, NUM_INPUT_ONLY_CONNS = 1, NUM_INPUT_ONLY_CONNS_PER_CON_PATH = 2,
       NUM_LISTEN_ONLY_CONNS = 1, NUM_LISTEN_ONLY_CONNS_PER_CON_PATH = 2,
       g_my_io_udp_port = kEIP_IoUdpPort, kCIPsterFanucScanner = False, starting_multicast_address = 0xEFC00001,
       AfterAssemblyDataReceived = (\<lambda>k mode bs n. True), BeforeAssemblyDataSend = (\<lambda>k bs. (True, bs)),
       foreign_size = (\<lambda>i. 0)\<rparr>,
     sendto = (\<lambda>k a bs. True),
     g_message_data_reply_buffer = replicate 100 0\<rparr>"

definition demo_assemblies :: "int \<Rightarrow> assembly" where
  "demo_assemblies k = \<lparr>byte_array = (if k = 100 then [1, 2, 3, 4] else if k = 150 then [0, 0, 0, 0]
       else if k = 151 then [0, 0] else []),
     connection_point_roles = 0\<rparr>"

definition demo_start :: cm_state where
  "demo_start = initial_device demo_conf 2 0x1234 demo_assemblies initial_sessions"

text \<open>The connections of the application: an owner of 150 and 100, with input only and listen only partners.\<close>

definition demo_device :: cm_state where
  "demo_device =
    (let env = io_conn demo_env;
         s = snd (ConfigureExclusiveOwnerConnectionPoint env 150 100 151 demo_start);
         s = snd (ConfigureInputOnlyConnectionPoint env 152 100 151 s)
     in snd (ConfigureListenOnlyConnectionPoint env 153 100 151 s))"

text \<open>A forward open request: the serial number of the connection, the transport, the two parameter words, and the path
  of the configuration, the consumed and the produced assembly, with two bytes of configuration data.\<close>

definition demo_open :: "u8 \<Rightarrow> u8 \<Rightarrow> byte list \<Rightarrow> byte list \<Rightarrow> u8 \<Rightarrow> byte list" where
  "demo_open serial trig consuming producing out =
     [10, 14] @ [0, 0, 0, 0] @ [0x11, 0, 0x22, 0] @ [serial, 0] @ [5, 0] @ [9, 0, 0, 0] @ [1, 0, 0, 0] @
     [0x10, 0x27, 0, 0] @ consuming @ [0x10, 0x27, 0, 0] @ producing @ [trig, 6] @
     [0x20, 4, 0x24, 151, 0x24, out, 0x24, 100, 0x80, 1, 0xAB, 0xCD]"

definition demo_response :: mr_response where
  "demo_response = CipMessageRouterResponse (writer_on (replicate 60 0))"

definition demo_peer :: cpf where
  "demo_peer = Cpf_for_peer (SockAddr 44818 0x0A000001) 0"


text \<open>The device with three connections: the exclusive owner of 150 (connection 2), an input only connection (3) that
  shares the multicast production of 100, and a class 3 connection on the session 7 (connection 0).\<close>

definition demo_assembly_path :: "u32 \<Rightarrow> app_path" where
  "demo_assembly_path i = CipAppPath (replicate 7 0) 4 i 0"

definition demo_data :: "u8 \<Rightarrow> u16 \<Rightarrow> u32 \<Rightarrow> u32 \<Rightarrow> conn_data" where
  "demo_data cls serial out cid = (ConnectionData demo_conf (replicate 7 0))\<lparr>
     connection_serial_number := serial, originator_vendor_id := 5, originator_serial_number := 9,
     trigger := TransportTrigger False 0 cls, timeout_multiplier_value := 1,
     consuming_RPI_usecs := 10000, producing_RPI_usecs := 10000,
     consuming_ncp := NetCnParams (if out = 150 then 10 else 2) True kIOConnTypePointToPoint 0,
     producing_ncp := NetCnParams 6 True kIOConnTypeMulticast 0,
     consuming_connection_id := cid, producing_connection_id := 0x220011,
     conn_path := (ConnectionPath (replicate 7 0))\<lparr>
       app_paths := [demo_assembly_path 151, demo_assembly_path out, demo_assembly_path 100],
       data_seg := \<lparr>ds_pbits = 1, ds_words = [0xCDAB]\<rparr>, config_path := 0, consuming_path := 1, producing_path := 2\<rparr>,
     config_instance := Some (4, 151), consuming_instance := Some (4, int (unat out)), producing_instance := Some (4, 100),
     mgmnt_class := 4\<rparr>"

definition demo_conn :: "ConnInstanceType \<Rightarrow> conn_data \<Rightarrow> nat option \<Rightarrow> nat option \<Rightarrow> cip_conn" where
  "demo_conn type d producer successor =
     (assign_data d (new_CipConn demo_conf (replicate 7 0) 0 0))\<lparr>instance_type := type, state := kConnStateEstablished,
       expected_packet_rate_usecs := 10000, inactivity_watchdog_timer_usecs := 80000,
       transmission_trigger_timer_usecs := 10000,
       recv_address := SockAddr 0x08AE 0x0A000001, send_address := SockAddr 0x08AE 0xEFC00001,
       openers_address := SockAddr 44818 0x0A000001, consuming_socket := Some 0, producing_socket := producer,
       next_conn := successor, prev_conn := None, on_list := True\<rparr>"

definition demo_owner :: cip_conn where
  "demo_owner = (demo_conn kConnInstanceTypeIoExclusiveOwner (demo_data 1 7 150 0x10001) (Some 0) None)\<lparr>prev_conn := Some 3\<rparr>"

definition demo_sharer :: cip_conn where
  "demo_sharer = (demo_conn kConnInstanceTypeIoInputOnly (demo_data 1 8 152 0x10002) None (Some 2))\<lparr>prev_conn := Some 0\<rparr>"

definition demo_explicit :: cip_conn where
  "demo_explicit = (demo_conn kConnInstanceTypeExplicit
     ((demo_data 3 9 0 0x10003)\<lparr>producing_ncp := NetCnParams 6 True kIOConnTypePointToPoint 0\<rparr>) None (Some 3))
     \<lparr>consuming_socket := None, encap_session := 7\<rparr>"

definition demo_running :: cm_state where
  "demo_running = demo_device\<lparr>head := Some 0,
     conns := (new_CipConn demo_conf (replicate 7 0) 0)(2 := demo_owner, 3 := demo_sharer, 0 := demo_explicit),
     udp := \<lparr>udp_store = (\<lambda>_. UdpSocket (SockAddr 0 0) kInvalid)
        (0 := (UdpSocket (SockAddr 0x08AE 0) 50)\<lparr>u_ref_count := 3\<rparr>), udp_count = 1, m_sockets = [0], m_multicast = [],
        m_free = []\<rparr>\<rparr>"

lemmas demo_defs = demo_owner_def demo_sharer_def demo_explicit_def demo_conn_def assign_data_def conn_data.defs

lemma demo_links:
  "next_conn demo_owner = None" "prev_conn demo_owner = Some 3" "on_list demo_owner"
  "next_conn demo_sharer = Some 2" "prev_conn demo_sharer = Some 0" "on_list demo_sharer"
  "next_conn demo_explicit = Some 3" "prev_conn demo_explicit = None" "on_list demo_explicit"
  by (simp_all add: demo_defs new_CipConn_def Conn_Clear_def)

lemma demo_fields:
  "state demo_owner = kConnStateEstablished" "state demo_sharer = kConnStateEstablished"
  "state demo_explicit = kConnStateEstablished"
  "consuming_socket demo_owner = Some 0" "producing_socket demo_owner = Some 0"
  "consuming_socket demo_sharer = Some 0" "producing_socket demo_sharer = None"
  "consuming_socket demo_explicit = None" "producing_socket demo_explicit = None"
  "instance_type demo_owner = kConnInstanceTypeIoExclusiveOwner"
  "instance_type demo_sharer = kConnInstanceTypeIoInputOnly"
  "instance_type demo_explicit = kConnInstanceTypeExplicit"
  "as_data demo_owner = demo_data 1 7 150 0x10001" "as_data demo_sharer = demo_data 1 8 152 0x10002"
  by (simp_all add: demo_defs)

lemma demo_multicast:
  "ConnectionType (producing_ncp (demo_data c n i k)) = kIOConnTypeMulticast"
  "ConnectionType (producing_ncp demo_owner) = kIOConnTypeMulticast"
  "ConnectionType (producing_ncp demo_sharer) = kIOConnTypeMulticast"
  by code_simp+

lemma demo_points:
  "producing_point (demo_data c n i k) = 100" "consuming_point (demo_data 1 7 150 k) = 150"
  "consuming_point (demo_data 1 8 152 k) = 152"
  by code_simp+


lemma demo_free:
  "off_links (new_CipConn demo_conf (replicate 7 0) 0 n)" "\<not> on_list (new_CipConn demo_conf (replicate 7 0) 0 n)"
  "next_conn (new_CipConn demo_conf (replicate 7 0) 0 n) = None" "prev_conn (new_CipConn demo_conf (replicate 7 0) 0 n) = None"
  using new_CipConn_fields(1) [of demo_conf "replicate 7 0" 0 n] by (simp_all add: off_links_def)

lemma demo_state:
  "head demo_running = Some 0" "conns demo_running 0 = demo_explicit" "conns demo_running 2 = demo_owner"
  "conns demo_running 3 = demo_sharer"
  "c \<notin> {0, 2, 3} \<Longrightarrow> conns demo_running c = new_CipConn demo_conf (replicate 7 0) 0 c"
  by (simp_all add: demo_running_def)

lemma demo_state_other:
  "c \<noteq> 0 \<Longrightarrow> c \<noteq> 2 \<Longrightarrow> c \<noteq> 3 \<Longrightarrow> conns demo_running c = new_CipConn demo_conf (replicate 7 0) 0 c"
  using demo_state(5) by simp

lemma demo_active: "active demo_running [0, 3, 2]"
  by (auto simp: active_def demo_running_def demo_links demo_free)

lemma demo_balanced: "balanced io_base (held demo_running [0, 3, 2]) (udp demo_running)"
  by (simp add: held_def held_by_def opt_held_def demo_state demo_fields demo_running_def balanced_def udp_wf_def
      groups_on_def uses_def UdpSocket_def)

lemma demo_masters: "masters (conns demo_running) [0, 3, 2]"
  by (auto simp: masters_def demo_state demo_fields multicast_producer_def owner_or_input_only_def demo_multicast demo_points)

lemma demo_running_inv: "cm_inv demo_running [0, 3, 2]"
proof -
  have "state (conns demo_running c) = (if c \<in> set [0, 3, 2] then kConnStateEstablished else kConnStateNonExistent)" for c
    using demo_state_other [of c] by (auto simp: demo_state demo_fields new_CipConn_fields)
  moreover have "consuming_socket (conns demo_running c) = None \<and> producing_socket (conns demo_running c) = None"
    if "c \<notin> set [0, 3, 2]" for c
    using demo_state_other [of c] that by (simp add: new_CipConn_fields)
  ultimately show ?thesis using demo_active demo_balanced demo_masters unfolding cm_inv_def core_def by blast
qed

lemma roles_tables: "tables (snd (with_roles env out inp cfg bs)) = tables (snd bs)"
  using roles_traffic [of "snd bs" env out inp cfg "fst bs"] by (simp add: traffic_def)

lemma demo_tables:
  "tables demo_device = ([\<lparr>output_assembly = 150, input_assembly = 100, config_assembly = 151, connection_slots = [2]\<rparr>],
     [\<lparr>output_assembly = 152, input_assembly = 100, config_assembly = 151, connection_slots = [3, 4]\<rparr>],
     [\<lparr>output_assembly = 153, input_assembly = 100, config_assembly = 151, connection_slots = [5, 6]\<rparr>], [0, 1], 7)"
proof -
  let ?env = "io_conn demo_env"
  have n: "NUM_EXCLUSIVE_OWNER_CONNS ?env = 1" "NUM_INPUT_ONLY_CONNS ?env = 1" "NUM_LISTEN_ONLY_CONNS ?env = 1"
    "NUM_INPUT_ONLY_CONNS_PER_CON_PATH ?env = 2" "NUM_LISTEN_ONLY_CONNS_PER_CON_PATH ?env = 2"
    by (simp_all add: demo_env_def)
  define s1 where "s1 = snd (ConfigureExclusiveOwnerConnectionPoint ?env 150 100 151 demo_start)"
  define s2 where "s2 = snd (ConfigureInputOnlyConnectionPoint ?env 152 100 151 s1)"
  have "tables s1 = ([\<lparr>output_assembly = 150, input_assembly = 100, config_assembly = 151, connection_slots = [2]\<rparr>],
     [], [], [0, 1], 3)"
    by (simp add: s1_def ConfigureExclusiveOwnerConnectionPoint_def roles_tables)
      (simp add: AddExpectation_EO_def n expect_def construct_def demo_start_def initial_device_def tables_def Let_def upt_rec)
  then have 1: "s_exclusive_owner s1 = [\<lparr>output_assembly = 150, input_assembly = 100, config_assembly = 151, connection_slots = [2]\<rparr>]"
    "s_input_only s1 = []" "s_listen_only s1 = []" "g_explicit_connections s1 = [0, 1]" "constructed_count s1 = 3"
    by (simp_all add: tables_def)
  have "tables s2 = (s_exclusive_owner s1,
     [\<lparr>output_assembly = 152, input_assembly = 100, config_assembly = 151, connection_slots = [3, 4]\<rparr>], [], [0, 1], 5)"
    by (simp add: s2_def ConfigureInputOnlyConnectionPoint_def roles_tables)
      (simp add: AddExpectation_IO_def n 1 expect_def construct_def tables_def Let_def upt_rec)
  then have 2: "s_exclusive_owner s2 = s_exclusive_owner s1"
    "s_input_only s2 = [\<lparr>output_assembly = 152, input_assembly = 100, config_assembly = 151, connection_slots = [3, 4]\<rparr>]"
    "s_listen_only s2 = []" "g_explicit_connections s2 = [0, 1]" "constructed_count s2 = 5"
    by (simp_all add: tables_def)
  have d: "demo_device = snd (ConfigureListenOnlyConnectionPoint ?env 153 100 151 s2)"
    by (simp add: demo_device_def s1_def s2_def Let_def)
  show ?thesis unfolding d
    by (simp add: ConfigureListenOnlyConnectionPoint_def roles_tables)
      (simp add: AddExpectation_LO_def n 1(1) 2 expect_def construct_def tables_def Let_def upt_rec)
qed

lemmas demo_device_tables = demo_tables [unfolded tables_def, simplified]

lemma demo_running_pools: "pools_ok demo_running [0, 3, 2]"
  by (auto simp: pools_ok_def all_slots_def table_slots_def demo_running_def demo_device_tables demo_fields demo_points)

lemma demo_triads: "triad demo_owner = (7, 5, 9)" "triad demo_sharer = (8, 5, 9)" "triad demo_explicit = (9, 5, 9)"
  by code_simp+

lemma demo_running_device: "device_inv [0, 3, 2] demo_running"
proof -
  have "own_triads (conns demo_running) [0, 3, 2]" by (auto simp: own_triads_def inj_on_def demo_state demo_triads)
  moreover have "one_owner (conns demo_running) [0, 3, 2]" by (auto simp: one_owner_def demo_state demo_fields)
  ultimately show ?thesis by (simp add: device_inv_def inv_pools_def demo_running_inv demo_running_pools)
qed

lemma demo_first: "eip_level_sequence_count_consuming_first demo_owner"
  by code_simp

lemma demo_instances:
  "assembly_of (consuming_instance demo_owner) = Some 150" "assembly_of (producing_instance demo_owner) = Some 100"
  "assembly_of (consuming_instance demo_sharer) = Some 152" "assembly_of (consuming_instance demo_explicit) = Some 0"
  by code_simp+

lemma demo_ready: "data_ready demo_running [0, 3, 2]"
  by (simp add: data_ready_def demo_state demo_fields demo_instances)

lemma roles_bytes: "byte_array (assemblies (snd (with_roles env out inp cfg bs)) k) = byte_array (assemblies (snd bs) k)"
  by (auto simp: with_roles_def AddAssemblyConnectionPointRoles_def AddAssemblyConnectionPointRole_def
      AddConnectionPointRole_def split: prod.split option.split)

lemma demo_bytes: "byte_array (assemblies demo_running k) = byte_array (demo_assemblies k)"
  by (simp add: demo_running_def demo_device_def Let_def ConfigureExclusiveOwnerConnectionPoint_def roles_bytes
      ConfigureInputOnlyConnectionPoint_def ConfigureListenOnlyConnectionPoint_def)
    (simp add: AddExpectation_EO_def AddExpectation_IO_def AddExpectation_LO_def expect_def construct_def Let_def roles_bytes
      demo_start_def initial_device_def)

end
