(* ===== verification/Host_Objects.thy ===== *)
theory Host_Objects
  imports Encap Cip_Router Conn_System
begin

unbundle bit_operations_syntax

text \<open>
  The objects that describe the device to its peers: the identity object (\<open>cip/cipidentity.cc\<close>), the Ethernet
  link object (\<open>cip/cipethernetlink.cc\<close>) and the TCP/IP interface object (\<open>cip/ciptcpipinterface.cc\<close>).

  Attributes that the library's own getters and setters reach are in the store of theory \<open>Cip_Object\<close>, at places that
  are arguments: addresses of variables and offsets of members. What only the functions of the TCP/IP object read is the record
  \<open>tcpip\<close>, one for each instance. Addresses are kept in network byte order, as in the code.
\<close>

section \<open>The state behind the router\<close>

record tcpip_conf =
  ip_address :: u32
  network_mask :: u32
  gateway :: u32
  name_server :: u32
  name_server_2 :: u32
  domain_name :: "byte list"

record mcast_conf =
  alloc_control :: u8
  reserved_zero :: u8
  number_of_allocated_multicast_addresses :: u16
  mc_start :: u32

record tcpip =
  interface_configuration :: tcpip_conf
  multicast_configuration :: mcast_conf

record net =
  net_cpf :: cpf
  net_cm :: cm_state
  net_tcpip :: "int \<Rightarrow> tcpip"
  mmr_temp :: "byte list"

text \<open>The default constructors.\<close>

definition new_tcpip :: tcpip where
  "new_tcpip =
     \<lparr>interface_configuration = \<lparr>ip_address = 0, network_mask = 0, gateway = 0, name_server = 0, name_server_2 = 0,
        domain_name = []\<rparr>,
      multicast_configuration = \<lparr>alloc_control = 0, reserved_zero = 0, number_of_allocated_multicast_addresses = 1,
        mc_start = 0\<rparr>\<rparr>"

definition tcpip_upd :: "int \<Rightarrow> (tcpip \<Rightarrow> tcpip) \<Rightarrow> net stack \<Rightarrow> net stack" where
  "tcpip_upd i f st = st\<lparr>st_rest := (st_rest st)\<lparr>net_tcpip := (net_tcpip (st_rest st))(i := f (net_tcpip (st_rest st) i))\<rparr>\<rparr>"

definition store :: "data_loc \<Rightarrow> cip_value \<Rightarrow> 's stack \<Rightarrow> 's stack" where
  "store l v st = st\<lparr>st_data := (st_data st)(l := v)\<rparr>"

definition put_class :: "cip_class \<Rightarrow> 's stack \<Rightarrow> 's stack" where
  "put_class c st = st\<lparr>st_classes := (st_classes st)(class_id c \<mapsto> c)\<rparr>"

text \<open>The objects that a location of the right type holds.\<close>

fun as_u32 :: "cip_value \<Rightarrow> u32" where
  "as_u32 (V32 x) = x"
| "as_u32 v = 0"

fun as_u16 :: "cip_value \<Rightarrow> u16" where
  "as_u16 (V16 x) = x"
| "as_u16 v = 0"

fun as_u8 :: "cip_value \<Rightarrow> u8" where
  "as_u8 (V8 x) = x"
| "as_u8 v = 0"

fun as_string :: "cip_value \<Rightarrow> byte list" where
  "as_string (VString s) = s"
| "as_string v = []"

section \<open>The identity object\<close>

text \<open>The functions of the application that reset the device.\<close>

record 's reset_calls =
  ResetDevice :: "'s stack \<Rightarrow> EipStatus \<times> 's stack"
  ResetDeviceToInitialConfiguration :: "bool \<Rightarrow> 's stack \<Rightarrow> EipStatus \<times> 's stack"

definition identity_reset :: "'s reset_calls \<Rightarrow> 's service_call" where
  "identity_reset app c i q r st =
    (let conflict = SetGenStatus kCipErrorDeviceStateConflict r;
         invalid = SetGenStatus kCipErrorInvalidParameter r
     in case mr_data q of
          [] \<Rightarrow> (Inr kEipStatusOkSend, q, conflict, snd (ResetDevice app st))
        | [value] \<Rightarrow>
            if value = 0 then (Inr kEipStatusOkSend, q, conflict, snd (ResetDevice app st))
            else if value = 1
            then (Inr kEipStatusOkSend, q, conflict, snd (ResetDeviceToInitialConfiguration app True st))
            else if value = 2
            then (Inr kEipStatusOkSend, q, conflict, snd (ResetDeviceToInitialConfiguration app False st))
            else (Inr kEipStatusOkSend, q, invalid, st)
        | _ \<Rightarrow> (Inr kEipStatusOkSend, q, invalid, st))"

text \<open>\<open>place k\<close> is the address of the variable behind attribute \<open>k\<close>.\<close>

definition IdentityClass :: "nat \<Rightarrow> nat \<Rightarrow> (nat \<Rightarrow> nat) \<Rightarrow> cip_class" where
  "IdentityClass revision_at zero_at place =
    (let c = CipClass revision_at zero_at 1 ''Identity'' 0xC6 1;
         c = snd (ServiceRemove CI_I (uint kSetAttributeSingle) c);
         c = ServiceInsert CI_I \<lparr>service_name = ''Reset'', service_id = uint kReset, service_function = User_service 3\<rparr> c;
         c = snd (attrInsertPtr CI_I 1 kCipUint (place 1) True True False c);
         c = snd (attrInsertPtr CI_I 2 kCipUint (place 2) True True False c);
         c = snd (attrInsertPtr CI_I 3 kCipUint (place 3) True True False c);
         c = snd (attrInsertPtr CI_I 4 kCipUsintUsint (place 4) True True False c);
         c = snd (attrInsertPtr CI_I 5 kCipWord (place 5) True True False c);
         c = snd (attrInsertPtr CI_I 6 kCipUdint (place 6) True True False c)
     in snd (attrInsertPtr CI_I 7 kCipShortString (place 7) True True False c))"

text \<open>\<open>CipIdentityInit\<close>, with \<open>createIdentityInstance\<close> for an instance that nothing owns.\<close>

definition add_instance :: "cip_class \<Rightarrow> cip_class" where
  "add_instance c = snd (InstanceInsert False (int (length (instances c)) + 1) c)"

definition CipIdentityInit :: "nat \<Rightarrow> nat \<Rightarrow> (nat \<Rightarrow> nat) \<Rightarrow> registry \<Rightarrow> registry" where
  "CipIdentityInit revision_at zero_at place reg =
    (if FindClass 1 reg = None
     then snd (RegisterClass (add_instance (IdentityClass revision_at zero_at place)) reg) else reg)"

definition SetDeviceSerialNumber :: "(nat \<Rightarrow> nat) \<Rightarrow> u32 \<Rightarrow> 's stack \<Rightarrow> 's stack" where
  "SetDeviceSerialNumber place n = store (Static (place 6)) (V32 n)"

definition SetDeviceStatus :: "(nat \<Rightarrow> nat) \<Rightarrow> u16 \<Rightarrow> 's stack \<Rightarrow> 's stack" where
  "SetDeviceStatus place n = store (Static (place 5)) (V16 n)"

section \<open>The Ethernet link object\<close>

abbreviation kCipEthernetLinkClass :: int where "kCipEthernetLinkClass \<equiv> 0xF6"

definition EthernetLinkClass :: "nat \<Rightarrow> nat \<Rightarrow> (nat \<Rightarrow> nat) \<Rightarrow> cip_class" where
  "EthernetLinkClass revision_at zero_at place =
    (let c = CipClass revision_at zero_at kCipEthernetLinkClass ''Ethernet Link'' 0xFE 1;
         c = snd (attrInsertOff CI_I 1 kCipUdint (place 1) True True False c);
         c = snd (attrInsertOff CI_I 2 kCipDword (place 2) True True False c)
     in snd (attrInsertOff CI_I 3 kCip6Usint (place 3) True True False c))"

text \<open>The members of a new instance, \<open>CreateInstance\<close>, \<open>Init\<close> and \<open>ConfigureMacAddress\<close>.\<close>

definition new_link_members :: "(nat \<Rightarrow> nat) \<Rightarrow> int \<Rightarrow> 's stack \<Rightarrow> 's stack" where
  "new_link_members place i st =
     store (Member kCipEthernetLinkClass i (place 3)) (VBytes (replicate 6 0))
       (store (Member kCipEthernetLinkClass i (place 2)) (V32 0xf)
         (store (Member kCipEthernetLinkClass i (place 1)) (V32 100) st))"

definition EthernetLink_CreateInstance :: "(nat \<Rightarrow> nat) \<Rightarrow> cip_class \<Rightarrow> 's stack \<Rightarrow> 's stack" where
  "EthernetLink_CreateInstance place c st =
     put_class (add_instance c) (new_link_members place (int (length (instances c)) + 1) st)"

definition EthernetLink_Init :: "nat \<Rightarrow> nat \<Rightarrow> (nat \<Rightarrow> nat) \<Rightarrow> 's stack \<Rightarrow> 's stack" where
  "EthernetLink_Init revision_at zero_at place st =
    (if FindClass kCipEthernetLinkClass (st_classes st) = None
     then EthernetLink_CreateInstance place (EthernetLinkClass revision_at zero_at place) st else st)"

definition ConfigureMacAddress :: "(nat \<Rightarrow> nat) \<Rightarrow> int \<Rightarrow> byte list \<Rightarrow> 's stack \<Rightarrow> 's stack" where
  "ConfigureMacAddress place i mac st =
    (case FindClass kCipEthernetLinkClass (st_classes st) of
       None \<Rightarrow> st
     | Some c \<Rightarrow>
         (case Instance i c of
            None \<Rightarrow> st
          | Some i \<Rightarrow> store (Member kCipEthernetLinkClass i (place 3)) (VBytes (take 6 mac)) st))"

section \<open>The TCP/IP interface object\<close>

abbreviation kCipTcpIpInterfaceClass :: int where "kCipTcpIpInterfaceClass \<equiv> 0xF5"

text \<open>Where the attributes are: offsets of members for 1, 2, 3 and 8, addresses of static variables for 6 and 13.\<close>

abbreviation tcp_member :: "(nat \<Rightarrow> nat) \<Rightarrow> int \<Rightarrow> nat \<Rightarrow> data_loc" where
  "tcp_member place i k \<equiv> Member kCipTcpIpInterfaceClass i (place k)"

definition answer_bytes :: "writer res \<Rightarrow> EipStatus \<Rightarrow> 's service_call" where
  "answer_bytes out s c i q r st =
    (case out of
       Inl e \<Rightarrow> (Inl e, q, r, st)
     | Inr w \<Rightarrow> (Inr s, q, (wrote w r)\<lparr>written_size := w_count (mr_writer r) w\<rparr>, st))"

text \<open>The path to the Ethernet link object: serialized behind the two bytes for its length, then the length.\<close>

definition link_path :: "u32 list \<Rightarrow> int \<Rightarrow> app_path" where
  "link_path garbage i = ap_set INSTANCE (word_of_int i) (ap_set CLASS (word_of_int kCipEthernetLinkClass) (new_app_path garbage))"

definition put_link_path :: "app_path \<Rightarrow> writer \<Rightarrow> writer res" where
  "put_link_path p out =
     bindE (w_advance out 2) (\<lambda>w0.
     bindE (AppPath_Serialize 0 w0 p) (\<lambda>w.
     let n = w_count w0 w
     in bindE (put16 (out\<lparr>w_mem := w_mem w\<rparr>) (of_nat (n div 2))) (\<lambda>w. w_advance w n)))"

definition get_attr_4 :: "u32 list \<Rightarrow> net service_call" where
  "get_attr_4 garbage c i q r st =
     answer_bytes (put_link_path (link_path garbage i) (mr_writer r)) kEipStatusOkSend c i q r st"

definition put_interface :: "tcpip_conf \<Rightarrow> writer \<Rightarrow> writer res" where
  "put_interface t out =
     bindE (put32 out (bswap32 (ip_address t))) (\<lambda>w.
     bindE (put32 w (bswap32 (network_mask t))) (\<lambda>w.
     bindE (put32 w (bswap32 (gateway t))) (\<lambda>w.
     bindE (put32 w (bswap32 (name_server t))) (\<lambda>w.
     bindE (put32 w (bswap32 (name_server_2 t))) (\<lambda>w.
     put_STRING True w (domain_name t))))))"

definition get_attr_5 :: "net service_call" where
  "get_attr_5 c i q r st =
     answer_bytes (put_interface (interface_configuration (net_tcpip (st_rest st) i)) (mr_writer r)) kEipStatusOkSend c i q r st"

definition get_attr_7 :: "net service_call" where
  "get_attr_7 c i q r st =
    (case fill (mr_writer r) 6 0 of
       Inl e \<Rightarrow> (Inl e, q, r, st)
     | Inr w \<Rightarrow> (Inr kEipStatusOkSend, q, (wrote w r)\<lparr>written_size := 6\<rparr>, st))"

definition put_multicast :: "mcast_conf \<Rightarrow> writer \<Rightarrow> writer res" where
  "put_multicast m out =
     bindE (put8 out (alloc_control m)) (\<lambda>w.
     bindE (put8 w 0) (\<lambda>w.
     bindE (put16 w (number_of_allocated_multicast_addresses m)) (\<lambda>w.
     put32 w (bswap32 (mc_start m)))))"

definition get_multicast_config :: "net service_call" where
  "get_multicast_config c i q r st =
     answer_bytes (put_multicast (multicast_configuration (net_tcpip (st_rest st) i)) (mr_writer r)) kEipStatusOkSend c i q r st"

text \<open>The fields are assigned as they are read, so a request that is too short changes the first of them.\<close>

definition read_multicast :: "byte list \<Rightarrow> mcast_conf \<Rightarrow> exn option \<times> mcast_conf" where
  "read_multicast data m =
    (case get8 data of
       Inl e \<Rightarrow> (Some e, m)
     | Inr (a, data) \<Rightarrow>
         let m = m\<lparr>alloc_control := a\<rparr>
         in case get8 data of
              Inl e \<Rightarrow> (Some e, m)
            | Inr (z, data) \<Rightarrow>
                let m = m\<lparr>reserved_zero := z\<rparr>
                in case get16 data of
                     Inl e \<Rightarrow> (Some e, m)
                   | Inr (n, data) \<Rightarrow>
                       let m = m\<lparr>number_of_allocated_multicast_addresses := n\<rparr>
                       in case get32 data of
                            Inl e \<Rightarrow> (Some e, m)
                          | Inr (a, data) \<Rightarrow> (None, m\<lparr>mc_start := bswap32 a\<rparr>))"

definition set_multicast_config :: "net service_call" where
  "set_multicast_config c i q r st =
    (let t = net_tcpip (st_rest st) i;
         (e, m) = read_multicast (mr_data q) (multicast_configuration t);
         st = tcpip_upd i (\<lambda>t. t\<lparr>multicast_configuration := m\<rparr>) st
     in (case e of None \<Rightarrow> Inr kEipStatusOkSend | Some e \<Rightarrow> Inl e, q, r, st))"

definition set_attr_13 :: "(nat \<Rightarrow> nat) \<Rightarrow> net service_call" where
  "set_attr_13 place c i q r st =
    (case get16 (mr_data q) of
       Inl e \<Rightarrow> (Inl e, q, r, st)
     | Inr (secs, rest) \<Rightarrow> (Inr kEipStatusOkSend, q, r, store (Static (place 13)) (V16 secs) st))"

text \<open>Zero is refused.\<close>

definition set_TTL :: "cip_attribute \<Rightarrow> net service_call" where
  "set_TTL a c i q r st =
    (case get8 (mr_data q) of
       Inl e \<Rightarrow> (Inl e, q, r, st)
     | Inr (ttl, rest) \<Rightarrow>
         if ttl = 0 then (Inr kEipStatusOkSend, q, SetGenStatus kCipErrorInvalidAttributeValue r, st)
         else (Inr kEipStatusOkSend, q, r, store (Data c i a) (V8 ttl) st))"

text \<open>\<open>get_all\<close>, which makes up what is not implemented.\<close>

definition put_all :: "(nat \<Rightarrow> nat) \<Rightarrow> u32 list \<Rightarrow> int \<Rightarrow> net stack \<Rightarrow> writer \<Rightarrow> writer res" where
  "put_all place garbage i st out =
    (let t = net_tcpip (st_rest st) i; member = (\<lambda>k. st_data st (tcp_member place i k))
     in bindE (put32 out (as_u32 (member 1))) (\<lambda>w.
        bindE (put32 w (as_u32 (member 2))) (\<lambda>w.
        bindE (put32 w (as_u32 (member 3))) (\<lambda>w.
        bindE (put_link_path (link_path garbage i) w) (\<lambda>w.
        bindE (put_interface (interface_configuration t) w) (\<lambda>w.
        bindE (put_STRING True w (as_string (st_data st (Static (place 6))))) (\<lambda>w.
        bindE (fill w 6 0) (\<lambda>w.
        bindE (put8 w (as_u8 (member 8))) (\<lambda>w.
        bindE (put_multicast (multicast_configuration t) w) (\<lambda>w.
        bindE (put8 w 0) (\<lambda>w.
        bindE (put8 w 0) (\<lambda>w.
        bindE (fill w 34 0) (\<lambda>w.
        bindE (put8 w 0) (\<lambda>w.
        put16 w (as_u16 (st_data st (Static (place 13))))))))))))))))))"

definition tcpip_get_all :: "(nat \<Rightarrow> nat) \<Rightarrow> u32 list \<Rightarrow> net service_call" where
  "tcpip_get_all place garbage c i q r st =
     answer_bytes (put_all place garbage i st (mr_writer r)) kEipStatusOk c i q r st"

definition TCPIPInterfaceClass :: "nat \<Rightarrow> nat \<Rightarrow> (nat \<Rightarrow> nat) \<Rightarrow> cip_class" where
  "TCPIPInterfaceClass revision_at zero_at place =
    (let c = CipClass revision_at zero_at kCipTcpIpInterfaceClass ''TCP/IP Interface'' 0xCE 4;
         c = ServiceInsert CI_I \<lparr>service_name = ''GetAttributeAll'', service_id = uint kGetAttributeAll,
               service_function = User_service 4\<rparr> c;
         c = snd (attrInsertOff CI_I 1 kCipDword (place 1) True True False c);
         c = snd (attrInsertOff CI_I 2 kCipDword (place 2) True True False c);
         c = snd (attrInsertOff CI_I 3 kCipDword (place 3) True True False c);
         c = snd (AttributeInsert_func CI_I 4 (Some (User_attr_func 2)) True None 0 True kCipAny c);
         c = snd (AttributeInsert_func CI_I 5 (Some (User_attr_func 3)) True None 0 True kCipAny c);
         c = snd (attrInsertPtr CI_I 6 kCipString (place 6) True True False c);
         c = snd (AttributeInsert_func CI_I 8 (Some GetAttrData) True (Some (User_attr_func 6)) (place 8) True kCipUsint c);
         c = snd (AttributeInsert_func CI_I 9 (Some (User_attr_func 4)) True (Some (User_attr_func 5)) 0 True kCipAny c)
     in snd (AttributeInsert_func CI_I 13 (Some GetAttrData) True (Some (User_attr_func 7)) (place 13) False kCipUint c))"

text \<open>The members of a new instance.\<close>

definition new_tcpip_members :: "(nat \<Rightarrow> nat) \<Rightarrow> int \<Rightarrow> net stack \<Rightarrow> net stack" where
  "new_tcpip_members place i st =
     store (tcp_member place i 8) (V8 1)
       (store (tcp_member place i 3) (V32 0)
         (store (tcp_member place i 2) (V32 0x27)
           (store (tcp_member place i 1) (V32 1) (tcpip_upd i (\<lambda>_. new_tcpip) st))))"

definition TCPIP_Init :: "nat \<Rightarrow> nat \<Rightarrow> (nat \<Rightarrow> nat) \<Rightarrow> net stack \<Rightarrow> net stack" where
  "TCPIP_Init revision_at zero_at place st =
    (if FindClass kCipTcpIpInterfaceClass (st_classes st) = None
     then put_class (snd (InstanceInsert False 1 (TCPIPInterfaceClass revision_at zero_at place)))
            (new_tcpip_members place 1 st)
     else st)"

text \<open>\<open>Instance\<close> of this class indexes the vector, \<open>None\<close> being outside of it.\<close>

definition tcp_instance :: "int \<Rightarrow> cip_class \<Rightarrow> int option" where
  "tcp_instance i c = (if 1 \<le> i \<and> i \<le> int (length (instances c)) then Some (instances c ! nat (i - 1)) else None)"

abbreviation MultiCast :: "int \<Rightarrow> net stack \<Rightarrow> mcast_conf" where
  "MultiCast i st \<equiv> multicast_configuration (net_tcpip (st_rest st) i)"

abbreviation InterfaceConf :: "int \<Rightarrow> net stack \<Rightarrow> tcpip_conf" where
  "InterfaceConf i st \<equiv> interface_configuration (net_tcpip (st_rest st) i)"

definition TTL :: "(nat \<Rightarrow> nat) \<Rightarrow> int \<Rightarrow> net stack \<Rightarrow> u8" where
  "TTL place i st = as_u8 (st_data st (tcp_member place i 8))"

text \<open>\<open>ip\<close>, \<open>subnet\<close> and \<open>gw\<close> are what \<open>inet_addr\<close> makes of the arguments; \<open>inet_addr( "239.192.1.0" )\<close> is
  \<open>239.192.1.0\<close> in network byte order.\<close>

definition multicast_base :: u32 where "multicast_base = 0xEFC00100"

definition host_id :: "u32 \<Rightarrow> u32 \<Rightarrow> u32" where
  "host_id ip subnet = ((bswap32 ip AND NOT (bswap32 subnet)) - 1) AND 0x3ff"

definition configureNetworkInterface :: "u32 \<Rightarrow> u32 \<Rightarrow> u32 \<Rightarrow> tcpip \<Rightarrow> tcpip" where
  "configureNetworkInterface ip subnet gw t =
     t\<lparr>interface_configuration := (interface_configuration t)\<lparr>ip_address := ip, network_mask := subnet, gateway := gw\<rparr>,
       multicast_configuration := (multicast_configuration t)
         \<lparr>mc_start := bswap32 (multicast_base + push_bit 5 (host_id ip subnet))\<rparr>\<rparr>"

definition ConfigureNetworkInterface :: "int \<Rightarrow> u32 \<Rightarrow> u32 \<Rightarrow> u32 \<Rightarrow> net stack \<Rightarrow> net stack" where
  "ConfigureNetworkInterface i ip subnet gw = tcpip_upd i (configureNetworkInterface ip subnet gw)"

definition ConfigureDomainName :: "int \<Rightarrow> byte list \<Rightarrow> net stack \<Rightarrow> net stack" where
  "ConfigureDomainName i name =
     tcpip_upd i (\<lambda>t. t\<lparr>interface_configuration := (interface_configuration t)\<lparr>domain_name := name\<rparr>\<rparr>)"

definition ConfigureHostName :: "(nat \<Rightarrow> nat) \<Rightarrow> byte list \<Rightarrow> 's stack \<Rightarrow> 's stack" where
  "ConfigureHostName place name = store (Static (place 6)) (VString name)"

section \<open>What they write\<close>

definition path_bytes :: "u32 list \<Rightarrow> int \<Rightarrow> byte list" where
  "path_bytes garbage i = app_path_wire 0 (link_path garbage i)"

definition link_wire :: "u32 list \<Rightarrow> int \<Rightarrow> byte list" where
  "link_wire garbage i = le16 (of_nat (length (path_bytes garbage i) div 2)) @ path_bytes garbage i"

definition interface_wire :: "tcpip_conf \<Rightarrow> byte list" where
  "interface_wire t =
     le32 (bswap32 (ip_address t)) @ le32 (bswap32 (network_mask t)) @ le32 (bswap32 (gateway t)) @
     le32 (bswap32 (name_server t)) @ le32 (bswap32 (name_server_2 t)) @ string_wire True (domain_name t)"

definition multicast_wire :: "mcast_conf \<Rightarrow> byte list" where
  "multicast_wire m = [alloc_control m, 0] @ le16 (number_of_allocated_multicast_addresses m) @ le32 (bswap32 (mc_start m))"

definition all_wire :: "(nat \<Rightarrow> nat) \<Rightarrow> u32 list \<Rightarrow> int \<Rightarrow> net stack \<Rightarrow> byte list" where
  "all_wire place garbage i st =
     le32 (as_u32 (st_data st (tcp_member place i 1))) @ le32 (as_u32 (st_data st (tcp_member place i 2))) @
     le32 (as_u32 (st_data st (tcp_member place i 3))) @ link_wire garbage i @
     interface_wire (InterfaceConf i st) @ string_wire True (as_string (st_data st (Static (place 6)))) @
     replicate 6 0 @ [TTL place i st] @ multicast_wire (MultiCast i st) @ replicate 37 0 @
     le16 (as_u16 (st_data st (Static (place 13))))"

lemma put_interface_wire [ser_simps]: "put_interface t w = append_bytes w (interface_wire t)"
  by (simp add: put_interface_def interface_wire_def ser_simps)

lemma put_multicast_wire [ser_simps]: "put_multicast m w = append_bytes w (multicast_wire m)"
  by (simp add: put_multicast_def multicast_wire_def ser_simps)

text \<open>The length that is filled in afterwards comes first on the wire.\<close>

lemma put_link_path_wire:
  assumes "wf_writer w"
  shows "put_link_path (link_path garbage i) w = append_bytes w (link_wire garbage i)"
proof (cases "w_pos w + 2 + length (path_bytes garbage i) \<le> w_lim w")
  case True
  let ?bs = "path_bytes garbage i"
  have "poke (poke (w_mem w) (w_pos w + 2) ?bs) (w_pos w) (le16 v) =
        poke (poke (w_mem w) (w_pos w) (le16 v)) (w_pos w + 2) ?bs" for v
    using assms True by (intro poke_commute) (auto simp: wf_writer_def)
  moreover have "wf_writer (w\<lparr>w_pos := w_pos w + 2\<rparr>)" using assms True by (simp add: wf_writer_def)
  ultimately show ?thesis using True
    by (simp add: put_link_path_def w_advance_def AppPath_Serialize_wire path_bytes_def [symmetric] append_bytes_def
        put_wire w_count_def link_wire_def poke_append Let_def add.commute add.left_commute)
next
  case False
  let ?bs = "path_bytes garbage i"
  have "AppPath_Serialize 0 (w\<lparr>w_pos := w_pos w + 2\<rparr>) (link_path garbage i) =
      append_bytes (w\<lparr>w_pos := w_pos w + 2\<rparr>) ?bs" if "w_pos w + 2 \<le> w_lim w"
    using assms that by (simp add: AppPath_Serialize_wire path_bytes_def wf_writer_def)
  then show ?thesis using False
    by (auto simp: put_link_path_def w_advance_def append_bytes_def link_wire_def)
qed

lemma put_all_wire:
  assumes "wf_writer w"
  shows "put_all place garbage i st w = append_bytes w (all_wire place garbage i st)"
proof -
  let ?m = "\<lambda>k. le32 (as_u32 (st_data st (tcp_member place i k)))"
  let ?rest = "interface_wire (InterfaceConf i st) @ string_wire True (as_string (st_data st (Static (place 6)))) @
     replicate 6 0 @ [TTL place i st] @ multicast_wire (MultiCast i st) @ replicate 37 0 @
     le16 (as_u16 (st_data st (Static (place 13))))"
  have r: "replicate 37 (0 :: byte) = [0] @ [0] @ replicate 34 0 @ [0]" by (simp add: eval_nat_numeral)
  have "put_all place garbage i st w = bindE (append_bytes w (?m 1 @ ?m 2 @ ?m 3)) (\<lambda>w.
      bindE (put_link_path (link_path garbage i) w) (\<lambda>w. append_bytes w ?rest))"
    by (simp add: put_all_def Let_def ser_simps TTL_def r)
  also have "\<dots> = append_bytes w ((?m 1 @ ?m 2 @ ?m 3) @ link_wire garbage i @ ?rest)"
    by (rule append_then [OF assms]) (simp add: put_link_path_wire ser_simps)
  finally show ?thesis by (simp add: all_wire_def)
qed

lemma answer_bytes_appends:
  assumes "wf_writer (mr_writer r)" and "out = append_bytes (mr_writer r) bs"
    and "int (length bs) \<le> capacity (mr_writer r)"
  shows "\<exists>r'. answer_bytes out s c i q r st = (Inr s, q, r', st) \<and> Reader r' = bs \<and>
    general_status r' = general_status r \<and> reply_service r' = reply_service r"
proof -
  obtain w where w: "append_bytes (mr_writer r) bs = Inr w"
    using assms(3) by (auto simp: append_bytes_def capacity_def)
  then show ?thesis
    using assms wrote_Reader [OF assms(1) w] append_count [OF w]
    by (simp add: answer_bytes_def wrote_def)
qed

section \<open>Multicast addresses\<close>

text \<open>The number of a host in its subnet, and the addresses that the device hands to its producers: 32 from its start
  address.\<close>

definition host_number :: "u32 \<Rightarrow> u32 \<Rightarrow> int" where
  "host_number ip subnet = (uint (bswap32 ip AND NOT (bswap32 subnet)) - 1) mod 1024"

definition allocated :: "tcpip \<Rightarrow> int set" where
  "allocated t = (let a = uint (bswap32 (mc_start (multicast_configuration t))) in {a ..< a + 32})"

lemma host_id_number: "uint (host_id ip subnet) = host_number ip subnet"
proof -
  let ?x = "bswap32 ip AND NOT (bswap32 subnet)"
  have "host_id ip subnet = take_bit 10 (?x - 1)"
    by (simp add: host_id_def take_bit_eq_mask mask_eq_exp_minus_1)
  then have "uint (host_id ip subnet) = uint (?x - 1) mod 1024"
    by (simp add: take_bit_eq_mod uint_mod)
  also have "\<dots> = ((uint ?x - 1) mod 2 ^ 32) mod 2 ^ 10" by (simp add: uint_word_ariths(2))
  also have "\<dots> = (uint ?x - 1) mod 2 ^ 10" by (rule mod_mod_cancel) simp
  finally show ?thesis by (simp add: host_number_def)
qed

lemma multicast_start:
  "uint (multicast_base + push_bit 5 (host_id ip subnet)) = 0xEFC00100 + 32 * host_number ip subnet"
proof -
  have h: "0 \<le> host_number ip subnet" "host_number ip subnet < 1024" by (simp_all add: host_number_def)
  have "uint (push_bit 5 (host_id ip subnet)) = 32 * host_number ip subnet"
    using h by (simp add: push_bit_eq_mult uint_word_ariths host_id_number)
  then show ?thesis using h by (simp add: multicast_base_def uint_word_ariths)
qed

lemma allocated_block:
  "allocated (configureNetworkInterface ip subnet gw t) =
     {0xEFC00100 + 32 * host_number ip subnet ..< 0xEFC00120 + 32 * host_number ip subnet}"
  by (simp add: allocated_def configureNetworkInterface_def multicast_start)

end
