(* ===== verification/Cip_Stack.thy ===== *)
theory Cip_Stack
  imports Host_Objects
begin

unbundle bit_operations_syntax

text \<open>
  The parts put together: the services of the connection manager object and the data attribute of an assembly as
  functions that the message router calls (\<open>CipConnMgrClass\<close> of \<open>cip/cipconnectionmanager.cc\<close>,
  \<open>CipAssemblyClass\<close> of \<open>cip/cipassembly.cc\<close>), and the two functions by which the common packet format hands a
  message to the router and its response back, \<open>NotifyCommonPacketFormat\<close> and
  \<open>NotifyConnectedCommonPacketFormat\<close> of \<open>enet_encap/cpf.cc\<close>. They are the arguments that theory \<open>Encap\<close> left open.

  The rest of the router's stack is the packet that the response points to, the state of the connection
  manager, the instances of the TCP/IP object, and the static buffer in which responses are made.
\<close>

section \<open>The state behind the router\<close>

definition put_net :: "cpf \<Rightarrow> cm_state \<Rightarrow> net stack \<Rightarrow> net stack" where
  "put_net c s st = st\<lparr>st_rest := (st_rest st)\<lparr>net_cpf := c, net_cm := s\<rparr>\<rparr>"

abbreviation cm_of :: "net stack \<Rightarrow> cm_state" where
  "cm_of st \<equiv> net_cm (st_rest st)"

text \<open>What the connection manager takes from the other objects: the classes of the router, and the first
  address for multicasts from the TCP/IP object.\<close>

definition with_classes :: "net stack \<Rightarrow> conn_env \<Rightarrow> conn_env" where
  "with_classes st env = env\<lparr>registered := st_classes st, starting_multicast_address := bswap32 (mc_start (MultiCast 1 st))\<rparr>"

section \<open>The connection manager object\<close>

abbreviation kForwardClose :: int where "kForwardClose \<equiv> 0x4e"
abbreviation kForwardOpen :: int where "kForwardOpen \<equiv> 0x54"
abbreviation kLargeForwardOpen :: int where "kLargeForwardOpen \<equiv> 0x5b"

text \<open>\<open>CipConnMgrClass::CipConnMgrClass\<close> and \<open>ConnectionManagerInit\<close>.\<close>

definition ConnMgrClass :: "nat \<Rightarrow> nat \<Rightarrow> cip_class" where
  "ConnMgrClass revision_at zero_at =
    (let c = CipClass revision_at zero_at 6 ''Connection Manager'' 0xCE 1;
         c = snd (ServiceRemove CI_I (uint kSetAttributeSingle) c);
         c = ServiceInsert CI_I \<lparr>service_name = ''ForwardOpen'', service_id = kForwardOpen,
               service_function = User_service 0\<rparr> c;
         c = ServiceInsert CI_I \<lparr>service_name = ''LargeForwardOpen'', service_id = kLargeForwardOpen,
               service_function = User_service 1\<rparr> c;
         c = ServiceInsert CI_I \<lparr>service_name = ''ForwardClose'', service_id = kForwardClose,
               service_function = User_service 2\<rparr> c
     in c\<lparr>inst_getable_all_mask := 0xC6\<rparr>)"

definition ConnectionManagerInit :: "nat \<Rightarrow> nat \<Rightarrow> registry \<Rightarrow> registry" where
  "ConnectionManagerInit revision_at zero_at reg =
    (if FindClass 6 reg = None then
       let c = ConnMgrClass revision_at zero_at
       in snd (RegisterClass (snd (InstanceInsert False (int (length (instances c)) + 1) c)) reg)
     else reg)"

definition conn_mgr_service :: "conn_env \<Rightarrow> nat \<Rightarrow> net service_call" where
  "conn_mgr_service env n c i q r st =
    (let env = with_classes st env; p = net_cpf (st_rest st); s = cm_of st
     in case (if n = 0 then forward_open_service env (mr_data q) r p s
              else if n = 1 then large_forward_open_service env (mr_data q) r p s
              else forward_close_service env (mr_data q) r p s) of
          None \<Rightarrow> (Inl Undefined, q, r, st)
        | Some (res, r, p, s) \<Rightarrow> (res, q, r, put_net p s st))"

section \<open>The assembly object\<close>

text \<open>\<open>CipAssemblyClass::CipAssemblyClass\<close>, \<open>Init\<close> and \<open>CreateInstance\<close>; \<open>bytes_at\<close> is the offset of an
  instance's byte array.\<close>

definition AssemblyClass :: "nat \<Rightarrow> nat \<Rightarrow> nat \<Rightarrow> cip_class" where
  "AssemblyClass revision_at zero_at bytes_at =
    (let c = CipClass revision_at zero_at 4 ''Assembly'' 0xFE 2;
         c = snd (AttributeInsert_func CI_I 3 (Some (User_attr_func 0)) False (Some (User_attr_func 1)) bytes_at True
               kCipByteArray c)
     in snd (attrInsert True CI_I 4 kCipByteArrayLength bytes_at True False False c))"

definition Assembly_Init :: "nat \<Rightarrow> nat \<Rightarrow> nat \<Rightarrow> registry \<Rightarrow> registry" where
  "Assembly_Init revision_at zero_at bytes_at reg =
    (if FindClass 4 reg = None then snd (RegisterClass (AssemblyClass revision_at zero_at bytes_at) reg) else reg)"

text \<open>\<open>None\<close> is the assertion that the class is there; the flag is whether the instance was new. The connections and the
  data attribute use the bytes in the state of the connection manager; the array is in the store as well, for the attribute
  of its length, which does not change.\<close>

definition CreateAssembly :: "nat \<Rightarrow> int \<Rightarrow> byte list \<Rightarrow> net stack \<Rightarrow> (bool \<times> net stack) option" where
  "CreateAssembly bytes_at i buffer st =
    map_option (\<lambda>c.
      case InstanceInsert False i c of
        (False, c) \<Rightarrow> (False, st)
      | (True, c) \<Rightarrow>
          let s = cm_of st; bs = take (length buffer mod 65536) buffer; n = of_nat (length bs);
              a = \<lparr>byte_array = bs, connection_point_roles = 0\<rparr>;
              st = store (Member 4 i bytes_at) (VArray (CipByteArray bs n n)) st
          in (True, put_net (net_cpf (st_rest st)) (s\<lparr>assemblies := (assemblies s)(i := a)\<rparr>)
                (st\<lparr>st_classes := (st_classes st)(4 \<mapsto> c)\<rparr>)))
      (FindClass 4 (st_classes st))"

definition get_assembly_data_attr :: "conn_env \<Rightarrow> cip_attribute \<Rightarrow> net service_call" where
  "get_assembly_data_attr env a c i q r st =
    (let s = cm_of st; old = byte_array (assemblies s i)
     in if old = [] then (Inr kEipStatusOkSend, q, r, st)
        else
          let (changed, bs) = BeforeAssemblyDataSend env i old;
              n = of_nat (length bs);
              st = put_net (net_cpf (st_rest st)) (set_bytes i bs s) st
          in case EncodeData (attr_type a) (VArray (CipByteArray bs n n)) (mr_writer r) of
               Inl e \<Rightarrow> (Inl e, q, r, st)
             | Inr w \<Rightarrow> (Inr kEipStatusOkSend, q, (wrote w r)\<lparr>written_size := w_count (mr_writer r) w\<rparr>, st))"

definition assembly_attr :: "conn_env \<Rightarrow> nat \<Rightarrow> cip_attribute \<Rightarrow> net service_call" where
  "assembly_attr env n a c i q r st =
    (if n = 0 then get_assembly_data_attr env a c i q r st
     else
       case set_assembly_data_attr env i (mr_data q) r (cm_of st) of
         None \<Rightarrow> (Inl Undefined, q, r, st)
       | Some (r, s) \<Rightarrow> (Inr kEipStatusOkSend, q, r, put_net (net_cpf (st_rest st)) s st))"

text \<open>The stack's own functions, in front of those of the application. A host is the environment of the connection
  manager, the places of the attributes of the TCP/IP object, the initial contents of a path on the stack, and the
  application with its reset functions.\<close>

record host =
  host_env :: conn_env
  host_place :: "nat \<Rightarrow> nat"
  host_garbage :: "u32 list"
  host_reset :: "net reset_calls"
  host_app :: "net app"

definition stack_attr :: "host \<Rightarrow> nat \<Rightarrow> cip_attribute \<Rightarrow> net service_call" where
  "stack_attr h n a =
    (if n < 2 then assembly_attr (host_env h) n a
     else if n = 2 then get_attr_4 (host_garbage h)
     else if n = 3 then get_attr_5
     else if n = 4 then get_multicast_config
     else if n = 5 then set_multicast_config
     else if n = 6 then set_TTL a
     else if n = 7 then set_attr_13 (host_place h)
     else user_attr (host_app h) (n - 8) a)"

definition stack_service :: "host \<Rightarrow> nat \<Rightarrow> net service_call" where
  "stack_service h n =
    (if n < 3 then conn_mgr_service (host_env h) n
     else if n = 3 then identity_reset (host_reset h)
     else if n = 4 then tcpip_get_all (host_place h) (host_garbage h)
     else user_service (host_app h) (n - 5))"

definition stack_app :: "host \<Rightarrow> net app" where
  "stack_app h = \<lparr>user_attr = stack_attr h, user_service = stack_service h\<rparr>"

section \<open>Unconnected messages\<close>

abbreviation IncorrectData :: int where "IncorrectData \<equiv> - encap_error_code kEncapErrorIncorrectData"

text \<open>From the request to the serialized packet: the router answers, or the path could not be read. The
  packet takes its payload and is written; the buffer of the response keeps what it holds.\<close>

definition send_response :: "writer \<Rightarrow> mr_response \<Rightarrow> net stack \<Rightarrow> (int \<times> byte list) res \<times> net stack" where
  "send_response reply r st =
    (let c = (net_cpf (st_rest st))\<lparr>payload := Some (response_wire r)\<rparr>;
         st = st\<lparr>st_rest := (st_rest st)\<lparr>net_cpf := c, mmr_temp := w_mem (mr_writer r)\<rparr>\<rparr>
     in (bindE (Cpf_Serialize reply c) (\<lambda>w. Inr (int (w_count reply w), w_mem w)), st))"

text \<open>\<open>p0\<close> is the uninitialised path of the request. An exception of the router leaves the function.\<close>

definition answer_request ::
    "net app \<Rightarrow> app_path \<Rightarrow> (net stack \<Rightarrow> net stack) \<Rightarrow> byte list \<Rightarrow> writer \<Rightarrow> net stack \<Rightarrow>
     (int \<times> byte list) res \<times> net stack" where
  "answer_request app p0 answered inp reply st =
    (let r = CipMessageRouterResponse (writer_on (mmr_temp (st_rest st)))
     in case DeserializeMRReq p0 inp of
          Inl e \<Rightarrow> (Inl e, st)
        | Inr (consumed, request) \<Rightarrow>
            (case (if consumed \<le> 0 then None else request) of
               None \<Rightarrow> send_response reply (SetGenStatus kCipErrorPathSegmentError r) st
             | Some q \<Rightarrow>
                 (case NotifyMR app q r st of
                    (Inl e, q, r, st) \<Rightarrow> (Inl e, st)
                  | (Inr s, q, r, st) \<Rightarrow>
                      if s = kEipStatusError then (Inr (IncorrectData, w_mem reply), st)
                      else send_response reply r (answered st))))"

definition unconnected :: "net app \<Rightarrow> app_path \<Rightarrow> byte list \<Rightarrow> writer \<Rightarrow> net stack \<Rightarrow> (int \<times> byte list) res \<times> net stack" where
  "unconnected app p0 command reply st =
    (case DeserializeCpf (net_cpf (st_rest st)) command of
       (result, c) \<Rightarrow>
         let st = put_net c (cm_of st) st
         in if result \<le> 0 then (Inr (IncorrectData, w_mem reply), st)
            else if ai_type_id (address_item c) \<noteq> kCpfIdNullAddress then (Inr (IncorrectData, w_mem reply), st)
            else if di_type_id (data_item c) \<noteq> kCpfIdUnconnectedDataItem
            then (Inr (IncorrectData, w_mem reply), st)
            else answer_request app p0 (\<lambda>st. st) (di_data (data_item c)) reply st)"

section \<open>Connected messages\<close>

text \<open>The number of the sequence is read into the packet's address, the watchdog of the connection starts again, and after
  the router the address names the connection in the other direction.\<close>

definition connected_message ::
    "net app \<Rightarrow> app_path \<Rightarrow> nat \<Rightarrow> cpf \<Rightarrow> writer \<Rightarrow> net stack \<Rightarrow> (int \<times> byte list) res \<times> net stack" where
  "connected_message app p0 conn c reply st =
    (case get16 (di_data (data_item c)) of
       Inl e \<Rightarrow> (Inl e, st)
     | Inr (sequence, inp) \<Rightarrow>
         let c = c\<lparr>address_item := (address_item c)\<lparr>encap_sequence_number := ucast sequence\<rparr>\<rparr>;
             other_way = (\<lambda>st. put_net ((net_cpf (st_rest st))\<lparr>address_item := (address_item (net_cpf (st_rest st)))
               \<lparr>connection_identifier := producing_connection_id (conns (cm_of st) conn)\<rparr>\<rparr>) (cm_of st) st)
         in answer_request app p0 other_way inp reply (put_net c (cm_of st) st))"

text \<open>The search, whose \<open>None\<close> is a loop that does not end.\<close>

definition connected_search ::
    "net app \<Rightarrow> app_path \<Rightarrow> cpf \<Rightarrow> writer \<Rightarrow> net stack \<Rightarrow> (int \<times> byte list) res \<times> net stack" where
  "connected_search app p0 c reply st =
    (case GetConnectionByConsumingId (connection_identifier (address_item c)) (cm_of st) of
       None \<Rightarrow> (Inl Undefined, st)
     | Some None \<Rightarrow> (Inr (IncorrectData, w_mem reply), st)
     | Some (Some conn) \<Rightarrow>
         let s = cm_of st;
             s = conn_upd conn (\<lambda>x. SetInactivityWatchDogTimerUSecs (CurrentUSecs32 s) (RxTimeoutUSecs x) x) s;
             st = put_net c s st
         in if di_type_id (data_item c) \<noteq> kCpfIdConnectedDataItem then (Inr (IncorrectData, w_mem reply), st)
            else connected_message app p0 conn c reply st)"

definition connected :: "net app \<Rightarrow> app_path \<Rightarrow> byte list \<Rightarrow> writer \<Rightarrow> net stack \<Rightarrow> (int \<times> byte list) res \<times> net stack" where
  "connected app p0 command reply st =
    (case DeserializeCpf (net_cpf (st_rest st)) command of
       (result, c) \<Rightarrow>
         let st = put_net c (cm_of st) st
         in if result \<le> 0 then (Inr (IncorrectData, w_mem reply), st)
            else if ai_type_id (address_item c) \<noteq> kCpfIdConnectedAddress then (Inr (IncorrectData, w_mem reply), st)
            else
              case connected_search app p0 c reply st of
                (Inl Range_error, st) \<Rightarrow> (Inr (IncorrectData, w_mem reply), st)
              | (Inl Overflow_error, st) \<Rightarrow>
                  (Inr (- encap_error_code kEncapErrorInsufficientMemory, w_mem reply), st)
              | out \<Rightarrow> out)"

section \<open>Behind the encapsulation layer\<close>

text \<open>The encapsulation layer constructs the packet for its session and owns the session table, which the connection
  manager shares.\<close>

definition in_session ::
    "(byte list \<Rightarrow> writer \<Rightarrow> net stack \<Rightarrow> (int \<times> byte list) res \<times> net stack) \<Rightarrow> net stack notify" where
  "in_session handler c command reply = (\<lambda>(m, st).
     case handler command reply (put_net c ((cm_of st)\<lparr>session := m\<rparr>) st) of
       (res, st) \<Rightarrow> (res, session (cm_of st), st))"

definition NotifyCommonPacketFormat :: "host \<Rightarrow> app_path \<Rightarrow> net stack notify" where
  "NotifyCommonPacketFormat h p0 = in_session (unconnected (stack_app h) p0)"

definition NotifyConnectedCommonPacketFormat :: "host \<Rightarrow> app_path \<Rightarrow> net stack notify" where
  "NotifyConnectedCommonPacketFormat h p0 = in_session (connected (stack_app h) p0)"

definition stack_tcp ::
    "host \<Rightarrow> app_path \<Rightarrow> device \<Rightarrow> u64 \<Rightarrow> int \<Rightarrow> byte list \<Rightarrow> writer \<Rightarrow> session_mgr \<times> net stack \<Rightarrow>
     (int \<times> byte list) res \<times> session_mgr \<times> net stack" where
  "stack_tcp h p0 =
     HandleReceivedExplicitTcpData (NotifyCommonPacketFormat h p0) (NotifyConnectedCommonPacketFormat h p0)"

end
