(* ===== verification/Stack_Inv.thy ===== *)
theory Stack_Inv
  imports Cip_Stack
begin

text \<open>
  What holds of the parts together. Every message that the common packet format answers fits its reply
  buffer, so the encapsulation layer's framing holds without a condition; and no request over TCP, whatever it addresses, breaks the
  invariant of the connections.
\<close>

section \<open>Replies fit\<close>

lemma Cpf_Serialize_fits:
  assumes "wf_writer reply" and "Cpf_Serialize reply c = Inr w"
  shows "reply_fits reply (int (w_count reply w), w_mem w)"
  using append_reply_fits [of reply "cpf_wire c" w] assms by (simp add: Cpf_Serialize_wire)

lemma negative_fits: "wf_writer reply \<Longrightarrow> n \<le> 0 \<Longrightarrow> reply_fits reply (n, w_mem reply)"
  by (simp add: reply_fits_def capacity_def wf_writer_def)

definition fits_or_throws :: "writer \<Rightarrow> (int \<times> byte list) res \<times> 's \<Rightarrow> bool" where
  "fits_or_throws reply out \<longleftrightarrow> (case fst out of Inl e \<Rightarrow> True | Inr res \<Rightarrow> reply_fits reply res)"

lemma fits_or_throws_simps [simp]:
  "fits_or_throws reply (Inl e, st)" "fits_or_throws reply (Inr res, st) = reply_fits reply res"
  by (simp_all add: fits_or_throws_def)

lemma send_response_fits: "wf_writer reply \<Longrightarrow> fits_or_throws reply (send_response reply r st)"
  using Cpf_Serialize_fits by (auto simp: send_response_def Let_def fits_or_throws_def bindE_def split: sum.split)

lemma answer_request_fits:
  assumes "wf_writer reply"
  shows "fits_or_throws reply (answer_request app p0 f inp reply st)"
  using assms by (auto simp: answer_request_def Let_def send_response_fits negative_fits split: sum.split prod.split option.split)

lemma unconnected_fits: "wf_writer reply \<Longrightarrow> fits_or_throws reply (unconnected app p0 command reply st)"
  by (auto simp: unconnected_def Let_def answer_request_fits negative_fits split: prod.split)

lemma connected_message_fits: "wf_writer reply \<Longrightarrow> fits_or_throws reply (connected_message app p0 conn c reply st)"
  by (auto simp: connected_message_def Let_def answer_request_fits split: sum.split)

lemma connected_search_fits: "wf_writer reply \<Longrightarrow> fits_or_throws reply (connected_search app p0 c reply st)"
  by (auto simp: connected_search_def Let_def connected_message_fits negative_fits split: option.split)

lemma connected_fits:
  assumes "wf_writer reply"
  shows "fits_or_throws reply (connected app p0 command reply st)"
proof -
  have "fits_or_throws reply (case connected_search app p0 c reply st' of
      (Inl Range_error, st) \<Rightarrow> (Inr (IncorrectData, w_mem reply), st)
    | (Inl Overflow_error, st) \<Rightarrow> (Inr (- encap_error_code kEncapErrorInsufficientMemory, w_mem reply), st)
    | out \<Rightarrow> out)" for c st'
    using connected_search_fits [OF assms, of app p0 c st'] assms
    by (auto simp: negative_fits split: prod.split sum.split exn.split)
  then show ?thesis using assms by (auto simp: connected_def Let_def negative_fits split: prod.split)
qed

lemma in_session_fits:
  assumes "\<And>command reply st. wf_writer reply \<Longrightarrow> fits_or_throws reply (handler command reply st)"
  shows "fitting_notify (in_session handler)"
  unfolding fitting_notify_def
proof (intro allI impI)
  fix c command reply st
  assume "wf_writer reply"
  then show "case fst (in_session handler c command reply st) of Inl e \<Rightarrow> True | Inr res \<Rightarrow> reply_fits reply res"
    using assms [of reply command "put_net c ((cm_of (snd st))\<lparr>session := fst st\<rparr>) (snd st)"]
    by (cases st) (auto simp: in_session_def fits_or_throws_def split: prod.splits)
qed

lemma stack_notify_fits:
  "fitting_notify (NotifyCommonPacketFormat h p0)" "fitting_notify (NotifyConnectedCommonPacketFormat h p0)"
  unfolding NotifyCommonPacketFormat_def NotifyConnectedCommonPacketFormat_def
  by (rule in_session_fits, erule unconnected_fits, rule in_session_fits, erule connected_fits)

section \<open>What every service keeps\<close>

definition keeps :: "('s stack \<Rightarrow> bool) \<Rightarrow> 's service_call \<Rightarrow> bool" where
  "keeps P f \<longleftrightarrow> (\<forall>c i q r st s q' r' st'. P st \<longrightarrow> f c i q r st = (s, q', r', st') \<longrightarrow> P st')"

lemma keepsI: "(\<And>c i q r st s q' r' st'. P st \<Longrightarrow> f c i q r st = (s, q', r', st') \<Longrightarrow> P st') \<Longrightarrow> keeps P f"
  unfolding keeps_def by blast

lemma keepsD: "keeps P f \<Longrightarrow> P st \<Longrightarrow> f c i q r st = (s, q', r', st') \<Longrightarrow> P st'"
  unfolding keeps_def by blast

text \<open>A condition that values of attributes do not touch, and that the application's functions keep.\<close>

locale kept =
  fixes P :: "'s stack \<Rightarrow> bool" and app :: "'s app"
  assumes data: "P st \<Longrightarrow> P (st\<lparr>st_data := d\<rparr>)"
    and attr: "keeps P (user_attr app n a)"
    and service: "keeps P (user_service app n)"
begin

lemma call_attr_keeps: "keeps P (call_attr app g a)"
proof (cases g)
  case GetAttrData
  then show ?thesis by (auto intro!: keepsI simp: get_attr_data_def split: sum.splits)
next
  case SetAttrData
  then show ?thesis
    by (auto intro!: keepsI simp: set_attr_data_def Let_def data split: sum.splits prod.splits if_splits)
next
  case (User_attr_func n)
  then show ?thesis using attr by (auto simp: keeps_def)
qed (auto intro!: keepsI simp: put_number_def split: sum.splits)

lemma Attribute_Get_keeps: "P st \<Longrightarrow> Attribute_Get app a c i q r st = (s, q', r', st') \<Longrightarrow> P st'"
  using keepsD [OF call_attr_keeps]
  by (auto simp: Attribute_Get_def split: option.splits if_splits prod.splits sum.splits exn.splits)

lemma Attribute_Set_keeps: "P st \<Longrightarrow> Attribute_Set app a c i q r st = (s, q', r', st') \<Longrightarrow> P st'"
  using keepsD [OF call_attr_keeps]
  by (auto simp: Attribute_Set_def split: option.splits if_splits prod.splits sum.splits exn.splits)

lemma call_single_keeps: "keeps P (call_single app f)"
proof (cases f)
  case GetAttributeSingle
  then show ?thesis
    by (auto intro!: keepsI simp: get_attribute_single_def Attribute_Get_keeps split: option.splits)
next
  case SetAttributeSingle
  then show ?thesis
    by (auto intro!: keepsI simp: set_attribute_single_def Attribute_Set_keeps split: option.splits)
next
  case (User_service n)
  then show ?thesis using service by (auto simp: keeps_def)
qed (auto intro!: keepsI simp: reset_service_def)

lemma get_all_loop_keeps:
  assumes "keeps P f"
  shows "P st \<Longrightarrow> get_all_loop f get_mask as c i q r st = (b, q', r', st') \<Longrightarrow> P st'"
proof (induction "as" arbitrary: q r st)
  case (Cons a as)
  obtain s q1 r1 st1 where f: "f c i (SetPathAttribute (word_of_int (attribute_id a)) q) r st = (s, q1, r1, st1)"
    by (metis prod_cases4)
  have "P st1" using keepsD [OF assms Cons.prems(1) f] .
  then show ?case using Cons f by (auto simp: Let_def split: if_splits sum.splits)
qed simp

lemma get_attribute_all_keeps: "keeps P (get_attribute_all app)"
proof (rule keepsI)
  fix c i q r st s q' r' st'
  assume P: "P st" and g: "get_attribute_all app c i q r st = (s, q', r', st')"
  show "P st'"
  proof (cases "Service (CI_of i) (uint kGetAttributeSingle) c")
    case None
    then show ?thesis using P g by (simp add: get_attribute_all_def)
  next
    case (Some v)
    obtain b q1 r1 st1 where l: "get_all_loop (call_single app (service_function v))
        (if i \<noteq> 0 then inst_getable_all_mask c else clss_getable_all_mask c) (attributes (CI_of i) c) c i q r st =
        (b, q1, r1, st1)" by (metis prod_cases4)
    have "P st1" by (rule get_all_loop_keeps [OF call_single_keeps P l])
    then show ?thesis using P g Some l
      by (auto simp: get_attribute_all_def Let_def split: if_splits sum.splits bool.splits)
  qed
qed

lemma call_service_keeps: "keeps P (call_service app f)"
  using call_single_keeps get_attribute_all_keeps by (cases "f = GetAttributeAll") (simp_all add: call_service_def)

lemma NotifyMR_keeps: "P st \<Longrightarrow> NotifyMR app q r st = (s, q', r', st') \<Longrightarrow> P st'"
  using keepsD [OF call_service_keeps]
  by (auto simp: NotifyMR_def Let_def split: if_splits option.splits prod.splits)

end

section \<open>The connections through the whole stack\<close>

definition device_ok :: "net stack \<Rightarrow> bool" where
  "device_ok st \<longleftrightarrow> wf_registry (st_classes st) \<and> (\<exists>xs. device_inv xs (cm_of st))"

lemma put_net_simps [simp]:
  "st_classes (put_net c s st) = st_classes st" "cm_of (put_net c s st) = s" "net_cpf (st_rest (put_net c s st)) = c"
  "mmr_temp (st_rest (put_net c s st)) = mmr_temp (st_rest st)"
  by (simp_all add: put_net_def)

lemma device_ok_same: "st_classes st' = st_classes st \<Longrightarrow> cm_of st' = cm_of st \<Longrightarrow> device_ok st' = device_ok st"
  by (simp add: device_ok_def)

lemma device_ok_put: "device_ok st \<Longrightarrow> (\<And>xs. device_inv xs (cm_of st) \<Longrightarrow> \<exists>ys. device_inv ys s) \<Longrightarrow> device_ok (put_net c s st)"
  by (auto simp: device_ok_def)

lemma device_ok_packet: "device_ok st \<Longrightarrow> device_ok (put_net c (cm_of st) st)"
  by (rule device_ok_put) auto

definition env_of :: "conn_env \<Rightarrow> io_env" where
  "env_of env = \<lparr>io_conn = env, sendto = (\<lambda>k a bs. True), g_message_data_reply_buffer = []\<rparr>"

lemma step_ok:
  assumes "device_ok st" and "device_step (env_of (with_classes st env)) (cm_of st) s"
  shows "device_ok (put_net c s st)"
proof (rule device_ok_put [OF assms(1)])
  fix xs assume d: "device_inv xs (cm_of st)"
  have "wf_registry (registered (io_conn (env_of (with_classes st env))))"
    using assms(1) by (simp add: device_ok_def env_of_def with_classes_def)
  from device_step_inv [OF this d assms(2)] show "\<exists>ys. device_inv ys s" .
qed

lemma conn_mgr_service_keeps: "keeps device_ok (conn_mgr_service env n)"
proof (rule keepsI)
  fix c i q r st x q' r' st'
  assume ok: "device_ok st" and call: "conn_mgr_service env n c i q r st = (x, q', r', st')"
  let ?env = "with_classes st env"
  have e: "io_conn (env_of ?env) = ?env" by (simp add: env_of_def)
  show "device_ok st'"
  proof (cases "(if n = 0 then forward_open_service ?env (mr_data q) r (net_cpf (st_rest st)) (cm_of st)
      else if n = 1 then large_forward_open_service ?env (mr_data q) r (net_cpf (st_rest st)) (cm_of st)
      else forward_close_service ?env (mr_data q) r (net_cpf (st_rest st)) (cm_of st))")
    case None
    then show ?thesis using call ok by (simp add: conn_mgr_service_def Let_def)
  next
    case (Some out)
    obtain res r1 p s where out: "out = (res, r1, p, s)" by (metis prod_cases4)
    have "device_step (env_of ?env) (cm_of st) s"
      using Some device_step.open_step [where env = "env_of ?env" and s = "cm_of st", unfolded e]
        device_step.close_step [where env = "env_of ?env" and s = "cm_of st", unfolded e]
      unfolding out forward_open_service_def large_forward_open_service_def by (metis (full_types))
    then have "device_ok (put_net p s st)" by (rule step_ok [OF ok])
    then show ?thesis using call Some out by (simp add: conn_mgr_service_def Let_def)
  qed
qed

lemma assembly_attr_keeps: "keeps device_ok (assembly_attr env n a)"
proof (rule keepsI)
  fix c i q r st x q' r' st'
  assume ok: "device_ok st" and call: "assembly_attr env n a c i q r st = (x, q', r', st')"
  show "device_ok st'"
  proof (cases "n = 0")
    case True
    have "device_ok (put_net p (set_bytes i bs (cm_of st)) st)" for p bs
      by (rule device_ok_put [OF ok]) (metis device_traffic traffic_refl traffic_rest(2))
    then show ?thesis using call ok True
      by (auto simp: assembly_attr_def get_assembly_data_attr_def Let_def split: if_splits prod.splits sum.splits)
  next
    case False
    have "device_ok (put_net p s st)"
      if "set_assembly_data_attr env i (mr_data q) r (cm_of st) = Some (r1, s)" for p s r1
      using set_assembly_traffic [OF that] device_traffic by (intro device_ok_put [OF ok]) blast
    then show ?thesis using call ok False
      by (auto simp: assembly_attr_def split: option.splits prod.splits)
  qed
qed

text \<open>The objects of theory \<open>Host_Objects\<close> touch neither classes nor connections.\<close>

lemma tcpip_upd_simps [simp]: "st_classes (tcpip_upd i f st) = st_classes st" "cm_of (tcpip_upd i f st) = cm_of st"
  by (simp_all add: tcpip_upd_def)

lemma store_simps [simp]: "st_classes (store l v st) = st_classes st" "cm_of (store l v st) = cm_of st"
  by (simp_all add: store_def)

lemma device_ok_simps [simp]:
  "device_ok (tcpip_upd i f st) = device_ok st" "device_ok (store l v st) = device_ok st"
  by (simp_all add: device_ok_def)

lemma answer_bytes_state: "answer_bytes out s c i q r st = (x, q', r', st') \<Longrightarrow> st' = st"
  by (auto simp: answer_bytes_def split: sum.splits)

lemma host_attr_keeps:
  "keeps device_ok (get_attr_4 garbage)" "keeps device_ok get_attr_5" "keeps device_ok get_multicast_config"
  "keeps device_ok set_multicast_config" "keeps device_ok (set_TTL a)" "keeps device_ok (set_attr_13 place)"
  "keeps device_ok (tcpip_get_all place garbage)"
  by (rule keepsI, auto simp: get_attr_4_def get_attr_5_def get_multicast_config_def set_multicast_config_def
      set_TTL_def set_attr_13_def tcpip_get_all_def Let_def dest!: answer_bytes_state
      split: prod.splits sum.splits option.splits if_splits)+

text \<open>What is asked of the functions of the application.\<close>

definition host_keeps :: "host \<Rightarrow> bool" where
  "host_keeps h \<longleftrightarrow> (\<forall>n a. keeps device_ok (user_attr (host_app h) n a)) \<and>
     (\<forall>n. keeps device_ok (user_service (host_app h) n)) \<and>
     (\<forall>st. device_ok st \<longrightarrow> device_ok (snd (ResetDevice (host_reset h) st)) \<and>
        (\<forall>b. device_ok (snd (ResetDeviceToInitialConfiguration (host_reset h) b st))))"

lemma identity_reset_keeps: "host_keeps h \<Longrightarrow> keeps device_ok (identity_reset (host_reset h))"
  by (rule keepsI) (auto simp: identity_reset_def host_keeps_def Let_def split: list.splits if_splits)

lemma kept_stack: "host_keeps h \<Longrightarrow> kept device_ok (stack_app h)"
  using conn_mgr_service_keeps assembly_attr_keeps host_attr_keeps identity_reset_keeps
  by unfold_locales (auto simp: stack_app_def stack_attr_def stack_service_def host_keeps_def device_ok_def)

text \<open>An application that adds no functions of its own and does not reset.\<close>

definition no_app :: "net app" where
  "no_app = \<lparr>user_attr = (\<lambda>n a c i q r st. (Inr kEipStatusOkSend, q, r, st)),
     user_service = (\<lambda>n c i q r st. (Inr kEipStatusOkSend, q, r, st))\<rparr>"

definition no_reset :: "net reset_calls" where
  "no_reset = \<lparr>ResetDevice = Pair kEipStatusOk, ResetDeviceToInitialConfiguration = (\<lambda>b. Pair kEipStatusOk)\<rparr>"

definition plain_host :: "conn_env \<Rightarrow> (nat \<Rightarrow> nat) \<Rightarrow> host" where
  "plain_host env place = \<lparr>host_env = env, host_place = place, host_garbage = replicate 7 0, host_reset = no_reset,
     host_app = no_app\<rparr>"

lemma plain_host_keeps: "host_keeps (plain_host env place)"
  by (auto intro!: keepsI simp: host_keeps_def plain_host_def no_app_def no_reset_def)

interpretation plain_stack: kept device_ok "stack_app (plain_host env place)" for env place
  by (rule kept_stack) (rule plain_host_keeps)

text \<open>The packet format around the router.\<close>

definition keeps_ok :: "net stack \<Rightarrow> 'r \<times> net stack \<Rightarrow> bool" where
  "keeps_ok st out \<longleftrightarrow> (device_ok st \<longrightarrow> device_ok (snd out))"

lemma keeps_ok_pair: "keeps_ok st (r, st') \<longleftrightarrow> (device_ok st \<longrightarrow> device_ok st')"
  by (simp add: keeps_ok_def)

lemma keeps_ok_trans: "keeps_ok st (r, t) \<Longrightarrow> keeps_ok t out \<Longrightarrow> keeps_ok st out"
  by (simp add: keeps_ok_def)

lemma keeps_ok_put: "keeps_ok st (r, put_net c (cm_of st) st)"
  by (simp add: keeps_ok_def device_ok_packet)

lemma send_response_keeps: "keeps_ok st (send_response reply r st)"
  by (simp add: keeps_ok_def send_response_def Let_def device_ok_def)

definition keeps_all :: "(net stack \<Rightarrow> net stack) \<Rightarrow> bool" where
  "keeps_all f \<longleftrightarrow> (\<forall>st. device_ok st \<longrightarrow> device_ok (f st))"

lemma answer_request_keeps:
  assumes "kept device_ok app" and "keeps_all answered"
  shows "keeps_ok st (answer_request app p0 answered inp reply st)"
proof -
  have "keeps_ok st (case NotifyMR app q r st of
      (Inl e, q, r, st) \<Rightarrow> (Inl e, st)
    | (Inr s, q, r, st) \<Rightarrow>
        if s = kEipStatusError then (Inr (IncorrectData, w_mem reply), st) else send_response reply r (answered st))"
    for q r
  proof -
    obtain x q' r' st' where n: "NotifyMR app q r st = (x, q', r', st')" by (metis prod_cases4)
    have t: "keeps_ok st (u, st')" for u :: unit
      using kept.NotifyMR_keeps [OF assms(1) _ n] by (simp add: keeps_ok_def)
    have "keeps_ok st' (send_response reply r' (answered st'))"
      using assms(2) send_response_keeps [of "answered st'" reply r'] by (auto simp: keeps_ok_def keeps_all_def)
    then show ?thesis using n t by (auto simp: keeps_ok_def split: sum.split)
  qed
  then show ?thesis
    using send_response_keeps by (auto simp: answer_request_def Let_def keeps_ok_pair split: sum.split prod.split option.split)
qed

lemma unconnected_keeps:
  assumes "kept device_ok app"
  shows "keeps_ok st (unconnected app p0 command reply st)"
proof -
  have "keeps_ok st (answer_request app p0 (\<lambda>st. st) inp reply (put_net c (cm_of st) st))" for c inp
    by (rule keeps_ok_trans [OF keeps_ok_put answer_request_keeps]) (simp_all add: assms keeps_all_def)
  then show ?thesis by (auto simp: unconnected_def Let_def keeps_ok_put split: prod.split)
qed

lemma connected_message_keeps:
  assumes "kept device_ok app"
  shows "keeps_ok st (connected_message app p0 conn c reply st)"
proof -
  have "keeps_ok st (answer_request app p0 f inp reply (put_net c (cm_of st) st))"
    if "keeps_all f" for c f inp
    by (rule keeps_ok_trans [OF keeps_ok_put answer_request_keeps]) (simp_all add: assms that)
  moreover have "keeps_all (\<lambda>st. put_net (g st) (cm_of st) st)" for g by (simp add: keeps_all_def device_ok_packet)
  ultimately show ?thesis
    by (auto simp: connected_message_def Let_def keeps_ok_pair split: sum.split)
qed

lemma connected_search_keeps:
  assumes "kept device_ok app"
  shows "keeps_ok st (connected_search app p0 c reply st)"
proof -
  have "device_ok st \<Longrightarrow>
      device_ok (put_net c (conn_upd k (\<lambda>x. SetInactivityWatchDogTimerUSecs n (RxTimeoutUSecs x) x) (cm_of st)) st)"
    for k n
  proof (erule device_ok_put)
    fix xs assume d: "device_inv xs (cm_of st)"
    have "traffic (cm_of st) (conn_upd k (\<lambda>x. SetInactivityWatchDogTimerUSecs n (RxTimeoutUSecs x) x) (cm_of st))"
      by (rule traffic_upd) simp
    from device_traffic [OF d this]
    show "\<exists>ys. device_inv ys (conn_upd k (\<lambda>x. SetInactivityWatchDogTimerUSecs n (RxTimeoutUSecs x) x) (cm_of st))" ..
  qed
  then have "keeps_ok st (r, put_net c (conn_upd k (\<lambda>x. SetInactivityWatchDogTimerUSecs n (RxTimeoutUSecs x) x) (cm_of st)) st)"
    for r :: "(int \<times> byte list) res" and k n by (simp add: keeps_ok_pair)
  then show ?thesis
    by (auto simp: connected_search_def Let_def keeps_ok_pair split: option.split
        intro: keeps_ok_trans [OF _ connected_message_keeps [OF assms]])
qed

lemma connected_keeps:
  assumes "kept device_ok app"
  shows "keeps_ok st (connected app p0 command reply st)"
proof -
  have k: "keeps_ok st (connected_search app p0 c reply (put_net c (cm_of st) st))" for c
    by (rule keeps_ok_trans [OF keeps_ok_put connected_search_keeps [OF assms]])
  have "keeps_ok st (case connected_search app p0 c reply (put_net c (cm_of st) st) of
      (Inl Range_error, st) \<Rightarrow> (Inr (IncorrectData, w_mem reply), st)
    | (Inl Overflow_error, st) \<Rightarrow> (Inr (- encap_error_code kEncapErrorInsufficientMemory, w_mem reply), st)
    | out \<Rightarrow> out)" for c
    using k [of c]
    by (auto simp: keeps_ok_def split: prod.split sum.split exn.split)
  then show ?thesis by (auto simp: connected_def Let_def keeps_ok_put split: prod.split)
qed

lemma in_session_keeps:
  assumes "\<And>command reply st. keeps_ok st (handler command reply st)" and "device_ok st"
    and "in_session handler c command reply (m, st) = (res, m', st')"
  shows "device_ok st'"
proof -
  have "device_ok (put_net c ((cm_of st)\<lparr>session := m\<rparr>) st)"
    using device_other(2) by (intro device_ok_put [OF assms(2)]) blast
  then show ?thesis
    using assms(1) [of "put_net c ((cm_of st)\<lparr>session := m\<rparr>) st" command reply] assms(3)
    by (auto simp: in_session_def keeps_ok_def split: prod.splits)
qed

lemma tcp_keeps:
  assumes rr: "\<And>c command reply m s r m' s'. P s \<Longrightarrow> rr c command reply (m, s) = (r, m', s') \<Longrightarrow> P s'"
    and ud: "\<And>c command reply m s r m' s'. P s \<Longrightarrow> ud c command reply (m, s) = (r, m', s') \<Longrightarrow> P s'"
    and P: "P s" and h: "HandleReceivedExplicitTcpData rr ud dev now sock aCommand aReply (m, s) = (r, m', s')"
  shows "P s'"
proof -
  have "P s2" if "tcp_command rr ud dev sock e command reply (m1, s) = (x, m2, s2)" for e command reply m1 x m2 s2
    using that P
    by (auto simp: tcp_command_def Let_def split: if_splits option.splits prod.splits sum.splits intro: rr ud)
  then show ?thesis using h P
    by (auto simp: HandleReceivedExplicitTcpData_def Let_def split: if_splits option.splits prod.splits sum.splits)
qed

lemma stack_tcp_keeps:
  assumes "host_keeps h" and "device_ok st"
    and "stack_tcp h p0 dev now sock aCommand aReply (m, st) = (r, m', st')"
  shows "device_ok st'"
proof -
  have k: "kept device_ok (stack_app h)" by (rule kept_stack) (rule assms)
  have rr: "device_ok s'"
    if "device_ok s" "NotifyCommonPacketFormat h p0 c command reply (m, s) = (x, m1, s')"
    for c command reply m s x m1 s'
    using in_session_keeps [OF unconnected_keeps [OF k] that(1)] that(2) unfolding NotifyCommonPacketFormat_def .
  have ud: "device_ok s'"
    if "device_ok s" "NotifyConnectedCommonPacketFormat h p0 c command reply (m, s) = (x, m1, s')"
    for c command reply m s x m1 s'
    using in_session_keeps [OF connected_keeps [OF k] that(1)] that(2) unfolding NotifyConnectedCommonPacketFormat_def .
  show ?thesis
    by (rule tcp_keeps [where P = device_ok, OF rr ud assms(2) assms(3) [unfolded stack_tcp_def]])
qed

end
