(* ===== verification/Net_Handler.thy ===== *)
theory Net_Handler
  imports Stack_Inv
begin

unbundle bit_operations_syntax

text \<open>
  The event loop of the device, \<open>enet_encap/networkhandler.cc\<close>: the sets of file descriptors, the listeners, the
  messages over TCP and the datagrams that it hands up, and the clock that drives the periodic work of
  \<open>CipConnMgrClass::ManageConnections\<close> and \<open>SessionMgr::AgeInactivity\<close>.

  What the operating system answers during one pass is the record \<open>os_pass\<close>. Sockets are closed inside the session table
  and opened inside the UDP manager; \<open>adopt\<close> carries what these have logged over to the set of descriptors. \<open>None\<close> is a
  pass that does not return, or that leaves the language.
\<close>

section \<open>State\<close>

record network_status =
  tcp_listener :: int
  udp_unicast_listener :: int
  udp_local_broadcast_listener :: int
  udp_global_broadcast_listener :: int
  elapsed_time_usecs :: u32
  tcp_inactivity_usecs :: u32

record node =
  net_stack :: "net stack"
  delayed :: "delayed_msg list"
  s_sockets :: network_status
  master_set :: "int set"
  read_set :: "int set"
  highest_socket_handle :: int
  s_last_usecs :: u32
  s_buf :: "byte list"
  outbox :: "(int \<times> sock_addr option \<times> byte list) list"

datatype selection = Interrupted | Select_failed | Selected "int set"

record os_pass =
  selected :: selection
  accepted :: int
  peer_of :: "int \<Rightarrow> sock_addr option"
  udp_input :: "int \<Rightarrow> sock_addr \<times> byte list"
  datagrams :: "int \<Rightarrow> (sock_addr \<times> byte list) list"
  tcp_input :: "int \<Rightarrow> recv_result list"
  rand_of :: "int \<Rightarrow> nat"
  usecs_now :: u32

record node_env =
  node_host :: host
  node_io :: io_env
  node_path :: app_path
  node_device :: device
  kCIPsterTimerTickInMicroSeconds :: u32
  node_HandleApplication :: "cm_state \<Rightarrow> cm_state"

abbreviation cm_in :: "node \<Rightarrow> cm_state" where
  "cm_in n \<equiv> cm_of (net_stack n)"

definition put_cm :: "cm_state \<Rightarrow> net stack \<Rightarrow> net stack" where
  "put_cm s st = put_net (net_cpf (st_rest st)) s st"

text \<open>The environment of the connection manager and the device as they are now.\<close>

definition conn_env_of :: "node_env \<Rightarrow> node \<Rightarrow> conn_env" where
  "conn_env_of env n = with_classes (net_stack n) (host_env (node_host env))"

definition io_env_of :: "node_env \<Rightarrow> node \<Rightarrow> io_env" where
  "io_env_of env n = (node_io env)\<lparr>io_conn := conn_env_of env n\<rparr>"

definition device_of :: "node_env \<Rightarrow> node \<Rightarrow> device" where
  "device_of env n = (node_device env)\<lparr>dev_ip_address := ip_address (InterfaceConf 1 (net_stack n))\<rparr>"

section \<open>The sets of descriptors\<close>

definition master_set_add :: "int \<Rightarrow> node \<Rightarrow> node" where
  "master_set_add sock n =
     n\<lparr>master_set := insert sock (master_set n), highest_socket_handle := max sock (highest_socket_handle n)\<rparr>"

definition master_set_rem :: "int \<Rightarrow> node \<Rightarrow> node" where
  "master_set_rem sock n =
     n\<lparr>master_set := master_set n - {sock},
       highest_socket_handle := (if sock = highest_socket_handle n \<and> sock > 0 then highest_socket_handle n - 1
                                 else highest_socket_handle n)\<rparr>"

definition CloseSocket :: "int \<Rightarrow> node \<Rightarrow> node" where
  "CloseSocket sock n = (if sock \<ge> 0 then master_set_rem sock n else n)"

definition checkSocketSet :: "int \<Rightarrow> node \<Rightarrow> bool \<times> node" where
  "checkSocketSet sock n =
    (if sock \<in> read_set n then (sock \<in> master_set n, n\<lparr>read_set := read_set n - {sock}\<rparr>) else (False, n))"

text \<open>The sockets that a call has opened and closed.\<close>

definition opened_sockets :: "udp_mgr \<Rightarrow> udp_mgr \<Rightarrow> int list" where
  "opened_sockets old new = map (\<lambda>i. u_socket (udp_store new i)) (drop (length (m_sockets old)) (m_sockets new))"

definition new_events :: "session_mgr \<Rightarrow> session_mgr \<Rightarrow> session_event list" where
  "new_events old new = drop (length (session_log old)) (session_log new)"

definition closed_sockets :: "session_mgr \<Rightarrow> session_mgr \<Rightarrow> int list" where
  "closed_sockets old new = concat (map (\<lambda>e. case e of Socket_closed s \<Rightarrow> [s] | Class3_closed h \<Rightarrow> []) (new_events old new))"

definition adopt :: "net stack \<Rightarrow> node \<Rightarrow> node" where
  "adopt st n =
     fold CloseSocket (closed_sockets (session (cm_in n)) (session (cm_of st)))
       (fold master_set_add (opened_sockets (udp (cm_in n)) (udp (cm_of st))) (n\<lparr>net_stack := st\<rparr>))"

definition put_session :: "session_mgr \<Rightarrow> node \<Rightarrow> node" where
  "put_session m n = adopt (put_cm ((cm_in n)\<lparr>session := m\<rparr>) (net_stack n)) n"

text \<open>What arrives is at the start of the buffer.\<close>

definition fill_buf :: "byte list \<Rightarrow> node \<Rightarrow> node" where
  "fill_buf bs n = n\<lparr>s_buf := bs @ drop (length bs) (s_buf n)\<rparr>"

definition send_reply :: "int \<Rightarrow> sock_addr option \<Rightarrow> int \<times> byte list \<Rightarrow> node \<Rightarrow> node" where
  "send_reply sock to reply n =
    (case reply of (len, mem) \<Rightarrow>
       let n = n\<lparr>s_buf := mem\<rparr> in if len > 0 then n\<lparr>outbox := outbox n @ [(sock, to, take (nat len) mem)]\<rparr> else n)"

section \<open>The listeners\<close>

definition CheckAndHandleTcpListenerSocket :: "os_pass \<Rightarrow> node \<Rightarrow> node" where
  "CheckAndHandleTcpListenerSocket os n =
    (case checkSocketSet (tcp_listener (s_sockets n)) n of
       (False, n) \<Rightarrow> n
     | (True, n) \<Rightarrow>
         let new_socket = accepted os
         in if new_socket = kSocketInvalid then n
            else case RegisterTcpConnection (peer_of os) (g_current_usecs (cm_in n)) new_socket (session (cm_in n)) of
                   ((result, h), m) \<Rightarrow>
                     let n = put_session m n
                     in if result \<noteq> kEncapErrorSuccess then n else master_set_add new_socket n)"

text \<open>The three UDP listeners differ in the socket and in what they say of it.\<close>

definition handle_udp_listener :: "node_env \<Rightarrow> os_pass \<Rightarrow> int \<Rightarrow> bool \<Rightarrow> node \<Rightarrow> unit res \<times> node" where
  "handle_udp_listener env os sock isUnicast n =
    (case checkSocketSet sock n of
       (False, n) \<Rightarrow> (Inr (), n)
     | (True, n) \<Rightarrow>
         let (from_addr, bs) = udp_input os sock; bs = take (length (s_buf n)) bs
         in if bs = [] then (Inr (), n)
            else
              let n = fill_buf bs n
              in case HandleReceivedExplicitUdpData (device_of env n) (rand_of os sock) sock from_addr bs
                        (writer_on (s_buf n)) isUnicast (delayed n) of
                   Inl e \<Rightarrow> (Inl e, n)
                 | Inr (reply, ds) \<Rightarrow> (Inr (), send_reply sock (Some from_addr) reply (n\<lparr>delayed := ds\<rparr>)))"

definition CheckAndHandleUdpUnicastSocket :: "node_env \<Rightarrow> os_pass \<Rightarrow> node \<Rightarrow> unit res \<times> node" where
  "CheckAndHandleUdpUnicastSocket env os n = handle_udp_listener env os (udp_unicast_listener (s_sockets n)) True n"

definition CheckAndHandleUdpLocalBroadcastSocket :: "node_env \<Rightarrow> os_pass \<Rightarrow> node \<Rightarrow> unit res \<times> node" where
  "CheckAndHandleUdpLocalBroadcastSocket env os n =
     handle_udp_listener env os (udp_local_broadcast_listener (s_sockets n)) False n"

definition CheckAndHandleUdpGlobalBroadcastSocket :: "node_env \<Rightarrow> os_pass \<Rightarrow> node \<Rightarrow> unit res \<times> node" where
  "CheckAndHandleUdpGlobalBroadcastSocket env os n =
     handle_udp_listener env os (udp_global_broadcast_listener (s_sockets n)) False n"

section \<open>The sockets of connections\<close>

text \<open>Up to \<open>limit\<close> datagrams, until \<open>recvfrom\<close> has none or an empty one.\<close>

fun drain :: "conn_env \<Rightarrow> nat \<Rightarrow> (sock_addr \<times> byte list) list \<Rightarrow> node \<Rightarrow> (unit res \<times> node) option" where
  "drain env 0 ds n = Some (Inr (), n)"
| "drain env (Suc limit) [] n = Some (Inr (), n)"
| "drain env (Suc limit) ((from_addr, bs) # ds) n =
    (let bs = take (length (s_buf n)) bs
     in if bs = [] then Some (Inr (), n)
        else
          let n = fill_buf bs n
          in Option.bind (RecvConnectedData env from_addr bs (cm_in n)) (\<lambda>(r, s).
             let n = adopt (put_cm s (net_stack n)) n
             in case r of Inl e \<Rightarrow> Some (Inl e, n) | Inr _ \<Rightarrow> drain env limit ds n))"

definition drain_limit :: "udp_socket \<Rightarrow> nat" where
  "drain_limit u = nat (64 * u_ref_count u)"

definition handle_udp_socket :: "node_env \<Rightarrow> os_pass \<Rightarrow> nat \<Rightarrow> node \<Rightarrow> (unit res \<times> node) option" where
  "handle_udp_socket env os i n =
    (let u = udp_store (udp (cm_in n)) i
     in case checkSocketSet (u_socket u) n of
          (False, n) \<Rightarrow> Some (Inr (), n)
        | (True, n) \<Rightarrow> drain (conn_env_of env n) (drain_limit u) (datagrams os (u_socket u)) n)"

fun udp_sockets :: "node_env \<Rightarrow> os_pass \<Rightarrow> nat list \<Rightarrow> node \<Rightarrow> (unit res \<times> node) option" where
  "udp_sockets env os [] n = Some (Inr (), n)"
| "udp_sockets env os (i # is) n =
     Option.bind (handle_udp_socket env os i n) (\<lambda>(r, n).
     case r of Inl e \<Rightarrow> Some (Inl e, n) | Inr _ \<Rightarrow> udp_sockets env os is n)"

definition checkAndHandleUdpSockets :: "node_env \<Rightarrow> os_pass \<Rightarrow> node \<Rightarrow> (unit res \<times> node) option" where
  "checkAndHandleUdpSockets env os n = udp_sockets env os (m_sockets (udp (cm_in n))) n"

section \<open>Messages over TCP\<close>

definition HandleDataOnTcpSocket :: "node_env \<Rightarrow> os_pass \<Rightarrow> int \<Rightarrow> node \<Rightarrow> EipStatus res \<times> node" where
  "HandleDataOnTcpSocket env os sock n =
    (case ReceiveTcpMsg (tcp_input os sock) (length (s_buf n)) of
       (num_read, msg, rest) \<Rightarrow>
         let n = fill_buf msg n
         in if num_read < int ENCAPSULATION_HEADER_LENGTH then (Inr kEipStatusError, n)
            else
              case stack_tcp (node_host env) (node_path env) (device_of env n) (g_current_usecs (cm_in n)) sock msg
                     (writer_on (s_buf n)) (session (cm_in n), net_stack n) of
                (res, m, st) \<Rightarrow>
                  let n = adopt (put_cm ((cm_of st)\<lparr>session := m\<rparr>) st) n
                  in case res of
                       Inl e \<Rightarrow> (Inl e, n)
                     | Inr reply \<Rightarrow>
                         (Inr (if fst reply \<ge> 0 then kEipStatusOk else kEipStatusError), send_reply sock None reply n))"

definition tcp_socket :: "node_env \<Rightarrow> os_pass \<Rightarrow> int \<Rightarrow> node \<Rightarrow> unit res \<times> node" where
  "tcp_socket env os sock n =
    (case checkSocketSet sock n of
       (False, n) \<Rightarrow> (Inr (), n)
     | (True, n) \<Rightarrow>
         (case HandleDataOnTcpSocket env os sock n of
            (Inl e, n) \<Rightarrow> (Inl e, n)
          | (Inr s, n) \<Rightarrow>
              (Inr (), if s = kEipStatusError then put_session (snd (CloseBySocket sock (session (cm_in n)))) n else n)))"

text \<open>The bound of the loop is read again in each round.\<close>

partial_function (option) tcp_sockets :: "node_env \<Rightarrow> os_pass \<Rightarrow> int \<Rightarrow> node \<Rightarrow> (unit res \<times> node) option" where
  "tcp_sockets env os sock n =
    (if sock \<le> highest_socket_handle n then
       case tcp_socket env os sock n of
         (Inl e, n) \<Rightarrow> Some (Inl e, n)
       | (Inr _, n) \<Rightarrow> tcp_sockets env os (sock + 1) n
     else Some (Inr (), n))"

section \<open>The clock\<close>

definition set_clock :: "(network_status \<Rightarrow> network_status) \<Rightarrow> node \<Rightarrow> node" where
  "set_clock f n = n\<lparr>s_sockets := f (s_sockets n)\<rparr>"

definition advance_clock :: "u32 \<Rightarrow> node \<Rightarrow> node" where
  "advance_clock now n =
    (let elapsed = now - s_last_usecs n;
         n = set_clock (\<lambda>k. k\<lparr>elapsed_time_usecs := elapsed_time_usecs k + elapsed,
               tcp_inactivity_usecs := tcp_inactivity_usecs k + elapsed\<rparr>) (n\<lparr>s_last_usecs := now\<rparr>);
         s = cm_in n
     in n\<lparr>net_stack := put_cm (s\<lparr>g_current_usecs := g_current_usecs s + ucast elapsed\<rparr>) (net_stack n)\<rparr>)"

text \<open>\<open>ManageConnections\<close>: the application, the delayed replies, the connections.\<close>

definition manage_all :: "node_env \<Rightarrow> node \<Rightarrow> (unit res \<times> node) option" where
  "manage_all env n =
    (case ManageEncapsulationMessages (uint (kCIPsterTimerTickInMicroSeconds env)) (delayed n) of
       (sent, ds) \<Rightarrow>
         let n = n\<lparr>delayed := ds, outbox := outbox n @ map (\<lambda>(a, s, bs). (s, Some a, bs)) sent\<rparr>
         in map_option (\<lambda>(r, s). (map_sum id (\<lambda>_. ()) r, adopt (put_cm s (net_stack n)) n))
              (ManageConnections (io_env_of env n) (node_HandleApplication env) (cm_in n)))"

partial_function (option) tick_loop :: "node_env \<Rightarrow> node \<Rightarrow> (unit res \<times> node) option" where
  "tick_loop env n =
    (let tick = kCIPsterTimerTickInMicroSeconds env
     in if elapsed_time_usecs (s_sockets n) \<ge> tick then
          Option.bind (manage_all env n) (\<lambda>(r, n).
          case r of
            Inl e \<Rightarrow> Some (Inl e, n)
          | Inr _ \<Rightarrow> tick_loop env (set_clock (\<lambda>k. k\<lparr>elapsed_time_usecs := elapsed_time_usecs k - tick\<rparr>) n))
        else Some (Inr (), n))"

abbreviation INACTIVITY_CHECK_PERIOD_USECS :: u32 where "INACTIVITY_CHECK_PERIOD_USECS \<equiv> 500000"

text \<open>\<open>AgeInactivity\<close>, with the class 3 connections that it closes.\<close>

fun close_orphans :: "session_event list \<Rightarrow> cm_state \<Rightarrow> cm_state option" where
  "close_orphans [] s = Some s"
| "close_orphans (Class3_closed h # es) s = Option.bind (CloseClass3Connections h s) (close_orphans es)"
| "close_orphans (Socket_closed k # es) s = close_orphans es s"

definition age_sessions :: "node_env \<Rightarrow> node \<Rightarrow> node option" where
  "age_sessions env n =
    (let s = cm_in n;
         secs = as_u16 (st_data (net_stack n) (Static (host_place (node_host env) 13)));
         m = AgeInactivity (g_current_usecs s) secs (session s)
     in map_option (\<lambda>s. put_session m (n\<lparr>net_stack := put_cm s (net_stack n)\<rparr>))
          (close_orphans (new_events (session s) m) s))"

definition check_inactivity :: "node_env \<Rightarrow> node \<Rightarrow> node option" where
  "check_inactivity env n =
    (if tcp_inactivity_usecs (s_sockets n) \<ge> INACTIVITY_CHECK_PERIOD_USECS
     then age_sessions env (set_clock (\<lambda>k. k\<lparr>tcp_inactivity_usecs := tcp_inactivity_usecs k - INACTIVITY_CHECK_PERIOD_USECS\<rparr>) n)
     else Some n)"

section \<open>One pass\<close>

text \<open>Steps in order, the first exception leaving.\<close>

definition and_then ::
    "(unit res \<times> node) option \<Rightarrow> (node \<Rightarrow> (unit res \<times> node) option) \<Rightarrow> (unit res \<times> node) option" where
  "and_then x f = Option.bind x (\<lambda>(r, n). case r of Inl e \<Rightarrow> Some (Inl e, n) | Inr _ \<Rightarrow> f n)"

definition handle_ready :: "node_env \<Rightarrow> os_pass \<Rightarrow> node \<Rightarrow> (unit res \<times> node) option" where
  "handle_ready env os n =
     and_then (Some (CheckAndHandleUdpUnicastSocket env os (CheckAndHandleTcpListenerSocket os n))) (\<lambda>n.
     and_then (Some (CheckAndHandleUdpLocalBroadcastSocket env os n)) (\<lambda>n.
     and_then (Some (CheckAndHandleUdpGlobalBroadcastSocket env os n)) (\<lambda>n.
     and_then (checkAndHandleUdpSockets env os n) (tcp_sockets env os 0))))"

definition handle_time :: "node_env \<Rightarrow> os_pass \<Rightarrow> node \<Rightarrow> (unit res \<times> node) option" where
  "handle_time env os n =
     and_then (tick_loop env (advance_clock (usecs_now os) n)) (\<lambda>n. map_option (Pair (Inr ())) (check_inactivity env n))"

definition NetworkHandlerProcessOnce :: "node_env \<Rightarrow> os_pass \<Rightarrow> node \<Rightarrow> (EipStatus res \<times> node) option" where
  "NetworkHandlerProcessOnce env os n =
    (let n = n\<lparr>read_set := master_set n\<rparr>
     in case selected os of
          Interrupted \<Rightarrow> Some (Inr kEipStatusOk, n)
        | Select_failed \<Rightarrow> Some (Inr kEipStatusError, n)
        | Selected ready \<Rightarrow>
            let n = n\<lparr>read_set := ready\<rparr>
            in map_option (apfst (map_sum id (\<lambda>_. kEipStatusOk)))
                 (and_then (if ready \<noteq> {} then handle_ready env os n else Some (Inr (), n)) (handle_time env os)))"

section \<open>Starting and finishing\<close>

definition NetworkHandlerFinish :: "node \<Rightarrow> node" where
  "NetworkHandlerFinish n =
    (let k = s_sockets n
     in CloseSocket (udp_global_broadcast_listener k) (CloseSocket (udp_local_broadcast_listener k)
          (CloseSocket (udp_unicast_listener k) (CloseSocket (tcp_listener k) n))))"

text \<open>What the calls of the system for a listener give: its socket or none, whether its options are taken, and whether it
  can be bound to an address. A socket that was made but not bound is closed by \<open>NetworkHandlerFinish\<close>.\<close>

record os_listener =
  l_socket :: int
  l_options :: bool
  l_bind :: "sock_addr \<Rightarrow> bool"

record os_init =
  os_tcp :: os_listener
  os_udp_global :: os_listener
  os_udp_local :: os_listener
  os_udp_unicast :: os_listener
  os_listen :: bool

definition bound :: "os_listener \<Rightarrow> u32 \<Rightarrow> bool" where
  "bound l addr \<longleftrightarrow> l_socket l \<noteq> -1 \<and> l_options l \<and> l_bind l (SockAddr 0xAF12 addr)"

definition NetworkHandlerInitialize :: "os_init \<Rightarrow> u32 \<Rightarrow> node \<Rightarrow> EipStatus \<times> node" where
  "NetworkHandlerInitialize os now n =
    (let c = InterfaceConf 1 (net_stack n);
         n = n\<lparr>master_set := {}, read_set := {},
               s_sockets := (s_sockets n)\<lparr>tcp_listener := -1, udp_unicast_listener := -1,
                 udp_local_broadcast_listener := -1, udp_global_broadcast_listener := -1\<rparr>\<rparr>;
         failed = (\<lambda>n. (kEipStatusError, NetworkHandlerFinish n));
         n = set_clock (\<lambda>k. k\<lparr>tcp_listener := l_socket (os_tcp os)\<rparr>) n
     in if \<not> bound (os_tcp os) (bswap32 (ip_address c)) then failed n
        else
          let n = set_clock (\<lambda>k. k\<lparr>udp_global_broadcast_listener := l_socket (os_udp_global os)\<rparr>) n
          in if \<not> bound (os_udp_global os) 0xFFFFFFFF then failed n
             else
               let n = set_clock (\<lambda>k. k\<lparr>udp_local_broadcast_listener := l_socket (os_udp_local os)\<rparr>) n
               in if \<not> bound (os_udp_local os) (bswap32 (ip_address c OR NOT (network_mask c))) then failed n
                  else
                    let n = set_clock (\<lambda>k. k\<lparr>udp_unicast_listener := l_socket (os_udp_unicast os)\<rparr>) n
                    in if \<not> bound (os_udp_unicast os) (bswap32 (ip_address c)) then failed n
                       else if \<not> os_listen os then failed n
                       else
                         let k = s_sockets n;
                             n = master_set_add (udp_global_broadcast_listener k)
                                  (master_set_add (udp_local_broadcast_listener k)
                                    (master_set_add (udp_unicast_listener k) (master_set_add (tcp_listener k) n)))
                         in (kEipStatusOk, set_clock (\<lambda>k. k\<lparr>elapsed_time_usecs := 0, tcp_inactivity_usecs := 0\<rparr>)
                               (n\<lparr>s_last_usecs := now\<rparr>)))"

end
