(* ===== verification/Node_Inv.thy ===== *)
theory Node_Inv
  imports Net_Handler
begin

text \<open>
  What holds of the event loop: the loops of a pass end, the periodic work runs once for each tick that has gone by, no watched
  descriptor is above the highest, and no pass, whatever arrives in whatever order, breaks the invariant of the connections.
\<close>

section \<open>What the steps leave alone\<close>

lemma put_cm_simps [simp]:
  "cm_of (put_cm s st) = s" "st_classes (put_cm s st) = st_classes st" "put_cm (cm_of st) st = st"
  by (simp_all add: put_cm_def put_net_def)

definition same_sets :: "node \<Rightarrow> node \<Rightarrow> bool" where
  "same_sets n n' \<longleftrightarrow> master_set n' = master_set n \<and> highest_socket_handle n' = highest_socket_handle n"

text \<open>The descriptors of the master set are not above the highest.\<close>

definition sets_ok :: "node \<Rightarrow> bool" where
  "sets_ok n \<longleftrightarrow> finite (master_set n) \<and> finite (read_set n) \<and> (\<forall>s \<in> master_set n. s \<le> highest_socket_handle n)"

lemma set_op_simps [simp]:
  "read_set (master_set_add s n) = read_set n" "read_set (CloseSocket s n) = read_set n"
  "net_stack (master_set_add s n) = net_stack n" "net_stack (CloseSocket s n) = net_stack n"
  "s_sockets (master_set_add s n) = s_sockets n" "s_sockets (CloseSocket s n) = s_sockets n"
  by (simp_all add: master_set_add_def CloseSocket_def master_set_rem_def)

lemma fold_op_simps [simp]:
  "read_set (fold master_set_add l n) = read_set n" "read_set (fold CloseSocket l n) = read_set n"
  "net_stack (fold master_set_add l n) = net_stack n" "net_stack (fold CloseSocket l n) = net_stack n"
  "s_sockets (fold master_set_add l n) = s_sockets n" "s_sockets (fold CloseSocket l n) = s_sockets n"
  by (induction l arbitrary: n) simp_all

lemma adopt_simps [simp]:
  "read_set (adopt st n) = read_set n" "net_stack (adopt st n) = st" "s_sockets (adopt st n) = s_sockets n"
  by (simp_all add: adopt_def)

lemma put_session_simps [simp]:
  "read_set (put_session m n) = read_set n" "s_sockets (put_session m n) = s_sockets n"
  "cm_in (put_session m n) = (cm_in n)\<lparr>session := m\<rparr>" "st_classes (net_stack (put_session m n)) = st_classes (net_stack n)"
  by (simp_all add: put_session_def)

lemma buf_simps [simp]:
  "read_set (fill_buf bs n) = read_set n" "net_stack (fill_buf bs n) = net_stack n" "s_sockets (fill_buf bs n) = s_sockets n"
  "master_set (fill_buf bs n) = master_set n" "highest_socket_handle (fill_buf bs n) = highest_socket_handle n"
  by (simp_all add: fill_buf_def)

lemma reply_simps [simp]:
  "read_set (send_reply s a r n) = read_set n" "net_stack (send_reply s a r n) = net_stack n"
  "s_sockets (send_reply s a r n) = s_sockets n" "master_set (send_reply s a r n) = master_set n"
  "highest_socket_handle (send_reply s a r n) = highest_socket_handle n"
  by (simp_all add: send_reply_def Let_def split: prod.split)

lemma sets_ok_cong: "master_set n' = master_set n \<Longrightarrow> highest_socket_handle n' = highest_socket_handle n \<Longrightarrow>
    read_set n' = read_set n \<Longrightarrow> sets_ok n' = sets_ok n"
  by (simp add: sets_ok_def)

lemma add_ok: "sets_ok n \<Longrightarrow> sets_ok (master_set_add s n)"
  by (auto simp: sets_ok_def master_set_add_def)

lemma rem_ok: "sets_ok n \<Longrightarrow> sets_ok (master_set_rem s n)"
  by (fastforce simp: sets_ok_def master_set_rem_def)

lemma close_ok: "sets_ok n \<Longrightarrow> sets_ok (CloseSocket s n)"
  by (simp add: CloseSocket_def rem_ok)

lemma fold_ok: "sets_ok n \<Longrightarrow> sets_ok (fold master_set_add l n)" "sets_ok n \<Longrightarrow> sets_ok (fold CloseSocket l n)"
  by (induction l arbitrary: n) (simp_all add: add_ok close_ok)

lemma adopt_ok: "sets_ok n \<Longrightarrow> sets_ok (adopt st n)"
  unfolding adopt_def by (intro fold_ok) (simp add: sets_ok_def)

lemma check_ok: "checkSocketSet s n = (b, n') \<Longrightarrow> sets_ok n \<Longrightarrow> sets_ok n'"
  by (auto simp: checkSocketSet_def sets_ok_def split: if_splits)

lemma check_rest:
  "checkSocketSet s n = (b, n') \<Longrightarrow> net_stack n' = net_stack n \<and> s_sockets n' = s_sockets n \<and> read_set n' = read_set n - {s}"
  by (auto simp: checkSocketSet_def split: if_splits)

section \<open>The invariant of a node\<close>

definition node_ok :: "node \<Rightarrow> bool" where
  "node_ok n \<longleftrightarrow> device_ok (net_stack n) \<and> sets_ok n"

definition env_ok :: "node_env \<Rightarrow> bool" where
  "env_ok env \<longleftrightarrow> host_keeps (node_host env) \<and> (\<forall>s. traffic s (node_HandleApplication env s))"

lemma adopt_node: "sets_ok n \<Longrightarrow> device_ok st \<Longrightarrow> node_ok (adopt st n)"
  by (simp add: node_ok_def adopt_ok)

text \<open>A step of the connection manager, carried over to the stack.\<close>

lemma device_ok_step:
  assumes "device_ok st" and "device_step io (cm_of st) s" and "wf_registry (registered (io_conn io))"
  shows "device_ok (put_cm s st)"
  unfolding put_cm_def
  using assms device_step_inv by (intro device_ok_put [OF assms(1)]) blast

lemma classes_wf: "device_ok st \<Longrightarrow> wf_registry (registered (with_classes st env))"
  by (simp add: device_ok_def with_classes_def)

lemma put_session_node: "node_ok n \<Longrightarrow> node_ok (put_session m n)"
  unfolding put_session_def put_cm_def using device_other(2)
  by (intro adopt_node) (auto simp: node_ok_def device_ok_def)

lemma node_ok_cong: "net_stack n' = net_stack n \<Longrightarrow> sets_ok n' = sets_ok n \<Longrightarrow> node_ok n' = node_ok n"
  by (simp add: node_ok_def)

lemma same_node:
  "node_ok (fill_buf bs n) = node_ok n" "node_ok (send_reply s a r n) = node_ok n"
  "node_ok (n\<lparr>delayed := ds\<rparr>) = node_ok n" "node_ok (n\<lparr>delayed := ds, outbox := obx\<rparr>) = node_ok n"
  "node_ok (set_clock f n) = node_ok n" "node_ok (n\<lparr>s_last_usecs := now\<rparr>) = node_ok n"
  by (rule node_ok_cong, simp add: set_clock_def, rule sets_ok_cong, simp_all add: set_clock_def)+

lemma check_node: "checkSocketSet s n = (b, n') \<Longrightarrow> node_ok n \<Longrightarrow> node_ok n'"
  using check_ok check_rest unfolding node_ok_def by metis

lemma listener_ok: "node_ok n \<Longrightarrow> node_ok (CheckAndHandleTcpListenerSocket os n)"
proof -
  have "node_ok (master_set_add s n)" if "node_ok n" for s n using that by (simp add: node_ok_def add_ok)
  then show "node_ok n \<Longrightarrow> ?thesis"
    by (auto simp: CheckAndHandleTcpListenerSocket_def Let_def put_session_node dest: check_node
        split: prod.split bool.split)
qed

lemma udp_listener_ok: "node_ok n \<Longrightarrow> handle_udp_listener env os s u n = (r, n') \<Longrightarrow> node_ok n'"
  by (auto simp: handle_udp_listener_def Let_def same_node dest: check_node
      split: prod.splits bool.splits if_splits sum.splits)

lemma datagram_node:
  assumes "node_ok n" and "RecvConnectedData (with_classes st0 env) a bs (cm_in n) = Some (r, s)" and "device_ok st0"
  shows "node_ok (adopt (put_cm s (net_stack n)) n)"
proof -
  have "device_step (env_of (with_classes st0 env)) (cm_in n) s"
    by (rule device_step.datagram_step [where addr = a and data = bs and res' = r]) (simp add: env_of_def assms(2))
  then have "device_ok (put_cm s (net_stack n))"
    using assms(1,3) classes_wf by (intro device_ok_step [where io = "env_of (with_classes st0 env)"])
      (auto simp: node_ok_def env_of_def)
  then show ?thesis using assms(1) by (intro adopt_node) (auto simp: node_ok_def)
qed

lemma drain_ok:
  assumes "device_ok st0"
  shows "node_ok n \<Longrightarrow> drain (with_classes st0 env) k ds n = Some (r, n') \<Longrightarrow> node_ok n'"
proof (induction "with_classes st0 env" k ds n rule: drain.induct)
  case (3 limit from_addr bs ds n)
  let ?n = "fill_buf (take (length (s_buf n)) bs) n"
  show ?case
  proof (cases "take (length (s_buf n)) bs = []")
    case True then show ?thesis using 3 by (simp add: Let_def)
  next
    case False
    then obtain x s where r: "RecvConnectedData (with_classes st0 env) from_addr (take (length (s_buf n)) bs) (cm_in ?n) = Some (x, s)"
      using "3.prems"(2) by (auto simp: Let_def bind_eq_Some_conv)
    have ok: "node_ok (adopt (put_cm s (net_stack ?n)) ?n)"
      by (rule datagram_node [OF _ r assms]) (simp add: same_node "3.prems"(1))
    show ?thesis
    proof (cases x)
      case (Inl e) then show ?thesis using "3.prems"(2) False r ok by (simp add: Let_def)
    next
      case (Inr y)
      have "drain (with_classes st0 env) limit ds (adopt (put_cm s (net_stack ?n)) ?n) = Some (r, n')"
        using "3.prems"(2) False r Inr by (simp add: Let_def)
      then show ?thesis by (rule "3.hyps" [OF refl False refl r refl refl Inr ok])
    qed
  qed
qed auto

lemma udp_sockets_ok: "node_ok n \<Longrightarrow> udp_sockets env os is n = Some (r, n') \<Longrightarrow> node_ok n'"
proof (induction env os "is" n rule: udp_sockets.induct)
  case (2 env os i "is" n)
  obtain x m where h: "handle_udp_socket env os i n = Some (x, m)"
    using "2.prems"(2) by (auto simp: bind_eq_Some_conv)
  obtain b n1 where c: "checkSocketSet (u_socket (udp_store (udp (cm_in n)) i)) n = (b, n1)" by force
  have n1: "node_ok n1" "net_stack n1 = net_stack n" using check_node [OF c "2.prems"(1)] check_rest [OF c] by auto
  have "node_ok m"
    using h c n1 drain_ok [of "net_stack n1" n1 "host_env (node_host env)"]
    by (auto simp: handle_udp_socket_def Let_def conn_env_of_def node_ok_def split: bool.splits)
  then show ?case using 2 h by (cases x) auto
qed simp

section \<open>Messages over TCP\<close>

lemma receive_ok:
  assumes "node_ok n" and "env_ok env" and "HandleDataOnTcpSocket env os sock n = (r, n')"
  shows "node_ok n'"
proof -
  obtain num_read msg rest where rc: "ReceiveTcpMsg (tcp_input os sock) (length (s_buf n)) = (num_read, msg, rest)"
    by (metis prod_cases3)
  let ?n = "fill_buf msg n"
  obtain res m st where h: "stack_tcp (node_host env) (node_path env) (device_of env ?n) (g_current_usecs (cm_in ?n)) sock msg
      (writer_on (s_buf ?n)) (session (cm_in ?n), net_stack ?n) = (res, m, st)" by (metis prod_cases3)
  have "device_ok st"
    using stack_tcp_keeps [OF _ _ h] assms(1,2) by (simp add: node_ok_def env_ok_def)
  then have "device_ok (put_cm ((cm_of st)\<lparr>session := m\<rparr>) st)"
    unfolding put_cm_def using device_other(2) by (intro device_ok_put) blast+
  then have "node_ok (adopt (put_cm ((cm_of st)\<lparr>session := m\<rparr>) st) ?n)"
    using assms(1) by (intro adopt_node) (simp_all add: node_ok_def sets_ok_def)
  then show ?thesis using assms(1,3) rc h
    by (auto simp: HandleDataOnTcpSocket_def Let_def same_node split: if_splits sum.splits)
qed

lemma tcp_socket_ok: "node_ok n \<Longrightarrow> env_ok env \<Longrightarrow> tcp_socket env os sock n = (r, n') \<Longrightarrow> node_ok n'"
  by (auto simp: tcp_socket_def intro!: put_session_node dest: check_node receive_ok
      split: prod.splits bool.splits sum.splits if_splits)

lemma receive_read_set: "HandleDataOnTcpSocket env os sock n = (r, n') \<Longrightarrow> read_set n' = read_set n \<and> s_sockets n' = s_sockets n"
  by (auto simp: HandleDataOnTcpSocket_def Let_def split: prod.splits if_splits sum.splits)

text \<open>A round of the loop either finds nothing and changes nothing, or takes a descriptor out of the read set.\<close>

lemma tcp_socket_progress:
  assumes "tcp_socket env os sock n = (r, n')"
  shows "sock \<notin> read_set n \<and> n' = n \<and> r = Inr () \<or> sock \<in> read_set n \<and> read_set n' = read_set n - {sock}"
  using assms receive_read_set
  by (fastforce simp: tcp_socket_def checkSocketSet_def split: prod.splits bool.splits sum.splits if_splits)

definition tcp_order :: "((int \<times> node) \<times> int \<times> node) set" where
  "tcp_order = inv_image (less_than <*lex*> less_than)
     (\<lambda>(sock, n). (card (read_set n), nat (highest_socket_handle n + 1 - sock)))"

lemma tcp_sockets_total:
  "finite (read_set n) \<Longrightarrow> \<exists>r n'. tcp_sockets env os sock n = Some (r, n')"
proof (induction "(sock, n)" arbitrary: sock n rule: wf_induct [of tcp_order])
  show "wf tcp_order" unfolding tcp_order_def by (intro wf_inv_image wf_lex_prod wf_less_than)
next
  fix sock n
  assume IH: "\<forall>y. (y, sock, n) \<in> tcp_order \<longrightarrow> (\<forall>s m. y = (s, m) \<longrightarrow> finite (read_set m) \<longrightarrow>
      (\<exists>r n'. tcp_sockets env os s m = Some (r, n')))" and fin: "finite (read_set n)"
  obtain r m where t: "tcp_socket env os sock n = (r, m)" by force
  show "\<exists>r n'. tcp_sockets env os sock n = Some (r, n')"
  proof (cases "sock \<le> highest_socket_handle n \<and> r = Inr ()")
    case False
    then show ?thesis using t by (subst tcp_sockets.simps) (auto split: sum.split)
  next
    case True
    have "((sock + 1, m), sock, n) \<in> tcp_order"
    proof (cases "sock \<in> read_set n")
      case True
      then have "card (read_set m) < card (read_set n)"
        using tcp_socket_progress [OF t] card_Diff1_less [OF fin] by simp
      then show ?thesis by (simp add: tcp_order_def)
    next
      case False
      then have "m = n" using tcp_socket_progress [OF t] by blast
      moreover have "nat (highest_socket_handle n + 1 - (sock + 1)) < nat (highest_socket_handle n + 1 - sock)"
        using \<open>sock \<le> highest_socket_handle n \<and> r = Inr ()\<close> by linarith
      ultimately show ?thesis by (simp add: tcp_order_def)
    qed
    moreover have "read_set m \<subseteq> read_set n" using tcp_socket_progress [OF t] by blast
    then have "finite (read_set m)" using fin by (rule finite_subset)
    ultimately obtain r' n' where rest: "tcp_sockets env os (sock + 1) m = Some (r', n')" using IH by blast
    have "tcp_sockets env os sock n = tcp_sockets env os (sock + 1) m" using True by (subst tcp_sockets.simps) (simp add: t)
    then show ?thesis using rest by simp
  qed
qed

lemma tcp_sockets_ok:
  assumes "tcp_sockets env os sock n = Some res" and "node_ok n" and "env_ok env"
  shows "node_ok (snd res)"
  using assms
proof (induction rule: tcp_sockets.raw_induct [rotated 1, consumes 1, case_names loop])
  case (loop f env os sock n res)
  obtain r m where t: "tcp_socket env os sock n = (r, m)" by force
  moreover have "node_ok m" using tcp_socket_ok [OF _ _ t] loop by blast
  ultimately show ?case using loop by (cases r) (auto simp: t split: if_splits)
qed

text \<open>When the loop is through, no descriptor of the read set is left.\<close>

lemma tcp_sockets_handles:
  assumes "tcp_sockets env os sock n = Some res" and "fst res = Inr ()" and "\<forall>s. 0 \<le> s \<longrightarrow> s < sock \<longrightarrow> s \<notin> read_set n"
  shows "\<forall>s. 0 \<le> s \<longrightarrow> s \<le> highest_socket_handle (snd res) \<longrightarrow> s \<notin> read_set (snd res)"
  using assms
proof (induction rule: tcp_sockets.raw_induct [rotated 1, consumes 1, case_names loop])
  case (loop f env os sock n res)
  obtain r m where t: "tcp_socket env os sock n = (r, m)" by force
  have "s \<notin> read_set m" if "0 \<le> s" "s < sock + 1" for s
    using tcp_socket_progress [OF t] loop.prems(2) that by (cases "s = sock") auto
  then show ?case using loop by (cases r) (auto simp: t split: if_splits)
qed

section \<open>The clock\<close>

text \<open>The loop of the ticks with their number as an argument.\<close>

fun tick_times :: "node_env \<Rightarrow> nat \<Rightarrow> node \<Rightarrow> (unit res \<times> node) option" where
  "tick_times env 0 n = Some (Inr (), n)"
| "tick_times env (Suc k) n =
     Option.bind (manage_all env n) (\<lambda>(r, n).
     case r of
       Inl e \<Rightarrow> Some (Inl e, n)
     | Inr _ \<Rightarrow>
         tick_times env k
           (set_clock (\<lambda>x. x\<lparr>elapsed_time_usecs := elapsed_time_usecs x - kCIPsterTimerTickInMicroSeconds env\<rparr>) n))"

lemma manage_all_rest: "manage_all env n = Some (r, n') \<Longrightarrow> s_sockets n' = s_sockets n \<and> read_set n' = read_set n"
  by (auto simp: manage_all_def Let_def split: prod.splits)

abbreviation elapsed :: "node \<Rightarrow> u32" where
  "elapsed n \<equiv> elapsed_time_usecs (s_sockets n)"

lemma tick_quotient:
  fixes t e :: u32
  assumes "0 < t" and "t \<le> e"
  shows "unat e div unat t = Suc (unat (e - t) div unat t)" and "unat (e - t) mod unat t = unat e mod unat t"
proof -
  have "unat (e - t) = unat e - unat t" using assms(2) by (rule unat_sub)
  moreover have "0 < unat t" using assms(1) by (simp add: unat_gt_0 word_neq_0_conv)
  moreover have "unat t \<le> unat e" using assms(2) by (simp add: word_le_nat_alt)
  ultimately show "unat e div unat t = Suc (unat (e - t) div unat t)" "unat (e - t) mod unat t = unat e mod unat t"
    using le_div_geq [of "unat t" "unat e"] le_mod_geq [of "unat t" "unat e"] by simp_all
qed

lemma tick_loop_times:
  assumes "0 < kCIPsterTimerTickInMicroSeconds env"
  shows "tick_loop env n = tick_times env (unat (elapsed n) div unat (kCIPsterTimerTickInMicroSeconds env)) n"
proof (induction "unat (elapsed n) div unat (kCIPsterTimerTickInMicroSeconds env)" arbitrary: n)
  case 0
  have "\<not> kCIPsterTimerTickInMicroSeconds env \<le> elapsed n"
    using tick_quotient(1) [OF assms, of "elapsed n"] "0.hyps" by auto
  then show ?case using "0.hyps" [symmetric] by (subst tick_loop.simps) (simp add: Let_def)
next
  case (Suc k)
  let ?tick = "kCIPsterTimerTickInMicroSeconds env"
  let ?next = "set_clock (\<lambda>x. x\<lparr>elapsed_time_usecs := elapsed_time_usecs x - ?tick\<rparr>)"
  have le: "?tick \<le> elapsed n" using Suc.hyps(2) by (metis div_less not_le old.nat.distinct(2) word_less_nat_alt)
  have k: "k = unat (elapsed (?next m)) div unat ?tick" if "manage_all env n = Some (r, m)" for r m
    using tick_quotient(1) [OF assms le] Suc.hyps(2) manage_all_rest [OF that] by (simp add: set_clock_def)
  have "tick_loop env (?next m) = tick_times env k (?next m)" if "manage_all env n = Some (r, m)" for r m
    using Suc.hyps(1) [OF k [OF that]] k [OF that] by simp
  then show ?case using le Suc.hyps(2) [symmetric]
    by (cases "manage_all env n") (auto simp: tick_loop.simps [of env n] Let_def split: sum.split)
qed

text \<open>What is left of the time is less than a tick.\<close>

lemma tick_times_elapsed:
  "0 < kCIPsterTimerTickInMicroSeconds env \<Longrightarrow> k \<le> unat (elapsed n) div unat (kCIPsterTimerTickInMicroSeconds env) \<Longrightarrow>
   tick_times env k n = Some (Inr u, n') \<Longrightarrow>
   unat (elapsed n') = unat (elapsed n) - k * unat (kCIPsterTimerTickInMicroSeconds env)"
proof (induction env k n rule: tick_times.induct)
  case (2 env k n)
  let ?tick = "kCIPsterTimerTickInMicroSeconds env"
  obtain m where m: "manage_all env n = Some (Inr (), m)"
    using "2.prems"(3) by (cases "manage_all env n") (auto split: sum.splits)
  let ?m = "set_clock (\<lambda>x. x\<lparr>elapsed_time_usecs := elapsed_time_usecs x - ?tick\<rparr>) m"
  have "?tick \<le> elapsed n" using "2.prems"(1,2) by (metis div_less le_zero_eq not_le old.nat.distinct(2) word_less_nat_alt)
  then have e: "unat (elapsed ?m) = unat (elapsed n) - unat ?tick"
    "unat (elapsed n) div unat ?tick = Suc (unat (elapsed ?m) div unat ?tick)"
    using tick_quotient(1) [OF "2.prems"(1)] manage_all_rest [OF m] by (simp_all add: set_clock_def unat_sub)
  have "tick_times env k ?m = Some (Inr u, n')" using "2.prems"(3) m by simp
  moreover have "k \<le> unat (elapsed ?m) div unat ?tick" using "2.prems"(2) e(2) by simp
  ultimately have "unat (elapsed n') = unat (elapsed ?m) - k * unat ?tick"
    using "2.IH" [OF m refl refl "2.prems"(1)] by blast
  then show ?case using e(1) by simp
qed simp

section \<open>A pass\<close>

lemma manage_all_ok:
  assumes "node_ok n" and "env_ok env" and "manage_all env n = Some (r, n')"
  shows "node_ok n'"
proof -
  obtain sent ds where d: "ManageEncapsulationMessages (uint (kCIPsterTimerTickInMicroSeconds env)) (delayed n) = (sent, ds)"
    by force
  let ?n = "n\<lparr>delayed := ds, outbox := outbox n @ map (\<lambda>(a, s, bs). (s, Some a, bs)) sent\<rparr>"
  obtain x s where m: "ManageConnections (io_env_of env ?n) (node_HandleApplication env) (cm_in ?n) = Some (x, s)"
    and n': "n' = adopt (put_cm s (net_stack ?n)) ?n"
    using assms(3) d by (auto simp: manage_all_def Let_def)
  have "device_step (io_env_of env ?n) (cm_in ?n) s"
    using assms(2) by (intro device_step.tick_step [OF _ m]) (simp add: env_ok_def)
  then have "device_ok (put_cm s (net_stack ?n))"
    using assms(1) classes_wf
    by (intro device_ok_step [where io = "io_env_of env ?n"]) (auto simp: node_ok_def io_env_of_def conn_env_of_def)
  then show ?thesis using assms(1) unfolding n' by (intro adopt_node) (simp_all add: node_ok_def sets_ok_def)
qed

text \<open>While every connection has its assemblies, the periodic work returns.\<close>

lemma manage_all_total:
  assumes "device_inv xs (cm_in n)" and "data_ready (cm_in n) xs" and "env_ok env"
  shows "\<exists>r n'. manage_all env n = Some (r, n')"
proof -
  have "cm_inv (cm_in n) xs" "pools_ok (cm_in n) xs" using assms(1) by (simp_all add: device_inv_def inv_pools_def)
  from ManageConnections_cases [OF this, where app = "node_HandleApplication env"]
  have "ManageConnections io (node_HandleApplication env) (cm_in n) \<noteq> None" for io
    using assms(2,3) by (fastforce simp: env_ok_def split: option.splits)
  then show ?thesis by (auto simp: manage_all_def Let_def split: prod.split)
qed

lemma tick_loop_ok:
  assumes "tick_loop env n = Some res" and "node_ok n" and "env_ok env"
  shows "node_ok (snd res)"
  using assms
proof (induction rule: tick_loop.raw_induct [rotated 1, consumes 1, case_names loop])
  case (loop f env n res)
  show ?case
  proof (cases "kCIPsterTimerTickInMicroSeconds env \<le> elapsed n")
    case False
    then show ?thesis using loop by (auto simp: Let_def)
  next
    case True
    then obtain r m where m: "manage_all env n = Some (r, m)" using loop(2) by (auto simp: bind_eq_Some_conv)
    then show ?thesis using loop True manage_all_ok [OF _ _ m] by (cases r) (auto simp: Let_def same_node)
  qed
qed

lemma clock_ok: "node_ok n \<Longrightarrow> node_ok (advance_clock now n)"
proof -
  have "device_ok (put_cm ((cm_of st)\<lparr>g_current_usecs := t\<rparr>) st)" if "device_ok st" for st t
    unfolding put_cm_def using device_other(1) by (intro device_ok_put [OF that]) blast
  then show "node_ok n \<Longrightarrow> ?thesis"
    by (simp add: advance_clock_def Let_def node_ok_def set_clock_def sets_ok_def)
qed

lemma class3_ok:
  assumes "device_ok st" and "CloseClass3Connections h (cm_of st) = Some t"
  shows "device_ok (put_cm t st)"
proof (rule device_ok_step [OF assms(1), where io = "env_of (with_classes st undefined)"])
  show "device_step (env_of (with_classes st undefined)) (cm_of st) t" by (rule device_step.class3_step [OF assms(2)])
  show "wf_registry (registered (io_conn (env_of (with_classes st undefined))))"
    using classes_wf [OF assms(1)] by (simp add: env_of_def)
qed

lemma put_cm_put_cm [simp]: "put_cm s (put_cm t st) = put_cm s st"
  by (simp add: put_cm_def put_net_def)

lemma close_orphans_ok:
  "device_ok st \<Longrightarrow> close_orphans es (cm_of st) = Some s \<Longrightarrow> device_ok (put_cm s st)"
proof (induction es arbitrary: st)
  case (Cons e es)
  show ?case
  proof (cases e)
    case (Class3_closed h)
    then obtain t where t: "CloseClass3Connections h (cm_of st) = Some t" "close_orphans es t = Some s"
      using Cons.prems(2) by (auto simp: bind_eq_Some_conv)
    then show ?thesis using Cons.IH [of "put_cm t st"] class3_ok [OF Cons.prems(1) t(1)] by simp
  next
    case (Socket_closed k)
    then show ?thesis using Cons by simp
  qed
qed auto

lemma age_ok: "node_ok n \<Longrightarrow> age_sessions env n = Some n' \<Longrightarrow> node_ok n'"
proof -
  have "node_ok (put_session m (n\<lparr>net_stack := put_cm s (net_stack n)\<rparr>))"
    if "node_ok n" "close_orphans es (cm_in n) = Some s" for n s m es
    using that close_orphans_ok by (intro put_session_node) (auto simp: node_ok_def sets_ok_def)
  then show "node_ok n \<Longrightarrow> age_sessions env n = Some n' \<Longrightarrow> ?thesis"
    by (auto simp: age_sessions_def Let_def)
qed

lemma inactivity_ok: "node_ok n \<Longrightarrow> check_inactivity env n = Some n' \<Longrightarrow> node_ok n'"
  using age_ok [of "set_clock f n" env n' for f] by (auto simp: check_inactivity_def same_node split: if_splits)

definition stays_ok :: "('r \<times> node) option \<Rightarrow> bool" where
  "stays_ok x \<longleftrightarrow> (\<forall>r n. x = Some (r, n) \<longrightarrow> node_ok n)"

lemma stays_okD: "stays_ok x \<Longrightarrow> x = Some (r, n) \<Longrightarrow> node_ok n"
  by (simp add: stays_ok_def)

lemma stays_ok_Some [simp]: "stays_ok (Some x) = node_ok (snd x)"
  by (cases x) (simp add: stays_ok_def)

lemma and_then_ok: "stays_ok x \<Longrightarrow> (\<And>n. node_ok n \<Longrightarrow> stays_ok (f n)) \<Longrightarrow> stays_ok (and_then x f)"
  by (cases x) (auto simp: stays_ok_def and_then_def split: sum.splits)

lemma listeners_ok:
  assumes "node_ok n"
  shows "node_ok (snd (CheckAndHandleUdpUnicastSocket env os n))"
    "node_ok (snd (CheckAndHandleUdpLocalBroadcastSocket env os n))"
    "node_ok (snd (CheckAndHandleUdpGlobalBroadcastSocket env os n))"
  unfolding CheckAndHandleUdpUnicastSocket_def CheckAndHandleUdpLocalBroadcastSocket_def
    CheckAndHandleUdpGlobalBroadcastSocket_def
  by (rule udp_listener_ok [OF assms prod.collapse [symmetric]])+

lemma ready_ok:
  assumes "node_ok n" and "env_ok env"
  shows "stays_ok (handle_ready env os n)"
proof -
  have "stays_ok (checkAndHandleUdpSockets env os n)" if "node_ok n" for n
    using udp_sockets_ok [OF that] by (auto simp: checkAndHandleUdpSockets_def stays_ok_def)
  moreover have "stays_ok (tcp_sockets env os k n)" if "node_ok n" for k n
    using tcp_sockets_ok [OF _ that assms(2)] by (force simp: stays_ok_def)
  ultimately show ?thesis
    unfolding handle_ready_def using assms(1) by (auto intro!: and_then_ok simp: listeners_ok listener_ok)
qed

lemma time_ok:
  assumes "node_ok n" and "env_ok env"
  shows "stays_ok (handle_time env os n)"
proof -
  have "stays_ok (tick_loop env (advance_clock (usecs_now os) n))"
    using tick_loop_ok [OF _ clock_ok [OF assms(1)] assms(2)] by (force simp: stays_ok_def)
  then show ?thesis
    unfolding handle_time_def by (rule and_then_ok) (auto simp: stays_ok_def inactivity_ok)
qed

lemma process_ok:
  assumes "node_ok n" and "env_ok env" and "finite (case selected os of Selected ready \<Rightarrow> ready | _ \<Rightarrow> {})"
  shows "stays_ok (NetworkHandlerProcessOnce env os n)"
proof -
  have set: "node_ok (n\<lparr>read_set := x\<rparr>)" if "finite x" for x
    using assms(1) that by (simp add: node_ok_def sets_ok_def)
  have "finite (master_set n)" using assms(1) by (simp add: node_ok_def sets_ok_def)
  then have master: "node_ok (n\<lparr>read_set := master_set n\<rparr>)" by (rule set)
  have body: "stays_ok (and_then (if ready \<noteq> {} then handle_ready env os m else Some (Inr (), m)) (handle_time env os))"
    if "node_ok m" for ready m
    using that assms(2) by (intro and_then_ok) (auto simp: ready_ok time_ok)
  have map: "stays_ok (map_option (apfst g) x) = stays_ok x" for g :: "unit res \<Rightarrow> EipStatus res" and x
    by (cases x) (auto simp: stays_ok_def apfst_def map_prod_def split: prod.splits)
  show ?thesis
  proof (cases "selected os")
    case (Selected ready)
    have again: "n\<lparr>read_set := master_set n, read_set := ready\<rparr> = n\<lparr>read_set := ready\<rparr>" by simp
    have "finite ready" using assms(3) Selected by simp
    from body [OF set [OF this], of ready] show ?thesis
      unfolding NetworkHandlerProcessOnce_def Let_def Selected selection.case map again .
  qed (use master in \<open>simp_all add: NetworkHandlerProcessOnce_def Let_def\<close>)
qed

section \<open>What is left open\<close>

text \<open>A connection that the session table refuses is neither closed nor watched.\<close>

lemma refused_connection:
  assumes "checkSocketSet (tcp_listener (s_sockets n)) n = (True, n1)" and "accepted os \<noteq> kSocketInvalid"
    and "RegisterTcpConnection (peer_of os) (g_current_usecs (cm_in n)) (accepted os) (session (cm_in n)) = ((res, h), m)"
    and "res \<noteq> kEncapErrorSuccess"
  shows "master_set (CheckAndHandleTcpListenerSocket os n) = master_set n"
proof -
  have n1: "net_stack n1 = net_stack n" "master_set n1 = master_set n"
    using assms(1) by (auto simp: checkSocketSet_def split: if_splits)
  have "session_log m = session_log (session (cm_in n))"
    using assms(3,4) by (auto simp: RegisterTcpConnection_def Let_def split: prod.splits bool.splits option.splits)
  then have "closed_sockets (session (cm_in n)) m = []" by (simp add: closed_sockets_def new_events_def)
  then have "master_set (put_session m n1) = master_set n"
    by (simp add: put_session_def adopt_def n1 opened_sockets_def)
  then show ?thesis using assms n1 by (simp add: CheckAndHandleTcpListenerSocket_def Let_def)
qed

text \<open>A UDP socket that no connection uses stays open and is not drained.\<close>

lemma unused_socket_not_drained:
  assumes "u_ref_count (udp_store (udp (cm_in n)) i) \<le> 0"
  shows "handle_udp_socket env os i n =
    Some (Inr (), snd (checkSocketSet (u_socket (udp_store (udp (cm_in n)) i)) n))"
proof -
  have "drain_limit (udp_store (udp (cm_in n)) i) = 0" using assms by (simp add: drain_limit_def)
  then show ?thesis by (simp add: handle_udp_socket_def Let_def split: prod.split bool.split)
qed

section \<open>The start\<close>

lemma initialize_ok:
  assumes "NetworkHandlerInitialize os now n = (kEipStatusOk, n')"
  shows "sets_ok n' \<and> master_set n' = l_socket ` {os_tcp os, os_udp_unicast os, os_udp_local os, os_udp_global os} \<and>
    net_stack n' = net_stack n \<and> elapsed n' = 0 \<and> s_last_usecs n' = now"
  using assms
  by (auto simp: NetworkHandlerInitialize_def Let_def set_clock_def master_set_add_def sets_ok_def split: if_splits)

lemma full_table_refuses:
  assumes "length (sessions m) = SESSIONS" and "rr_index m < SESSIONS" and "\<forall>e \<in> set (sessions m). m_socket e \<noteq> kSocketInvalid"
  shows "\<exists>i. RegisterTcpConnection peer now sock m = ((kEncapErrorInsufficientMemory, None), m\<lparr>rr_index := i\<rparr>)"
proof -
  have i: "inc_wrap (rr_index m) < SESSIONS" using assms(2) by (simp add: inc_wrap_def Let_def)
  obtain b j where f: "find_free (sessions m) SESSIONS (inc_wrap (rr_index m)) = (b, j)" by force
  have "\<not> b"
  proof
    assume b
    then have "j < SESSIONS \<and> m_socket (sessions m ! j) = kSocketInvalid" using find_free_True [of _ _ _ j] f i by simp
    then show False using assms(1,3) by (metis nth_mem)
  qed
  then show ?thesis using f by (auto simp: RegisterTcpConnection_def)
qed

end
