(* ===== verification/Stack_Start.thy ===== *)
theory Stack_Start
  imports Stack_Inv
begin

unbundle bit_operations_syntax

text \<open>
  The start and the end of the stack, \<open>CipStackInit\<close> and \<open>ShutdownCipStack\<close> of \<open>cip/cipcommon.cc\<close>: the classes that are
  registered in order, and the release of connections, sessions and classes. Where the code asserts, the status is
  always \<open>kEipStatusOk\<close>.
\<close>

section \<open>The connection class\<close>

definition CipConnectionClass :: "nat \<Rightarrow> nat \<Rightarrow> cip_class" where
  "CipConnectionClass revision_at zero_at =
    (let c = CipClass revision_at zero_at 5 ''Connection'' 0x42 1;
         c = snd (ServiceRemove CI_I (uint kSetAttributeSingle) c)
     in snd (ServiceRemove CI_I (uint kGetAttributeSingle) c))"

definition set_classes :: "(registry \<Rightarrow> registry) \<Rightarrow> net stack \<Rightarrow> net stack" where
  "set_classes f st = st\<lparr>st_classes := f (st_classes st)\<rparr>"

text \<open>\<open>CipConn::Init\<close>.\<close>

definition CipConn_Init :: "nat \<Rightarrow> nat \<Rightarrow> u16 \<Rightarrow> net stack \<Rightarrow> net stack" where
  "CipConn_Init revision_at zero_at unique_connection_id st =
    (if FindClass 5 (st_classes st) = None then
       let st = set_classes (\<lambda>reg. snd (RegisterClass (CipConnectionClass revision_at zero_at) reg)) st; s = cm_of st
       in put_net (net_cpf (st_rest st))
            (s\<lparr>ids := (ids s)\<lparr>s_incarnation_id := s_incarnation_id (initial_ids unique_connection_id)\<rparr>\<rparr>) st
     else st)"

section \<open>Starting and stopping\<close>

text \<open>Where things are in memory: the revision of each class, the constant zero and the variables and members
  behind attributes.\<close>

record places =
  revision_place :: "int \<Rightarrow> nat"
  zero_place :: nat
  identity_place :: "nat \<Rightarrow> nat"
  tcpip_place :: "nat \<Rightarrow> nat"
  link_place :: "nat \<Rightarrow> nat"
  bytes_place :: nat

definition CipStackInit :: "places \<Rightarrow> u16 \<Rightarrow> net stack \<Rightarrow> net stack" where
  "CipStackInit p unique_connection_id st =
    (let z = zero_place p; r = revision_place p;
         st = set_classes (MessageRouter_Init (r 2) z) st;
         st = set_classes (CipIdentityInit (r 1) z (identity_place p)) st;
         st = TCPIP_Init (r 0xF5) z (tcpip_place p) st;
         st = EthernetLink_Init (r 0xF6) z (link_place p) st;
         st = set_classes (ConnectionManagerInit (r 6) z) st;
         st = CipConn_Init (r 5) z unique_connection_id st
     in set_classes (Assembly_Init (r 4) z (bytes_place p)) st)"

definition ShutdownCipStack :: "net stack \<Rightarrow> net stack option" where
  "ShutdownCipStack st =
     map_option (\<lambda>s. set_classes (\<lambda>_ _. None)
         (put_net (net_cpf (st_rest st)) (s\<lparr>session := SessionMgr_Shutdown (session s)\<rparr>) st))
       (CloseAllConnections (cm_of st))"

section \<open>The classes at the start\<close>

text \<open>A class as its constructor leaves it: well formed and without instances.\<close>

definition blank :: "int \<Rightarrow> cip_class \<Rightarrow> bool" where
  "blank k c \<longleftrightarrow> wf_class c \<and> instances c = [] \<and> class_id c = k"

lemma set_services_same [simp]:
  "instances (set_services ci ss c) = instances c" "class_id (set_services ci ss c) = class_id c"
  by (cases ci; simp add: set_services_def)+

lemma AttributeInsert_same [simp]:
  "instances (snd (AttributeInsert ci a c)) = instances c" "class_id (snd (AttributeInsert ci a c)) = class_id c"
  by (cases ci; simp add: AttributeInsert_def note_getable_all_def set_attributes_def)+

lemma blank_services:
  "blank k c \<Longrightarrow> blank k (ServiceInsert ci s c)" "blank k c \<Longrightarrow> blank k (snd (ServiceRemove ci i c))"
  by (simp_all add: blank_def ServiceInsert_wf ServiceRemove_wf, simp_all add: ServiceInsert_def ServiceRemove_def split: prod.split)

lemma blank_attribute:
  "blank k c \<Longrightarrow> 0 < i \<Longrightarrow> blank k (snd (attrInsert b ci i ty place g ga s c))"
  "blank k c \<Longrightarrow> 0 < i \<Longrightarrow> blank k (snd (AttributeInsert_func ci i gt all st place b ty c))"
  by (simp_all add: blank_def attrInsert_def AttributeInsert_func_def AttributeInsert_wf)

lemma blank_class_attribute: "blank k c \<Longrightarrow> blank k (class_attribute r z i c)"
  by (simp add: class_attribute_def blank_attribute)

lemma blank_fold: "(\<And>x c. blank k c \<Longrightarrow> blank k (f x c)) \<Longrightarrow> blank k c \<Longrightarrow> blank k (fold f xs c)"
  by (induction xs arbitrary: c) auto

lemma blank_CipClass: "blank k (CipClass r z k name m v)"
proof -
  have "blank k \<lparr>class_id = k, class_name = name, revision = v,
      clss_getable_all_mask = 0, inst_getable_all_mask = 0, instances = [],
      services_I = [], services_C = [], attributes_I = [], attributes_C = []\<rparr>"
    by (simp add: blank_def wf_class_def wf_attributes_def sorted_ids_def)
  then show ?thesis
    by (simp add: CipClass_def Let_def blank_services blank_fold blank_class_attribute)
qed

lemma blank_mask: "blank k c \<Longrightarrow> attributes_I c = [] \<Longrightarrow> blank k (c\<lparr>inst_getable_all_mask := m\<rparr>)"
  by (simp add: blank_def wf_class_def wf_attributes_def)

lemmas blank_rules = blank_services blank_attribute blank_CipClass

lemma blank_classes:
  "blank 2 (MessageRouterClass r z)" "blank 1 (IdentityClass r z pl)" "blank 0xF5 (TCPIPInterfaceClass r z pl)"
  "blank 0xF6 (EthernetLinkClass r z pl)" "blank 5 (CipConnectionClass r z)" "blank 4 (AssemblyClass r z k)"
  by (simp_all add: MessageRouterClass_def IdentityClass_def TCPIPInterfaceClass_def EthernetLinkClass_def
      CipConnectionClass_def AssemblyClass_def Let_def blank_rules)

lemma no_instance_attributes: "attributes_I (CipClass r z k name m v) = []"
proof -
  have a: "attributes_I (class_attribute r z i c) = attributes_I c" for i c
    by (simp add: class_attribute_def attrInsert_def AttributeInsert_func_def AttributeInsert_def note_getable_all_def
        set_attributes_def)
  have "attributes_I (fold (\<lambda>i c. if bit m (nat i) then class_attribute r z i c else c) xs c) = attributes_I c" for xs c
    by (induction xs arbitrary: c) (simp_all add: a)
  moreover have "attributes_I (ServiceInsert ci s c) = attributes_I c" for ci s c
    by (cases ci) (simp_all add: ServiceInsert_def set_services_def)
  ultimately show ?thesis by (simp add: CipClass_def Let_def)
qed

lemma blank_manager: "blank 6 (ConnMgrClass r z)"
proof -
  have "attributes_I (set_services ci ss c) = attributes_I c" for ci ss c by (cases ci) (simp_all add: set_services_def)
  then have "attributes_I (ServiceInsert ci s c) = attributes_I c" "attributes_I (snd (ServiceRemove ci i c)) = attributes_I c"
    for ci s c i by (simp_all add: ServiceInsert_def ServiceRemove_def split: prod.split)
  then show ?thesis unfolding ConnMgrClass_def Let_def
    by (intro blank_mask blank_services blank_CipClass) (simp add: no_instance_attributes)
qed

lemma one_instance: "blank k c \<Longrightarrow> InstanceInsert False 1 c = (True, c\<lparr>instances := [1]\<rparr>)"
  by (simp add: blank_def InstanceInsert_def)

lemma with_instance: "blank k c \<Longrightarrow> wf_class (c\<lparr>instances := [1]\<rparr>) \<and> class_id (c\<lparr>instances := [1]\<rparr>) = k"
  by (auto simp: blank_def wf_class_def sorted_ids_def)

section \<open>The registry at the start\<close>

definition start_classes :: "places \<Rightarrow> registry" where
  "start_classes p = (let z = zero_place p; r = revision_place p in
     [2 \<mapsto> (MessageRouterClass (r 2) z)\<lparr>instances := [1]\<rparr>,
      1 \<mapsto> (IdentityClass (r 1) z (identity_place p))\<lparr>instances := [1]\<rparr>,
      0xF5 \<mapsto> (TCPIPInterfaceClass (r 0xF5) z (tcpip_place p))\<lparr>instances := [1]\<rparr>,
      0xF6 \<mapsto> (EthernetLinkClass (r 0xF6) z (link_place p))\<lparr>instances := [1]\<rparr>,
      6 \<mapsto> (ConnMgrClass (r 6) z)\<lparr>instances := [1]\<rparr>,
      5 \<mapsto> CipConnectionClass (r 5) z,
      4 \<mapsto> AssemblyClass (r 4) z (bytes_place p)])"

lemma start_classes_wf: "wf_registry (start_classes p)"
  using blank_classes blank_manager with_instance
  by (auto simp: wf_registry_def start_classes_def Let_def blank_def split: if_splits)

lemma set_classes_simps [simp]:
  "st_classes (set_classes f st) = f (st_classes st)" "st_rest (set_classes f st) = st_rest st"
  "st_data (set_classes f st) = st_data st"
  by (simp_all add: set_classes_def)

lemma stack_parts [simp]:
  "st_classes (put_class c st) = (st_classes st)(class_id c \<mapsto> c)" "st_rest (put_class c st) = st_rest st"
  "st_classes (new_tcpip_members pl i st) = st_classes st" "st_classes (new_link_members pl i st) = st_classes st"
  "cm_of (new_tcpip_members pl i st) = cm_of st" "cm_of (new_link_members pl i st) = cm_of st"
  by (simp_all add: put_class_def new_tcpip_members_def new_link_members_def store_def tcpip_upd_def)

lemma blank_count: "blank k c \<Longrightarrow> instances c = []" "blank k c \<Longrightarrow> class_id c = k"
  by (simp_all add: blank_def)

lemma register_blank: "class_id c = k \<Longrightarrow> reg k = None \<Longrightarrow> snd (RegisterClass c reg) = reg(k \<mapsto> c)"
  by (simp add: RegisterClass_def)

lemma register_instance:
  assumes "blank k c" and "reg k = None"
  shows "snd (RegisterClass (snd (InstanceInsert False (int (length (instances c)) + 1) c)) reg) = reg(k \<mapsto> c\<lparr>instances := [1]\<rparr>)"
  using register_blank [of "c\<lparr>instances := [1]\<rparr>" k reg] assms by (simp add: one_instance blank_count)

lemma first_init:
  "reg 2 = None \<Longrightarrow> MessageRouter_Init r z reg = reg(2 \<mapsto> (MessageRouterClass r z)\<lparr>instances := [1]\<rparr>)"
  "reg 1 = None \<Longrightarrow> CipIdentityInit r z pl reg = reg(1 \<mapsto> (IdentityClass r z pl)\<lparr>instances := [1]\<rparr>)"
  "reg 6 = None \<Longrightarrow> ConnectionManagerInit r z reg = reg(6 \<mapsto> (ConnMgrClass r z)\<lparr>instances := [1]\<rparr>)"
  "reg 4 = None \<Longrightarrow> Assembly_Init r z k reg = reg(4 \<mapsto> AssemblyClass r z k)"
  unfolding MessageRouter_Init_def CipIdentityInit_def ConnectionManagerInit_def Assembly_Init_def FindClass_def
    add_instance_def Let_def
  by (simp_all only: register_instance [OF blank_classes(1)] register_instance [OF blank_classes(2)]
      register_instance [OF blank_manager] register_blank [OF blank_count(2) [OF blank_classes(6)]] simp_thms if_True)

lemma first_init_stack:
  "st_classes st 0xF5 = None \<Longrightarrow>
     st_classes (TCPIP_Init r z pl st) = (st_classes st)(0xF5 \<mapsto> (TCPIPInterfaceClass r z pl)\<lparr>instances := [1]\<rparr>)"
  "st_classes st 0xF6 = None \<Longrightarrow>
     st_classes (EthernetLink_Init r z pl st) = (st_classes st)(0xF6 \<mapsto> (EthernetLinkClass r z pl)\<lparr>instances := [1]\<rparr>)"
  "st_classes st 5 = None \<Longrightarrow> st_classes (CipConn_Init r z u st) = (st_classes st)(5 \<mapsto> CipConnectionClass r z)"
  using one_instance [OF blank_classes(3)] one_instance [OF blank_classes(4)] blank_count [OF blank_classes(3)]
    blank_count [OF blank_classes(4)] register_blank [OF blank_count(2) [OF blank_classes(5)]]
  by (simp_all add: TCPIP_Init_def EthernetLink_Init_def EthernetLink_CreateInstance_def CipConn_Init_def add_instance_def
      FindClass_def Let_def fun_upd_def)

lemma init_classes:
  assumes "st_classes st = (\<lambda>_. None)"
  shows "st_classes (CipStackInit p u st) = start_classes p"
  by (simp add: CipStackInit_def Let_def first_init first_init_stack assms start_classes_def fun_eq_iff)

text \<open>Once the classes are there, starting again changes nothing.\<close>

lemma later_init:
  "reg 2 \<noteq> None \<Longrightarrow> MessageRouter_Init r z reg = reg" "reg 1 \<noteq> None \<Longrightarrow> CipIdentityInit r z pl reg = reg"
  "reg 6 \<noteq> None \<Longrightarrow> ConnectionManagerInit r z reg = reg" "reg 4 \<noteq> None \<Longrightarrow> Assembly_Init r z k reg = reg"
  "st_classes st 0xF5 \<noteq> None \<Longrightarrow> TCPIP_Init r z pl st = st"
  "st_classes st 0xF6 \<noteq> None \<Longrightarrow> EthernetLink_Init r z pl st = st"
  "st_classes st 5 \<noteq> None \<Longrightarrow> CipConn_Init r z u st = st"
  unfolding FindClass_def MessageRouter_Init_def CipIdentityInit_def TCPIP_Init_def EthernetLink_Init_def
    ConnectionManagerInit_def CipConn_Init_def Assembly_Init_def
  by (simp_all only: if_False)

lemma set_classes_same: "f (st_classes st) = st_classes st \<Longrightarrow> set_classes f st = st"
  by (simp add: set_classes_def)

lemma init_again:
  assumes "\<forall>k \<in> {1, 2, 4, 5, 6, 0xF5, 0xF6}. st_classes st k \<noteq> None"
  shows "CipStackInit p u st = st"
  using assms by (simp only: CipStackInit_def Let_def ball_simps later_init set_classes_same simp_thms)

text \<open>The stack is ready: what was true of the connections still is, and no class breaks its invariant.\<close>

lemma init_connections: "\<exists>n. cm_of (CipStackInit p u st) = (cm_of st)\<lparr>ids := n\<rparr>"
proof -
  have same: "cm_of (TCPIP_Init r z pl st) = cm_of st" "cm_of (EthernetLink_Init r z pl st) = cm_of st" for r z pl st
    by (simp_all add: TCPIP_Init_def EthernetLink_Init_def EthernetLink_CreateInstance_def)
  have numbered: "\<exists>n. cm_of (CipConn_Init r z w st') = (cm_of st)\<lparr>ids := n\<rparr>" if "cm_of st' = cm_of st" for r z w st'
    using that by (cases "cm_of st") (auto simp: CipConn_Init_def Let_def)
  show ?thesis unfolding CipStackInit_def Let_def set_classes_simps
    by (rule numbered) (simp only: same set_classes_simps)
qed

lemma numbered_inv: "device_inv xs s \<Longrightarrow> device_inv xs (s\<lparr>ids := n\<rparr>)"
  using cm_inv_cong [of "s\<lparr>ids := n\<rparr>" s xs] by (simp add: device_inv_def inv_pools_def pools_ok_def all_slots_def)

lemma init_ok:
  assumes "st_classes st = (\<lambda>_. None)" and "device_inv xs (cm_of st)"
  shows "device_ok (CipStackInit p u st) \<and> device_inv xs (cm_of (CipStackInit p u st))"
proof -
  have "device_inv xs (cm_of (CipStackInit p u st))"
    using init_connections [of p u st] numbered_inv [OF assms(2)] by auto
  then show ?thesis using start_classes_wf by (auto simp: device_ok_def init_classes [OF assms(1)])
qed

text \<open>After the end every connection and session is closed, and the stack may be started again.\<close>

lemma stop_ok:
  assumes "device_ok st"
  shows "\<exists>st'. ShutdownCipStack st = Some st' \<and> device_ok st' \<and> st_classes st' = (\<lambda>_. None) \<and>
    head (cm_of st') = None \<and> (\<forall>c. state (conns (cm_of st') c) = kConnStateNonExistent)"
proof -
  obtain xs where d: "device_inv xs (cm_of st)" and "wf_registry (st_classes st)" using assms by (auto simp: device_ok_def)
  have inv: "cm_inv (cm_of st) xs" using d by (simp add: device_inv_def inv_pools_def)
  obtain s where s: "CloseAllConnections (cm_of st) = Some s" "frame (cm_of st) s" "cm_inv s []"
    using CloseAllConnections_inv [OF inv] by blast
  have "\<exists>ys. device_inv ys s" using device_step_inv [OF _ d shutdown_step [OF s(1)], of "env_of undefined\<lparr>io_conn := (io_conn (env_of undefined))\<lparr>registered := \<lambda>_. None\<rparr>\<rparr>"]
    by (simp add: wf_registry_def)
  then have "device_ok (set_classes (\<lambda>_ _. None) (put_net (net_cpf (st_rest st)) (s\<lparr>session := SessionMgr_Shutdown (session s)\<rparr>) st))"
    using device_other(2) by (auto simp: device_ok_def wf_registry_def)
  then show ?thesis
    using s(1) cm_invD(5) [OF s(3)] active_head [OF cm_invD(3) [OF s(3)]] by (simp add: ShutdownCipStack_def)
qed

lemma start_dom: "dom (start_classes p) = {1, 2, 4, 5, 6, 0xF5, 0xF6}"
  by (auto simp: start_classes_def Let_def)

end
