(* ===== verification/Example_Node.thy ===== *)
theory Example_Node
  imports Node_Inv Stack_Start Example_Device
begin

unbundle bit_operations_syntax

text \<open>
  The small device of theory \<open>Example_Device\<close> on the network: its router with the assembly class and the TCP/IP object, and
  its event loop with the listeners 3 to 6 and the socket 50 of its connections.
\<close>

definition demo_place :: "nat \<Rightarrow> nat" where
  "demo_place k = 16 * k"

definition demo_host :: host where
  "demo_host = plain_host (io_conn demo_env) demo_place"

definition demo_tcp_class :: cip_class where
  "demo_tcp_class = snd (InstanceInsert False 1 (TCPIPInterfaceClass 0 8 demo_place))"

definition demo_stack :: "net stack" where
  "demo_stack =
     new_tcpip_members demo_place 1
       \<lparr>st_classes = [4 \<mapsto> demo_assembly_class, 0xF5 \<mapsto> demo_tcp_class],
        st_data = (\<lambda>_. V32 0)(Static 96 := VString [0x63, 0x69, 0x70], Static 208 := V16 120),
        st_rest = \<lparr>net_cpf = demo_peer, net_cm = demo_running, net_tcpip = (\<lambda>_. new_tcpip), mmr_temp = replicate 200 0\<rparr>\<rparr>"

definition demo_id :: device where
  "demo_id = \<lparr>id_vendor_id = 1, id_device_type = 12, id_product_code = 65, id_major = 2, id_minor = 1,
     dev_status = 0, dev_serial_number = 123, dev_product_name = [0x41, 0x42, 0x43], dev_ip_address = 0\<rparr>"

definition demo_node :: node where
  "demo_node = \<lparr>net_stack = demo_stack, delayed = [],
     s_sockets = \<lparr>tcp_listener = 3, udp_unicast_listener = 4, udp_local_broadcast_listener = 5,
       udp_global_broadcast_listener = 6, elapsed_time_usecs = 0, tcp_inactivity_usecs = 0\<rparr>,
     master_set = {3, 4, 5, 6, 50}, read_set = {}, highest_socket_handle = 50, s_last_usecs = 0,
     s_buf = replicate 100 0, outbox = []\<rparr>"

definition demo_node_env :: node_env where
  "demo_node_env = \<lparr>node_host = demo_host, node_io = demo_env, node_path = new_app_path (replicate 7 0),
     node_device = demo_id, kCIPsterTimerTickInMicroSeconds = 10000, node_HandleApplication = (\<lambda>s. s)\<rparr>"

text \<open>Before the start nothing is registered and no connection is open.\<close>

definition demo_places :: places where
  "demo_places = \<lparr>revision_place = (\<lambda>k. 64 * nat k), zero_place = 8, identity_place = demo_place, tcpip_place = demo_place,
     link_place = demo_place, bytes_place = 24\<rparr>"

definition cold_stack :: "net stack" where
  "cold_stack = \<lparr>st_classes = (\<lambda>_. None), st_data = (\<lambda>_. V32 0), st_rest = \<lparr>net_cpf = demo_peer,
     net_cm = initial_device (env_conf (io_conn demo_env)) 6 7 (\<lambda>_. undefined) initial_sessions,
     net_tcpip = (\<lambda>_. new_tcpip), mmr_temp = replicate 200 0\<rparr>\<rparr>"

text \<open>A pass in which nothing arrives.\<close>

definition quiet_pass :: "u32 \<Rightarrow> os_pass" where
  "quiet_pass now = \<lparr>selected = Selected {}, accepted = -1, peer_of = (\<lambda>_. None), udp_input = (\<lambda>_. (SockAddr 0 0, [])),
     datagrams = (\<lambda>_. []), tcp_input = (\<lambda>_. []), rand_of = (\<lambda>_. 0), usecs_now = now\<rparr>"

lemma demo_stack_simps [simp]:
  "st_classes demo_stack = [4 \<mapsto> demo_assembly_class, 0xF5 \<mapsto> demo_tcp_class]" "cm_of demo_stack = demo_running"
  by (simp_all add: demo_stack_def new_tcpip_members_def)

lemma demo_stack_ok: "device_ok demo_stack"
proof -
  have "wf_class demo_assembly_class" "wf_class demo_tcp_class" by code_simp+
  moreover have "class_id demo_assembly_class = 4" "class_id demo_tcp_class = 0xF5" by code_simp+
  ultimately have "wf_registry (st_classes demo_stack)" by (auto simp: wf_registry_def)
  then show ?thesis using demo_running_device by (auto simp: device_ok_def)
qed

lemma demo_node_ok: "node_ok demo_node"
  using demo_stack_ok by (simp add: node_ok_def sets_ok_def demo_node_def)

lemma demo_node_env_ok: "env_ok demo_node_env"
  by (simp add: env_ok_def demo_node_env_def demo_host_def plain_host_keeps)

text \<open>With one tick gone by, the device does its periodic work once and the pass returns.\<close>

lemma demo_clock:
  "cm_in (advance_clock 10000 demo_node) = demo_running\<lparr>g_current_usecs := g_current_usecs demo_running + 10000\<rparr>"
  "elapsed (advance_clock 10000 demo_node) = 10000"
  "tcp_inactivity_usecs (s_sockets (advance_clock 10000 demo_node)) = 10000"
  by (simp_all add: advance_clock_def Let_def set_clock_def demo_node_def)

lemma demo_tick: "\<exists>r n'. manage_all demo_node_env (advance_clock 10000 demo_node) = Some (r, n')"
proof (rule manage_all_total [of "[0, 3, 2]"])
  show "device_inv [0, 3, 2] (cm_in (advance_clock 10000 demo_node))"
    unfolding demo_clock by (rule device_other(1) [OF demo_running_device])
  show "data_ready (cm_in (advance_clock 10000 demo_node)) [0, 3, 2]"
    unfolding demo_clock using demo_ready by (simp add: data_ready_def)
qed (rule demo_node_env_ok)

lemma demo_pass: "\<exists>r n'. NetworkHandlerProcessOnce demo_node_env (quiet_pass 10000) demo_node = Some (r, n')"
proof -
  let ?n = "advance_clock 10000 (demo_node\<lparr>read_set := {}\<rparr>)"
  have n: "demo_node\<lparr>read_set := {}\<rparr> = demo_node" by (simp add: demo_node_def)
  obtain r m where m: "manage_all demo_node_env (advance_clock 10000 demo_node) = Some (r, m)" using demo_tick by blast
  have tick: "kCIPsterTimerTickInMicroSeconds demo_node_env = 10000" by (simp add: demo_node_env_def)
  have "tick_loop demo_node_env (advance_clock 10000 demo_node) =
      tick_times demo_node_env (Suc 0) (advance_clock 10000 demo_node)"
    using tick_loop_times [of demo_node_env "advance_clock 10000 demo_node"] by (simp add: tick demo_clock)
  then have "\<exists>x k. tick_loop demo_node_env (advance_clock 10000 demo_node) = Some (x, k) \<and>
      (case x of Inl e \<Rightarrow> True | Inr _ \<Rightarrow> tcp_inactivity_usecs (s_sockets k) = 10000)"
    using m manage_all_rest [OF m] demo_clock by (cases r) (simp_all add: set_clock_def)
  then obtain x k where x: "tick_loop demo_node_env (advance_clock 10000 demo_node) = Some (x, k)"
    "case x of Inl e \<Rightarrow> True | Inr _ \<Rightarrow> tcp_inactivity_usecs (s_sockets k) = 10000" by blast
  then have "\<exists>y k'. handle_time demo_node_env (quiet_pass 10000) demo_node = Some (y, k')"
    by (cases x) (simp_all add: handle_time_def and_then_def quiet_pass_def check_inactivity_def)
  then show ?thesis
    using n by (auto simp: NetworkHandlerProcessOnce_def Let_def quiet_pass_def and_then_def)
qed

text \<open>Requests to the instance of the TCP/IP object.\<close>

definition tcp_request :: "u8 \<Rightarrow> u32 \<Rightarrow> byte list \<Rightarrow> mr_request" where
  "tcp_request service a data = \<lparr>mr_service = service, mr_path = CipAppPath (replicate 7 0) 0xF5 1 a, mr_data = data\<rparr>"

lemma demo_attributes:
  "Attribute (CI_of 1) (path_int ATTRIBUTE (mr_path (tcp_request s 8 d))) demo_tcp_class =
     Some \<lparr>attribute_id = 8, attr_type = kCipUsint, is_getable_all = True, is_offset = True, attr_where = 128,
       getter = Some GetAttrData, setter = Some (User_attr_func 6)\<rparr>"
  "Attribute (CI_of 1) (path_int ATTRIBUTE (mr_path (tcp_request s 9 d))) demo_tcp_class =
     Some \<lparr>attribute_id = 9, attr_type = kCipAny, is_getable_all = True, is_offset = True, attr_where = 0,
       getter = Some (User_attr_func 4), setter = Some (User_attr_func 5)\<rparr>"
  by code_simp+

lemma demo_addressed:
  "addressed (tcp_request kSetAttributeSingle 8 d) demo_stack demo_tcp_class 1 SetAttributeSingle"
  "addressed (tcp_request kSetAttributeSingle 9 d) demo_stack demo_tcp_class 1 SetAttributeSingle"
  "addressed (tcp_request kGetAttributeAll 0 d) demo_stack demo_tcp_class 1 (User_service 4)"
proof -
  have p: "\<not> ap_has TAG (mr_path (tcp_request s a d))" "ap_has INSTANCE (mr_path (tcp_request s a d))"
    "path_int INSTANCE (mr_path (tcp_request s a d)) = 1" "path_int CLASS (mr_path (tcp_request s a d)) = 0xF5" for s a
    by (simp_all add: tcp_request_def CipAppPath_def new_app_path_def ap_set_def ap_has_def ap_get_def path_int_def
        bit_set_bit_iff Let_def)
  have c: "Instance 1 demo_tcp_class = Some 1" by code_simp
  have "map_option service_function (Service (CI_of 1) 16 demo_tcp_class) = Some SetAttributeSingle"
    "map_option service_function (Service (CI_of 1) 1 demo_tcp_class) = Some (User_service 4)" by code_simp+
  then have v: "\<exists>x. Service (CI_of 1) 16 demo_tcp_class = Some x \<and> service_function x = SetAttributeSingle"
    "\<exists>x. Service (CI_of 1) 1 demo_tcp_class = Some x \<and> service_function x = User_service 4" by auto
  have m: "mr_service (tcp_request s a d) = s" for s a by (simp add: tcp_request_def)
  have g: "GetCipClass 0xF5 demo_stack = Some demo_tcp_class" by (simp add: GetCipClass_def FindClass_def)
  show "addressed (tcp_request kSetAttributeSingle 8 d) demo_stack demo_tcp_class 1 SetAttributeSingle"
    "addressed (tcp_request kSetAttributeSingle 9 d) demo_stack demo_tcp_class 1 SetAttributeSingle"
    "addressed (tcp_request kGetAttributeAll 0 d) demo_stack demo_tcp_class 1 (User_service 4)"
    unfolding addressed_def using c g v by (simp_all add: p m)
qed

text \<open>The session table when every slot is taken.\<close>

definition full_sessions :: session_mgr where
  "full_sessions = initial_sessions\<lparr>sessions := map (\<lambda>i. EncapSession\<lparr>m_socket := int i + 100\<rparr>) [0..<SESSIONS]\<rparr>"

definition full_node :: node where
  "full_node = demo_node\<lparr>net_stack := put_cm (demo_running\<lparr>session := full_sessions\<rparr>) demo_stack, read_set := {3}\<rparr>"

lemma full_sessions_wf: "wf_sessions full_sessions" "\<forall>e \<in> set (sessions full_sessions). m_socket e \<noteq> kSocketInvalid"
  by (auto simp: wf_sessions_def full_sessions_def initial_sessions_def EncapSession_def Session_Clear_def)

end
