(* ===== verification/Spec2Isabelle.thy ===== *)
theory Spec2Isabelle
  imports Encap Cip_Router Example_Device Example_Node
begin

unbundle bit_operations_syntax

text \<open>
  A model of CIPster, a stack for EtherNet/IP: the Common Industrial Protocol (CIP) over TCP and UDP. The sources are
  under \<open>src/source/src\<close>; file names below are relative to it. The library has one theory per part, in
  the order in which the parts use each other.

  \<^bold>\<open>The parts and how they interact.\<close>
  Messages arrive on TCP connections and on UDP sockets. The encapsulation layer (\<open>enet_encap/encap.cc\<close>) frames them, keeps the table
  of sessions, and hands the data of a request to the common packet format (\<open>enet_encap/cpf.cc\<close>), whose items
  carry a message for the message router (\<open>cip/cipmessagerouter.cc\<close>) or the data of a connection. The router finds
  class, instance and service by the application path of the request (\<open>cip/cipepath.cc\<close>) and calls the service, which
  reads or writes attributes (\<open>cip/cipclass.cc\<close>, \<open>cip/cipattribute.cc\<close>, \<open>cip/cipcommon.cc\<close>). The connection manager object's
  services open and close connections (\<open>cip/cipconnectionmanager.cc\<close>, \<open>cip/cipconnection.cc\<close>): they resolve the
  connection path to assemblies, take a reserved connection object (\<open>cip/appcontype.cc\<close>), take UDP sockets
  (\<open>enet_encap/networkhandler.cc\<close>) and put the object on the list of active connections. From then on the
  periodic pass produces its data and watches its time, and received datagrams are consumed into its assembly. The event loop
  (\<open>enet_encap/networkhandler.cc\<close>) owns the descriptors, calls all of this for what \<open>select\<close> reports, and drives the clock.

  \<^bold>\<open>The theories.\<close>
  \<^item> \<open>Cip_Prelude\<close>: types of machine words, results of fallible operations, little endian bytes, and the collection
    \<open>ser_simps\<close> of facts about serializers.
  \<^item> \<open>Byte_Bufs\<close> (\<open>byte_bufs.h\<close>, \<open>byte_bufs.impl\<close>, \<open>enet_encap/byte_bufs.cc\<close>): \<open>BufWriter\<close> as a memory with a window, \<open>BufReader\<close>
    as the bytes that remain. Every \<open>put\<close> is \<open>append_bytes\<close> of its wire image.
  \<^item> \<open>Sock_Addr\<close>, \<open>Cpf\<close>: socket addresses and packets of items, with their wire formats and round trip.
  \<^item> \<open>Encap_Session\<close>, \<open>Encap\<close>: \<open>SessionMgr\<close> and the handlers of the encapsulation commands over TCP and UDP,
    delayed ListIdentity replies, reading a message from a TCP stream.
  \<^item> \<open>Cip_Common\<close>, \<open>Cip_Error\<close>: binary searches, \<open>EncodeData\<close> and \<open>DecodeData\<close>; status values.
  \<^item> \<open>Cip_EPath\<close>, \<open>Cip_Segments\<close>: application paths in packed and padded form, electronic keys, port and data segments.
  \<^item> \<open>Cip_Class\<close>, \<open>Mr_Message\<close>, \<open>Cip_Object\<close>, \<open>Cip_Safety\<close>, \<open>Cip_Router\<close>: classes with sorted lists of services, attributes and
    instances; requests and responses; dispatch and the attribute services; that they are safe; what they read and write.
  \<^item> \<open>Conn_Path\<close>, \<open>Conn_Data\<close>, \<open>Conn_Resolve\<close>: connection paths, the data of a forward open request, and how a target
    resolves and verifies it.
  \<^item> \<open>Cip_Conn\<close>, \<open>Conn_Box\<close>, \<open>Udp_Mgr\<close>: a connection object with its timers and ids; the doubly linked list of
    the active ones, through pointers in a store; the reference counted UDP sockets.
  \<^item> \<open>Conn_Close\<close>, \<open>App_Con\<close>, \<open>Conn_Open\<close>, \<open>Fwd_Open\<close>: the state of the connection manager \<open>cm_state\<close>; closing, time-outs and handing over
    of a multicast production; the reserved connections; opening; the forward open and close services.
  \<^item> \<open>Open_Inv\<close>: opening keeps the invariant, and what the services do to the connections.
  \<^item> \<open>Conn_Traffic\<close>, \<open>Traffic_Inv\<close>, \<open>Io_Exchange\<close>: receiving and producing data and the periodic pass; that they
    return and keep the invariant; what is sent is what arrives.
  \<^item> \<open>Conn_System\<close>: all events of a device as a step relation, and the invariant of every reachable state.
  \<^item> \<open>Host_Objects\<close> (\<open>cip/cipidentity.cc\<close>, \<open>cip/cipethernetlink.cc\<close>, \<open>cip/ciptcpipinterface.cc\<close>): the objects that describe the
    device, their getters and setters, and the block of multicast addresses that the device computes for itself.
  \<^item> \<open>Cip_Stack\<close>: the parts put together: the connection manager and assembly objects as services and attributes of the
    router, and \<open>NotifyCommonPacketFormat\<close> and \<open>NotifyConnectedCommonPacketFormat\<close>, which theory \<open>Encap\<close> takes as arguments.
  \<^item> \<open>Stack_Inv\<close>: whatever arrives over TCP keeps the invariant of the device, and every reply fits its buffer.
  \<^item> \<open>Stack_Start\<close>: \<open>CipStackInit\<close> and \<open>ShutdownCipStack\<close>.
  \<^item> \<open>Net_Handler\<close>, \<open>Node_Inv\<close>: the event loop, one pass of which is \<open>NetworkHandlerProcessOnce\<close>; that a pass keeps the invariant of
    the node, that its loops end, what they have done then, and what \<open>NetworkHandlerInitialize\<close> leaves.
  \<^item> \<open>Example_Device\<close>, \<open>Example_Node\<close>: a concrete device, and its node on the network, on which the theorems below are applied.

  \<^bold>\<open>How code becomes definitions.\<close>
  A class is a record of its members, an enumeration a datatype with the source's constructors, machine integers
  are words of their width. A function that throws returns \<open>'a res\<close>, the exception or a value;
  \<open>Undefined\<close> stands for behaviour the language leaves open, such as reading in front of a buffer. State is passed explicitly; connection
  objects, sockets and assemblies live in stores indexed by numbers because the code shares them by pointer. Loops over the
  pointers of the active list are \<open>partial_function\<close>s: \<open>None\<close> means that the loop never ends, and their theorems
  state that it does, as they do for the loops over descriptors and over clock ticks. A parser's loop is structural or has a measure. There is no fuel anywhere.
  In the code the request and the reply of a message share one buffer and every field of the request is read before the reply
  overwrites it; in the model the request is a list of bytes of its own and the reply is written into the buffer.

  \<^bold>\<open>The invariant.\<close>
  \<open>cm_inv s xs\<close>: the pointers spell out \<open>xs\<close>, exactly its members are established, the multiset of sockets they hold is
  balanced with the reference counts, and every multicast production has one master that holds the socket.
  \<open>pools_ok\<close>: every object belongs to one reservation. \<open>device_inv\<close> adds that serial numbers are unique and that an
  output assembly has one exclusive owner. \<open>device_ok\<close> of the whole stack adds well formed classes, and \<open>node_ok\<close> of the node that
  no descriptor of the set is above the highest one. Locales state the contracts: \<open>refinement\<close> for the active list, \<open>kept\<close> for
  an invariant that every service and attribute function of the application's interface keeps, and the others where they stand.

  \<^bold>\<open>Parameters.\<close>
  The clock, the random number, \<open>getpeername\<close>, \<open>recv\<close>, \<open>sendto\<close>, the creation of sockets and the membership in groups are arguments, with no
  assumption on what they answer; what the system answers during one pass of the event loop is the record \<open>os_pass\<close>, and during its
  start \<open>os_init\<close>. So are the callbacks of the application (\<open>BeforeAssemblyDataSend\<close>,
  \<open>AfterAssemblyDataReceived\<close>, \<open>HandleApplication\<close>, services and attributes it adds). The configuration constants of the user's header are fields of an environment. The
  uninitialised words of a constructed path are an argument too.

  \<^bold>\<open>Not modelled.\<close>
  Logging and formatting, the branches for Windows, the table of vendor names, the declarations of \<open>cipster_api.h\<close>, the generator of random
  numbers that nothing in the stack calls, and the test programs and examples. What the application's \<open>ResetDevice\<close> does is an argument.
  STRING2 is modelled in the branch without iconv. The host is little endian.
\<close>

section \<open>The objects of the examples\<close>

text \<open>A device, a table whose first slot holds the socket 7, a handler behind the encapsulation layer
  that does nothing, and requests as they come over the wire.\<close>

definition example_device :: device where
  "example_device = \<lparr>id_vendor_id = 1, id_device_type = 12, id_product_code = 65, id_major = 2, id_minor = 1,
     dev_status = 0, dev_serial_number = 123, dev_product_name = [0x41, 0x42, 0x43],
     dev_ip_address = 0x0100007F\<rparr>"

definition example_sessions :: session_mgr where
  "example_sessions = snd (RegisterTcpConnection (\<lambda>_. Some (SockAddr 1000 5)) 100 7 initial_sessions)"

definition quiet_notify :: "unit notify" where
  "quiet_notify c command reply st = (Inr (0, w_mem reply), st)"

definition register_request :: "byte list" where
  "register_request = [0x65, 0, 4, 0] @ replicate 8 0 @ [1, 2, 3, 4, 5, 6, 7, 8] @ replicate 4 0 @ [1, 0, 0, 0]"

definition rr_request :: "byte list" where
  "rr_request = [0x6F, 0, 10, 0, 1, 0, 0, 0] @ replicate 4 0 @ [1, 2, 3, 4, 5, 6, 7, 8] @ replicate 4 0 @
     replicate 6 0 @ [0, 0, 0, 0]"

definition services_request :: "byte list" where
  "services_request = [4, 0, 0, 0] @ replicate 16 0 @ [9, 0, 0, 0]"

definition request_header :: "byte list \<Rightarrow> encap" where
  "request_header bs = (case DeserializeEncap bs of Inr (_, e) \<Rightarrow> e | Inl _ \<Rightarrow> Encapsulation 0 0 None)"

lemma quiet_fits: "fitting_notify quiet_notify"
  by (auto simp: fitting_notify_def quiet_notify_def reply_fits_def capacity_def wf_writer_def)

section \<open>Connections at work\<close>

text \<open>The device of theory \<open>Example_Device\<close>, with an owner, an input only connection that shares its multicast
  production, and a class 3 connection, is the concrete state of most examples below.\<close>

lemma demo_registry: "wf_registry (registered (io_conn demo_env))"
proof -
  have "wf_class demo_assembly_class" by code_simp
  then show ?thesis by (auto simp: wf_registry_def demo_env_def demo_assembly_class_def)
qed

text \<open>C1. In every state a device gets into, whatever requests, datagrams, timer ticks, triggers,
  attribute writes and session events arrive in whatever order, the pointers of the active list spell out the
  connections that are established and no others; every socket of the UDP manager is counted exactly as often as active
  connections hold it; every produced multicast assembly has one master with a socket and no listener is without
  one; no two connections have the same serial numbers; and no output assembly has two exclusive owners.\<close>

theorem device_invariant:
  assumes "wf_registry (registered (io_conn env))" and "device_inv [] s0" and "reachable env s0 s"
  shows "\<exists>xs. walk (conns s) (head s) = Some xs \<and> device_inv xs s"
proof -
  obtain xs where xs: "device_inv xs s" using reachable_inv [OF assms] by blast
  then have "active s xs" by (simp add: device_inv_def inv_pools_def cm_inv_def core_def)
  then show ?thesis using walk_active xs by blast
qed

theorem device_invariant_witness:
  "reachable demo_env demo_start demo_device \<and> (\<exists>xs. walk (conns demo_device) (head demo_device) = Some xs \<and> device_inv xs demo_device)"
proof -
  have r: "reachable demo_env demo_start demo_device"
    unfolding demo_device_def Let_def
    by (rule reachable.step [OF reachable.step [OF reachable.step [OF reachable.start]]])
      (rule device_step.owner_step device_step.input_step device_step.listen_step)+
  have "device_inv [] demo_start" unfolding demo_start_def by (rule initial_device_inv)
  from device_invariant [OF demo_registry this r] r show ?thesis by blast
qed



text \<open>C3. A forward open request with the connection serial number, vendor and originator serial number of an
  established connection is refused as a connection in use, whatever else it asks for, and changes
  nothing.\<close>

theorem duplicate_open_refused:
  assumes "cm_inv s xs" and "c \<in> set xs" and "triad (conns s c) = triad d"
    and "DeserializeForwardOpenRequest is_large (ConnectionData (env_conf env) (replicate 7 0)) data = Inr (d, inp)"
    and "get8 inp = Inr (words, path)"
  shows "forward_open env is_large data r cpf s =
    Some (open_reply kCipErrorConnectionFailure kConnMgrStatusConnectionInUse d r cpf s)"
proof -
  have "List.find (\<lambda>x. triad d = triad (conns s x)) xs \<noteq> None" using assms(2,3) by (auto simp: find_None_iff)
  then obtain m where "FindExistingMatchingConnection d s = Some (Some m)"
    using existing_match [OF assms(1), of d] by auto
  then show ?thesis using assms(4,5) by (simp add: forward_open_def vet_open_def Let_def)
qed

theorem duplicate_open_refused_witness:
  "\<exists>d. triad d = (7, 5, 9) \<and>
     forward_open (io_conn demo_env) False (demo_open 7 1 [10, 0x40] [6, 0x40] 150) demo_response demo_peer demo_running =
       Some (open_reply kCipErrorConnectionFailure kConnMgrStatusConnectionInUse d demo_response demo_peer demo_running)"
proof -
  let ?p = "DeserializeForwardOpenRequest False (ConnectionData (env_conf (io_conn demo_env)) (replicate 7 0))
    (demo_open 7 1 [10, 0x40] [6, 0x40] 150)"
  have "case ?p of Inl _ \<Rightarrow> False | Inr (d, inp) \<Rightarrow> triad d = (7, 5, 9) \<and> (case get8 inp of Inl _ \<Rightarrow> False | Inr _ \<Rightarrow> True)"
    by code_simp
  then obtain d inp where p: "?p = Inr (d, inp)" "triad d = (7, 5, 9)" and n: "case get8 inp of Inl _ \<Rightarrow> False | Inr _ \<Rightarrow> True"
    by (cases ?p) auto
  obtain words path where g: "get8 inp = Inr (words, path)" using n by (cases "get8 inp") auto
  have t: "triad (conns demo_running 2) = triad d" using p(2) demo_triads by (simp add: demo_state)
  show ?thesis using duplicate_open_refused [OF demo_running_inv _ t p(1) g, of demo_response demo_peer] p(2) by auto
qed

text \<open>C4. A forward close request always returns, and it closes a connection only when the request carries
  the connection's serial numbers and comes from the address that opened it; then that connection is gone, with the
  listeners that depended on it, and otherwise nothing has changed.\<close>

theorem forward_close_by_opener:
  assumes "cm_inv s xs"
  shows "\<exists>res r' s'. forward_close_service env data r cpf s = Some (res, r', cpf, s') \<and> close_effect env data cpf s xs s'"
  using assms by (rule forward_close_ok)

theorem forward_close_by_opener_witness:
  "\<exists>res r' s'. forward_close_service (io_conn demo_env)
     ([10, 14, 7, 0, 5, 0, 9, 0, 0, 0, 3, 0] @ [0x20, 4, 0x24, 150, 0x24, 100]) demo_response demo_peer demo_running =
       Some (res, r', demo_peer, s') \<and>
     close_effect (io_conn demo_env) ([10, 14, 7, 0, 5, 0, 9, 0, 0, 0, 3, 0] @ [0x20, 4, 0x24, 150, 0x24, 100]) demo_peer
       demo_running [0, 3, 2] s'"
  by (rule forward_close_by_opener [OF demo_running_inv])

text \<open>C5. Closing a connection removes it and, when it was the last producer of a multicast assembly,
  exactly the listeners of that assembly; every other connection stays, keeps what it negotiated and, when the closed
  connection was the one with the socket, one of them goes on producing; the sockets are given back.\<close>

theorem close_survivors:
  assumes "cm_inv s xs" and "c \<in> set xs"
  shows "\<exists>s'. Close c s = Some s' \<and> frame s s' \<and> cm_inv s' (left_after (conns s) xs c)"
  using assms by (rule Close_inv)

theorem close_survivors_witness:
  "\<exists>s'. Close 2 demo_running = Some s' \<and> frame demo_running s' \<and> cm_inv s' [0, 3]"
proof -
  have "last_producer (conns demo_running) [0, 3, 2] 2 = False"
    by (auto simp: last_producer_def demo_state demo_fields multicast_producer_def owner_or_input_only_def demo_multicast demo_points)
  then have "left_after (conns demo_running) [0, 3, 2] 2 = [0, 3]" by (simp add: left_after_def)
  then show ?thesis using close_survivors [OF demo_running_inv, of 2] by simp
qed

text \<open>C6. A connection that times out is removed; when it was an exclusive owner with a multicast production
  all input only and listen only connections of its assembly go with it, otherwise only the listeners that lose their
  last producer; every other connection stays, and the invariant of sockets and masters holds again.\<close>

theorem time_out_survivors:
  assumes "cm_inv s xs" and "c \<in> set xs"
  shows "\<exists>s'. timeOut c s = Some s' \<and> frame s s' \<and> cm_inv s' (left_after_time_out (conns s) xs c)"
  using assms by (rule timeOut_inv)

theorem time_out_survivors_witness:
  "\<exists>s'. timeOut 2 demo_running = Some s' \<and> frame demo_running s' \<and> cm_inv s' [0]"
proof -
  have "left_after_time_out (conns demo_running) [0, 3, 2] 2 = [0]"
    by (simp add: left_after_time_out_def hit_def demo_state demo_fields demo_multicast demo_points Let_def)
  then show ?thesis using time_out_survivors [OF demo_running_inv, of 2] by simp
qed

text \<open>C7. Closing all connections ends, although each closing may close others and rewrites the list it walks
  over, and gives everything back: no connection is established, no socket is a member of a group, and every count
  of the UDP manager is 0.\<close>

theorem shutdown_releases:
  assumes "cm_inv s xs"
  shows "\<exists>s'. CloseAllConnections s = Some s' \<and> head s' = None \<and>
    (\<forall>c. state (conns s' c) = kConnStateNonExistent) \<and> m_multicast (udp s') = [] \<and>
    (\<forall>i \<in> set (m_sockets (udp s')). u_ref_count (udp_store (udp s') i) = 0)"
proof -
  obtain s' where s': "CloseAllConnections s = Some s'" "cm_inv s' []" using CloseAllConnections_inv [OF assms] by blast
  show ?thesis
    using s' all_given_back [OF s'(2)] cm_invD(5) [OF s'(2)] active_head [OF cm_invD(3) [OF s'(2)]]
    by (intro exI [of _ s']) auto
qed

theorem shutdown_releases_witness:
  "\<exists>s'. CloseAllConnections demo_running = Some s' \<and> head s' = None \<and>
    (\<forall>c. state (conns s' c) = kConnStateNonExistent) \<and> m_multicast (udp s') = [] \<and>
    (\<forall>i \<in> set (m_sockets (udp s')). u_ref_count (udp_store (udp s') i) = 0)"
  by (rule shutdown_releases [OF demo_running_inv])



text \<open>C9. The intrusive doubly linked list of active connections, whose links live in the connections and are
  rewritten in place, implements a list without repetition: under the abstraction any sequence of insertions and
  removals answers as consing and removing on a list does, and leaves pointers that spell out the resulting list.\<close>

theorem active_list_refines:
  assumes "active s xs"
  shows "fst (run_ops box_exec ops s) = fst (run_ops list_exec ops xs) \<and>
    active (snd (run_ops box_exec ops s)) (snd (run_ops list_exec ops xs))"
  using assms by (rule box.run)

theorem active_list_refines_witness:
  "fst (run_ops box_exec [Box_Remove 3, Box_Insert 2, Box_Insert 4, Box_Remove 3] demo_running) = [True, False, True, False] \<and>
     active (snd (run_ops box_exec [Box_Remove 3, Box_Insert 2, Box_Insert 4, Box_Remove 3] demo_running)) [4, 0, 2]"
  using active_list_refines [OF demo_active, of "[Box_Remove 3, Box_Insert 2, Box_Insert 4, Box_Remove 3]"] by simp

text \<open>C10. The periodic pass over the active list returns in every state in which the connections' instances are
  assemblies, although a time-out removes the connection the iterator stands on and others with it; it only loses
  connections, keeps the data of all of them, and restores the invariants of lists, sockets and pools.\<close>

theorem periodic_pass_returns:
  assumes "cm_inv s xs" and "pools_ok s xs" and "data_ready s xs" and "traffic s (HandleApplication s)"
  shows "\<exists>r s' ys. ManageConnections env HandleApplication s = Some (r, s') \<and> set ys \<subseteq> set xs \<and> cm_inv s' ys \<and>
    pools_ok s' ys \<and> (\<forall>x. as_data (conns s' x) = as_data (conns s x) \<and> instance_type (conns s' x) = instance_type (conns s x))"
  using ManageConnections_cases [where app = HandleApplication, OF assms(1,2,4), of env] assms(3)
  by (auto split: option.splits)

theorem periodic_pass_returns_witness:
  "\<exists>r s' ys. ManageConnections demo_env (\<lambda>s. s) demo_running = Some (r, s') \<and> set ys \<subseteq> {0, 2, 3} \<and> cm_inv s' ys"
proof -
  from periodic_pass_returns [OF demo_running_inv demo_running_pools demo_ready, of "\<lambda>s. s" demo_env]
  obtain r s' ys where "ManageConnections demo_env (\<lambda>s. s) demo_running = Some (r, s')" "set ys \<subseteq> set [0, 3, 2]" "cm_inv s' ys"
    by auto
  moreover have "set [0, 3, 2] = {0, 2, 3 :: nat}" by auto
  ultimately show ?thesis by metis
qed

text \<open>C11. What a producer sends, a consumer that listens for it takes: the datagram that
  \<open>SendConnectedData\<close> hands to the system, when it arrives at a device with an agreeing connection on that id, puts the
  producer's assembly, byte for byte, into the consumer's assembly and changes no other.\<close>

theorem io_exchange:
  assumes "assembly_of (producing_instance (conns s c)) = Some k" and "producing_socket (conns s c) = Some i"
    and "BeforeAssemblyDataSend (io_conn env) k (byte_array (assemblies s k)) = (changed, bs)"
    and "length bs + 40 \<le> length (g_message_data_reply_buffer env)" and "bs \<noteq> []" and "length bs < 65000"
    and "cm_inv t xs" and "listens t xs d from (sent_frame changed (conns s c))"
    and "assembly_of (consuming_instance (conns t d)) = Some j" and "length (byte_array (assemblies t j)) = length bs"
  shows "\<exists>r s' datagram r' t'. SendConnectedData env c s = Some (Inr r, s') \<and>
    io_log s' = io_log s @ [Datagram (Some i) (send_address (conns s c)) datagram] \<and>
    RecvConnectedData env' from datagram t = Some (Inr r', t') \<and>
    assemblies t' = (assemblies t)(j := (assemblies t j)\<lparr>byte_array := bs\<rparr>)"
proof -
  obtain r s' where "SendConnectedData env c s = Some (Inr r, s')"
    "io_log s' = io_log s @ [Datagram (Some i) (send_address (conns s c))
       (io_frame (sent_frame changed (conns s c)) (g_run_idle_state s) bs)]"
    using SendConnectedData_wire [OF assms(1-4)] unfolding io_frame_def by blast
  then show ?thesis using frame_delivers [OF assms(7,8,5,6,9,10), of env' "g_run_idle_state s"] by blast
qed

text \<open>Another device, whose connection 2 produces for the owner connection of the example device, with a run/idle
  header.\<close>

definition demo_producer :: cip_conn where
  "demo_producer = demo_owner\<lparr>producing_connection_id := 0x10001, producing_fmt := kRealTimeFmt32BitHeader\<rparr>"

definition demo_sender :: cm_state where
  "demo_sender = conn_upd 2 (\<lambda>_. demo_producer) demo_running"

lemma demo_sender_simps: "conns demo_sender 2 = demo_producer" "assemblies demo_sender = assemblies demo_running"
  by (simp_all add: demo_sender_def)

lemma demo_env_simps:
  "BeforeAssemblyDataSend (io_conn demo_env) k bs = (True, bs)" "g_message_data_reply_buffer demo_env = replicate 100 0"
  by (simp_all add: demo_env_def)

lemma demo_ids:
  "consuming_connection_id demo_owner = 0x10001" "consuming_connection_id demo_sharer = 0x10002"
  "consuming_connection_id demo_explicit = 0x10003" "producing_socket demo_producer = Some 0"
  "assembly_of (producing_instance demo_producer) = Some 100" "assembly_of (consuming_instance demo_owner) = Some 150"
  "producing_connection_id demo_producer = 0x10001"
  by code_simp+

lemma demo_sent_id: "producing_connection_id (sent_frame b demo_producer) = 0x10001"
  by (simp add: sent_frame_def next_frame_def demo_ids)

lemma demo_listens: "listens demo_running [0, 3, 2] 2 (SockAddr 5 0x0A000001) (sent_frame True demo_producer)"
proof -
  have "Addr (SockAddr 5 0x0A000001) = Addr (recv_address demo_owner)" "accepts demo_owner q"
    "agree (sent_frame True demo_producer) demo_owner" "fresh_data (sent_frame True demo_producer) demo_owner" for q
    by (code_simp, simp add: accepts_def demo_first, code_simp, code_simp)
  then show ?thesis by (simp add: listens_def demo_ids demo_sent_id demo_state)
qed

theorem io_exchange_witness:
  "\<exists>r s' datagram r' t'. SendConnectedData demo_env 2 demo_sender = Some (Inr r, s') \<and>
    io_log s' = io_log demo_sender @ [Datagram (Some 0) (send_address demo_producer) datagram] \<and>
    RecvConnectedData (io_conn demo_env) (SockAddr 5 0x0A000001) datagram demo_running = Some (Inr r', t') \<and>
    byte_array (assemblies t' 150) = [1, 2, 3, 4]"
proof -
  have "\<exists>r s' datagram r' t'. SendConnectedData demo_env 2 demo_sender = Some (Inr r, s') \<and>
    io_log s' = io_log demo_sender @ [Datagram (Some 0) (send_address (conns demo_sender 2)) datagram] \<and>
    RecvConnectedData (io_conn demo_env) (SockAddr 5 0x0A000001) datagram demo_running = Some (Inr r', t') \<and>
    assemblies t' = (assemblies demo_running)(150 := (assemblies demo_running 150)\<lparr>byte_array := [1, 2, 3, 4]\<rparr>)"
    by (rule io_exchange [OF _ _ _ _ _ _ demo_running_inv demo_listens [folded demo_sender_simps(1)]])
      (simp_all add: demo_sender_simps demo_env_simps demo_ids demo_bytes demo_assemblies_def demo_listens demo_state)
  then show ?thesis by (fastforce simp: demo_sender_simps)
qed

text \<open>C12. A datagram that the network delivers twice changes nothing the second time, whatever it holds and
  whatever became of it the first time.\<close>

theorem repeated_datagram_ignored:
  assumes "cm_inv s xs" and "data_ready s xs" and "Addr from \<noteq> 0" and "RecvConnectedData env from command s = Some (r, s')"
  shows "\<exists>r'. RecvConnectedData env from command s' = Some (r', s')"
  using assms by (rule repeated_frame)

theorem repeated_datagram_ignored_witness:
  "\<exists>r s' r'. RecvConnectedData (io_conn demo_env) (SockAddr 5 0x0A000001)
       (io_frame (sent_frame True demo_producer) 1 [5, 6, 7, 8]) demo_running = Some (Inr r, s') \<and>
     byte_array (assemblies s' 150) = [5, 6, 7, 8] \<and>
     RecvConnectedData (io_conn demo_env) (SockAddr 5 0x0A000001)
       (io_frame (sent_frame True demo_producer) 1 [5, 6, 7, 8]) s' = Some (r', s')"
proof -
  have "\<exists>r s'. RecvConnectedData (io_conn demo_env) (SockAddr 5 0x0A000001)
       (io_frame (sent_frame True demo_producer) 1 [5, 6, 7, 8]) demo_running = Some (Inr r, s') \<and>
     assemblies s' = (assemblies demo_running)(150 := (assemblies demo_running 150)\<lparr>byte_array := [5, 6, 7, 8]\<rparr>)"
    by (rule frame_delivers [OF demo_running_inv demo_listens]) (simp_all add: demo_ids demo_bytes demo_assemblies_def demo_state)
  then obtain r s' where r: "RecvConnectedData (io_conn demo_env) (SockAddr 5 0x0A000001)
       (io_frame (sent_frame True demo_producer) 1 [5, 6, 7, 8]) demo_running = Some (Inr r, s')"
     "byte_array (assemblies s' 150) = [5, 6, 7, 8]" by force
  have "Addr (SockAddr 5 0x0A000001) \<noteq> 0" by code_simp
  from repeated_datagram_ignored [OF demo_running_inv demo_ready this r(1)] r show ?thesis by blast
qed

section \<open>The whole node\<close>

text \<open>C13. No pass of the event loop breaks the device. Whatever is ready, whoever connects, whatever datagrams and
  messages arrive, and however much time has gone by, if the pass returns, with or without an exception, the pointers of
  the active list still spell out the established connections, the invariant of the connections, sockets and pools holds,
  the classes are well formed, and no watched descriptor is above the highest.\<close>

theorem network_pass_invariant:
  assumes "node_ok n" and "env_ok env" and "\<And>ready. selected os = Selected ready \<Longrightarrow> finite ready"
    and "NetworkHandlerProcessOnce env os n = Some (r, n')"
  shows "node_ok n' \<and> (\<exists>xs. walk (conns (cm_in n')) (head (cm_in n')) = Some xs \<and> device_inv xs (cm_in n')) \<and>
    (\<forall>s \<in> master_set n'. s \<le> highest_socket_handle n')"
proof -
  have "finite (case selected os of Selected ready \<Rightarrow> ready | _ \<Rightarrow> {})" using assms(3) by (simp split: selection.split)
  then have ok: "node_ok n'" using stays_okD [OF process_ok [OF assms(1,2)] assms(4)] by blast
  then obtain xs where "device_inv xs (cm_in n')" by (auto simp: node_ok_def device_ok_def)
  moreover then have "active (cm_in n') xs" by (simp add: device_inv_def inv_pools_def cm_inv_def core_def)
  ultimately show ?thesis using ok walk_active by (auto simp: node_ok_def sets_ok_def)
qed

theorem network_pass_invariant_witness:
  "\<exists>r n' xs. NetworkHandlerProcessOnce demo_node_env (quiet_pass 10000) demo_node = Some (r, n') \<and> node_ok n' \<and>
    walk (conns (cm_in n')) (head (cm_in n')) = Some xs \<and> device_inv xs (cm_in n')"
proof -
  obtain r n' where p: "NetworkHandlerProcessOnce demo_node_env (quiet_pass 10000) demo_node = Some (r, n')"
    using demo_pass by blast
  have "finite ready" if "selected (quiet_pass 10000) = Selected ready" for ready using that by (auto simp: quiet_pass_def)
  from network_pass_invariant [OF demo_node_ok demo_node_env_ok this p] p show ?thesis by blast
qed



text \<open>C15. The periodic work runs once for every whole tick of the time that has gone by: the loop that subtracts
  ticks is the iteration of \<open>ManageConnections\<close> that many times, an exception cutting it short, and afterwards what is left of the
  time is the remainder, with nothing lost or counted twice.\<close>

theorem ticks_exact:
  assumes "0 < kCIPsterTimerTickInMicroSeconds env"
  shows "tick_loop env n = tick_times env (unat (elapsed n) div unat (kCIPsterTimerTickInMicroSeconds env)) n \<and>
    (\<forall>u n'. tick_loop env n = Some (Inr u, n') \<longrightarrow>
       unat (elapsed n') = unat (elapsed n) mod unat (kCIPsterTimerTickInMicroSeconds env))"
proof -
  note eq = tick_loop_times [OF assms, of n]
  show ?thesis
    using tick_times_elapsed [OF assms le_refl, of n] unfolding eq minus_div_mult_eq_mod by blast
qed

theorem ticks_exact_witness:
  "tick_loop demo_node_env (set_clock (\<lambda>k. k\<lparr>elapsed_time_usecs := 25000\<rparr>) demo_node) =
     tick_times demo_node_env 2 (set_clock (\<lambda>k. k\<lparr>elapsed_time_usecs := 25000\<rparr>) demo_node)"
proof -
  have t: "kCIPsterTimerTickInMicroSeconds demo_node_env = 10000" by (simp add: demo_node_env_def)
  have e: "elapsed (set_clock (\<lambda>k. k\<lparr>elapsed_time_usecs := 25000\<rparr>) demo_node) = 25000" by (simp add: set_clock_def)
  have "0 < kCIPsterTimerTickInMicroSeconds demo_node_env" by (simp add: t)
  from ticks_exact [OF this, THEN conjunct1, of "set_clock (\<lambda>k. k\<lparr>elapsed_time_usecs := 25000\<rparr>) demo_node"]
  show ?thesis unfolding t e by simp
qed



text \<open>C17. Every reply that the device sends over TCP is a well formed message, with no condition on what is
  behind the encapsulation layer: whatever the command, and whatever service of whatever object the router calls, the reply
  fits its buffer, its header parses, its length field counts exactly the bytes behind the header, and command, context and
  options are those of the request.\<close>

theorem stack_reply_framed:
  assumes "wf_writer aReply" and "capacity aReply < 65536"
    and "stack_tcp h p0 dev now sock aCommand aReply st = (Inr (n, mem), st')" and "0 < n"
  shows "n \<le> capacity aReply \<and> length mem = length (w_mem aReply) \<and>
    (\<exists>e e'. DeserializeEncap aCommand = Inr (int (HeaderLength e), e) \<and>
       DeserializeEncap (reply_message aReply n mem) = Inr (int (HeaderLength e), e') \<and>
       int (unat (en_length e')) = n - 24 \<and> same_request e e')"
  by (rule tcp_handler_message [OF assms(1,2) stack_notify_fits assms(3) [unfolded stack_tcp_def] assms(4)])

definition list_services :: "byte list" where
  "list_services = [4, 0] @ replicate 22 0"

theorem stack_reply_framed_witness:
  "\<exists>mem e'. fst (stack_tcp demo_host (new_app_path (replicate 7 0)) demo_id 200 7 list_services
       (writer_on (replicate 100 0)) (example_sessions, demo_stack)) = Inr (50, mem) \<and>
     DeserializeEncap (reply_message (writer_on (replicate 100 0)) 50 mem) = Inr (24, e') \<and> int (unat (en_length e')) = 26"
proof -
  let ?w = "writer_on (replicate 100 0)"
  let ?run = "stack_tcp demo_host (new_app_path (replicate 7 0)) demo_id 200 7 list_services ?w (example_sessions, demo_stack)"
  have same: "fst (HandleReceivedExplicitTcpData rr ud dev now sock list_services ?w (m, st)) =
      fst (HandleReceivedExplicitTcpData quiet_notify quiet_notify dev now sock list_services ?w (m, ()))" for rr ud dev now sock m st
  proof -
    have e: "DeserializeEncap list_services = Inr (24, request_header list_services)"
      "en_command (request_header list_services) = kEncapCmdListServices" by code_simp+
    show ?thesis
      by (simp add: HandleReceivedExplicitTcpData_def e tcp_command_def SetPayloadLength_def Let_def
          split: sum.split prod.split option.split)
  qed
  have "case fst (HandleReceivedExplicitTcpData quiet_notify quiet_notify demo_id 200 7 list_services ?w (example_sessions, ())) of
      Inr (n, mem) \<Rightarrow> n = 50 | Inl _ \<Rightarrow> False" by code_simp
  moreover have "fst ?run = fst (HandleReceivedExplicitTcpData quiet_notify quiet_notify demo_id 200 7 list_services ?w
      (example_sessions, ()))" unfolding stack_tcp_def by (rule same)
  ultimately obtain mem where m: "fst ?run = Inr (50, mem)" by (auto split: sum.splits prod.splits)
  then have run: "?run = (Inr (50, mem), snd ?run)" by (simp add: prod_eq_iff)
  have w: "wf_writer ?w" "capacity ?w < 65536" by code_simp+
  have "DeserializeEncap list_services = Inr (24, request_header list_services)"
    and "HeaderLength (request_header list_services) = 24" by code_simp+
  with stack_reply_framed [OF w run] m show ?thesis by auto
qed

text \<open>C18. The stack starts and stops cleanly. With nothing registered, \<open>CipStackInit\<close> leaves the seven classes, well
  formed and under their own numbers, and keeps the invariant of the connections; calling it again changes nothing.
  \<open>ShutdownCipStack\<close> from there returns, with every connection closed and no class registered, and the device is again
  in a state from which it may be started.\<close>

theorem stack_starts_and_stops:
  assumes "st_classes st = (\<lambda>_. None)" and "device_inv xs (cm_of st)"
  shows "let up = CipStackInit p u st in
    device_inv xs (cm_of up) \<and> wf_registry (st_classes up) \<and> dom (st_classes up) = {1, 2, 4, 5, 6, 0xF5, 0xF6} \<and>
    (\<forall>p u. CipStackInit p u up = up) \<and>
    (\<exists>down. ShutdownCipStack up = Some down \<and> st_classes down = (\<lambda>_. None) \<and> head (cm_of down) = None \<and>
      (\<forall>c. state (conns (cm_of down) c) = kConnStateNonExistent) \<and> (\<exists>ys. device_inv ys (cm_of down)))"
proof -
  let ?up = "CipStackInit p u st"
  have ok: "device_ok ?up" "device_inv xs (cm_of ?up)" using init_ok [OF assms] by blast+
  have cl: "st_classes ?up = start_classes p" by (rule init_classes [OF assms(1)])
  have "{1, 2, 4, 5, 6, 0xF5, 0xF6} \<subseteq> dom (st_classes ?up)" unfolding cl start_dom by simp
  then have "CipStackInit p' u' ?up = ?up" for p' u' by (intro init_again) blast
  then show ?thesis using ok stop_ok [OF ok(1)] cl start_dom start_classes_wf by (auto simp: device_ok_def Let_def)
qed

theorem stack_starts_and_stops_witness:
  "dom (st_classes (CipStackInit demo_places 7 cold_stack)) = {1, 2, 4, 5, 6, 0xF5, 0xF6} \<and>
    ShutdownCipStack (CipStackInit demo_places 7 cold_stack) \<noteq> None"
proof -
  have "st_classes cold_stack = (\<lambda>_. None)" "device_inv [] (cm_of cold_stack)"
    using initial_device_inv by (simp_all add: cold_stack_def)
  from stack_starts_and_stops [OF this, of demo_places 7] show ?thesis by (auto simp: Let_def)
qed

section \<open>The objects of the host\<close>



text \<open>C20. A request that sets the time to live through the router is answered, and never stores zero: a zero is
  refused as an invalid value and changes nothing; any other byte becomes the time to live, and no other object in the store
  changes.\<close>

theorem ttl_request:
  assumes "addressed q st c i SetAttributeSingle" and "Attribute (CI_of i) (path_int ATTRIBUTE (mr_path q)) c = Some a"
    and "setter a = Some (User_attr_func 6)" and "mr_data q = ttl # rest"
  shows "\<exists>r' st'. NotifyMR (stack_app h) q r st = (Inr kEipStatusOkSend, q, r', st') \<and>
    (if ttl = 0 then st' = st \<and> general_status r' = error_code kCipErrorInvalidAttributeValue
     else general_status r' = general_status r \<and> as_u8 (st_data st' (Data c i a)) = ttl \<and>
       (\<forall>l. l \<noteq> Data c i a \<longrightarrow> st_data st' l = st_data st l))"
  using assms(2-4)
  by (simp add: NotifyMR_addressed [OF assms(1)] call_service_def set_attribute_single_def Attribute_Set_def stack_app_def
      stack_attr_def set_TTL_def store_def SetGenStatus_def Let_def)

theorem ttl_request_witness:
  "\<exists>r' st'. NotifyMR (stack_app demo_host) (tcp_request kSetAttributeSingle 8 [7]) demo_response demo_stack =
      (Inr kEipStatusOkSend, tcp_request kSetAttributeSingle 8 [7], r', st') \<and> TTL demo_place 1 st' = 7"
proof -
  have "mr_data (tcp_request kSetAttributeSingle 8 [7]) = 7 # []" by (simp add: tcp_request_def)
  moreover have "class_id demo_tcp_class = 0xF5" by code_simp
  ultimately show ?thesis
    using ttl_request [OF demo_addressed(1) demo_attributes(1), where ttl = 7 and rest = "[]" and h = demo_host and r = demo_response]
    by (simp add: TTL_def Data_def demo_place_def) blast
qed

text \<open>C21. Two interfaces whose numbers in their subnets differ modulo 1024 never hand out the same multicast address: the
  block of 32 addresses that \<open>configureNetworkInterface\<close> computes lies in 239.192.1.0 to 239.192.128.255, begins at an address that
  \<open>IsMulticast\<close> accepts, and is disjoint from the other's.\<close>

theorem multicast_blocks:
  assumes "host_number ip subnet \<noteq> host_number ip' subnet'"
  shows "allocated (configureNetworkInterface ip subnet gw t) \<inter> allocated (configureNetworkInterface ip' subnet' gw' t') = {} \<and>
    allocated (configureNetworkInterface ip subnet gw t) \<subseteq> {0xEFC00100 .. 0xEFC080FF} \<and>
    IsMulticast (SockAddr port (bswap32 (mc_start (multicast_configuration (configureNetworkInterface ip subnet gw t)))))"
proof -
  have b: "0 \<le> host_number ip subnet" "host_number ip subnet < 1024" by (simp_all add: host_number_def)
  have "uint (bswap32 (mc_start (multicast_configuration (configureNetworkInterface ip subnet gw t)))) =
      0xEFC00100 + 32 * host_number ip subnet"
    by (simp add: configureNetworkInterface_def multicast_start)
  then have "IsMulticast (SockAddr port (bswap32 (mc_start (multicast_configuration (configureNetworkInterface ip subnet gw t)))))"
    using b by (simp add: IsMulticast_range word_le_def)
  then show ?thesis using assms b unfolding allocated_block by auto
qed

theorem multicast_blocks_witness:
  "allocated (configureNetworkInterface 0x0200000A 0x00FFFFFF 0 new_tcpip) \<inter>
   allocated (configureNetworkInterface 0x0300000A 0x00FFFFFF 0 new_tcpip) = {}"
proof -
  have "host_number 0x0200000A 0x00FFFFFF \<noteq> host_number 0x0300000A 0x00FFFFFF" by code_simp
  from multicast_blocks [OF this] show ?thesis by blast
qed

section \<open>Frames, sockets and reservations of connections\<close>








text \<open>C25. The allocation of application connections always returns; it only ever hands out an object that
  no active connection uses: an exclusive owner's when nobody consumes its output assembly, an input only one, or, for a
  multicast production that somebody masters, a listen only one; and when it hands out none it changes nothing and
  gives a reason.\<close>

theorem connection_allocation:
  assumes "cm_inv s xs" and "pools_ok s xs"
  shows "\<exists>c ext s'. GetIoConnectionForConnectionData d s = Some (c, ext, s') \<and>
    (case c of
       None \<Rightarrow> s' = s \<and> ext \<noteq> kConnMgrStatusSuccess
     | Some k \<Rightarrow> ext = kConnMgrStatusSuccess \<and> k \<notin> set xs \<and> (\<exists>type. chosen type k s s' \<and> granted d s xs type k))"
  using assms by (rule GetIoConnection_ok)

theorem connection_allocation_witness:
  "\<exists>c ext s'. GetIoConnectionForConnectionData (demo_data 1 20 153 0) demo_running = Some (c, ext, s') \<and>
    (case c of
       None \<Rightarrow> s' = demo_running \<and> ext \<noteq> kConnMgrStatusSuccess
     | Some k \<Rightarrow> k \<notin> {0, 2, 3} \<and> (\<exists>type. granted (demo_data 1 20 153 0) demo_running [0, 3, 2] type k))"
proof -
  obtain c ext s' where g: "GetIoConnectionForConnectionData (demo_data 1 20 153 0) demo_running = Some (c, ext, s')"
    "case c of
       None \<Rightarrow> s' = demo_running \<and> ext \<noteq> kConnMgrStatusSuccess
     | Some k \<Rightarrow> ext = kConnMgrStatusSuccess \<and> k \<notin> set [0, 3, 2] \<and>
         (\<exists>type. chosen type k demo_running s' \<and> granted (demo_data 1 20 153 0) demo_running [0, 3, 2] type k)"
    using connection_allocation [OF demo_running_inv demo_running_pools, of "demo_data 1 20 153 0"] by blast
  then show ?thesis by (intro exI [of _ c] exI [of _ ext] exI [of _ s']) (auto split: option.splits)
qed

text \<open>C26. While any active connection consumes into an output assembly, a message cannot write the assembly's
  data attribute: the request is answered with \<open>kCipErrorAttributeNotSetable\<close> and no state has changed.\<close>

theorem connected_output_protected:
  assumes "active s xs" and "c \<in> set xs" and "consuming_point (as_data (conns s c)) = k"
    and "HasConnectionPointRole kRoleConsumed (assemblies s k)"
  shows "set_assembly_data_attr env k data r s = Some (SetGenStatus kCipErrorAttributeNotSetable r, s)"
proof -
  have "List.find (\<lambda>x. k = consuming_point (as_data (conns s x))) xs \<noteq> None" using assms(2,3) by (auto simp: find_None_iff)
  then have "IsConnectedOutputAssembly k s = Some True"
    using find_active_find [OF assms(1), of "\<lambda>x. k = consuming_point (as_data x)"]
    by (auto simp: IsConnectedOutputAssembly_def)
  then show ?thesis using assms(4) by (simp add: set_assembly_data_attr_def Let_def)
qed

theorem connected_output_protected_witness:
  "set_assembly_data_attr (io_conn demo_env) 150 [1, 2, 3, 4] demo_response
       (demo_running\<lparr>assemblies := (\<lambda>k. \<lparr>byte_array = [0, 0, 0, 0], connection_point_roles = 1\<rparr>)\<rparr>) =
     Some (SetGenStatus kCipErrorAttributeNotSetable demo_response,
       demo_running\<lparr>assemblies := (\<lambda>k. \<lparr>byte_array = [0, 0, 0, 0], connection_point_roles = 1\<rparr>)\<rparr>)"
proof -
  let ?s = "demo_running\<lparr>assemblies := (\<lambda>k. \<lparr>byte_array = [0, 0, 0, 0], connection_point_roles = 1\<rparr>)\<rparr>"
  have a: "active ?s [0, 3, 2]" using demo_active active_cong [of ?s demo_running] by simp
  have "consuming_point (as_data (conns ?s 2)) = 150" by (simp add: demo_state demo_fields demo_points)
  moreover have "HasConnectionPointRole kRoleConsumed (assemblies ?s 150)" by (simp add: HasConnectionPointRole_def)
  ultimately show ?thesis using connected_output_protected [OF a, of 2 150] by simp
qed

section \<open>The encapsulation layer\<close>

definition register_run :: "(int \<times> byte list) res \<times> session_mgr \<times> unit" where
  "register_run = HandleReceivedExplicitTcpData quiet_notify quiet_notify example_device 200 7 register_request
     (writer_on (replicate 30 0)) (example_sessions, ())"

text \<open>C27. A SendRRData or SendUnitData request on a handle that its socket has not registered is answered
  with the status InvalidSessionHandle in a message of 30 bytes; the functions behind the encapsulation layer are
  not reached, and the only thing that changes is the time of the last activity of the socket.\<close>

theorem unregistered_request_refused:
  assumes "wf_writer aReply" and "30 \<le> capacity aReply" and "capacity aReply < 65536"
    and "DeserializeEncap aCommand = Inr (30, e)" and "30 < length aCommand"
    and "en_status e = 0" and "en_options e = 0"
    and "CheckRegisteredSession (en_session_handle e) sock m = None"
    and "en_command e \<in> {kEncapCmdSendRRData, kEncapCmdSendUnitData}"
  shows "\<exists>mem e'. HandleReceivedExplicitTcpData rr ud dev now sock aCommand aReply (m, s) =
      (Inr (30, mem), snd (UpdateRegisteredTcpConnection now sock m), s) \<and>
    DeserializeEncap (reply_message aReply 30 mem) = Inr (30, e') \<and>
    en_status e' = 0x64 \<and> en_session_handle e' = en_session_handle e \<and> same_request e e'"
  using assms by (rule tcp_unregistered_reply)

theorem unregistered_request_refused_witness:
  "\<exists>mem. HandleReceivedExplicitTcpData quiet_notify quiet_notify example_device 200 7 rr_request
     (writer_on (replicate 40 0)) (example_sessions, ()) =
     (Inr (30, mem), snd (UpdateRegisteredTcpConnection 200 7 example_sessions), ())"
proof -
  let ?w = "writer_on (replicate 40 0)"
  have w: "wf_writer ?w" "30 \<le> capacity ?w" "capacity ?w < 65536" "30 < length rr_request" by code_simp+
  let ?e = "request_header rr_request"
  have e: "DeserializeEncap rr_request = Inr (30, ?e)" "en_status ?e = 0" "en_options ?e = 0"
    "en_session_handle ?e = 1" "en_command ?e = kEncapCmdSendRRData" by code_simp+
  have "CheckRegisteredSession 1 7 example_sessions = None" by code_simp
  then show ?thesis
    using unregistered_request_refused [OF w(1-3) e(1) w(4) e(2,3), where rr = quiet_notify and ud = quiet_notify
      and dev = example_device and now = 200 and sock = 7 and m = example_sessions and s = "()"] e(4,5)
    by auto
qed

text \<open>C28. Whatever pieces \<open>recv\<close> delivers, a message that \<open>ReceiveTcpMsg\<close> hands out is the
  24 byte header and exactly the bytes it declares, taken off the front of the stream and within the buffer; what
  follows is still there for the next call.\<close>

theorem tcp_message_framing:
  assumes "ENCAPSULATION_HEADER_LENGTH \<le> cap" and "ReceiveTcpMsg rs cap = (n, msg, rs')" and "0 \<le> n"
  shows "n = int (length msg) \<and> length msg = ENCAPSULATION_HEADER_LENGTH + declared_length msg \<and>
    length msg \<le> cap \<and> offered rs = msg @ offered rs'"
  using assms by (rule ReceiveTcpMsg_message)

theorem tcp_message_framing_witness:
  "\<exists>msg rs'. ReceiveTcpMsg [Received (take 10 register_request), Received (drop 10 register_request @ [9])] 64 =
     (28, msg, rs') \<and> register_request @ [9] = msg @ offered rs'"
proof -
  let ?rs = "[Received (take 10 register_request), Received (drop 10 register_request @ [9])]"
  have "fst (ReceiveTcpMsg ?rs 64) = 28" by code_simp
  then obtain msg rs' where r: "ReceiveTcpMsg ?rs 64 = (28, msg, rs')" by (metis prod.collapse)
  moreover have "offered ?rs = register_request @ [9]" by code_simp
  ultimately show ?thesis using tcp_message_framing [OF _ r] by auto
qed




section \<open>The table of sessions\<close>

text \<open>C30. Over every history of connections, registrations, traffic, closings and aging the table keeps its
  20 slots, no free slot is registered, and no socket is in two slots.\<close>

theorem sessions_invariant:
  assumes "session_reachable m"
  shows "length (sessions m) = SESSIONS \<and>
    (\<forall>i < SESSIONS. m_socket (sessions m ! i) = kSocketInvalid \<longrightarrow> \<not> m_is_registered (sessions m ! i)) \<and>
    (\<forall>i < SESSIONS. \<forall>j < SESSIONS. m_socket (sessions m ! i) = m_socket (sessions m ! j) \<longrightarrow>
       m_socket (sessions m ! i) \<noteq> kSocketInvalid \<longrightarrow> i = j)"
  using session_reachable_wf [OF assms] by (simp add: wf_sessions_def)

lemma example_sessions_reachable: "session_reachable example_sessions"
proof -
  have "op_allowed (Accept (Some (SockAddr 1000 5)) 100 7) initial_sessions" by code_simp
  from session_reachable.step [OF session_reachable.start this]
  show ?thesis by (simp add: example_sessions_def)
qed

theorem sessions_invariant_witness:
  "length (sessions example_sessions) = 20 \<and> \<not> m_is_registered (sessions example_sessions ! 0)"
proof -
  have "m_socket (sessions example_sessions ! 0) = kSocketInvalid" by code_simp
  with sessions_invariant [OF example_sessions_reachable] show ?thesis by auto
qed

section \<open>The common packet format\<close>

text \<open>C31. What \<open>Cpf::Serialize\<close> sends the peer's \<open>DeserializeCpf\<close> reads back, whatever its
  object held before: the address item with the fields its type carries, the data item, and the socket address items,
  those transmitted here as those received there; the return value is the number of bytes.\<close>

theorem cpf_round_trip:
  assumes "ok_cpf c" and "wf_writer w" and "Cpf_Serialize w c = Inr w'"
  shows "\<exists>c'. DeserializeCpf c0 (written w w' @ rest) = (int (w_count w w'), c') \<and>
    HasAddr c' = HasAddr c \<and>
    (HasAddr c \<longrightarrow> ai_type_id (address_item c') = ai_type_id (address_item c) \<and>
       (ai_type_id (address_item c) \<noteq> kCpfIdNullAddress \<longrightarrow>
          connection_identifier (address_item c') = connection_identifier (address_item c)) \<and>
       (ai_type_id (address_item c) = kCpfIdSequencedAddress \<longrightarrow>
          encap_sequence_number (address_item c') = encap_sequence_number (address_item c))) \<and>
    HasData c' = HasData c \<and>
    (HasData c \<longrightarrow> data_item c' = \<lparr>di_type_id = di_type_id (data_item c), di_data = data_sent c\<rparr>) \<and>
    rx_O_T c' = tx_O_T c \<and> rx_T_O c' = tx_T_O c"
proof -
  have a: "append_bytes w (cpf_wire c) = Inr w'" using assms(2,3) by (simp add: Cpf_Serialize_wire)
  have "DeserializeCpf c0 (written w w' @ rest) = (int (w_count w w'), received c0 c)"
    using DeserializeCpf_wire [OF assms(1)] append_written [OF a assms(2)] append_count [OF a] by simp
  moreover have "ai_type_id (address_item c) \<in> insert kCpfIdEmpty addr_types" using assms(1) by (simp add: ok_cpf_def)
  ultimately show ?thesis
    by (auto simp: received_def Cpf_Clear_def parsed_address_def HasAddr_def HasData_def Let_def addr_types_def)
qed

definition example_cpf :: cpf where
  "example_cpf = (Cpf_address (AddressItem kCpfIdSequencedAddress 77 5) kCpfIdConnectedDataItem)
     \<lparr>payload := Some [1, 2, 3], tx_T_O := Some (SockAddr 2222 0xEFC00001)\<rparr>"

theorem cpf_round_trip_witness:
  "\<exists>w' c'. Cpf_Serialize (writer_on (replicate 60 0)) example_cpf = Inr w' \<and>
     snd (DeserializeCpf example_cpf (written (writer_on (replicate 60 0)) w' @ [7])) = c' \<and>
     encap_sequence_number (address_item c') = 5 \<and> di_data (data_item c') = [5, 0, 1, 2, 3]"
proof -
  let ?w = "writer_on (replicate 60 0)"
  have a: "ok_cpf example_cpf" "wf_writer ?w" "HasAddr example_cpf" "HasData example_cpf"
    "ai_type_id (address_item example_cpf) = kCpfIdSequencedAddress"
    "encap_sequence_number (address_item example_cpf) = 5" "data_sent example_cpf = [5, 0, 1, 2, 3]"
    by (simp add: ok_cpf_def example_cpf_def Cpf_address_def AddressItem_def addr_types_def data_types_def
        DataItem_def data_sent_def ok_sockaddr_def SockAddr_def) code_simp+
  have "case Cpf_Serialize ?w example_cpf of Inr _ \<Rightarrow> True | Inl _ \<Rightarrow> False" by code_simp
  then obtain w' where w: "Cpf_Serialize ?w example_cpf = Inr w'" by (auto split: sum.splits)
  from cpf_round_trip [OF a(1,2) w, of example_cpf "[7]"] a(3-) w show ?thesis by auto
qed

section \<open>Application paths\<close>

text \<open>The concrete path of the examples: assembly 300, attribute 3, and a writer of ten bytes.\<close>

definition example_path :: app_path where
  "example_path = CipAppPath (replicate 7 0) 4 300 3"

definition example_writer :: writer where
  "example_writer = writer_on (replicate 10 0)"

text \<open>C32. What \<open>CipAppPath::Serialize\<close> writes for a path the grammar allows, \<open>DeserializeAppPath\<close>
  reads back as a path that no accessor can tell from it, and it stops exactly where the path ends,
  whatever the path object held before.\<close>

theorem app_path_round_trip:
  assumes "canonical_path p" and "no_omit ctl" and "wf_writer w" and "length (ap_stuff p0) = 7"
    and "ends_path rest" and "AppPath_Serialize ctl w p = Inr w'"
  shows "\<exists>p'. DeserializeAppPath ctl None p0 (written w w' @ rest) = Inr (p', rest) \<and>
    same_path p' p \<and> IsSufficient p' = IsSufficient p \<and>
    GetInstanceOrConnPt p' = GetInstanceOrConnPt p"
  using assms parse_canonical_path [OF assms(1,2,4) ends_path_ends [OF assms(5)]] same_path_accessors(3,4)
  by (fastforce simp: ser_simps append_written)

theorem app_path_round_trip_witness:
  "\<exists>p'. DeserializeAppPath 0 None example_path [32, 4, 37, 0, 44, 1, 48, 3] = Inr (p', []) \<and>
     same_path p' example_path"
proof -
  let ?w' = "\<lparr>w_mem = [32, 4, 37, 0, 44, 1, 48, 3, 0, 0], w_pos = 8, w_lim = 10\<rparr>"
  have "canonical_path example_path" "no_omit 0" "wf_writer example_writer"
    "length (ap_stuff example_path) = 7" "ends_path []"
    "AppPath_Serialize 0 example_writer example_path = Inr ?w'" by code_simp+
  from app_path_round_trip [OF this] show ?thesis
    by (auto simp: written_def example_writer_def writer_on_def)
qed

section \<open>Segments of a connection path\<close>

definition example_key :: key_segment where
  "example_key = \<lparr>vendor_id = 1, device_type = 12, product_code = 65, major_revision = 2, minor_revision = 1\<rparr>"

definition example_group :: port_group where
  "example_group = pg_mark PORT (pg_mark KEY (SetPIT_USecs 70000
     \<lparr>pg_pbits = 0, pg_key = example_key, pg_port = \<lparr>ps_port = 300, link_address = [1, 2, 3]\<rparr>, pit_usecs = 0\<rparr>))"

section \<open>Objects and the message router\<close>


text \<open>A class with one settable attribute, its one instance, and requests to it.\<close>

definition example_attribute :: cip_attribute where
  "example_attribute = \<lparr>attribute_id = 1, attr_type = kCipUint, is_getable_all = True, is_offset = True,
     attr_where = 0, getter = Some GetAttrData, setter = Some SetAttrData\<rparr>"

definition example_class :: cip_class where
  "example_class = \<lparr>class_id = 100, class_name = ''Example'', revision = 1, clss_getable_all_mask = 0,
     inst_getable_all_mask = 2, instances = [1],
     services_I = [\<lparr>service_name = ''GetAttributeAll'', service_id = 1, service_function = GetAttributeAll\<rparr>,
       \<lparr>service_name = ''GetAttributeSingle'', service_id = 14, service_function = GetAttributeSingle\<rparr>,
       \<lparr>service_name = ''SetAttributeSingle'', service_id = 16, service_function = SetAttributeSingle\<rparr>],
     services_C = [], attributes_I = [example_attribute], attributes_C = []\<rparr>"

definition example_stack :: "unit stack" where
  "example_stack = \<lparr>st_classes = [100 \<mapsto> example_class], st_data = (\<lambda>_. V16 7), st_rest = ()\<rparr>"

definition example_app :: "unit app" where
  "example_app = \<lparr>user_attr = (\<lambda>n a c i q r st. (Inr kEipStatusOk, q, r, st)),
     user_service = (\<lambda>n c i q r st. (Inr kEipStatusOk, q, r, st))\<rparr>"

definition example_request :: "u8 \<Rightarrow> byte list \<Rightarrow> mr_request" where
  "example_request service data = \<lparr>mr_service = service,
     mr_path = CipAppPath (replicate 7 0) 100 1 1, mr_data = data\<rparr>"

definition example_response :: mr_response where
  "example_response = CipMessageRouterResponse (writer_on (replicate 10 0))"

lemma example_wf: "wf_class example_class"
  by code_simp




lemma example_addressed:
  "addressed (example_request 1 []) example_stack example_class 1 GetAttributeAll"
  "addressed (example_request 14 []) example_stack example_class 1 GetAttributeSingle"
  "addressed (example_request 16 d) example_stack example_class 1 SetAttributeSingle"
proof -
  let ?p = "CipAppPath (replicate 7 0) 100 1 1"
  have p: "mr_path (example_request s d) = ?p" for s d by (simp add: example_request_def)
  have path: "\<not> ap_has TAG ?p" "ap_has INSTANCE ?p" "path_int INSTANCE ?p = 1" "path_int CLASS ?p = 100"
    by code_simp+
  have c: "GetCipClass 100 example_stack = Some example_class" "Instance 1 example_class = Some 1" by code_simp+
  have s: "map_option service_function (Service (CI_of 1) 1 example_class) = Some GetAttributeAll"
    "map_option service_function (Service (CI_of 1) 14 example_class) = Some GetAttributeSingle"
    "map_option service_function (Service (CI_of 1) 16 example_class) = Some SetAttributeSingle" by code_simp+
  show "addressed (example_request 1 []) example_stack example_class 1 GetAttributeAll"
    "addressed (example_request 14 []) example_stack example_class 1 GetAttributeSingle"
    "addressed (example_request 16 d) example_stack example_class 1 SetAttributeSingle"
    using s unfolding addressed_def p path c by (auto simp: path c example_request_def)
qed




text \<open>C35. \<open>GetAttributeAll\<close>, which calls the single service for one attribute after the other and
  moves the writer of the response along, answers the concatenation of the encoded objects of the attributes in
  its mask, in the order of their ids, with status success and the writer back where it was.\<close>

theorem get_all_concatenates:
  assumes "addressed q st c i GetAttributeAll" and "mr_service q = kGetAttributeAll" and "wf_class c"
    and "attributes (CI_of i) c \<noteq> []"
    and "Service (CI_of i) (uint kGetAttributeSingle) c = Some s" and "service_function s = GetAttributeSingle"
    and "\<forall>a \<in> set (attributes (CI_of i) c). in_mask (all_mask c i) a \<longrightarrow> plain_attribute c i st a"
    and "length (ap_stuff (mr_path q)) = 7" and "wf_writer (mr_writer r)"
    and "written_size r = 0" and "general_status r = error_code kCipErrorSuccess"
    and "int (length (all_bytes (all_mask c i) c i st (attributes (CI_of i) c))) \<le> capacity (mr_writer r)"
  shows "\<exists>q' r'. NotifyMR app q r st = (Inr kEipStatusOkSend, q', r', st) \<and>
    Reader r' = all_bytes (all_mask c i) c i st (attributes (CI_of i) c) \<and>
    general_status r' = error_code kCipErrorSuccess"
  using assms by (rule get_all_reads)

theorem get_all_concatenates_witness:
  "\<exists>q' r'. NotifyMR example_app (example_request 1 []) example_response example_stack =
     (Inr kEipStatusOkSend, q', r', example_stack) \<and> Reader r' = [7, 0]"
proof -
  let ?q = "example_request 1 []" and ?c = example_class
  let ?s = "\<lparr>service_name = ''GetAttributeSingle'', service_id = 14, service_function = GetAttributeSingle\<rparr>"
  have a: "attributes (CI_of 1) ?c \<noteq> []" "Service (CI_of 1) (uint kGetAttributeSingle) ?c = Some ?s"
    "\<forall>a \<in> set (attributes (CI_of 1) ?c). in_mask (all_mask ?c 1) a \<longrightarrow> plain_attribute ?c 1 example_stack a"
    "length (ap_stuff (mr_path ?q)) = 7" "wf_writer (mr_writer example_response)" "written_size example_response = 0"
    "general_status example_response = error_code kCipErrorSuccess"
    "all_bytes (all_mask ?c 1) ?c 1 example_stack (attributes (CI_of 1) ?c) = [7, 0]"
    "int (length [7, 0 :: byte]) \<le> capacity (mr_writer example_response)" by code_simp+
  have m: "mr_service ?q = kGetAttributeAll" by (simp add: example_request_def)
  show ?thesis
    using get_all_concatenates [OF example_addressed(1) m example_wf a(1,2) _ a(3-7), where app = example_app] a(8,9)
    by auto
qed

text \<open>C36. An attribute is refused exactly when a different attribute of the list would share its storage under
  an incompatible type; when it is refused nothing changes, and when it is accepted it is found under its id and
  every other attribute is still found under its own.\<close>

theorem attribute_insert_exact:
  assumes "wf_class c"
  shows "(fst (AttributeInsert ci a c) \<longleftrightarrow>
      (\<forall>e \<in> set (attributes ci c). attribute_id e \<noteq> attribute_id a \<longrightarrow> compatible a e)) \<and>
    (if fst (AttributeInsert ci a c)
     then Attribute ci i (snd (AttributeInsert ci a c)) = (if i = attribute_id a then Some a else Attribute ci i c)
     else snd (AttributeInsert ci a c) = c)"
  using AttributeInsert_iff [of ci a c] Attribute_after_insert [OF assms, of ci a i] by simp

theorem attribute_insert_exact_witness:
  "\<not> fst (AttributeInsert CI_I (example_attribute\<lparr>attribute_id := 2, attr_type := kCipUdint\<rparr>) example_class) \<and>
   fst (AttributeInsert CI_I (example_attribute\<lparr>attribute_id := 2, attr_where := 2\<rparr>) example_class)"
proof -
  let ?a = "example_attribute\<lparr>attribute_id := 2, attr_type := kCipUdint\<rparr>"
  let ?b = "example_attribute\<lparr>attribute_id := 2, attr_where := 2\<rparr>"
  have "\<not> compatible ?a example_attribute" "compatible ?b example_attribute"
    "attributes CI_I example_class = [example_attribute]" "attribute_id example_attribute \<noteq> 2" by code_simp+
  then show ?thesis
    using attribute_insert_exact [OF example_wf, of CI_I ?a] attribute_insert_exact [OF example_wf, of CI_I ?b] by auto
qed

section \<open>Connections\<close>

text \<open>C37. A forward open request that an originator serializes is understood by a target: the steps of the
  target's handler read back every number, with the two directions exchanged, the trigger, and a connection path
  that no accessor can tell from the one that was sent, whatever their object held before.\<close>

theorem forward_open_round_trip:
  assumes "wf_writer w" and "CTL_FORWARD_OPEN ctl" and "\<not> CTL_OMIT_CONN_PATH ctl"
    and "\<not> CTL_UNCOMPRESSED_EPATH ctl" and "no_omit ctl" and "\<not> CTL_PACKED_EPATH ctl"
    and "ConnectionData_Serialize ctl w d = Inr w'"
    and "ok_ncp is_large (consuming_ncp d)" and "ok_ncp is_large (producing_ncp d)"
    and "ok_conn_path (conn_path d)" and "length (conn_path_wire ctl (conn_path d)) \<le> 510"
    and "wf_conn_path (conn_path d0)"
  shows "\<exists>cp. receive_open is_large d0 (written w w') = Inr ((mirrored d0 d)\<lparr>conn_path := cp\<rparr>) \<and>
    same_conn_path cp (conn_path d)"
proof -
  have "written w w' = forward_open_wire d @ sized_path_wire ctl False (conn_path d)"
    using append_written assms(1,7) by (simp add: ConnectionData_Serialize_open [OF assms(1-4,10)])
  then show ?thesis using receive_open_wire [OF assms(8-10,12,5,6,11)] by simp
qed

text \<open>An originator's data for a class 1 connection to the assemblies 101 and 102, with the configuration
  assembly 103.\<close>

definition example_conf :: user_conf where
  "example_conf = \<lparr>produced_run_idle = False, consumed_run_idle = True, timer_tick_usecs = 1000,
     conf_vendor_id = 1, conf_serial_number = 123\<rparr>"

definition assembly_path :: "u32 \<Rightarrow> app_path" where
  "assembly_path i = CipAppPath (replicate 7 0) 4 i 0"

definition example_paths :: "app_path list \<Rightarrow> u16 list \<Rightarrow> conn_path" where
  "example_paths ps ws = (ConnectionPath (replicate 7 0))\<lparr>
     app_paths := take 3 (ps @ replicate 3 (new_app_path (replicate 7 0))),
     data_seg := if ws = [] then ds_empty else \<lparr>ds_pbits = 1, ds_words = ws\<rparr>\<rparr>"

definition example_connection :: "u8 \<Rightarrow> net_params \<Rightarrow> net_params \<Rightarrow> conn_path \<Rightarrow> conn_data" where
  "example_connection cls consuming producing cp =
     (ConnectionData example_conf (replicate 7 0))\<lparr>consuming_ncp := consuming, producing_ncp := producing,
       consuming_RPI_usecs := 20000, producing_RPI_usecs := 10000, trigger := TransportTrigger False 0 cls,
       connection_serial_number := 77, conn_path := cp\<rparr>"

theorem forward_open_round_trip_witness:
  "\<exists>w' d'. ConnectionData_Serialize 0x80 (writer_on (replicate 80 9)) (example_connection 1
       (NetCnParams 36 True kIOConnTypePointToPoint 0) (NetCnParams 38 True kIOConnTypePointToPoint 0)
       (example_paths [assembly_path 103, assembly_path 101, assembly_path 102] [1, 2])) = Inr w' \<and>
     receive_open False (ConnectionData example_conf (replicate 7 5)) (written (writer_on (replicate 80 9)) w') = Inr d' \<and>
     consuming_RPI_usecs d' = 10000 \<and> ConnectionSize (consuming_ncp d') = 38 \<and>
     same_conn_path (conn_path d') (example_paths [assembly_path 103, assembly_path 101, assembly_path 102] [1, 2])"
proof -
  let ?w = "writer_on (replicate 80 9)" and ?ctl = "0x80 :: u32"
  let ?cp = "example_paths [assembly_path 103, assembly_path 101, assembly_path 102] [1, 2]"
  let ?d = "example_connection 1 (NetCnParams 36 True kIOConnTypePointToPoint 0)
    (NetCnParams 38 True kIOConnTypePointToPoint 0) ?cp"
  let ?old = "ConnectionData example_conf (replicate 7 5)"
  have c: "wf_writer ?w" "CTL_FORWARD_OPEN ?ctl" "\<not> CTL_OMIT_CONN_PATH ?ctl" "\<not> CTL_UNCOMPRESSED_EPATH ?ctl"
    "no_omit ?ctl" "\<not> CTL_PACKED_EPATH ?ctl" by code_simp+
  have d: "ok_ncp False (consuming_ncp ?d)" "ok_ncp False (producing_ncp ?d)" "ok_conn_path (conn_path ?d)"
    "length (conn_path_wire ?ctl (conn_path ?d)) \<le> 510" "wf_conn_path (conn_path ?old)" by code_simp+
  have "case ConnectionData_Serialize ?ctl ?w ?d of Inr _ \<Rightarrow> True | Inl _ \<Rightarrow> False" by code_simp
  then obtain w' where w: "ConnectionData_Serialize ?ctl ?w ?d = Inr w'" by (auto split: sum.splits)
  have m: "producing_RPI_usecs ?d = 10000" "ConnectionSize (producing_ncp ?d) = 38" "conn_path ?d = ?cp" by code_simp+
  obtain cp where r: "receive_open False ?old (written ?w w') = Inr ((mirrored ?old ?d)\<lparr>conn_path := cp\<rparr>)"
    "same_conn_path cp (conn_path ?d)"
    using forward_open_round_trip [OF c w d] by blast
  have "consuming_RPI_usecs ((mirrored ?old ?d)\<lparr>conn_path := cp\<rparr>) = producing_RPI_usecs ?d"
    "consuming_ncp ((mirrored ?old ?d)\<lparr>conn_path := cp\<rparr>) = producing_ncp ?d"
    by (simp_all add: mirrored_def)
  then show ?thesis
    using w r m by (intro exI [of _ w'] exI [of _ "(mirrored ?old ?d)\<lparr>conn_path := cp\<rparr>"]) simp
qed

text \<open>C38. The four rows of switches by which \<open>ResolveInstances\<close> gives the application paths of a
  request their roles compute table 3-5.13 as one rule: with a data segment the first path configures, the data
  paths are those behind it or the only one, the first of them consumes and the last of them produces, and there
  are never more of them than data directions; a path that names nothing gets the status of the first role that
  uses it.\<close>

theorem resolve_table_equivalent:
  "table_3_5_13 reg d instance1 = reference_roles reg d instance1"
  by (rule table_equiv)

text \<open>C39. When \<open>ResolveInstances\<close> succeeds, every instance it has stored exists in a registered
  class, each direction that carries data has one, so that \<open>CorrectSizes\<close> never follows a null pointer,
  and for the transport classes 0 and 1 every one of them is an assembly.\<close>

theorem resolved_instances_safe:
  assumes "wf_registry reg" and "ResolveInstances reg ext d = (kCipErrorSuccess, e, d')"
  shows "(names_instance d' i \<longrightarrow> live reg i) \<and> (\<exists>r. CorrectSizes sizes ext' d' = Inr r) \<and>
    (TransportClass (trigger d) \<in> {kConnTransportClass0, kConnTransportClass1} \<and> names_instance d' i \<longrightarrow>
     fst i = kCipAssembly)"
proof -
  have r: "resolved reg d'" by (rule ResolveInstances_resolved [OF assms(2)])
  show ?thesis
    using resolved_live [OF assms(1) r] CorrectSizes_defined [OF r] resolved_io [OF assms] by auto
qed

definition assembly_class :: cip_class where
  "assembly_class = example_class\<lparr>class_id := 4, instances := [101, 102, 103]\<rparr>"

definition example_registry :: registry where
  "example_registry = [4 \<mapsto> assembly_class, 100 \<mapsto> example_class]"

definition p2p :: "int \<Rightarrow> net_params" where
  "p2p n = NetCnParams n True kIOConnTypePointToPoint 0"

definition resolve_example :: "u8 \<Rightarrow> app_path list \<Rightarrow> CipError \<times> ConnMgrStatus \<times> conn_data" where
  "resolve_example cls ps = ResolveInstances example_registry kConnMgrStatusSuccess
     (example_connection cls (p2p 36) (p2p 32) (example_paths ps []))"

lemma example_registry_wf: "wf_registry example_registry"
proof -
  have "wf_class assembly_class" by code_simp
  then show ?thesis
    by (auto simp: wf_registry_def example_registry_def example_wf split: if_splits)
      (simp_all add: assembly_class_def example_class_def)
qed

theorem resolved_instances_safe_witness:
  "live example_registry (4, 101) \<and> consuming_instance (snd (snd (resolve_example 1 [assembly_path 101, assembly_path 102]))) =
     Some (4, 101)"
proof -
  let ?r = "resolve_example 1 [assembly_path 101, assembly_path 102]"
  have "fst ?r = kCipErrorSuccess" "fst (snd ?r) = kConnMgrStatusSuccess"
    and i: "consuming_instance (snd (snd ?r)) = Some (4, 101)" by code_simp+
  then have "?r = (kCipErrorSuccess, kConnMgrStatusSuccess, snd (snd ?r))" by (simp add: prod_eq_iff)
  from resolved_instances_safe [OF example_registry_wf this [unfolded resolve_example_def], of "(4, 101)"] i
  show ?thesis by (simp add: names_instance_def resolve_example_def)
qed



section \<open>Further facts\<close>

text \<open>A request that sets the multicast configuration but is too short is refused for not enough data, and has still
  changed the configuration: the fields are assigned as they are read.\<close>

theorem short_multicast_request:
  assumes "addressed q st c i SetAttributeSingle" and "Attribute (CI_of i) (path_int ATTRIBUTE (mr_path q)) c = Some a"
    and "setter a = Some (User_attr_func 5)" and "mr_data q = [control]"
  shows "\<exists>r' st'. NotifyMR (stack_app h) q r st = (Inr kEipStatusOkSend, q, r', st') \<and>
    general_status r' = error_code kCipErrorNotEnoughData \<and> alloc_control (MultiCast i st') = control"
  using assms(2-4)
  by (simp add: NotifyMR_addressed [OF assms(1)] call_service_def set_attribute_single_def Attribute_Set_def stack_app_def
      stack_attr_def set_multicast_config_def read_multicast_def tcpip_upd_def SetGenStatus_def Let_def)

theorem short_multicast_request_witness:
  "\<exists>r' st'. NotifyMR (stack_app demo_host) (tcp_request kSetAttributeSingle 9 [1]) demo_response demo_stack =
      (Inr kEipStatusOkSend, tcp_request kSetAttributeSingle 9 [1], r', st') \<and>
    general_status r' = error_code kCipErrorNotEnoughData \<and> alloc_control (MultiCast 1 st') = 1 \<and>
    alloc_control (MultiCast 1 demo_stack) = 0"
proof -
  have "mr_data (tcp_request kSetAttributeSingle 9 [1]) = [1]" by (simp add: tcp_request_def)
  moreover have "alloc_control (MultiCast 1 demo_stack) = 0"
    by (simp add: demo_stack_def new_tcpip_members_def store_def tcpip_upd_def new_tcpip_def)
  ultimately show ?thesis
    using short_multicast_request [OF demo_addressed(2) demo_attributes(2), where control = 1 and h = demo_host and r = demo_response] by auto
qed

text \<open>Every reply of \<open>HandleReceivedExplicitTcpData\<close> that goes out is a well formed message: it
  fits the reply buffer, its header parses, its length field counts exactly the bytes behind the 24 byte header,
  and command, context and options are those of the request, whatever the command was, as long as the
  functions behind SendRRData and SendUnitData keep to their buffer.\<close>

theorem tcp_reply_framed:
  assumes "wf_writer aReply" and "capacity aReply < 65536"
    and "fitting_notify rr" and "fitting_notify ud"
    and "HandleReceivedExplicitTcpData rr ud dev now sock aCommand aReply st = (Inr (n, mem), st')"
    and "0 < n"
  shows "n \<le> capacity aReply \<and> length mem = length (w_mem aReply) \<and>
    (\<exists>e e'. DeserializeEncap aCommand = Inr (int (HeaderLength e), e) \<and>
       DeserializeEncap (reply_message aReply n mem) = Inr (int (HeaderLength e), e') \<and>
       int (unat (en_length e')) = n - 24 \<and> same_request e e')"
  using assms by (rule tcp_handler_message)

theorem tcp_reply_framed_witness:
  "\<exists>mem e e'. fst register_run = Inr (28, mem) \<and> DeserializeEncap register_request = Inr (24, e) \<and>
     DeserializeEncap (reply_message (writer_on (replicate 30 0)) 28 mem) = Inr (24, e') \<and>
     uint (en_length e') = 4 \<and> same_request e e'"
proof -
  let ?w = "writer_on (replicate 30 0)"
  have "case fst register_run of Inr (n, mem) \<Rightarrow> n = 28 | Inl _ \<Rightarrow> False" by code_simp
  then obtain mem where m: "fst register_run = Inr (28, mem)" by (auto split: sum.splits prod.splits)
  then have run: "HandleReceivedExplicitTcpData quiet_notify quiet_notify example_device 200 7 register_request ?w
      (example_sessions, ()) = (Inr (28, mem), snd register_run)"
    by (simp add: register_run_def prod_eq_iff)
  have w: "wf_writer ?w" "capacity ?w < 65536" by code_simp+
  have "DeserializeEncap register_request = Inr (24, request_header register_request)"
    and "HeaderLength (request_header register_request) = 24" by code_simp+
  with tcp_reply_framed [OF w quiet_fits quiet_fits run] m show ?thesis by auto
qed

text \<open>\<open>DeserializeEncap\<close> reads back every header \<open>Encapsulation::Serialize\<close> writes, of
  both sizes, and reports how many bytes it took.\<close>

theorem encap_header_round_trip:
  assumes "ok_encap e" and "wf_writer w" and "Encap_Serialize w e = Inr w'"
  shows "w_count w w' = Encap_SerializedCount e \<and>
    DeserializeEncap (written w w' @ rest) = Inr (int (HeaderLength e), e)"
proof -
  have "Encap_Serialize w e = append_bytes w (encap_wire e)"
    using assms(1) by (simp add: Encap_Serialize_wire ok_encap_def)
  then show ?thesis
    using assms append_written append_count DeserializeEncap_wire length_encap_wire
    by (simp add: Encap_SerializedCount_def ok_encap_def)
qed

theorem encap_header_round_trip_witness:
  "DeserializeEncap ([0x6F, 0, 6, 0] @ replicate 26 0 @ [5]) =
     Inr (30, SetPayloadLength 0 (Encapsulation kEncapCmdSendRRData 0 None))"
proof -
  let ?e = "SetPayloadLength 0 (Encapsulation kEncapCmdSendRRData 0 None)"
  let ?w = "writer_on (replicate 30 9)"
  let ?w' = "\<lparr>w_mem = [0x6F, 0, 6, 0] @ replicate 26 0, w_pos = 30, w_lim = 30\<rparr>"
  have "ok_encap ?e" "wf_writer ?w" "Encap_Serialize ?w ?e = Inr ?w'" "HeaderLength ?e = 30"
    "written ?w ?w' = [0x6F, 0, 6, 0] @ replicate 26 0" by code_simp+
  with encap_header_round_trip [of ?e ?w ?w' "[5]"] show ?thesis by simp
qed

text \<open>The ListIdentity reply is 40 bytes and the product name, its length field is the one of the item,
  and a scanner's \<open>DeserializeListIdendityResponse\<close> finds in it the identity of the device, its
  address and the reserved port.\<close>

theorem list_identity_round_trip:
  assumes "wf_writer reply" and "length (dev_product_name dev) < 256"
    and "handleReceivedListIdentityCommandImmediate dev reply = Inr (n, mem)"
  shows "n = 40 + int (length (dev_product_name dev)) \<and>
    DeserializeListIdendityResponse (reply_message reply n mem) =
    Inr (\<lparr>li_protocol_ver = kSupportedProtocolVersion,
          li_sockaddr = SetAddr (bswap32 (dev_ip_address dev)) (SockAddr 0xAF12 0),
          li_vendor_id = id_vendor_id dev, li_device_type = id_device_type dev,
          li_product_code = id_product_code dev, li_major = id_major dev, li_minor = id_minor dev,
          li_status = dev_status dev, li_serial_num = dev_serial_number dev,
          li_product_name = dev_product_name dev, li_state = 0xff\<rparr>, [])"
proof -
  obtain w where w: "append_bytes reply (list_identity_wire dev) = Inr w" "n = int (w_count reply w)" "mem = w_mem w"
    using assms(1,3) by (auto simp: handleReceivedListIdentityCommandImmediate_def
        serializeListIdentityResponse_wire bindE_eq_Inr)
  then have "reply_message reply n mem = list_identity_wire dev"
    using append_written [OF w(1) assms(1)] append_count [OF w(1)] append_pos [OF w(1)]
    by (simp add: reply_message_def written_def drop_take)
  then show ?thesis
    using w(2) append_count [OF w(1)] length_list_identity [of dev]
      DeserializeListIdendityResponse_wire [OF assms(2), of "[]"] by simp
qed

theorem list_identity_round_trip_witness:
  "\<exists>mem l. handleReceivedListIdentityCommandImmediate example_device (writer_on (replicate 50 0)) = Inr (43, mem) \<and>
     DeserializeListIdendityResponse (reply_message (writer_on (replicate 50 0)) 43 mem) = Inr (l, []) \<and>
     li_product_name l = [0x41, 0x42, 0x43] \<and> Addr (li_sockaddr l) = 0x7F000001"
proof -
  let ?w = "writer_on (replicate 50 0)"
  have w: "wf_writer ?w" "length (dev_product_name example_device) < 256" by code_simp+
  have "case handleReceivedListIdentityCommandImmediate example_device ?w of Inr (n, mem) \<Rightarrow> n = 43 | Inl _ \<Rightarrow> False"
    by code_simp
  then obtain mem where "handleReceivedListIdentityCommandImmediate example_device ?w = Inr (43, mem)"
    by (auto split: sum.splits prod.splits)
  moreover have "bswap32 0x0100007F = 0x7F000001" by code_simp
  ultimately show ?thesis using list_identity_round_trip [OF w, of 43 mem] by (simp add: example_device_def)
qed

text \<open>The random delay never exceeds the MaxResponseDelay of the request, with its default of 2000 ms and
  its minimum of 500 ms.\<close>

theorem delay_within_request:
  assumes "rand \<le> RAND_MAX"
  shows "determineDelayTimeMSecs rand max_msecs \<le> (if max_msecs = 0 then 2000 else max 500 max_msecs)"
  using determineDelayTimeMSecs_bound [OF assms, of max_msecs]
  by (simp add: delay_bound_def max_def split: if_splits)

theorem delay_within_request_witness: "determineDelayTimeMSecs 2147483647 200 \<le> 500"
  using delay_within_request [of 2147483647 200] by simp

text \<open>A ListServices or ListInterfaces request over UDP whose options are not zero, which ought to be
  dropped, is answered with 48 bytes, the last 24 of which are whatever the reply buffer held before.\<close>

theorem udp_options_stale_reply:
  assumes "wf_writer aReply" and "48 \<le> capacity aReply"
    and "DeserializeEncap aCommand = Inr (24, e)" and "24 \<le> length aCommand"
    and "en_command e = kEncapCmdListServices \<or> en_command e = kEncapCmdListInterfaces"
    and "en_status e = 0" and "en_options e \<noteq> 0"
  shows "\<exists>mem. HandleReceivedExplicitUdpData dev rand sock from aCommand aReply unicast ds =
      Inr ((48, mem), ds) \<and>
    take 24 (drop (w_pos aReply + 24) mem) = take 24 (drop (w_pos aReply + 24) (w_mem aReply))"
  using assms by (rule udp_options_reply)

theorem udp_options_stale_reply_witness:
  "\<exists>mem. HandleReceivedExplicitUdpData example_device 0 7 (SockAddr 1000 5) services_request
     (writer_on (replicate 60 0xAA)) True [] = Inr ((48, mem), []) \<and> take 24 (drop 24 mem) = replicate 24 0xAA"
proof -
  let ?w = "writer_on (replicate 60 0xAA)" and ?e = "request_header services_request"
  have a: "wf_writer ?w" "48 \<le> capacity ?w" "DeserializeEncap services_request = Inr (24, ?e)"
    "24 \<le> length services_request" "en_command ?e = kEncapCmdListServices \<or> en_command ?e = kEncapCmdListInterfaces"
    "en_status ?e = 0" "en_options ?e \<noteq> 0" by code_simp+
  have "take 24 (drop 24 (w_mem ?w)) = replicate 24 0xAA" by code_simp
  with udp_options_stale_reply [OF a] show ?thesis by (simp add: writer_on_def)
qed

text \<open>A registered session stays good through everything other clients do: as long as nobody closes
  this socket or this handle and no aging runs, its handle and its socket are accepted in the same slot after any
  sequence of calls.\<close>

theorem registered_session_survives:
  assumes "session_reachable m" and "sock \<noteq> kSocketInvalid" and "list_all (leaves_alone h sock) ops"
    and "CheckRegisteredSession h sock m = Some i" and "session_run ops m = Some m'"
  shows "CheckRegisteredSession h sock m' = Some i"
  using session_survives [OF session_reachable_wf [OF assms(1)] assms(2-5)] .

theorem registered_session_survives_witness:
  "\<exists>m'. session_run [Accept None 5 9, Register 9, Unregister 2 9, Close_handle 3]
     (snd (RegisterSession 7 example_sessions)) = Some m' \<and> CheckRegisteredSession 2 7 m' = Some 1"
proof -
  let ?m = "snd (RegisterSession 7 example_sessions)"
  let ?ops = "[Accept None 5 9, Register 9, Unregister 2 9, Close_handle 3]"
  have "session_reachable (session_exec (Register 7) example_sessions)"
    by (rule session_reachable.step [OF example_sessions_reachable]) simp
  then have r: "session_reachable ?m" by simp
  have c: "list_all (leaves_alone 2 7) ?ops" "CheckRegisteredSession 2 7 ?m = Some 1" by code_simp+
  have "session_run ?ops ?m \<noteq> None" by code_simp
  then obtain m' where "session_run ?ops ?m = Some m'" by blast
  with registered_session_survives [OF r _ c this] show ?thesis by simp
qed

text \<open>The round robin search is complete: a new TCP connection is refused for want of memory exactly
  when all 20 slots hold a socket, wherever the search starts.\<close>

theorem tcp_refused_iff_full:
  assumes "session_reachable m"
  shows "fst (fst (RegisterTcpConnection getpeername now sock m)) = kEncapErrorInsufficientMemory \<longleftrightarrow>
         (\<forall>i < SESSIONS. m_socket (sessions m ! i) \<noteq> kSocketInvalid)"
  by (rule register_tcp_full [OF session_reachable_wf [OF assms]])

theorem tcp_refused_iff_full_witness:
  "fst (fst (RegisterTcpConnection (\<lambda>_. None) 5 9 example_sessions)) \<noteq> kEncapErrorInsufficientMemory"
proof -
  have "m_socket (sessions example_sessions ! 0) = kSocketInvalid" by code_simp
  then show ?thesis using tcp_refused_iff_full [OF example_sessions_reachable] by fastforce
qed

text \<open>The handle \<open>RegisterSession\<close> returns is the one \<open>CheckRegisteredSession\<close>
  accepts from that socket, and after the session is unregistered no handle is accepted from the socket.\<close>

theorem register_unregister:
  assumes "session_reachable m" and "sock \<noteq> kSocketInvalid" and "RegisterSession sock m = ((e, Some h), m')"
  shows "(\<exists>i. CheckRegisteredSession h sock m' = Some i \<and> m_socket (sessions m' ! i) = sock) \<and>
    CheckRegisteredSession h' sock (snd (UnregisterSession h sock m')) = None"
proof -
  note wf = session_reachable_wf [OF assms(1)]
  obtain i where i: "CheckRegisteredSession h sock m' = Some i" "m_socket (sessions m' ! i) = sock"
    using check_after_register [OF wf assms(2,3)] by blast
  have slot: "slot_of h = i" "i < SESSIONS"
    using check_registered_owner [OF i(1)] slot_of_handle by simp_all
  have "wf_sessions m'" using RegisterSession_wf [OF wf assms(2)] assms(3) by simp
  from check_after_close [OF this assms(2), of h h'] i slot show ?thesis by simp
qed

theorem register_unregister_witness:
  "CheckRegisteredSession 2 7 (snd (UnregisterSession 2 7 (snd (RegisterSession 7 example_sessions)))) = None"
proof -
  have "fst (RegisterSession 7 example_sessions) = (kEncapErrorSuccess, Some 2)" by code_simp
  then have "RegisterSession 7 example_sessions =
      ((kEncapErrorSuccess, Some 2), snd (RegisterSession 7 example_sessions))" by (simp add: prod_eq_iff)
  from register_unregister [OF example_sessions_reachable _ this] show ?thesis by simp
qed

text \<open>Within timeouts of 2147 seconds aging closes exactly the slots that have been idle for the
  timeout, and leaves all others as they are.\<close>

theorem aging_exact:
  assumes "session_reachable m" and "i < SESSIONS" and "secs \<le> 2147"
  shows "sessions (AgeInactivity now secs m) ! i =
    (if m_socket (sessions m ! i) \<noteq> kSocketInvalid \<and>
        unat secs * 1000000 \<le> unat (now - m_last_activity_usecs (sessions m ! i))
     then Session_Clear (sessions m ! i) else sessions m ! i)"
  using AgeInactivity_sessions [OF session_reachable_wf [OF assms(1)] assms(2)] timeout_usecs_small [OF assms(3)]
  by (simp add: too_old_def word_le_nat_alt)

theorem aging_exact_witness:
  "m_socket (sessions (AgeInactivity 120000099 120 example_sessions) ! 1) = 7 \<and>
   m_socket (sessions (AgeInactivity 120000100 120 example_sessions) ! 1) = kSocketInvalid"
proof -
  have s: "m_socket (sessions example_sessions ! 1) = 7" "m_last_activity_usecs (sessions example_sessions ! 1) = 100"
    by code_simp+
  have u: "unat (119999999 :: u64) = 119999999" "unat (120000000 :: u64) = 120000000" "unat (120 :: u16) = 120"
    by (simp_all add: unat_numeral)
  show ?thesis
    using aging_exact [OF example_sessions_reachable, of 1 120 120000099]
      aging_exact [OF example_sessions_reachable, of 1 120 120000100] s u
    by simp
qed

text \<open>With a timeout of 4295 seconds the product of \<open>int\<close>s overflows: a session that has
  been idle for 32704 microseconds is closed.\<close>

theorem aging_overflow:
  assumes "session_reachable m" and "i < SESSIONS" and "m_socket (sessions m ! i) \<noteq> kSocketInvalid"
    and "32704 \<le> now - m_last_activity_usecs (sessions m ! i)"
  shows "m_socket (sessions (AgeInactivity now 4295 m) ! i) = kSocketInvalid"
  using AgeInactivity_sessions [OF session_reachable_wf [OF assms(1)] assms(2), of now 4295] assms(3,4)
  by (simp add: too_old_def timeout_usecs_4295)

theorem aging_overflow_witness:
  "m_socket (sessions (AgeInactivity 32804 4295 example_sessions) ! 1) = kSocketInvalid"
proof -
  have "m_socket (sessions example_sessions ! 1) \<noteq> kSocketInvalid"
    "32704 \<le> 32804 - m_last_activity_usecs (sessions example_sessions ! 1)" by code_simp+
  from aging_overflow [OF example_sessions_reachable _ this] show ?thesis by simp
qed

text \<open>\<open>Cpf::SerializedCount\<close> is the number of bytes \<open>Serialize\<close> writes when there is a
  payload; for a data item without one it says four more.\<close>

theorem cpf_count_without_payload:
  assumes "wf_writer w" and "Cpf_Serialize w c = Inr w'"
    and "payload c \<noteq> None \<or> di_type_id (data_item c) \<in> {kCpfIdUnconnectedDataItem, kCpfIdConnectedDataItem}"
  shows "Cpf_SerializedCount c = w_count w w' + (if payload c = None then 4 else 0)"
proof -
  have "append_bytes w (cpf_wire c) = Inr w'" using assms(1,2) by (simp add: Cpf_Serialize_wire)
  from append_count [OF this] show ?thesis
    using assms(3) length_cpf_wire_payload length_cpf_wire_no_payload by auto
qed

theorem cpf_count_without_payload_witness:
  "\<exists>w'. Cpf_Serialize (writer_on (replicate 60 0)) (example_cpf\<lparr>payload := None\<rparr>) = Inr w' \<and>
     Cpf_SerializedCount (example_cpf\<lparr>payload := None\<rparr>) = w_count (writer_on (replicate 60 0)) w' + 4"
proof -
  let ?w = "writer_on (replicate 60 0)" and ?c = "example_cpf\<lparr>payload := None\<rparr>"
  have a: "wf_writer ?w" "payload ?c = None" "di_type_id (data_item ?c) = kCpfIdConnectedDataItem" by code_simp+
  have "case Cpf_Serialize ?w ?c of Inr _ \<Rightarrow> True | Inl _ \<Rightarrow> False" by code_simp
  then obtain w' where w: "Cpf_Serialize ?w ?c = Inr w'" by (auto split: sum.splits)
  from cpf_count_without_payload [OF a(1) w] a(2,3) w show ?thesis by simp
qed

text \<open>A logical path parsed behind another one is uncompressed: a field on the wire is taken from the
  wire, a field above the last one on the wire is inherited from the previous path, and all others are absent; behind
  an assembly path a connection point does not inherit the instance.\<close>

theorem app_path_inheritance:
  assumes "length (ap_stuff p0) = 7" and "\<not> ap_has TAG p" and "emitted ctl p \<noteq> []"
    and "small_fields (emitted ctl p)" and "ends_path rest" and "k < LOGICAL_END"
    and "wf_writer w" and "AppPath_Serialize ctl w p = Inr w'"
  shows "\<exists>p'. DeserializeAppPath ctl (Some prev) p0 (written w w' @ rest) = Inr (p', rest) \<and>
    ap_view p' k =
      (case map_of (emitted ctl p) k of
         Some v \<Rightarrow> Some v
       | None \<Rightarrow>
           if last_field LOGICAL_END (emitted ctl p) < k \<and>
              \<not> (ap_get CLASS prev = kCipAssemblyClass \<and>
                 last_field LOGICAL_END (emitted ctl p) = CONN_PT \<and> k = INSTANCE)
           then ap_view prev k else None)"
proof -
  have "written w w' = app_path_wire ctl p"
    using append_written [OF _ assms(7)] assms(7,8) by (simp add: AppPath_Serialize_wire)
  then show ?thesis using parse_inheriting_path [OF assms(1-6)] by simp
qed

theorem app_path_inheritance_witness:
  "\<exists>p'. DeserializeAppPath 0 (Some example_path) example_path [44, 9] = Inr (p', []) \<and>
     ap_view p' CLASS = Some 4"
proof -
  let ?p = "ap_set CONN_PT 9 (new_app_path (replicate 7 0))"
  let ?w = "writer_on [0, 0]" and ?w' = "\<lparr>w_mem = [44, 9], w_pos = 2, w_lim = 2\<rparr>"
  have a: "length (ap_stuff example_path) = 7" "\<not> ap_has TAG ?p" "emitted 0 ?p \<noteq> []"
    "small_fields (emitted 0 ?p)" "ends_path []" "CLASS < LOGICAL_END" "wf_writer ?w"
    "AppPath_Serialize 0 ?w ?p = Inr ?w'" "written ?w ?w' = [44, 9]"
    "map_of (emitted 0 ?p) CLASS = None" "last_field LOGICAL_END (emitted 0 ?p) = CONN_PT"
    "ap_view example_path CLASS = Some 4" "CONN_PT < CLASS" "CLASS \<noteq> INSTANCE" by code_simp+
  from app_path_inheritance [OF a(1-8), of example_path] a(9-) show ?thesis by auto
qed

text \<open>The parser of the 32 bit format of a logical segment is one byte off the serializer: of the four
  bytes written it drops the low one and takes the byte that follows the segment for the high one; at the end of the
  input it fails.\<close>

theorem logical_32bit_misread:
  assumes "65536 \<le> v" and "k < 4"
  shows "\<exists>h body. logical_wire ctl (seg_of k) v = h # body \<and> h AND 3 = 2 \<and>
    deserialize_logical ctl k 2 p (body @ b # rest) =
      Inr (ap_set k (join32 (byte_of 8 v) (byte_of 16 v) (byte_of 24 v) b) p, rest) \<and>
    deserialize_logical ctl k 2 p body = Inl Range_error"
  using assms by (rule deserialize_logical_32bit)

theorem logical_32bit_misread_witness:
  "deserialize_logical 0 CLASS 2 example_path [0, 0x44, 0x33, 0x22, 0x11] = Inl Range_error"
proof -
  have w: "logical_wire 0 (seg_of CLASS) 0x11223344 = [0x22, 0, 0x44, 0x33, 0x22, 0x11]" "CLASS < 4" by code_simp+
  from logical_32bit_misread [OF _ w(2), where v = "0x11223344" and ctl = 0 and p = example_path] w(1) show ?thesis by simp
qed

text \<open>A port segment group, an electronic key, a production inhibit time in milliseconds or microseconds
  and a port segment in any combination, is read back as a group no accessor can tell from the one written.\<close>

theorem port_group_round_trip:
  assumes "ok_group g" and "ends_group rest" and "wf_writer w" and "PortGroup_Serialize ctl w g = Inr w'"
  shows "\<exists>g'. DeserializePortSegmentGroup ctl g0 (written w w' @ rest) = Inr (Go g' rest) \<and> same_group g' g"
proof -
  have "written w w' = group_wire ctl g"
    using append_written [OF _ assms(3)] assms(1,3,4) by (simp add: PortGroup_Serialize_wire)
  then show ?thesis using DeserializePortSegmentGroup_wire [OF assms(1,2)] group_parsed_same [OF assms(1)] by simp
qed

theorem port_group_round_trip_witness:
  "\<exists>w' g'. PortGroup_Serialize 0 (writer_on (replicate 30 0)) example_group = Inr w' \<and>
     DeserializePortSegmentGroup 0 example_group (written (writer_on (replicate 30 0)) w' @ [0x20]) =
       Inr (Go g' [0x20]) \<and> pg_key g' = example_key \<and> GetPIT_USecs g' = 70000"
proof -
  let ?w = "writer_on (replicate 30 0)"
  have a: "ok_group example_group" "ends_group [0x20]" "wf_writer ?w" "pg_has KEY example_group"
    "pg_key example_group = example_key" "GetPIT_USecs example_group = 70000" by code_simp+
  have "case PortGroup_Serialize 0 ?w example_group of Inr _ \<Rightarrow> True | Inl _ \<Rightarrow> False" by code_simp
  then obtain w' where w: "PortGroup_Serialize 0 ?w example_group = Inr w'" by (auto split: sum.splits)
  from port_group_round_trip [OF a(1-3) w, of example_group] a(4-6) w show ?thesis by (auto simp: same_group_def)
qed

text \<open>A port segment for port 15 is written with the number that announces a 16 bit port: it cannot be
  read back.\<close>

theorem port_15_unreadable:
  "DeserializePortSegment ctl (port_wire ctl \<lparr>ps_port = 15, link_address = [a]\<rparr>) = Inl Range_error \<and>
   (\<forall>w. wf_writer w \<longrightarrow> Port_Serialize ctl w \<lparr>ps_port = 15, link_address = [a]\<rparr> =
      append_bytes w (port_wire ctl \<lparr>ps_port = 15, link_address = [a]\<rparr>))"
  by (simp add: port_15_not_parsed Port_Serialize_wire)

theorem port_15_unreadable_witness:
  "DeserializePortSegment 0 (port_wire 0 \<lparr>ps_port = 15, link_address = [9]\<rparr>) = Inl Range_error"
  using port_15_unreadable [of 0 9] by simp

text \<open>On a list of ids in ascending order the binary search \<open>vec_search\<close> finds the index of
  every id that is there and reports the end for every other, and \<open>vec_search_gte\<close> finds the first id that is
  not less.\<close>

theorem binary_searches:
  assumes "sorted_ids ks"
  shows "(vec_search ks t < length ks \<and> ks ! vec_search ks t = t \<longleftrightarrow> t \<in> set ks) \<and>
    (t \<notin> set ks \<longrightarrow> vec_search ks t = length ks) \<and>
    vec_search_gte ks t = length (takeWhile (\<lambda>x. x < t) ks)"
proof -
  have "vec_search ks t < length ks \<and> ks ! vec_search ks t = t" if "t \<in> set ks"
    using that vec_search_found [OF assms] by (auto simp: in_set_conv_nth)
  moreover have "vec_search ks t < length ks \<Longrightarrow> ks ! vec_search ks t = t \<Longrightarrow> t \<in> set ks"
    by (metis nth_mem)
  ultimately show ?thesis
    using vec_search_absent [OF assms, of t] vec_search_gte_correct [OF assms, of t] by blast
qed

theorem binary_searches_witness:
  "vec_search [1, 4, 6, 9] 5 = 4 \<and> vec_search_gte [1, 4, 6, 9] 5 = 2 \<and> vec_search [1, 4, 6, 9] 6 < 4"
proof -
  have s: "sorted_ids [1, 4, 6, 9]" by code_simp
  show ?thesis using binary_searches [OF s, of 5] binary_searches [OF s, of 6] by simp
qed

text \<open>For the integer, bit string and string types \<open>DecodeData\<close> inverts
  \<open>EncodeData\<close> and reports the number of bytes; a STRING needs an even length and a SHORT_STRING an odd one,
  because the decoder skips a pad byte the encoder does not write.\<close>

theorem data_round_trip:
  assumes "decodable ty v" and "wf_writer w" and "EncodeData ty v w = Inr w'"
  shows "DecodeData ty old (written w w' @ rest) = Inr (int (w_count w w'), v, rest)"
proof -
  have a: "append_bytes w (value_wire ty v) = Inr w'" using assms by (simp add: EncodeData_wire)
  then show ?thesis
    using DecodeData_wire [OF assms(1)] append_written [OF a assms(2)] append_count [OF a] by simp
qed

theorem data_round_trip_witness:
  "DecodeData kCipShortString (VString []) ([3, 0x41, 0x42, 0x43] @ [9]) = Inr (4, VString [0x41, 0x42, 0x43], [9])"
proof -
  let ?v = "VString [0x41, 0x42, 0x43]" and ?w = "writer_on (replicate 6 0)"
  let ?w' = "\<lparr>w_mem = [3, 0x41, 0x42, 0x43, 0, 0], w_pos = 4, w_lim = 6\<rparr>"
  have a: "decodable kCipShortString ?v" "wf_writer ?w" "EncodeData kCipShortString ?v ?w = Inr ?w'"
    "written ?w ?w' = [3, 0x41, 0x42, 0x43]" "w_count ?w ?w' = 4" by code_simp+
  from data_round_trip [OF a(1-3), of "VString []" "[9]"] a(4,5) show ?thesis by simp
qed

text \<open>Decoding into a byte array never writes beyond its capacity and keeps its length within it: data
  that fits replaces the front of the array, data that does not is refused and nothing changes.\<close>

theorem byte_array_decode_safe:
  assumes "wf_byte_array a"
  shows "\<exists>n a' r'. decode_array a r = Inr (n, VArray a', r') \<and> wf_byte_array a' \<and>
    length (ba_mem a') = length (ba_mem a) \<and>
    drop (unat (ba_cap a)) (ba_mem a') = drop (unat (ba_cap a)) (ba_mem a) \<and>
    (if length r \<le> unat (ba_cap a) then n = int (length r) \<and> ba_Reader a' = r
     else n = -1 \<and> a' = a \<and> r' = r)"
proof (cases "length r \<le> unat (ba_cap a)")
  case True
  note d = decode_array_fits [OF assms True]
  have "length r < 65536" using True unat_u16_less [of "ba_cap a"] by linarith
  then have "unat (of_nat (length r) :: u16) = length r" by (simp add: unat_of_nat)
  then show ?thesis using decode_array_wf [OF assms d] d True by (simp add: ba_Reader_def)
next
  case False
  then show ?thesis using assms decode_array_too_long [of a r] by simp
qed

theorem byte_array_decode_safe_witness:
  "fst (case decode_array (CipByteArray [1, 2, 3, 4] 3 2) [5, 6, 7, 8] of Inr x \<Rightarrow> x | Inl _ \<Rightarrow> (0, V8 0, [])) = -1"
proof -
  have a: "wf_byte_array (CipByteArray [1, 2, 3, 4] 3 2)" "\<not> length [5, 6, 7, 8 :: byte] \<le> unat (ba_cap (CipByteArray [1, 2, 3, 4] 3 2))"
    by code_simp+
  from byte_array_decode_safe [OF a(1), of "[5, 6, 7, 8]"] a(2) show ?thesis by auto
qed

text \<open>Every write stays in its window: a writer that has written \<open>bs\<close> is the old one moved by
  their length, the bytes are where it stood, the rest of the memory is as it was, and when the window is too small
  nothing is written and the overflow is thrown.\<close>

theorem writer_window:
  assumes "wf_writer w"
  shows "case append_bytes w bs of
      Inl e \<Rightarrow> e = Overflow_error \<and> capacity w < int (length bs)
    | Inr w' \<Rightarrow> wf_writer w' \<and> w_pos w' = w_pos w + length bs \<and> w_lim w' = w_lim w \<and>
        written w w' = bs \<and> length (w_mem w') = length (w_mem w) \<and>
        (\<forall>i < length (w_mem w). i < w_pos w \<or> w_pos w' \<le> i \<longrightarrow> w_mem w' ! i = w_mem w ! i)"
proof (cases "append_bytes w bs")
  case (Inl e)
  then show ?thesis by (auto simp: append_bytes_def capacity_def split: if_splits)
next
  case (Inr w')
  then show ?thesis
    using append_wf [OF Inr assms] append_pos [OF Inr] append_lim [OF Inr] append_written [OF Inr assms]
      append_length [OF Inr] append_frame [OF Inr assms] by simp
qed

theorem writer_window_witness: "append_bytes (writer_on [1, 2]) [3, 4, 5] = Inl Overflow_error"
proof -
  have w: "wf_writer (writer_on [1, 2])" by code_simp
  have "case append_bytes (writer_on [1, 2]) [3, 4, 5] of Inl _ \<Rightarrow> True | Inr _ \<Rightarrow> False" by code_simp
  then show ?thesis using writer_window [OF w, of "[3, 4, 5]"] by (auto split: sum.splits)
qed

text \<open>A SHORT_STRING of 256 characters or more is written whole behind a length byte that is its length
  modulo 256: the reader gets a shorter string, and the other characters are left in its way.\<close>

theorem long_short_string:
  assumes "wf_writer w" and "put_SHORT_STRING False w s = Inr w'"
  shows "get_SHORT_STRING False (written w w' @ rest) =
    Inr (take (length s mod 256) s, drop (length s mod 256) s @ rest)"
proof -
  have "written w w' = short_string_wire False s"
    using append_written [OF _ assms(1)] assms(2) by (simp add: put_SHORT_STRING_wire)
  then show ?thesis using get_SHORT_STRING_long by simp
qed

theorem long_short_string_witness:
  "\<exists>w'. put_SHORT_STRING False (writer_on (replicate 300 0)) (replicate 257 0x41) = Inr w' \<and>
     get_SHORT_STRING False (written (writer_on (replicate 300 0)) w') = Inr ([0x41], replicate 256 0x41)"
proof -
  let ?w = "writer_on (replicate 300 0)"
  have w: "wf_writer ?w" by (simp add: wf_writer_def writer_on_def)
  have "w_pos ?w + length (short_string_wire False (replicate 257 0x41)) \<le> w_lim ?w"
    by (simp add: writer_on_def short_string_wire_def)
  then obtain w' where "put_SHORT_STRING False ?w (replicate 257 0x41) = Inr w'"
    by (simp add: put_SHORT_STRING_wire append_bytes_def)
  moreover from long_short_string [OF w this, of "[]"]
  have "get_SHORT_STRING False (written ?w w') = Inr ([0x41], replicate 256 0x41)" by simp
  ultimately show ?thesis by blast
qed

text \<open>The constructor of a class never gives its instances the service GetAttributeAll: it decides by a
  mask of instance attributes that is still empty then, whatever attributes are inserted later.\<close>

theorem no_automatic_get_all:
  "Service CI_I (uint kGetAttributeAll) (CipClass r z cid name m v) = None"
  by (rule no_instance_get_all)

text \<open>The table of services of a class after any sequence of insertions answers a lookup with the last
  service inserted under the id, and with what was there before when there was none.\<close>

theorem services_last_insertion:
  assumes "wf_class c"
  shows "Service ci i (fold (ServiceInsert ci) ss c) =
    (case find (\<lambda>s. service_id s = i) (rev ss) of Some s \<Rightarrow> Some s | None \<Rightarrow> Service ci i c)"
  using assms by (rule class_services.history)

theorem services_last_insertion_witness:
  "map_option service_function (Service CI_I 14 (fold (ServiceInsert CI_I)
     [\<lparr>service_name = ''A'', service_id = 14, service_function = Reset\<rparr>,
      \<lparr>service_name = ''B'', service_id = 14, service_function = User_service 3\<rparr>] example_class)) =
   Some (User_service 3)"
  by (subst services_last_insertion [OF example_wf]) simp

text \<open>A request that \<open>CipMessageRouterRequest::Serialize\<close> writes is read back by
  \<open>DeserializeMRReq\<close> with its service, a path no accessor can tell from it and its data, and a
  response written by \<open>Serialize\<close> is read back by \<open>DeserializeMRRes\<close> with its service,
  statuses and data.\<close>

theorem router_messages_round_trip:
  assumes "canonical_path (mr_path q)" and "length (ap_stuff p0) = 7"
    and "wf_response r" and "reply_service r < 0x80" and "length (additional_status r0) = 2"
    and "wf_writer w" and "Request_Serialize 0 w q = Inr w1" and "Response_Serialize w r = Inr w2"
  shows "(\<exists>n q'. DeserializeMRReq p0 (written w w1) = Inr (n, Some q') \<and> mr_service q' = mr_service q \<and>
      same_path (mr_path q') (mr_path q) \<and> mr_data q' = mr_data q) \<and>
    (\<exists>n r'. DeserializeMRRes r0 (written w w2) = Inr (n, r') \<and> reply_service r' = reply_service r \<and>
      general_status r' = general_status r \<and> ExtStatus r' = ExtStatus r \<and> Reader r' = Reader r)"
proof -
  have "written w w1 = request_wire 0 q"
    using append_written assms(6,7) by (simp add: Request_Serialize_wire)
  moreover have "written w w2 = response_wire r"
    using append_written assms(3,6,8) by (simp add: Response_Serialize_wire)
  ultimately show ?thesis
    using DeserializeMRReq_wire [OF assms(1,2)] DeserializeMRRes_wire [OF assms(3-5)] by auto
qed

theorem router_messages_round_trip_witness:
  "\<exists>n q'. DeserializeMRReq (CipAppPath (replicate 7 0) 1 1 0)
      ([16, 3, 0x20, 100, 0x24, 1, 0x30, 1] @ [5, 0]) = Inr (n, Some q') \<and> mr_service q' = 16 \<and> mr_data q' = [5, 0]"
proof -
  let ?q = "example_request 16 [5, 0]" and ?p0 = "CipAppPath (replicate 7 0) 1 1 0"
  let ?r = "example_response\<lparr>reply_service := 16\<rparr>" and ?w = "writer_on (replicate 10 0)"
  let ?w1 = "\<lparr>w_mem = [16, 3, 0x20, 100, 0x24, 1, 0x30, 1, 5, 0], w_pos = 10, w_lim = 10\<rparr>"
  let ?w2 = "\<lparr>w_mem = [0x90, 0, 0, 0, 0, 0, 0, 0, 0, 0], w_pos = 4, w_lim = 10\<rparr>"
  have a: "canonical_path (mr_path ?q)" "length (ap_stuff ?p0) = 7" "wf_response ?r" "reply_service ?r < 0x80"
    "length (additional_status example_response) = 2" "wf_writer ?w" "Request_Serialize 0 ?w ?q = Inr ?w1"
    "Response_Serialize ?w ?r = Inr ?w2" by code_simp+
  have "written ?w ?w1 = [16, 3, 0x20, 100, 0x24, 1, 0x30, 1] @ [5, 0]" by code_simp
  moreover have "mr_service ?q = 16" "mr_data ?q = [5, 0]" by code_simp+
  ultimately show ?thesis using router_messages_round_trip [OF a] by metis
qed

text \<open>For the transport classes 2 and 3 the check of the classes is missing: a class 2 request names an
  instance of any class as its consumer, and a class 3 request one as its producer, where the code that follows
  casts to an assembly; and the class object itself, instance 0, passes as an assembly in class 1.\<close>

theorem not_an_assembly:
  "(let r = resolve_example 2 [CipAppPath (replicate 7 0) 100 1 0]
    in fst r = kCipErrorSuccess \<and> consuming_instance (snd (snd r)) = Some (100, 1)) \<and>
   (let r = resolve_example 1 [assembly_path 0]
    in fst r = kCipErrorSuccess \<and> consuming_instance (snd (snd r)) = Some (4, 0))"
  by (intro conjI; code_simp)

text \<open>\<open>SetOriginatorTimeoutMSecs\<close> never shortens a timeout it can represent: the timeout in effect
  is the requested one rounded up by less than one tick, and the tick is the shortest one that reaches it. The
  timeout multiplier in effect is the power of two at or below the one asked for.\<close>

theorem timeouts_representable:
  assumes "unat ms \<le> 2 ^ 15 * 255" and "4 \<le> unat m"
  shows "(let d' = SetOriginatorTimeoutMSecs ms d
     in unat ms \<le> unat (OriginatorTimeoutMSecs d') \<and>
        unat (OriginatorTimeoutMSecs d') < unat ms + 2 ^ unat (TickTime d') \<and>
        (\<forall>j < unat (TickTime d'). 2 ^ j * 255 < unat ms)) \<and>
     unat (TimeoutMultiplier (SetTimeoutMultiplier m d)) \<le> unat m \<and>
      unat m < 2 * unat (TimeoutMultiplier (SetTimeoutMultiplier m d))"
  using originator_timeout [OF assms(1)] multiplier_rounds_down [OF assms(2)] by (auto simp: Let_def)

theorem timeouts_representable_witness:
  "unat (OriginatorTimeoutMSecs (SetOriginatorTimeoutMSecs 1001 (ConnectionData example_conf []))) \<in> {1001..<1005}"
proof -
  have "unat (TickTime (SetOriginatorTimeoutMSecs 1001 (ConnectionData example_conf []))) = 2" by code_simp
  moreover have "unat (1001 :: u32) = 1001" "unat (16 :: u32) = 16" by code_simp+
  ultimately show ?thesis
    using timeouts_representable [of 1001 16 "ConnectionData example_conf []"] by (simp add: Let_def)
qed

end
